(* ===== verification/Prelude.thy ===== *)
theory Prelude
  imports Complex_Main "HOL-Library.Char_ord" "HOL-Library.List_Lexorder" "HOL-Library.AList"
begin

text \<open>
  Shared vocabulary of the development: what the Python code relies on of its language and
  standard library, as executable definitions, and the lemmas and collections the component
  theories share.

  \<^item> Exceptions are values: every operation that can raise returns \<open>exn + 'a\<close>, the left
    summand carrying the exception class and its message. \<open>bindE\<close> sequences such operations
    the way an uncaught exception leaves a block.
  \<^item> Python strings are character lists; one \<open>char\<close> stands for one code point of the
    Windows-1252 repertoire (so the pound and euro signs are one character each).
  \<^item> JSONB values are the datatype \<open>json\<close>; a Python \<open>dict\<close> with string keys is an
    association list in insertion order.
  \<^item> Instants are integers counting microseconds, the resolution of \<open>datetime\<close>.
\<close>

section \<open>Proof collections\<close>

named_theorems row_simps \<open>how table operations act on rows\<close>
named_theorems frame_simps \<open>fields and tables an operation leaves alone\<close>
named_theorems result_splits \<open>case splits for results of fallible operations\<close>

section \<open>Exceptions as values\<close>

datatype exn =
    ValueError string
  | LookupError string
  | TypeError
  | KeyError
  | AttributeError
  | OverflowError
  | HTTPError string
  | RuntimeError string
  | IntegrityError
  | DataError

type_synonym 'a result = "exn + 'a"

definition bindE :: "'a result \<Rightarrow> ('a \<Rightarrow> 'b result) \<Rightarrow> 'b result" where
  "bindE m f = (case m of Inl e \<Rightarrow> Inl e | Inr x \<Rightarrow> f x)"

definition guardE :: "bool \<Rightarrow> exn \<Rightarrow> unit result" where
  "guardE b e = (if b then Inr () else Inl e)"

fun mapE :: "('a \<Rightarrow> 'b result) \<Rightarrow> 'a list \<Rightarrow> 'b list result" where
  "mapE f [] = Inr []"
| "mapE f (x # xs) = bindE (f x) (\<lambda>y. bindE (mapE f xs) (\<lambda>ys. Inr (y # ys)))"

definition is_ok :: "'a result \<Rightarrow> bool" where
  "is_ok m = (case m of Inl _ \<Rightarrow> False | Inr _ \<Rightarrow> True)"

lemma bindE_Inl [simp]: "bindE (Inl e) f = Inl e"
  by (simp add: bindE_def)

lemma bindE_Inr [simp]: "bindE (Inr x) f = f x"
  by (simp add: bindE_def)

lemma bindE_eq_Inr: "bindE m f = Inr y \<longleftrightarrow> (\<exists>x. m = Inr x \<and> f x = Inr y)"
  by (cases m) auto

lemma bindE_eq_Inl: "bindE m f = Inl e \<longleftrightarrow> m = Inl e \<or> (\<exists>x. m = Inr x \<and> f x = Inl e)"
  by (cases m) auto

lemma guardE_eq_Inr [simp]: "guardE b e = Inr u \<longleftrightarrow> b"
  by (simp add: guardE_def)

lemma guardE_eq_Inl [simp]: "guardE b e = Inl e' \<longleftrightarrow> \<not> b \<and> e' = e"
  by (auto simp: guardE_def)

lemma is_ok_iff: "is_ok m \<longleftrightarrow> (\<exists>x. m = Inr x)"
  by (cases m) (auto simp: is_ok_def)

lemma mapE_Inr: "(\<And>x. x \<in> set xs \<Longrightarrow> f x = Inr (g x)) \<Longrightarrow> mapE f xs = Inr (map g xs)"
  by (induction xs) auto

lemma mapE_eq_Inr_set:
  "mapE f xs = Inr ys \<Longrightarrow> y \<in> set ys \<longleftrightarrow> (\<exists>x \<in> set xs. f x = Inr y)"
  by (induction xs arbitrary: ys) (auto simp: bindE_eq_Inr)

lemma mapE_eq_Inr_ball: "mapE f xs = Inr ys \<Longrightarrow> x \<in> set xs \<Longrightarrow> \<exists>y \<in> set ys. f x = Inr y"
  by (induction xs arbitrary: ys) (auto simp: bindE_eq_Inr)

lemma mapE_length: "mapE f xs = Inr ys \<Longrightarrow> length ys = length xs"
  by (induction xs arbitrary: ys) (auto simp: bindE_eq_Inr)

section \<open>Sorted collections: Python's sorted(set)\<close>

definition or_empty :: "string option \<Rightarrow> string" where
  "or_empty x = (case x of None \<Rightarrow> [] | Some s \<Rightarrow> s)"

definition sorted_set :: "'a::linorder list \<Rightarrow> 'a list" where
  "sorted_set xs = sort (remdups xs)"

lemma set_sorted_set [simp]: "set (sorted_set xs) = set xs"
  by (simp add: sorted_set_def)

lemma sorted_sorted_set [simp]: "sorted (sorted_set xs)"
  by (simp add: sorted_set_def)

lemma distinct_sorted_set [simp]: "distinct (sorted_set xs)"
  by (simp add: sorted_set_def)

lemma sorted_set_eq_Nil [simp]: "sorted_set xs = [] \<longleftrightarrow> xs = []"
  by (simp add: sorted_set_def flip: set_empty)

lemma sorted_set_cong: "set xs = set ys \<Longrightarrow> sorted_set xs = sorted_set ys"
  by (metis sorted_distinct_set_unique sorted_sorted_set distinct_sorted_set set_sorted_set)

lemma sorted_set_id: "sorted xs \<Longrightarrow> distinct xs \<Longrightarrow> sorted_set xs = xs"
  by (metis sorted_distinct_set_unique sorted_sorted_set distinct_sorted_set set_sorted_set)

lemma sorted_set_idem [simp]: "sorted_set (sorted_set xs) = sorted_set xs"
  by (rule sorted_set_id) simp_all

lemmas sorted_set_facts = set_sorted_set sorted_sorted_set distinct_sorted_set sorted_set_eq_Nil

section \<open>Strings\<close>

definition is_space :: "char \<Rightarrow> bool" where
  "is_space c = (let n = (of_char c :: nat) in (9 \<le> n \<and> n \<le> 13) \<or> (28 \<le> n \<and> n \<le> 32) \<or> n = 160)"

definition strip :: "string \<Rightarrow> string" where
  "strip s = rev (dropWhile is_space (rev (dropWhile is_space s)))"

definition lower_char :: "char \<Rightarrow> char" where
  "lower_char c =
     (let n = (of_char c :: nat)
      in if (65 \<le> n \<and> n \<le> 90) \<or> (192 \<le> n \<and> n \<le> 222 \<and> n \<noteq> 215) then char_of (n + 32)
         else if n = 138 \<or> n = 140 \<or> n = 142 then char_of (n + 16)
         else if n = 159 then char_of (255 :: nat) else c)"

definition upper_char :: "char \<Rightarrow> string" where
  "upper_char c =
     (let n = (of_char c :: nat)
      in if (97 \<le> n \<and> n \<le> 122) \<or> (224 \<le> n \<and> n \<le> 254 \<and> n \<noteq> 247) then [char_of (n - 32)]
         else if n = 154 \<or> n = 156 \<or> n = 158 then [char_of (n - 16)]
         else if n = 255 then [char_of (159 :: nat)]
         else if n = 223 then ''SS'' else [c])"

definition lower :: "string \<Rightarrow> string" where
  "lower s = map lower_char s"

definition upper :: "string \<Rightarrow> string" where
  "upper s = concat (map upper_char s)"

fun starts_with :: "string \<Rightarrow> string \<Rightarrow> bool" where
  "starts_with [] s = True"
| "starts_with (p # ps) [] = False"
| "starts_with (p # ps) (c # cs) = (p = c \<and> starts_with ps cs)"

fun contains :: "string \<Rightarrow> string \<Rightarrow> bool" where
  "contains p [] = (p = [])"
| "contains p (c # cs) = (starts_with p (c # cs) \<or> contains p cs)"

fun join_with :: "string \<Rightarrow> string list \<Rightarrow> string" where
  "join_with sep [] = []"
| "join_with sep [s] = s"
| "join_with sep (s # ss) = s @ sep @ join_with sep ss"

lemma starts_with_iff: "starts_with p s \<longleftrightarrow> (\<exists>r. s = p @ r)"
  by (induction p s rule: starts_with.induct) auto

lemma dropWhile_rev_idem:
  "dropWhile P (rev (dropWhile P (rev (dropWhile P s)))) = rev (dropWhile P (rev (dropWhile P s)))"
proof (cases "dropWhile P s")
  case (Cons c cs)
  then have c: "\<not> P c"
    by (metis hd_dropWhile list.distinct(1) list.sel(1))
  then have "dropWhile P (rev cs @ [c]) = dropWhile P (rev cs) @ [c]"
    by (induction "rev cs" arbitrary: cs) (auto simp: dropWhile_append)
  with Cons c show ?thesis by simp
qed (simp del: dropWhile_eq_Nil_conv)

lemma strip_idem [simp]: "strip (strip s) = strip s"
  by (simp add: strip_def dropWhile_rev_idem)

text \<open>
  The character classes on the printable ASCII letters, so that closed strings evaluate by plain
  rewriting.
\<close>

lemma is_space_ascii [simp]:
  "\<not> is_space (CHR ''!'')" "\<not> is_space (CHR 0x22)" "\<not> is_space (CHR ''#'')" "\<not> is_space (CHR ''$'')"
  "\<not> is_space (CHR ''%'')" "\<not> is_space (CHR ''&'')" "\<not> is_space (CHR 0x27)" "\<not> is_space (CHR ''('')"
  "\<not> is_space (CHR '')'')" "\<not> is_space (CHR ''*'')" "\<not> is_space (CHR ''+'')" "\<not> is_space (CHR '','')"
  "\<not> is_space (CHR ''-'')" "\<not> is_space (CHR ''.'')" "\<not> is_space (CHR ''/'')" "\<not> is_space (CHR ''0'')"
  "\<not> is_space (CHR ''1'')" "\<not> is_space (CHR ''2'')" "\<not> is_space (CHR ''3'')" "\<not> is_space (CHR ''4'')"
  "\<not> is_space (CHR ''5'')" "\<not> is_space (CHR ''6'')" "\<not> is_space (CHR ''7'')" "\<not> is_space (CHR ''8'')"
  "\<not> is_space (CHR ''9'')" "\<not> is_space (CHR '':'')" "\<not> is_space (CHR '';'')" "\<not> is_space (CHR ''<'')"
  "\<not> is_space (CHR ''='')" "\<not> is_space (CHR ''>'')" "\<not> is_space (CHR ''?'')" "\<not> is_space (CHR ''@'')"
  "\<not> is_space (CHR ''A'')" "\<not> is_space (CHR ''B'')" "\<not> is_space (CHR ''C'')" "\<not> is_space (CHR ''D'')"
  "\<not> is_space (CHR ''E'')" "\<not> is_space (CHR ''F'')" "\<not> is_space (CHR ''G'')" "\<not> is_space (CHR ''H'')"
  "\<not> is_space (CHR ''I'')" "\<not> is_space (CHR ''J'')" "\<not> is_space (CHR ''K'')" "\<not> is_space (CHR ''L'')"
  "\<not> is_space (CHR ''M'')" "\<not> is_space (CHR ''N'')" "\<not> is_space (CHR ''O'')" "\<not> is_space (CHR ''P'')"
  "\<not> is_space (CHR ''Q'')" "\<not> is_space (CHR ''R'')" "\<not> is_space (CHR ''S'')" "\<not> is_space (CHR ''T'')"
  "\<not> is_space (CHR ''U'')" "\<not> is_space (CHR ''V'')" "\<not> is_space (CHR ''W'')" "\<not> is_space (CHR ''X'')"
  "\<not> is_space (CHR ''Y'')" "\<not> is_space (CHR ''Z'')" "\<not> is_space (CHR ''['')" "\<not> is_space (CHR 0x5C)"
  "\<not> is_space (CHR '']'')" "\<not> is_space (CHR ''^'')" "\<not> is_space (CHR ''_'')" "\<not> is_space (CHR ''a'')"
  "\<not> is_space (CHR ''b'')" "\<not> is_space (CHR ''c'')" "\<not> is_space (CHR ''d'')" "\<not> is_space (CHR ''e'')"
  "\<not> is_space (CHR ''f'')" "\<not> is_space (CHR ''g'')" "\<not> is_space (CHR ''h'')" "\<not> is_space (CHR ''i'')"
  "\<not> is_space (CHR ''j'')" "\<not> is_space (CHR ''k'')" "\<not> is_space (CHR ''l'')" "\<not> is_space (CHR ''m'')"
  "\<not> is_space (CHR ''n'')" "\<not> is_space (CHR ''o'')" "\<not> is_space (CHR ''p'')" "\<not> is_space (CHR ''q'')"
  "\<not> is_space (CHR ''r'')" "\<not> is_space (CHR ''s'')" "\<not> is_space (CHR ''t'')" "\<not> is_space (CHR ''u'')"
  "\<not> is_space (CHR ''v'')" "\<not> is_space (CHR ''w'')" "\<not> is_space (CHR ''x'')" "\<not> is_space (CHR ''y'')"
  "\<not> is_space (CHR ''z'')" "\<not> is_space (CHR ''{'')" "\<not> is_space (CHR ''|'')" "\<not> is_space (CHR ''}'')"
  "\<not> is_space (CHR ''~'')"
  by (simp_all add: is_space_def)

lemma lower_ascii [simp]:
  "lower_char (CHR ''!'') = CHR ''!''" "lower_char (CHR 0x22) = CHR 0x22" "lower_char (CHR ''#'') = CHR ''#''"
  "lower_char (CHR ''$'') = CHR ''$''" "lower_char (CHR ''%'') = CHR ''%''" "lower_char (CHR ''&'') = CHR ''&''"
  "lower_char (CHR 0x27) = CHR 0x27" "lower_char (CHR ''('') = CHR ''(''" "lower_char (CHR '')'') = CHR '')''"
  "lower_char (CHR ''*'') = CHR ''*''" "lower_char (CHR ''+'') = CHR ''+''" "lower_char (CHR '','') = CHR '',''"
  "lower_char (CHR ''-'') = CHR ''-''" "lower_char (CHR ''.'') = CHR ''.''" "lower_char (CHR ''/'') = CHR ''/''"
  "lower_char (CHR ''0'') = CHR ''0''" "lower_char (CHR ''1'') = CHR ''1''" "lower_char (CHR ''2'') = CHR ''2''"
  "lower_char (CHR ''3'') = CHR ''3''" "lower_char (CHR ''4'') = CHR ''4''" "lower_char (CHR ''5'') = CHR ''5''"
  "lower_char (CHR ''6'') = CHR ''6''" "lower_char (CHR ''7'') = CHR ''7''" "lower_char (CHR ''8'') = CHR ''8''"
  "lower_char (CHR ''9'') = CHR ''9''" "lower_char (CHR '':'') = CHR '':''" "lower_char (CHR '';'') = CHR '';''"
  "lower_char (CHR ''<'') = CHR ''<''" "lower_char (CHR ''='') = CHR ''=''" "lower_char (CHR ''>'') = CHR ''>''"
  "lower_char (CHR ''?'') = CHR ''?''" "lower_char (CHR ''@'') = CHR ''@''" "lower_char (CHR ''A'') = CHR ''a''"
  "lower_char (CHR ''B'') = CHR ''b''" "lower_char (CHR ''C'') = CHR ''c''" "lower_char (CHR ''D'') = CHR ''d''"
  "lower_char (CHR ''E'') = CHR ''e''" "lower_char (CHR ''F'') = CHR ''f''" "lower_char (CHR ''G'') = CHR ''g''"
  "lower_char (CHR ''H'') = CHR ''h''" "lower_char (CHR ''I'') = CHR ''i''" "lower_char (CHR ''J'') = CHR ''j''"
  "lower_char (CHR ''K'') = CHR ''k''" "lower_char (CHR ''L'') = CHR ''l''" "lower_char (CHR ''M'') = CHR ''m''"
  "lower_char (CHR ''N'') = CHR ''n''" "lower_char (CHR ''O'') = CHR ''o''" "lower_char (CHR ''P'') = CHR ''p''"
  "lower_char (CHR ''Q'') = CHR ''q''" "lower_char (CHR ''R'') = CHR ''r''" "lower_char (CHR ''S'') = CHR ''s''"
  "lower_char (CHR ''T'') = CHR ''t''" "lower_char (CHR ''U'') = CHR ''u''" "lower_char (CHR ''V'') = CHR ''v''"
  "lower_char (CHR ''W'') = CHR ''w''" "lower_char (CHR ''X'') = CHR ''x''" "lower_char (CHR ''Y'') = CHR ''y''"
  "lower_char (CHR ''Z'') = CHR ''z''" "lower_char (CHR ''['') = CHR ''[''" "lower_char (CHR 0x5C) = CHR 0x5C"
  "lower_char (CHR '']'') = CHR '']''" "lower_char (CHR ''^'') = CHR ''^''" "lower_char (CHR ''_'') = CHR ''_''"
  "lower_char (CHR ''a'') = CHR ''a''" "lower_char (CHR ''b'') = CHR ''b''" "lower_char (CHR ''c'') = CHR ''c''"
  "lower_char (CHR ''d'') = CHR ''d''" "lower_char (CHR ''e'') = CHR ''e''" "lower_char (CHR ''f'') = CHR ''f''"
  "lower_char (CHR ''g'') = CHR ''g''" "lower_char (CHR ''h'') = CHR ''h''" "lower_char (CHR ''i'') = CHR ''i''"
  "lower_char (CHR ''j'') = CHR ''j''" "lower_char (CHR ''k'') = CHR ''k''" "lower_char (CHR ''l'') = CHR ''l''"
  "lower_char (CHR ''m'') = CHR ''m''" "lower_char (CHR ''n'') = CHR ''n''" "lower_char (CHR ''o'') = CHR ''o''"
  "lower_char (CHR ''p'') = CHR ''p''" "lower_char (CHR ''q'') = CHR ''q''" "lower_char (CHR ''r'') = CHR ''r''"
  "lower_char (CHR ''s'') = CHR ''s''" "lower_char (CHR ''t'') = CHR ''t''" "lower_char (CHR ''u'') = CHR ''u''"
  "lower_char (CHR ''v'') = CHR ''v''" "lower_char (CHR ''w'') = CHR ''w''" "lower_char (CHR ''x'') = CHR ''x''"
  "lower_char (CHR ''y'') = CHR ''y''" "lower_char (CHR ''z'') = CHR ''z''" "lower_char (CHR ''{'') = CHR ''{''"
  "lower_char (CHR ''|'') = CHR ''|''" "lower_char (CHR ''}'') = CHR ''}''" "lower_char (CHR ''~'') = CHR ''~''"
  by (simp_all add: lower_char_def char_of_def bit_0)

lemma upper_ascii [simp]:
  "upper_char (CHR ''!'') = [CHR ''!'']" "upper_char (CHR 0x22) = [CHR 0x22]" "upper_char (CHR ''#'') = [CHR ''#'']"
  "upper_char (CHR ''$'') = [CHR ''$'']" "upper_char (CHR ''%'') = [CHR ''%'']" "upper_char (CHR ''&'') = [CHR ''&'']"
  "upper_char (CHR 0x27) = [CHR 0x27]" "upper_char (CHR ''('') = [CHR ''('']" "upper_char (CHR '')'') = [CHR '')'']"
  "upper_char (CHR ''*'') = [CHR ''*'']" "upper_char (CHR ''+'') = [CHR ''+'']" "upper_char (CHR '','') = [CHR '','']"
  "upper_char (CHR ''-'') = [CHR ''-'']" "upper_char (CHR ''.'') = [CHR ''.'']" "upper_char (CHR ''/'') = [CHR ''/'']"
  "upper_char (CHR ''0'') = [CHR ''0'']" "upper_char (CHR ''1'') = [CHR ''1'']" "upper_char (CHR ''2'') = [CHR ''2'']"
  "upper_char (CHR ''3'') = [CHR ''3'']" "upper_char (CHR ''4'') = [CHR ''4'']" "upper_char (CHR ''5'') = [CHR ''5'']"
  "upper_char (CHR ''6'') = [CHR ''6'']" "upper_char (CHR ''7'') = [CHR ''7'']" "upper_char (CHR ''8'') = [CHR ''8'']"
  "upper_char (CHR ''9'') = [CHR ''9'']" "upper_char (CHR '':'') = [CHR '':'']" "upper_char (CHR '';'') = [CHR '';'']"
  "upper_char (CHR ''<'') = [CHR ''<'']" "upper_char (CHR ''='') = [CHR ''='']" "upper_char (CHR ''>'') = [CHR ''>'']"
  "upper_char (CHR ''?'') = [CHR ''?'']" "upper_char (CHR ''@'') = [CHR ''@'']" "upper_char (CHR ''A'') = [CHR ''A'']"
  "upper_char (CHR ''B'') = [CHR ''B'']" "upper_char (CHR ''C'') = [CHR ''C'']" "upper_char (CHR ''D'') = [CHR ''D'']"
  "upper_char (CHR ''E'') = [CHR ''E'']" "upper_char (CHR ''F'') = [CHR ''F'']" "upper_char (CHR ''G'') = [CHR ''G'']"
  "upper_char (CHR ''H'') = [CHR ''H'']" "upper_char (CHR ''I'') = [CHR ''I'']" "upper_char (CHR ''J'') = [CHR ''J'']"
  "upper_char (CHR ''K'') = [CHR ''K'']" "upper_char (CHR ''L'') = [CHR ''L'']" "upper_char (CHR ''M'') = [CHR ''M'']"
  "upper_char (CHR ''N'') = [CHR ''N'']" "upper_char (CHR ''O'') = [CHR ''O'']" "upper_char (CHR ''P'') = [CHR ''P'']"
  "upper_char (CHR ''Q'') = [CHR ''Q'']" "upper_char (CHR ''R'') = [CHR ''R'']" "upper_char (CHR ''S'') = [CHR ''S'']"
  "upper_char (CHR ''T'') = [CHR ''T'']" "upper_char (CHR ''U'') = [CHR ''U'']" "upper_char (CHR ''V'') = [CHR ''V'']"
  "upper_char (CHR ''W'') = [CHR ''W'']" "upper_char (CHR ''X'') = [CHR ''X'']" "upper_char (CHR ''Y'') = [CHR ''Y'']"
  "upper_char (CHR ''Z'') = [CHR ''Z'']" "upper_char (CHR ''['') = [CHR ''['']" "upper_char (CHR 0x5C) = [CHR 0x5C]"
  "upper_char (CHR '']'') = [CHR '']'']" "upper_char (CHR ''^'') = [CHR ''^'']" "upper_char (CHR ''_'') = [CHR ''_'']"
  "upper_char (CHR ''a'') = [CHR ''A'']" "upper_char (CHR ''b'') = [CHR ''B'']" "upper_char (CHR ''c'') = [CHR ''C'']"
  "upper_char (CHR ''d'') = [CHR ''D'']" "upper_char (CHR ''e'') = [CHR ''E'']" "upper_char (CHR ''f'') = [CHR ''F'']"
  "upper_char (CHR ''g'') = [CHR ''G'']" "upper_char (CHR ''h'') = [CHR ''H'']" "upper_char (CHR ''i'') = [CHR ''I'']"
  "upper_char (CHR ''j'') = [CHR ''J'']" "upper_char (CHR ''k'') = [CHR ''K'']" "upper_char (CHR ''l'') = [CHR ''L'']"
  "upper_char (CHR ''m'') = [CHR ''M'']" "upper_char (CHR ''n'') = [CHR ''N'']" "upper_char (CHR ''o'') = [CHR ''O'']"
  "upper_char (CHR ''p'') = [CHR ''P'']" "upper_char (CHR ''q'') = [CHR ''Q'']" "upper_char (CHR ''r'') = [CHR ''R'']"
  "upper_char (CHR ''s'') = [CHR ''S'']" "upper_char (CHR ''t'') = [CHR ''T'']" "upper_char (CHR ''u'') = [CHR ''U'']"
  "upper_char (CHR ''v'') = [CHR ''V'']" "upper_char (CHR ''w'') = [CHR ''W'']" "upper_char (CHR ''x'') = [CHR ''X'']"
  "upper_char (CHR ''y'') = [CHR ''Y'']" "upper_char (CHR ''z'') = [CHR ''Z'']" "upper_char (CHR ''{'') = [CHR ''{'']"
  "upper_char (CHR ''|'') = [CHR ''|'']" "upper_char (CHR ''}'') = [CHR ''}'']" "upper_char (CHR ''~'') = [CHR ''~'']"
  by (simp_all add: upper_char_def char_of_def bit_0)

lemma blank_ascii [simp]:
  "is_space (CHR '' '')" "lower_char (CHR '' '') = CHR '' ''" "upper_char (CHR '' '') = [CHR '' '']"
  by (simp_all add: is_space_def lower_char_def upper_char_def)

lemmas string_eval = strip_def lower_def upper_def

section \<open>JSON values and dictionaries\<close>

datatype json =
    JNull
  | JBool bool
  | JInt int
  | JFloat rat
  | JStr string
  | JList "json list"
  | JObj "(string \<times> json) list"

type_synonym dict = "(string \<times> json) list"

text \<open>Python's truth value of a decoded JSON value.\<close>

fun truthy :: "json \<Rightarrow> bool" where
  "truthy JNull = False"
| "truthy (JBool b) = b"
| "truthy (JInt i) = (i \<noteq> 0)"
| "truthy (JFloat r) = (r \<noteq> 0)"
| "truthy (JStr s) = (s \<noteq> [])"
| "truthy (JList xs) = (xs \<noteq> [])"
| "truthy (JObj kvs) = (kvs \<noteq> [])"

text \<open>\<open>d.get(k)\<close>, \<open>d.get(k, default)\<close> and \<open>d[k] = v\<close>.\<close>

definition dget :: "dict \<Rightarrow> string \<Rightarrow> json" where
  "dget d k = (case map_of d k of None \<Rightarrow> JNull | Some v \<Rightarrow> v)"

definition dget_or :: "dict \<Rightarrow> string \<Rightarrow> json \<Rightarrow> json" where
  "dget_or d k v0 = (case map_of d k of None \<Rightarrow> v0 | Some v \<Rightarrow> v)"

definition dset :: "string \<Rightarrow> json \<Rightarrow> dict \<Rightarrow> dict" where
  "dset k v d = AList.update k v d"

definition dset_if :: "bool \<Rightarrow> string \<Rightarrow> json \<Rightarrow> dict \<Rightarrow> dict" where
  "dset_if b k v d = (if b then dset k v d else d)"

lemma dget_dset [simp]: "dget (dset k v d) k' = (if k' = k then v else dget d k')"
  by (simp add: dget_def dset_def update_conv' split: option.split)

lemma dget_or_dset [simp]: "dget_or (dset k v d) k' v0 = (if k' = k then v else dget_or d k' v0)"
  by (simp add: dget_or_def dset_def update_conv')

lemma dget_dset_if [simp]: "dget (dset_if b k v d) k' = (if b \<and> k' = k then v else dget d k')"
  by (simp add: dset_if_def)

lemma dget_or_dset_if [simp]:
  "dget_or (dset_if b k v d) k' v0 = (if b \<and> k' = k then v else dget_or d k' v0)"
  by (simp add: dset_if_def)

lemma dget_Nil [simp]: "dget [] k = JNull"
  by (simp add: dget_def)

lemma dget_Cons [simp]: "dget ((k, v) # d) k' = (if k' = k then v else dget d k')"
  by (simp add: dget_def)

lemma dget_or_Nil [simp]: "dget_or [] k v0 = v0"
  by (simp add: dget_or_def)

lemma dget_or_Cons [simp]: "dget_or ((k, v) # d) k' v0 = (if k' = k then v else dget_or d k' v0)"
  by (simp add: dget_or_def)

text \<open>A Python \<open>list[str]\<close> inside a JSON document.\<close>

definition jstrs :: "string list \<Rightarrow> json" where
  "jstrs ss = JList (map JStr ss)"

text \<open>An optional column value as the JSON the code stores for it.\<close>

definition jopt :: "('a \<Rightarrow> json) \<Rightarrow> 'a option \<Rightarrow> json" where
  "jopt f x = (case x of None \<Rightarrow> JNull | Some v \<Rightarrow> f v)"

lemma jopt_simps [simp]: "jopt f None = JNull" "jopt f (Some v) = f v"
  by (simp_all add: jopt_def)

section \<open>Instants, datetimes and time zones\<close>

type_synonym instant = int  \<comment> \<open>microseconds since the epoch, UTC\<close>
type_synonym timedelta = int  \<comment> \<open>microseconds\<close>

definition seconds :: "int \<Rightarrow> timedelta" where "seconds n = n * 1000000"
definition hours :: "int \<Rightarrow> timedelta" where "hours n = seconds (n * 3600)"
definition days :: "int \<Rightarrow> timedelta" where "days n = seconds (n * 86400)"

lemmas duration_defs = seconds_def hours_def days_def

text \<open>
  A \<open>datetime\<close> is a wall-clock reading, with the UTC offset of its \<open>tzinfo\<close> when it is
  aware. Its instant is the reading minus the offset.
\<close>

datatype datetime = Naive (wall: int) | Aware (wall: int) (utc_offset: int)

fun is_aware :: "datetime \<Rightarrow> bool" where
  "is_aware (Naive _) = False"
| "is_aware (Aware _ _) = True"

fun instant_of :: "datetime \<Rightarrow> instant" where
  "instant_of (Naive w) = w"
| "instant_of (Aware w off) = w - off"

text \<open>\<open>dt.date()\<close>, as a day number, and \<open>datetime.combine(date, time(23, 59, 59))\<close>.\<close>

definition date_of :: "datetime \<Rightarrow> int" where
  "date_of d = wall d div days 1"

definition end_of_day :: "int \<Rightarrow> int" where
  "end_of_day day = days day + hours 23 + seconds 3599"

text \<open>
  \<open>ZoneInfo(key)\<close>: a zone (the offset it gives a wall-clock reading), the
  \<open>ZoneInfoNotFoundError\<close> the code catches, or the \<open>ValueError\<close> the constructor raises for a
  key that is not a normalised relative path, which it does not catch. The database itself is
  data outside the program and a parameter.
\<close>

datatype zone_lookup = Zone "int \<Rightarrow> int" | ZoneInfoNotFoundError | ZoneBadKey

type_synonym tzdb = "string \<Rightarrow> zone_lookup"

text \<open>
  The proleptic Gregorian calendar: day number of a civil date, and back. The era arithmetic
  counts years from March, in cycles of 400 years of 146097 days; day 0 is 1970-01-01.
\<close>

definition days_from_civil :: "int \<Rightarrow> int \<Rightarrow> int \<Rightarrow> int" where
  "days_from_civil y m d =
     (let y' = (if m \<le> 2 then y - 1 else y);
          era = y' div 400;
          yoe = y' - era * 400;
          doy = (153 * (if m > 2 then m - 3 else m + 9) + 2) div 5 + d - 1;
          doe = yoe * 365 + yoe div 4 - yoe div 100 + doy
      in era * 146097 + doe - 719468)"

definition month_of_day :: "int \<Rightarrow> int" where
  "month_of_day z =
     (let z' = z + 719468;
          doe = z' mod 146097;
          yoe = (doe - doe div 1460 + doe div 36524 - doe div 146096) div 365;
          doy = doe - (365 * yoe + yoe div 4 - yoe div 100);
          mp = (5 * doy + 2) div 153
      in if mp < 10 then mp + 3 else mp - 9)"

text \<open>\<open>now.month\<close> of an aware UTC datetime.\<close>

definition month_of :: "instant \<Rightarrow> int" where
  "month_of t = month_of_day (t div days 1)"

definition is_leap :: "int \<Rightarrow> bool" where
  "is_leap y = (y mod 4 = 0 \<and> (y mod 100 \<noteq> 0 \<or> y mod 400 = 0))"

definition days_in_month :: "int \<Rightarrow> int \<Rightarrow> int" where
  "days_in_month y m =
     (if m = 2 then (if is_leap y then 29 else 28) else if m \<in> {4, 6, 9, 11} then 30 else 31)"

section \<open>Tables\<close>

text \<open>
  A database table is the list of its rows in insertion order. Rows are found, replaced and
  added by a key column \<open>pk\<close>, the primary key.
\<close>

definition tget :: "('r \<Rightarrow> nat) \<Rightarrow> nat \<Rightarrow> 'r list \<Rightarrow> 'r option" where
  "tget pk k rows = find (\<lambda>r. pk r = k) rows"

definition tmod :: "('r \<Rightarrow> nat) \<Rightarrow> nat \<Rightarrow> ('r \<Rightarrow> 'r) \<Rightarrow> 'r list \<Rightarrow> 'r list" where
  "tmod pk k f rows = map (\<lambda>r. if pk r = k then f r else r) rows"

lemma tget_Nil [simp]: "tget pk k [] = None"
  by (simp add: tget_def)

lemma tget_Cons [simp]: "tget pk k (r # rs) = (if pk r = k then Some r else tget pk k rs)"
  by (simp add: tget_def)

lemma tget_append [row_simps]:
  "tget pk k (rs @ rs') = (case tget pk k rs of None \<Rightarrow> tget pk k rs' | Some r \<Rightarrow> Some r)"
  by (induction rs) auto

lemma tget_SomeD: "tget pk k rows = Some r \<Longrightarrow> r \<in> set rows \<and> pk r = k"
  by (induction rows) (auto split: if_splits)

lemma tget_None_iff: "tget pk k rows = None \<longleftrightarrow> k \<notin> pk ` set rows"
  by (induction rows) auto

lemma tget_in_set: "distinct (map pk rows) \<Longrightarrow> r \<in> set rows \<Longrightarrow> tget pk (pk r) rows = Some r"
  by (induction rows) (auto simp: image_iff)

lemma tmod_simps [simp]:
  "tmod pk k f [] = []"
  "tmod pk k f (r # rs) = (if pk r = k then f r else r) # tmod pk k f rs"
  by (simp_all add: tmod_def)

lemma set_tmod: "set (tmod pk k f rows) = (\<lambda>r. if pk r = k then f r else r) ` set rows"
  by (simp add: tmod_def)

lemma length_tmod [simp]: "length (tmod pk k f rows) = length rows"
  by (simp add: tmod_def)

text \<open>The loop \<open>for row in rows: row.column = ...\<close> over the rows with the given keys.\<close>

definition tmods :: "('r \<Rightarrow> nat) \<Rightarrow> nat list \<Rightarrow> ('r \<Rightarrow> 'r) \<Rightarrow> 'r list \<Rightarrow> 'r list" where
  "tmods pk ks f rows = fold (\<lambda>k. tmod pk k f) ks rows"

lemma length_tmods [simp]: "length (tmods pk ks f rows) = length rows"
  by (induction ks arbitrary: rows) (simp_all add: tmods_def)

text \<open>
  The contract of an in-place row update: the update never changes the primary key. Under it
  an update reaches exactly the row it names.
\<close>

locale keyed_table =
  fixes pk :: "'r \<Rightarrow> nat" and ok :: "('r \<Rightarrow> 'r) \<Rightarrow> bool"
  assumes ok_pk: "ok f \<Longrightarrow> pk (f r) = pk r"
begin

lemma keys_mod: "ok f \<Longrightarrow> map pk (tmod pk k f rows) = map pk rows"
  by (induction rows) (auto simp: ok_pk)

lemma get_mod_same: "ok f \<Longrightarrow> tget pk k (tmod pk k f rows) = map_option f (tget pk k rows)"
  by (induction rows) (auto simp: ok_pk)

lemma get_mod_other: "ok f \<Longrightarrow> k' \<noteq> k \<Longrightarrow> tget pk k' (tmod pk k f rows) = tget pk k' rows"
  by (induction rows) (auto simp: ok_pk)

lemma get_mod:
  "ok f \<Longrightarrow>
   tget pk k' (tmod pk k f rows) = (if k' = k then map_option f (tget pk k rows) else tget pk k' rows)"
  by (simp add: get_mod_same get_mod_other)

lemma keys_mod_fresh: "ok f \<Longrightarrow> fresh \<notin> pk ` set (tmod pk k f rows) \<longleftrightarrow> fresh \<notin> pk ` set rows"
  using keys_mod [of f k rows] by (metis list.set_map)

lemma mods_map:
  assumes "ok f" and "distinct ks"
  shows "tmods pk ks f rows = map (\<lambda>r. if pk r \<in> set ks then f r else r) rows"
  using assms(2)
proof (induction ks arbitrary: rows)
  case (Cons k ks)
  then have "tmods pk (k # ks) f rows = map (\<lambda>r. if pk r \<in> set ks then f r else r) (tmod pk k f rows)"
    by (simp add: tmods_def)
  also have "\<dots> = map (\<lambda>r. if pk r \<in> set (k # ks) then f r else r) rows"
    using Cons.prems assms(1) by (auto simp: tmod_def ok_pk)
  finally show ?case .
qed (simp add: tmods_def)

lemma keys_mods: "ok f \<Longrightarrow> map pk (tmods pk ks f rows) = map pk rows"
  by (induction ks arbitrary: rows) (simp_all add: tmods_def keys_mod)

lemma ball_mod:
  "\<forall>r \<in> set rows. P r \<Longrightarrow> (\<And>r. r \<in> set rows \<Longrightarrow> pk r = k \<Longrightarrow> P r \<Longrightarrow> P (f r)) \<Longrightarrow>
   \<forall>r \<in> set (tmod pk k f rows). P r"
  by (auto simp: set_tmod)

end

text \<open>
  A component as a machine: its operations are the steps of a relation, and an invariant every step
  keeps holds after every run.
\<close>

locale step_invariant =
  fixes step :: "'s \<Rightarrow> 's \<Rightarrow> bool" and inv :: "'s \<Rightarrow> bool"
  assumes step_keeps: "step s t \<Longrightarrow> inv s \<Longrightarrow> inv t"
begin

lemma run_keeps: "step\<^sup>*\<^sup>* s t \<Longrightarrow> inv s \<Longrightarrow> inv t"
  by (induction rule: rtranclp_induct) (auto intro: step_keeps)

end

text \<open>A component in which a kind of state, once entered, is never left.\<close>

locale step_stable = step_invariant +
  fixes final :: "'s \<Rightarrow> 'v \<Rightarrow> bool"
  assumes final_kept: "step s t \<Longrightarrow> inv s \<Longrightarrow> final s v \<Longrightarrow> final t v"
begin

lemma run_final: "step\<^sup>*\<^sup>* s t \<Longrightarrow> inv s \<Longrightarrow> final s v \<Longrightarrow> final t v"
proof (induction rule: rtranclp_induct)
  case (step t u)
  then show ?case by (meson final_kept run_keeps)
qed

end

text \<open>A machine that implements an abstract one: every step is a run of abstract steps.\<close>

locale simulation = step_stable +
  fixes astep :: "'a \<Rightarrow> 'a \<Rightarrow> bool" and abs_of :: "'s \<Rightarrow> 'a"
  assumes simulates: "step s t \<Longrightarrow> inv s \<Longrightarrow> astep\<^sup>*\<^sup>* (abs_of s) (abs_of t)"
begin

lemma run_simulates: "step\<^sup>*\<^sup>* s t \<Longrightarrow> inv s \<Longrightarrow> astep\<^sup>*\<^sup>* (abs_of s) (abs_of t)"
proof (induction rule: rtranclp_induct)
  case (step t u)
  then show ?case by (meson run_keeps simulates rtranclp_trans)
qed simp

end

end
