(* ===== verification/Models.thy ===== *)
theory Models
  imports Prelude
begin

text \<open>
  The persisted data of the service (\<open>src/src/app/domain/models.py\<close>): one record per mapped
  class, one field per column, and the database as the record of all tables.

  Primary and foreign keys are natural numbers: \<open>new_uuid7\<close> is time-ordered, and the linker
  compares ids for age, so an id is modelled by its place in the order and drawn from a counter.
  Nullable columns are options. \<open>TimestampMixin\<close> gives every class two database-written
  columns; \<open>created_at\<close> is a field where some operation reads it and \<open>updated_at\<close>, which only
  orders an admin listing, is left out. Relationships are the foreign keys they follow.
\<close>

type_synonym uuid = nat

section \<open>Enumerations\<close>

datatype record_state = Discovered | Needs_review | Published | Withdrawn

datatype public_status = Open_verified | Expected_to_reopen | Status_unknown

section \<open>Catalogue: providers, scholarships, cycles\<close>

record provider =
  pv_id :: uuid
  pv_name :: string
  pv_approved_domains :: "string list"
  pv_country :: "string option"

record scholarship =
  sch_id :: uuid
  sch_provider_id :: uuid
  sch_slug :: string
  sch_name :: string
  sch_official_home_url :: string
  sch_award_type :: string
  sch_lifecycle_state :: record_state
  sch_current_published_revision_id :: "uuid option"

record cycle =
  cy_id :: uuid
  cy_scholarship_id :: uuid
  cy_provider_cycle_key :: string
  cy_applicant_segment :: string
  cy_official_cycle_url :: string
  cy_public_status :: public_status
  cy_status_valid_until :: "instant option"
  cy_last_verified_at :: "instant option"
  cy_facts :: dict
  cy_source_page_id :: "uuid option"
  cy_auto_downgraded :: bool
  cy_is_auto_approved :: bool
  cy_auto_approval_score :: "int option"
  cy_created_at :: instant

section \<open>Discovery: sources, pages, discoveries, crawl runs\<close>

record source =
  so_id :: uuid
  so_name :: string
  so_source_type :: string
  so_authority_grade :: string
  so_approved_domains :: "string list"
  so_active :: bool
  so_consecutive_harvest_failures :: int
  so_last_harvest_failure_at :: "instant option"

record source_page =
  pg_id :: uuid
  pg_source_id :: uuid
  pg_normalized_url :: string
  pg_normalized_content_hash :: "string option"
  pg_last_attempted_at :: "instant option"
  pg_last_successful_fetch_at :: "instant option"
  pg_last_seen_at :: "instant option"
  pg_http_status :: "int option"
  pg_final_url :: "string option"

record source_snapshot =
  sn_id :: uuid
  sn_page_id :: uuid
  sn_fetched_at :: instant
  sn_content_hash :: string
  sn_extractor_version :: string
  sn_relevant_content :: dict
  sn_failure_classification :: "string option"

record discovery_verification =
  dv_id :: uuid
  dv_discovery_id :: uuid
  dv_fetched_url :: string
  dv_fetch_method :: string
  dv_page_text :: string
  dv_ai_reextracted_facts :: "dict option"
  dv_agreement :: dict

record research_usage =
  ru_provider :: string
  ru_period_key :: string
  ru_calls_used :: int

record discovery =
  di_id :: uuid
  di_source_page_id :: uuid
  di_crawl_run_id :: "uuid option"
  di_content_hash :: string
  di_raw_title :: "string option"
  di_raw_excerpt :: "string option"
  di_source_posted_at :: "datetime option"
  di_feed_created_at :: "datetime option"
  di_processing_state :: string
  di_normalized_identity_key :: "string option"
  di_canonical_scholarship_id :: "uuid option"
  di_extracted_facts :: "dict option"
  di_ai_extracted_facts :: "dict option"
  di_supersedes_discovery_id :: "uuid option"
  di_duplicate_of_discovery_id :: "uuid option"
  di_split_from_discovery_id :: "uuid option"
  di_rejection_reason :: "string option"
  di_auto_review_evaluated_at :: "instant option"
  di_created_at :: instant

record crawl_run =
  cr_id :: uuid
  cr_kind :: string
  cr_scope :: dict
  cr_state :: string
  cr_started_at :: instant
  cr_finished_at :: "instant option"
  cr_imported_count :: int
  cr_repeated_count :: int
  cr_changed_count :: int
  cr_rejected_count :: int
  cr_last_error :: "string option"

record quarantine_row =
  qr_id :: uuid
  qr_crawl_run_id :: uuid
  qr_source_id :: "uuid option"
  qr_raw_url :: "string option"
  qr_raw_title :: "string option"
  qr_raw_excerpt :: "string option"
  qr_reason :: string
  qr_created_at :: instant

section \<open>Review and operations\<close>

record review_task =
  rt_id :: uuid
  rt_revision_id :: "uuid option"
  rt_discovery_id :: "uuid option"
  rt_cycle_id :: "uuid option"
  rt_reason :: string
  rt_priority :: int
  rt_state :: string
  rt_resolution :: "string option"
  rt_draft_recommendation :: "dict option"
  rt_created_at :: instant

text \<open>
  \<open>ProcessingJob.state\<close> is a string column; every writer stores the value of a \<open>JobState\<close>
  (\<open>src/src/app/domain/jobs.py\<close>).
\<close>

datatype job_state = Queued | Running | Retry_wait | Completed | Failed_review

record processing_job =
  pj_id :: uuid
  pj_kind :: string
  pj_dedupe_key :: string
  pj_state :: job_state
  pj_attempts :: nat
  pj_payload :: dict
  pj_last_error :: "string option"
  pj_next_attempt_at :: "instant option"
  pj_lease_expires_at :: "instant option"
  pj_correlation_id :: "string option"

record outbox_event =
  ob_id :: uuid
  ob_event_type :: string
  ob_destination :: string
  ob_dedupe_key :: string
  ob_payload :: dict
  ob_state :: string
  ob_attempts :: nat
  ob_dispatched_at :: "instant option"
  ob_created_at :: instant

record anonymous_session =
  se_id :: uuid
  se_pseudonymous_id :: string
  se_consent_state :: string
  se_expires_at :: instant

record country =
  co_id :: uuid
  co_code :: string
  co_display_name :: string
  co_core_id :: "uuid option"
  co_is_supported_destination :: bool
  co_synced_at :: "instant option"

record search_row =
  sr_id :: uuid
  sr_search_id :: uuid
  sr_session_id :: "uuid option"
  sr_filter_digest :: string
  sr_filters :: dict
  sr_result_snapshot :: dict
  sr_snapshot_schema_version :: string
  sr_match_policy_version :: string
  sr_taxonomy_version :: string
  sr_page_number :: int
  sr_requested_limit :: int
  sr_returned_count :: int
  sr_total_match_count :: int
  sr_duration_ms :: int
  sr_expires_at :: "instant option"
  sr_evaluated_at :: instant

record audit_entry =
  au_id :: uuid
  au_actor :: string
  au_action :: string
  au_target_id :: "uuid option"
  au_reason :: "string option"
  au_context :: "dict option"

record auto_approval_audit =
  aa_id :: uuid
  aa_scholarship_id :: uuid
  aa_cycle_id :: uuid
  aa_decision_snapshot :: dict
  aa_sampled :: bool
  aa_outcome :: string
  aa_reviewer_notes :: "string option"
  aa_resolved_at :: "instant option"
  aa_resolved_by :: "string option"

record join_request =
  jr_id :: uuid
  jr_idempotency_key :: string
  jr_core_join_intent_id :: "string option"
  jr_outcome :: string

record explanation_row =
  me_id :: uuid
  me_cycle_id :: uuid
  me_profile_digest :: string
  me_facts_digest :: string
  me_explanation :: string

record evidence_row =
  ev_id :: uuid
  ev_discovery_id :: uuid
  ev_claim_path :: string
  ev_value :: json
  ev_source_url :: string
  ev_source_type :: string
  ev_excerpt :: "string option"
  ev_observed_at :: datetime
  ev_fetch_method :: "string option"
  ev_confidence :: "string option"
  ev_workflow_run_id :: string
  ev_workflow_version :: string
  ev_prompt_version :: "string option"
  ev_model :: "string option"

record agent_run =
  ar_id :: uuid
  ar_discovery_id :: uuid
  ar_workflow_version :: string
  ar_agent_outcome :: string
  ar_prompt_version :: "string option"
  ar_model :: "string option"
  ar_recommendation :: "dict option"
  ar_correlation_id :: "string option"

section \<open>The database\<close>

record db =
  providers :: "provider list"
  scholarships :: "scholarship list"
  cycles :: "cycle list"
  sources :: "source list"
  pages :: "source_page list"
  snapshots :: "source_snapshot list"
  verifications :: "discovery_verification list"
  usage :: "research_usage list"
  discoveries :: "discovery list"
  crawl_runs :: "crawl_run list"
  quarantine :: "quarantine_row list"
  review_tasks :: "review_task list"
  jobs :: "processing_job list"
  outbox :: "outbox_event list"
  sessions :: "anonymous_session list"
  countries :: "country list"
  searches :: "search_row list"
  audit_log :: "audit_entry list"
  auto_audits :: "auto_approval_audit list"
  join_requests :: "join_request list"
  explanations :: "explanation_row list"
  evidence :: "evidence_row list"
  agent_runs :: "agent_run list"
  next_id :: uuid

definition empty_db :: db where
  "empty_db =
     \<lparr>providers = [], scholarships = [], cycles = [], sources = [], pages = [], snapshots = [],
      verifications = [], usage = [], discoveries = [], crawl_runs = [], quarantine = [],
      review_tasks = [], jobs = [], outbox = [], sessions = [], countries = [], searches = [],
      audit_log = [], auto_audits = [], join_requests = [], explanations = [], evidence = [],
      agent_runs = [], next_id = 1\<rparr>"

section \<open>Identifiers\<close>

text \<open>
  \<open>new_uuid7()\<close> (\<open>src/src/app/core/ids.py\<close>) draws an id later than every id drawn before it: the
  standard library's \<open>uuid7\<close> orders ids by timestamp and by a counter within a millisecond.
\<close>

definition new_uuid7 :: "db \<Rightarrow> uuid \<times> db" where
  "new_uuid7 d = (next_id d, d\<lparr>next_id := Suc (next_id d)\<rparr>)"

text \<open>
  \<open>str(uuid)\<close> prints 32 hexadecimal digits in groups of 8, 4, 4, 4 and 12; \<open>uuid.UUID(text)\<close>
  drops braces and hyphens and refuses anything but 32 hexadecimal digits.
\<close>

definition hex_digit :: "nat \<Rightarrow> char" where
  "hex_digit n = (if n < 10 then char_of (48 + n) else char_of (87 + n))"

definition hex_val :: "char \<Rightarrow> nat option" where
  "hex_val c =
     (let n = (of_char c :: nat)
      in if 48 \<le> n \<and> n \<le> 57 then Some (n - 48)
         else if 97 \<le> n \<and> n \<le> 102 then Some (n - 87)
         else if 65 \<le> n \<and> n \<le> 70 then Some (n - 55) else None)"

fun hex_digits :: "nat \<Rightarrow> nat \<Rightarrow> string" where
  "hex_digits 0 n = []"
| "hex_digits (Suc w) n = hex_digits w (n div 16) @ [hex_digit (n mod 16)]"

fun hex_read :: "nat \<Rightarrow> string \<Rightarrow> nat option" where
  "hex_read acc [] = Some acc"
| "hex_read acc (c # cs) =
     (case hex_val c of None \<Rightarrow> None | Some v \<Rightarrow> hex_read (acc * 16 + v) cs)"

definition uuid_str :: "uuid \<Rightarrow> string" where
  "uuid_str u =
     (let h = hex_digits 32 u
      in take 8 h @ ''-'' @ take 4 (drop 8 h) @ ''-'' @ take 4 (drop 12 h) @ ''-''
         @ take 4 (drop 16 h) @ ''-'' @ drop 20 h)"

definition uuid_parse :: "string \<Rightarrow> uuid result" where
  "uuid_parse s =
     (let h = filter (\<lambda>c. c \<noteq> CHR ''-'') s
      in if length h \<noteq> 32 then Inl (ValueError ''badly formed hexadecimal UUID string'')
         else case hex_read 0 h of
                None \<Rightarrow> Inl (ValueError ''badly formed hexadecimal UUID string'')
              | Some u \<Rightarrow> Inr u)"

text \<open>\<open>uuid.UUID(payload[key])\<close>: a missing key and a value that is no string raise too.\<close>

definition payload_uuid :: "dict \<Rightarrow> string \<Rightarrow> uuid result" where
  "payload_uuid p k =
     (case map_of p k of
        None \<Rightarrow> Inl KeyError
      | Some (JStr s) \<Rightarrow> uuid_parse s
      | Some JNull \<Rightarrow> Inl TypeError
      | Some _ \<Rightarrow> Inl AttributeError)"

lemma hex_val_digit: "n < 16 \<Longrightarrow> hex_val (hex_digit n) = Some n"
  by (auto simp: hex_val_def hex_digit_def Let_def)

lemma hex_digit_not_dash: "n < 16 \<Longrightarrow> hex_digit n \<noteq> CHR ''-''"
proof
  assume n: "n < 16" and d: "hex_digit n = CHR ''-''"
  have "hex_val (CHR ''-'') = None" by (simp add: hex_val_def)
  with hex_val_digit [OF n] d show False by simp
qed

lemma length_hex_digits [simp]: "length (hex_digits w n) = w"
  by (induction w arbitrary: n) auto

lemma hex_digits_no_dash: "c \<in> set (hex_digits w n) \<Longrightarrow> c \<noteq> CHR ''-''"
  by (induction w arbitrary: n) (auto simp: hex_digit_not_dash hex_digit_not_dash [THEN not_sym])

lemma hex_read_snoc:
  "hex_read acc (cs @ [c]) =
   (case hex_read acc cs of None \<Rightarrow> None
    | Some a \<Rightarrow> map_option (\<lambda>v. a * 16 + v) (hex_val c))"
  by (induction cs arbitrary: acc) (auto split: option.split)

lemma hex_read_digits: "hex_read 0 (hex_digits w n) = Some (n mod 16 ^ w)"
  by (induction w arbitrary: n)
    (auto simp: hex_read_snoc hex_val_digit mod_mult2_eq mult.commute)

lemma take_drop_join: "take m (drop n xs) @ drop (m + n) xs = drop n xs"
  by (metis append_take_drop_id drop_drop)

lemma uuid_groups:
  "h = take 8 h @ take 4 (drop 8 h) @ take 4 (drop 12 h) @ take 4 (drop 16 h) @ drop 20 h"
  using take_drop_join [of 8 0 h] take_drop_join [of 4 8 h] take_drop_join [of 4 12 h]
    take_drop_join [of 4 16 h] by simp

lemma uuid_str_digits: "filter (\<lambda>c. c \<noteq> CHR ''-'') (uuid_str u) = hex_digits 32 u"
proof -
  let ?h = "hex_digits 32 u"
  have f: "filter (\<lambda>c. c \<noteq> CHR ''-'') xs = xs" if "set xs \<subseteq> set ?h" for xs
    using that hex_digits_no_dash by (auto simp: filter_id_conv)
  have "set (take n (drop m ?h)) \<subseteq> set ?h" for n m
    by (meson order_trans set_drop_subset set_take_subset)
  then show ?thesis
    by (simp add: uuid_str_def Let_def f set_drop_subset set_take_subset flip: uuid_groups)
qed

lemma uuid_roundtrip: "u < 16 ^ 32 \<Longrightarrow> uuid_parse (uuid_str u) = Inr u"
  by (simp add: uuid_parse_def uuid_str_digits hex_read_digits Let_def)

lemma uuid_str_inj: "u < 16 ^ 32 \<Longrightarrow> v < 16 ^ 32 \<Longrightarrow> uuid_str u = uuid_str v \<longleftrightarrow> u = v"
  by (metis uuid_roundtrip sum.inject(2))

section \<open>The key discipline of the tables\<close>

interpretation job_table: keyed_table pj_id "\<lambda>f. \<forall>r. pj_id (f r) = pj_id r"
  by unfold_locales simp

interpretation discovery_table: keyed_table di_id "\<lambda>f. \<forall>r. di_id (f r) = di_id r"
  by unfold_locales simp

interpretation cycle_table: keyed_table cy_id "\<lambda>f. \<forall>r. cy_id (f r) = cy_id r"
  by unfold_locales simp

interpretation scholarship_table: keyed_table sch_id "\<lambda>f. \<forall>r. sch_id (f r) = sch_id r"
  by unfold_locales simp

interpretation page_table: keyed_table pg_id "\<lambda>f. \<forall>r. pg_id (f r) = pg_id r"
  by unfold_locales simp

interpretation task_table: keyed_table rt_id "\<lambda>f. \<forall>r. rt_id (f r) = rt_id r"
  by unfold_locales simp

interpretation outbox_table: keyed_table ob_id "\<lambda>f. \<forall>r. ob_id (f r) = ob_id r"
  by unfold_locales simp

interpretation source_table: keyed_table so_id "\<lambda>f. \<forall>r. so_id (f r) = so_id r"
  by unfold_locales simp

end
