(* ===== verification/Vocabulary.thy ===== *)
theory Vocabulary
  imports Models
begin

text \<open>
  The controlled vocabularies: \<open>src/src/app/domain/countries.py\<close> (origins are any published
  country, destinations only covered ones) and \<open>src/src/app/domain/taxonomy.py\<close> (degrees,
  fields and their aliases, award and funding types, the search filter normaliser). The lemmas
  show that resolution lands on canonical codes, that canonical codes resolve to themselves, and
  that bulk normalisation accounts for every value it was given.
\<close>

section \<open>Countries\<close>

definition SUPPORTED_DESTINATIONS :: "string set" where
  "SUPPORTED_DESTINATIONS =
     {''CA'', ''GB'', ''US'', ''DE'', ''FI'', ''AU'', ''TR'', ''JP'', ''KR'', ''CN'', ''FR'', ''SA'', ''NZ''}"

definition SEED_COUNTRIES :: "(string \<times> string) list" where
  "SEED_COUNTRIES =
    [(''NG'', ''Nigeria''), (''CA'', ''Canada''), (''GB'', ''United Kingdom''), (''US'', ''United States''), (''DE'', ''Germany''), (''FI'', ''Finland''), (''AU'', ''Australia''), (''TR'', ''Turkiye''), (''JP'', ''Japan''), (''KR'', ''South Korea''), (''CN'', ''China''), (''FR'', ''France''), (''SA'', ''Saudi Arabia''), (''NZ'', ''New Zealand'')]"

record country_vocabulary =
  names :: "(string \<times> string) list"
  destinations :: "string set"

definition origin :: "country_vocabulary \<Rightarrow> string \<Rightarrow> string result" where
  "origin v value' =
     (let code = upper (strip value')
      in if map_of (names v) code = None then Inl (ValueError ''Unsupported country'')
         else Inr code)"

definition destination :: "country_vocabulary \<Rightarrow> string \<Rightarrow> string result" where
  "destination v value' =
     bindE (origin v value') (\<lambda>code.
       if code \<notin> destinations v
       then Inl (ValueError (''No verified coverage for destination '' @ code))
       else Inr code)"

section \<open>The taxonomy\<close>

record taxonomy =
  tx_version :: string
  tx_countries :: "(string \<times> string) list"
  tx_degrees :: "(string \<times> string) list"
  tx_fields :: "(string \<times> string) list"
  tx_field_aliases :: "(string \<times> string) list"
  tx_degree_aliases :: "(string \<times> string) list"
  tx_award_types :: "(string \<times> string) list"
  tx_funding_types :: "(string \<times> string) list"

text \<open>\<open>table.get(key, key)\<close>: the alias of a key, or the key itself.\<close>

definition alias_of :: "(string \<times> string) list \<Rightarrow> string \<Rightarrow> string" where
  "alias_of aliases key = (case map_of aliases key of None \<Rightarrow> key | Some v \<Rightarrow> v)"

definition tx_country :: "taxonomy \<Rightarrow> string \<Rightarrow> string result" where
  "tx_country t value' =
     (let code = upper (strip value')
      in if map_of (tx_countries t) code = None then Inl (ValueError ''Unsupported country'')
         else Inr code)"

definition degree :: "taxonomy \<Rightarrow> string \<Rightarrow> string result" where
  "degree t value' =
     (let code = alias_of (tx_degree_aliases t) (lower (strip value'))
      in if map_of (tx_degrees t) code = None then Inl (ValueError ''Unsupported degree level'')
         else Inr code)"

definition field :: "taxonomy \<Rightarrow> string \<Rightarrow> string result" where
  "field t value' =
     (let code = alias_of (tx_field_aliases t) (lower (strip value'))
      in if map_of (tx_fields t) code = None then Inl (ValueError ''Unsupported field'')
         else Inr code)"

text \<open>
  \<open>_normalize_codes\<close>: the resolved codes and the values no code was found for, both as sorted
  sets. Every resolver raises \<open>ValueError\<close> only, so each value goes one way or the other.
\<close>

fun collect_codes :: "(string \<Rightarrow> string result) \<Rightarrow> string list \<Rightarrow> string list \<times> string list" where
  "collect_codes resolver [] = ([], [])"
| "collect_codes resolver (v # vs) =
     (let (canonical, unmapped) = collect_codes resolver vs
      in case resolver v of Inr c \<Rightarrow> (c # canonical, unmapped) | Inl _ \<Rightarrow> (canonical, v # unmapped))"

definition normalize_codes :: "(string \<Rightarrow> string result) \<Rightarrow> string list \<Rightarrow> string list \<times> string list" where
  "normalize_codes resolver values =
     (let (canonical, unmapped) = collect_codes resolver values
      in (sorted_set canonical, sorted_set unmapped))"

definition normalize_fields :: "taxonomy \<Rightarrow> string list \<Rightarrow> string list \<times> string list" where
  "normalize_fields t values = normalize_codes (field t) values"

definition normalize_degrees :: "taxonomy \<Rightarrow> string list \<Rightarrow> string list \<times> string list" where
  "normalize_degrees t values = normalize_codes (degree t) values"

definition broad_field :: "taxonomy \<Rightarrow> string \<Rightarrow> string result" where
  "broad_field t value' = field t value'"

definition narrow_fields_under :: "taxonomy \<Rightarrow> string \<Rightarrow> string set result" where
  "narrow_fields_under t field_code = bindE (field t field_code) (\<lambda>c. Inr {c})"

definition tx_lookup :: "string \<Rightarrow> (string \<times> string) list \<Rightarrow> string \<Rightarrow> string result" where
  "tx_lookup value' table label =
     (let code = lower (strip value')
      in if map_of table code = None then Inl (ValueError (''Unsupported '' @ label)) else Inr code)"

definition award_type :: "taxonomy \<Rightarrow> string \<Rightarrow> string result" where
  "award_type t value' = tx_lookup value' (tx_award_types t) ''award type''"

definition funding_type :: "taxonomy \<Rightarrow> string \<Rightarrow> string result" where
  "funding_type t value' = tx_lookup value' (tx_funding_types t) ''funding type''"

definition TAXONOMY :: taxonomy where
  "TAXONOMY =
   \<lparr>tx_version = ''taxonomy-v3'',
    tx_countries = [(''NG'', ''Nigeria''),
     (''CA'', ''Canada''),
     (''GB'', ''United Kingdom''),
     (''US'', ''United States''),
     (''DE'', ''Germany''),
     (''FI'', ''Finland''),
     (''AU'', ''Australia'')],
    tx_degrees = [(''masters'', (''Master'' @ [CHR 0x27] @ ''s'')),
     (''mba'', ''MBA''),
     (''doctorate'', ''PhD'')],
    tx_fields = [(''technology'', ''Technology''),
     (''engineering'', ''Engineering''),
     (''mathematics_and_statistics'', ''Mathematics and Statistics''),
     (''natural_sciences'', ''Natural Sciences''),
     (''health_and_medical_sciences'', ''Health and Medical Sciences''),
     (''business_and_management'', ''Business and Management''),
     (''economics_and_development'', ''Economics and Development''),
     (''social_sciences'', ''Social Sciences''),
     (''law'', ''Law''),
     (''public_policy_and_governance'', ''Public Policy and Governance''),
     (''education'', ''Education''),
     (''arts_humanities_and_design'', ''Arts, Humanities and Design''),
     (''agriculture_and_food_systems'', ''Agriculture and Food Systems''),
     (''environmental_and_climate_sciences'', ''Environmental and Climate Sciences'')],
    tx_field_aliases = [(''ict'', ''technology''),
     (''computer science'', ''technology''),
     (''cs'', ''technology''),
     (''public health'', ''health_and_medical_sciences''),
     (''mph'', ''health_and_medical_sciences''),
     (''health'', ''health_and_medical_sciences''),
     (''welfare'', ''health_and_medical_sciences''),
     (''health_and_welfare'', ''health_and_medical_sciences''),
     (''business_and_administration'', ''business_and_management''),
     (''business_administration_law'', ''business_and_management''),
     (''social_behavioural_sciences'', ''social_sciences''),
     (''social_sciences_journalism_information'', ''social_sciences''),
     (''journalism_and_information'', ''social_sciences''),
     (''engineering_trades'', ''engineering''),
     (''engineering_manufacturing_construction'', ''engineering''),
     (''manufacturing_and_processing'', ''engineering''),
     (''architecture_and_construction'', ''engineering''),
     (''physical_sciences'', ''natural_sciences''),
     (''biological_sciences'', ''natural_sciences''),
     (''natural_sciences_math_stats'', ''natural_sciences''),
     (''environment'', ''environmental_and_climate_sciences''),
     (''agriculture'', ''agriculture_and_food_systems''),
     (''forestry'', ''agriculture_and_food_systems''),
     (''fisheries'', ''agriculture_and_food_systems''),
     (''veterinary'', ''agriculture_and_food_systems''),
     (''agriculture_forestry_fisheries_veterinary'', ''agriculture_and_food_systems''),
     (''arts_and_humanities'', ''arts_humanities_and_design''),
     (''arts'', ''arts_humanities_and_design''),
     (''humanities'', ''arts_humanities_and_design''),
     (''languages'', ''arts_humanities_and_design''),
     (''mathematics'', ''mathematics_and_statistics''),
     (''public_policy'', ''public_policy_and_governance'')],
    tx_degree_aliases = [(''phd'', ''doctorate''),
     (''ph.d'', ''doctorate''),
     (''ph.d.'', ''doctorate''),
     (''doctoral'', ''doctorate''),
     ((''master'' @ [CHR 0x27] @ ''s''), ''masters''),
     (''master'', ''masters''),
     (''msc'', ''masters''),
     (''ma'', ''masters'')],
    tx_award_types = [(''scholarship'', ''Scholarship''),
     (''fellowship'', ''Fellowship''),
     (''assistantship'', ''Assistantship''),
     (''studentship'', ''Studentship''),
     (''grant'', ''Grant'')],
    tx_funding_types = [(''fully_funded'', ''Fully funded''),
     (''partial_funding'', ''Partial funding''),
     (''tuition_only'', ''Tuition only''),
     (''stipend_only'', ''Stipend only'')]\<rparr>"

text \<open>The product's taxonomy bound into its operations.\<close>

abbreviation "tax_degree \<equiv> degree TAXONOMY"
abbreviation "tax_field \<equiv> field TAXONOMY"

section \<open>Search filters\<close>

definition default_vocabulary :: country_vocabulary where
  "default_vocabulary = \<lparr>names = SEED_COUNTRIES, destinations = SUPPORTED_DESTINATIONS\<rparr>"

record search_filters =
  sf_origin :: string
  sf_covered :: "string set"
  sf_uncovered :: "string set"
  sf_degrees :: "string set"
  sf_field :: "string option"
  sf_accepted_fields :: "string set option"

definition normalize_search_filters ::
  "string \<Rightarrow> string list \<Rightarrow> string list \<Rightarrow> string option \<Rightarrow> country_vocabulary option
   \<Rightarrow> search_filters result" where
  "normalize_search_filters origin_country target_countries program_levels fld vocab =
     (let vocabulary = (case vocab of None \<Rightarrow> default_vocabulary | Some v \<Rightarrow> v)
      in bindE (origin vocabulary origin_country) (\<lambda>org.
         bindE (mapE (origin vocabulary) target_countries) (\<lambda>requested.
         let covered = {code \<in> set requested. code \<in> destinations vocabulary};
             uncovered = set requested - covered
         in bindE (case fld of None \<Rightarrow> Inr None
                   | Some f \<Rightarrow> if f = [] then Inr None else bindE (tax_field f) (\<lambda>c. Inr (Some c)))
              (\<lambda>normalized_field.
            let accepted_fields = map_option (\<lambda>c. {c}) normalized_field
            in bindE (mapE tax_degree program_levels) (\<lambda>degrees.
               if degrees = [] then Inl (ValueError ''At least one program level is required'')
               else Inr \<lparr>sf_origin = org, sf_covered = covered, sf_uncovered = uncovered,
                         sf_degrees = set degrees, sf_field = normalized_field,
                         sf_accepted_fields = accepted_fields\<rparr>)))))"

section \<open>Facts about the vocabularies\<close>

lemma collect_codes_set:
  "set (fst (collect_codes r vs)) = {c. \<exists>v \<in> set vs. r v = Inr c}"
  "set (snd (collect_codes r vs)) = {v \<in> set vs. \<exists>e. r v = Inl e}"
  by (induction vs) (auto split: sum.split prod.split simp: Let_def case_prod_beta)

lemma normalize_codes_set:
  "set (fst (normalize_codes r vs)) = {c. \<exists>v \<in> set vs. r v = Inr c}"
  "set (snd (normalize_codes r vs)) = {v \<in> set vs. \<exists>e. r v = Inl e}"
  by (simp_all add: normalize_codes_def case_prod_beta collect_codes_set)

lemma normalize_codes_sorted:
  "sorted (fst (normalize_codes r vs))" "distinct (fst (normalize_codes r vs))"
  "sorted (snd (normalize_codes r vs))" "distinct (snd (normalize_codes r vs))"
  by (simp_all add: normalize_codes_def case_prod_beta)

text \<open>
  A resolver is canonicalising when its results resolve to themselves; bulk normalisation of
  such a resolver is idempotent and leaves nothing unmapped the second time.
\<close>

locale canonical_resolver =
  fixes resolver :: "string \<Rightarrow> string result"
  assumes resolves_itself: "resolver v = Inr c \<Longrightarrow> resolver c = Inr c"
begin

lemma normalize_again:
  "normalize_codes resolver (fst (normalize_codes resolver vs)) = (fst (normalize_codes resolver vs), [])"
proof -
  let ?cs = "fst (normalize_codes resolver vs)"
  have self: "resolver c = Inr c" if "c \<in> set ?cs" for c
    using that resolves_itself by (auto simp: normalize_codes_set)
  have "set (fst (normalize_codes resolver ?cs)) = set ?cs"
    using self by (auto simp: normalize_codes_set(1) [of resolver ?cs])
  then have "fst (normalize_codes resolver ?cs) = ?cs"
    by (metis sorted_distinct_set_unique normalize_codes_sorted(1,2))
  moreover have "set (snd (normalize_codes resolver ?cs)) = {}"
    using self by (auto simp: normalize_codes_set(2) [of resolver ?cs])
  ultimately show ?thesis by (simp add: prod_eq_iff)
qed

lemma canonical_unchanged:
  assumes "sorted cs" "distinct cs" and "\<And>c. c \<in> set cs \<Longrightarrow> \<exists>v. resolver v = Inr c"
  shows "normalize_codes resolver cs = (cs, [])"
proof -
  have self: "resolver c = Inr c" if "c \<in> set cs" for c
    using assms(3) [OF that] resolves_itself by blast
  then have "set (fst (normalize_codes resolver cs)) = set cs"
    by (auto simp: normalize_codes_set(1) [of resolver cs])
  then have "fst (normalize_codes resolver cs) = cs"
    by (metis sorted_distinct_set_unique normalize_codes_sorted(1,2) assms(1,2))
  moreover have "set (snd (normalize_codes resolver cs)) = {}"
    using self by (auto simp: normalize_codes_set(2) [of resolver cs])
  ultimately show ?thesis by (simp add: prod_eq_iff)
qed

end

text \<open>
  A code that is already stripped and lower-case, is a key of the table and no alias, resolves to
  itself. The three conditions are checked on the two tables of the product's taxonomy.
\<close>

lemma map_of_keyD: "map_of xs k = Some y \<Longrightarrow> k \<in> fst ` set xs"
  by (metis domI dom_map_of_conv_image_fst)

lemma map_of_key_iff: "map_of xs k = None \<longleftrightarrow> k \<notin> fst ` set xs"
  by (simp add: map_of_eq_None_iff)

lemma alias_of_fresh: "c \<notin> fst ` set al \<Longrightarrow> alias_of al c = c"
  by (simp add: alias_of_def flip: map_of_key_iff)

lemma degree_keys: "map fst (tx_degrees TAXONOMY) = [''masters'', ''mba'', ''doctorate'']"
  by (simp only: TAXONOMY_def taxonomy.simps list.map fst_conv)

lemma field_keys:
  "map fst (tx_fields TAXONOMY) =
     [''technology'', ''engineering'', ''mathematics_and_statistics'', ''natural_sciences'',
      ''health_and_medical_sciences'', ''business_and_management'', ''economics_and_development'',
      ''social_sciences'', ''law'', ''public_policy_and_governance'', ''education'',
      ''arts_humanities_and_design'', ''agriculture_and_food_systems'',
      ''environmental_and_climate_sciences'']"
  by (simp only: TAXONOMY_def taxonomy.simps list.map fst_conv)

lemma field_keys_plain: "list_all (\<lambda>c. lower (strip c) = c) (map fst (tx_fields TAXONOMY))"
  by (simp add: field_keys string_eval)

lemma field_keys_no_alias:
  "list_all (\<lambda>c. c \<notin> set (map fst (tx_field_aliases TAXONOMY))) (map fst (tx_fields TAXONOMY))"
  unfolding field_keys by (simp only: TAXONOMY_def taxonomy.simps list.map fst_conv) simp

lemma degree_keys_plain: "list_all (\<lambda>c. lower (strip c) = c) (map fst (tx_degrees TAXONOMY))"
  by (simp add: degree_keys string_eval)

lemma degree_keys_no_alias:
  "list_all (\<lambda>c. c \<notin> set (map fst (tx_degree_aliases TAXONOMY))) (map fst (tx_degrees TAXONOMY))"
  unfolding degree_keys by (simp only: TAXONOMY_def taxonomy.simps list.map fst_conv) simp

lemma field_code_fixed:
  assumes c: "c \<in> fst ` set (tx_fields TAXONOMY)"
  shows "tax_field c = Inr c"
proof -
  have "lower (strip c) = c" "c \<notin> fst ` set (tx_field_aliases TAXONOMY)"
    using c field_keys_plain field_keys_no_alias by (auto simp: list_all_iff)
  with c show ?thesis by (simp add: field_def alias_of_fresh map_of_key_iff)
qed

lemma degree_code_fixed:
  assumes c: "c \<in> fst ` set (tx_degrees TAXONOMY)"
  shows "tax_degree c = Inr c"
proof -
  have "lower (strip c) = c" "c \<notin> fst ` set (tx_degree_aliases TAXONOMY)"
    using c degree_keys_plain degree_keys_no_alias by (auto simp: list_all_iff)
  with c show ?thesis by (simp add: degree_def alias_of_fresh map_of_key_iff)
qed

lemma field_range: "field t v = Inr c \<Longrightarrow> c \<in> fst ` set (tx_fields t)"
  by (auto simp: field_def Let_def split: if_splits dest: map_of_keyD)

lemma degree_range: "degree t v = Inr c \<Longrightarrow> c \<in> fst ` set (tx_degrees t)"
  by (auto simp: degree_def Let_def split: if_splits dest: map_of_keyD)

interpretation fields_resolver: canonical_resolver tax_field
  by unfold_locales (blast dest: field_range intro: field_code_fixed)

interpretation degrees_resolver: canonical_resolver tax_degree
  by unfold_locales (blast dest: degree_range intro: degree_code_fixed)

lemma origin_range: "origin v x = Inr c \<Longrightarrow> c \<in> fst ` set (names v)"
  by (auto simp: origin_def Let_def split: if_splits dest: map_of_keyD)

lemma destination_range: "destination v x = Inr c \<Longrightarrow> c \<in> destinations v \<and> c \<in> fst ` set (names v)"
  by (auto simp: destination_def bindE_eq_Inr split: if_splits dest: origin_range)

end
