(* ===== verification/Status.thy ===== *)
theory Status
  imports Vocabulary
begin

text \<open>
  Deadlines, public status and evidence cadence: \<open>src/src/app/domain/status.py\<close> and
  \<open>src/src/app/domain/freshness.py\<close>. A deadline's cutoff is an instant; the zone database is
  the parameter \<open>tz\<close>, and a malformed zone key raises. \<open>now\<close> is an argument, as in the code.
\<close>

section \<open>The deadline cutoff\<close>

definition FAIL_CLOSED_OFFSET :: timedelta where
  "FAIL_CLOSED_OFFSET = hours 14"

definition bad_zone_key :: exn where
  "bad_zone_key = ValueError ''ZoneInfo keys must be normalized relative paths''"

definition deadline_cutoff ::
  "tzdb \<Rightarrow> datetime \<Rightarrow> string \<Rightarrow> string option \<Rightarrow> instant result" where
  "deadline_cutoff tz deadline_at precision timezone =
     (let known = (case timezone of None \<Rightarrow> None | Some z \<Rightarrow> if z = [] then None else Some (tz z))
      in if precision \<noteq> ''date'' then
           if is_aware deadline_at then Inr (instant_of deadline_at)
           else (case known of
                   Some (Zone off) \<Rightarrow> Inr (wall deadline_at - off (wall deadline_at))
                 | Some ZoneBadKey \<Rightarrow> Inl bad_zone_key
                 | _ \<Rightarrow> Inr (wall deadline_at))
         else let eod = end_of_day (date_of deadline_at)
              in (case known of
                    Some (Zone off) \<Rightarrow> Inr (eod - off eod)
                  | Some ZoneBadKey \<Rightarrow> Inl bad_zone_key
                  | _ \<Rightarrow> Inr (eod - FAIL_CLOSED_OFFSET)))"

section \<open>Public status on read\<close>

definition evaluate_public_status ::
  "tzdb \<Rightarrow> public_status \<Rightarrow> datetime option \<Rightarrow> instant option \<Rightarrow> string \<Rightarrow> string option \<Rightarrow> instant
   \<Rightarrow> public_status result" where
  "evaluate_public_status tz stored_status deadline_at status_valid_until precision timezone now =
     (if stored_status = Open_verified then
        bindE (case deadline_at of
                 None \<Rightarrow> Inr False
               | Some dl \<Rightarrow> bindE (deadline_cutoff tz dl precision timezone) (\<lambda>cutoff. Inr (cutoff \<le> now)))
          (\<lambda>lapsed.
             if lapsed then Inr Status_unknown
             else case status_valid_until of
                    Some u \<Rightarrow> if u \<le> now then Inr Status_unknown else Inr stored_status
                  | None \<Rightarrow> Inr stored_status)
      else Inr stored_status)"

definition CLOSING_SOON_WINDOW_DAYS :: int where
  "CLOSING_SOON_WINDOW_DAYS = 14"

definition evaluate_status_detail ::
  "tzdb \<Rightarrow> public_status \<Rightarrow> datetime option \<Rightarrow> string \<Rightarrow> string option \<Rightarrow> int option \<Rightarrow> instant
   \<Rightarrow> string result" where
  "evaluate_status_detail tz status deadline_at precision timezone expected_reopen_month now =
     (case status of
        Open_verified \<Rightarrow>
          (case deadline_at of
             None \<Rightarrow> Inr ''open''
           | Some dl \<Rightarrow>
               bindE (deadline_cutoff tz dl precision timezone) (\<lambda>cutoff.
                 if cutoff - now \<le> days CLOSING_SOON_WINDOW_DAYS then Inr ''closing_soon''
                 else Inr ''open''))
      | Expected_to_reopen \<Rightarrow> Inr ''likely_to_open''
      | Status_unknown \<Rightarrow> Inr ''status_unknown'')"

section \<open>The freshness table\<close>

datatype freshness_bucket =
    Open_far | Open_near | Rolling_open | Upcoming_near | Upcoming_far | Expected_or_unknown
  | Closed_archive

record freshness_config =
  near_deadline_days :: int
  upcoming_near_months :: int
  upcoming_far_months :: int
  open_far_fetch_hours :: int
  open_far_max_age_hours :: int
  open_near_fetch_hours :: int
  open_near_max_age_hours :: int
  rolling_fetch_hours :: int
  rolling_max_age_hours :: int
  upcoming_near_fetch_hours :: int
  upcoming_far_fetch_hours :: int
  upcoming_max_age_hours :: int
  unknown_fetch_hours :: int
  unknown_max_age_hours :: int
  closed_fetch_hours :: int
  closed_max_age_hours :: int

fun fetch_hours_field :: "freshness_bucket \<Rightarrow> freshness_config \<Rightarrow> int" where
  "fetch_hours_field Open_far = open_far_fetch_hours"
| "fetch_hours_field Open_near = open_near_fetch_hours"
| "fetch_hours_field Rolling_open = rolling_fetch_hours"
| "fetch_hours_field Upcoming_near = upcoming_near_fetch_hours"
| "fetch_hours_field Upcoming_far = upcoming_far_fetch_hours"
| "fetch_hours_field Expected_or_unknown = unknown_fetch_hours"
| "fetch_hours_field Closed_archive = closed_fetch_hours"

fun max_age_hours_field :: "freshness_bucket \<Rightarrow> freshness_config \<Rightarrow> int" where
  "max_age_hours_field Open_far = open_far_max_age_hours"
| "max_age_hours_field Open_near = open_near_max_age_hours"
| "max_age_hours_field Rolling_open = rolling_max_age_hours"
| "max_age_hours_field Upcoming_near = upcoming_max_age_hours"
| "max_age_hours_field Upcoming_far = upcoming_max_age_hours"
| "max_age_hours_field Expected_or_unknown = unknown_max_age_hours"
| "max_age_hours_field Closed_archive = closed_max_age_hours"

definition fetch_interval :: "freshness_bucket \<Rightarrow> freshness_config \<Rightarrow> timedelta" where
  "fetch_interval bucket cfg = hours (fetch_hours_field bucket cfg)"

definition max_evidence_age :: "freshness_bucket \<Rightarrow> freshness_config \<Rightarrow> timedelta" where
  "max_evidence_age bucket cfg = hours (max_age_hours_field bucket cfg)"

definition classify_bucket ::
  "tzdb \<Rightarrow> public_status \<Rightarrow> datetime option \<Rightarrow> string \<Rightarrow> string option \<Rightarrow> int option \<Rightarrow> instant
   \<Rightarrow> freshness_config \<Rightarrow> freshness_bucket result" where
  "classify_bucket tz status deadline_at precision timezone expected_reopen_month now cfg =
     (if status = Open_verified then
        (case deadline_at of
           None \<Rightarrow> Inr Rolling_open
         | Some dl \<Rightarrow>
             bindE (deadline_cutoff tz dl precision timezone) (\<lambda>cutoff.
               if cutoff - now \<le> days (near_deadline_days cfg) then Inr Open_near else Inr Open_far))
      else case (status, expected_reopen_month) of
             (Expected_to_reopen, Some m) \<Rightarrow>
               let months_until_reopen = (m - month_of now) mod 12
               in if months_until_reopen \<le> upcoming_near_months cfg then Inr Upcoming_near
                  else if months_until_reopen \<le> upcoming_far_months cfg then Inr Upcoming_far
                  else Inr Expected_or_unknown
           | _ \<Rightarrow> Inr Expected_or_unknown)"

definition is_reverify_due ::
  "freshness_bucket \<Rightarrow> instant option \<Rightarrow> instant \<Rightarrow> freshness_config \<Rightarrow> bool" where
  "is_reverify_due bucket last_verified_at now cfg =
     (case last_verified_at of
        None \<Rightarrow> True
      | Some t \<Rightarrow> now - t \<ge> fetch_interval bucket cfg)"

definition is_unchanged_recheck :: "string option \<Rightarrow> string \<Rightarrow> int \<Rightarrow> bool \<Rightarrow> bool" where
  "is_unchanged_recheck previous_hash new_hash http_status status_still_valid =
     (case previous_hash of
        None \<Rightarrow> False
      | Some h \<Rightarrow>
          if \<not> (200 \<le> http_status \<and> http_status < 400) then False
          else if new_hash \<noteq> h then False
          else status_still_valid)"

text \<open>The defaults of \<open>Settings\<close> (\<open>src/src/app/core/config.py\<close>).\<close>

definition default_freshness_config :: freshness_config where
  "default_freshness_config =
     \<lparr>near_deadline_days = 14, upcoming_near_months = 1, upcoming_far_months = 2,
      open_far_fetch_hours = 24, open_far_max_age_hours = 48, open_near_fetch_hours = 6,
      open_near_max_age_hours = 12, rolling_fetch_hours = 24, rolling_max_age_hours = 48,
      upcoming_near_fetch_hours = 24, upcoming_far_fetch_hours = 168,
      upcoming_max_age_hours = 336, unknown_fetch_hours = 720, unknown_max_age_hours = 1440,
      closed_fetch_hours = 2160, closed_max_age_hours = 4320\<rparr>"

section \<open>Cutoff lemmas\<close>

text \<open>The zones the code may be given: real offsets stay within fourteen hours of UTC.\<close>

definition zone_within :: "tzdb \<Rightarrow> timedelta \<Rightarrow> bool" where
  "zone_within tz bound \<longleftrightarrow> (\<forall>z off w. tz z = Zone off \<longrightarrow> off w \<le> bound)"

lemma deadline_cutoff_aware:
  "precision \<noteq> ''date'' \<Longrightarrow> deadline_cutoff tz (Aware w off) precision timezone = Inr (w - off)"
  by (simp add: deadline_cutoff_def)

lemma deadline_cutoff_date_unknown:
  "timezone = None \<or> timezone = Some [] \<or> (\<exists>z. timezone = Some z \<and> tz z = ZoneInfoNotFoundError) \<Longrightarrow>
   deadline_cutoff tz d ''date'' timezone = Inr (end_of_day (date_of d) - FAIL_CLOSED_OFFSET)"
  by (auto simp: deadline_cutoff_def Let_def)

lemma deadline_cutoff_total:
  "(\<forall>z. timezone = Some z \<longrightarrow> tz z \<noteq> ZoneBadKey) \<Longrightarrow>
   \<exists>c. deadline_cutoff tz d precision timezone = Inr c"
  by (auto simp: deadline_cutoff_def Let_def split: option.split zone_lookup.split)

text \<open>\<open>evaluate_public_status\<close> either keeps the stored value or lowers an open one.\<close>

lemma evaluate_cases:
  "evaluate_public_status tz st dl vu p z now = Inr st' \<Longrightarrow>
   st' = st \<or> (st = Open_verified \<and> st' = Status_unknown)"
  by (auto simp: evaluate_public_status_def bindE_eq_Inr split: if_splits option.splits)

lemma evaluate_open_iff:
  "evaluate_public_status tz st dl vu p z now = Inr Open_verified \<longleftrightarrow>
     st = Open_verified
     \<and> (case dl of None \<Rightarrow> True | Some d \<Rightarrow> \<exists>c. deadline_cutoff tz d p z = Inr c \<and> now < c)
     \<and> (case vu of None \<Rightarrow> True | Some u \<Rightarrow> now < u)"
  by (auto simp: evaluate_public_status_def bindE_eq_Inr not_le split: option.splits if_splits)

lemma evaluate_not_open [simp]:
  "st \<noteq> Open_verified \<Longrightarrow> evaluate_public_status tz st dl vu p z now = Inr st"
  by (simp add: evaluate_public_status_def)

lemma evaluate_raises_iff:
  "evaluate_public_status tz st dl vu p z now = Inl e \<longleftrightarrow>
     st = Open_verified \<and> (\<exists>d. dl = Some d \<and> deadline_cutoff tz d p z = Inl e)"
  by (auto simp: evaluate_public_status_def bindE_eq_Inl split: option.splits if_splits)

lemma classify_open:
  "classify_bucket tz Open_verified (Some d) p z m now cfg = Inr b \<Longrightarrow>
   \<exists>c. deadline_cutoff tz d p z = Inr c \<and>
       b = (if c - now \<le> days (near_deadline_days cfg) then Open_near else Open_far)"
  by (auto simp: classify_bucket_def bindE_eq_Inr split: if_splits)

lemma classify_not_open:
  "st \<noteq> Open_verified \<Longrightarrow> \<exists>b. classify_bucket tz st dl p z m now cfg = Inr b"
  by (auto simp: classify_bucket_def Let_def split: public_status.split option.split)

lemma classify_never_archive:
  "classify_bucket tz st dl p z m now cfg = Inr b \<Longrightarrow> b \<noteq> Closed_archive"
  by (auto simp: classify_bucket_def Let_def bindE_eq_Inr split: if_splits option.splits public_status.splits)

section \<open>Properties\<close>

text \<open>
  A date-only deadline whose zone is unknown is cut off no later than the same date read in
  any real zone (offset at most UTC+14): the fail-closed cutoff never keeps a record open past a
  deadline that has already passed somewhere.
\<close>

theorem date_cutoff_fails_closed:
  assumes "zone_within tz FAIL_CLOSED_OFFSET"
    and "deadline_cutoff tz d ''date'' timezone = Inr c"
    and "deadline_cutoff tz d ''date'' None = Inr c0"
  shows "c0 \<le> c"
proof -
  have c0: "c0 = end_of_day (date_of d) - FAIL_CLOSED_OFFSET"
    using assms(3) by (simp add: deadline_cutoff_date_unknown)
  show ?thesis
    using assms(1,2) unfolding c0
    by (auto simp: deadline_cutoff_def Let_def zone_within_def
        split: option.splits zone_lookup.splits if_splits)
qed

definition demo_tz :: tzdb where
  "demo_tz z = (if z = ''Europe/London'' then Zone (\<lambda>_. hours 1)
                else if z = ''/etc/localtime'' then ZoneBadKey else ZoneInfoNotFoundError)"

theorem date_cutoff_fails_closed_witness:
  "(82799000000 - hours 14 + hours 1 :: int) \<le> end_of_day 0 - hours 1"
proof -
  have tz: "zone_within demo_tz FAIL_CLOSED_OFFSET"
    by (auto simp: zone_within_def demo_tz_def FAIL_CLOSED_OFFSET_def duration_defs split: if_splits)
  have "deadline_cutoff demo_tz (Naive 0) ''date'' (Some ''Europe/London'') = Inr (end_of_day 0 - hours 1)"
    by (simp add: deadline_cutoff_def demo_tz_def date_of_def duration_defs)
  moreover have "deadline_cutoff demo_tz (Naive 0) ''date'' None = Inr (82799000000 - hours 14 + hours 1)"
    by (simp add: deadline_cutoff_def end_of_day_def date_of_def FAIL_CLOSED_OFFSET_def duration_defs)
  ultimately show ?thesis by (rule date_cutoff_fails_closed [OF tz])
qed

text \<open>
  Re-evaluating a status on read never promotes it, and answers \<open>open_verified\<close> exactly when
  the stored status is open, the deadline's cutoff (if any) is still ahead and the validity window
  (if any) has not ended.
\<close>

theorem public_status_open_exactly:
  "evaluate_public_status tz st dl vu p z now = Inr Open_verified \<longleftrightarrow>
     st = Open_verified
     \<and> (case dl of None \<Rightarrow> True | Some d \<Rightarrow> \<exists>c. deadline_cutoff tz d p z = Inr c \<and> now < c)
     \<and> (case vu of None \<Rightarrow> True | Some u \<Rightarrow> now < u)"
  by (rule evaluate_open_iff)

text \<open>
  Time only closes: once a read at some instant no longer shows a cycle as open, no later read
  of the same stored values does.
\<close>

theorem public_status_monotone:
  assumes "evaluate_public_status tz st dl vu p z now = Inr st'" and "st' \<noteq> Open_verified"
    and "now \<le> later"
  shows "evaluate_public_status tz st dl vu p z later = Inr st'"
proof (cases "st = Open_verified")
  case False
  with assms(1) show ?thesis by simp
next
  case st: True
  show ?thesis
  proof (cases dl)
    case None
    with st assms show ?thesis
      by (cases vu) (auto simp: evaluate_public_status_def split: if_splits)
  next
    case (Some d)
    with st assms(1) obtain c where "deadline_cutoff tz d p z = Inr c"
      by (auto simp: evaluate_public_status_def bindE_eq_Inr)
    with st Some assms show ?thesis
      by (cases vu) (auto simp: evaluate_public_status_def split: if_splits)
  qed
qed

theorem public_status_monotone_witness:
  "evaluate_public_status demo_tz Open_verified (Some (Naive 5)) None ''datetime'' None 9
     = Inr Status_unknown"
  by (rule public_status_monotone [where now = 5])
    (simp_all add: evaluate_public_status_def deadline_cutoff_def)

text \<open>
  The cadence table is consistent with the status rule: a cycle whose deadline has passed (so
  that a read shows it as unknown) is always in the near-deadline bucket while it is still stored
  as open, and the archive bucket is never assigned.
\<close>

theorem lapsed_deadline_is_near:
  assumes "0 \<le> near_deadline_days cfg"
    and "classify_bucket tz Open_verified (Some d) p z m now cfg = Inr b"
    and "evaluate_public_status tz Open_verified (Some d) None p z now = Inr Status_unknown"
  shows "b = Open_near \<and> b \<noteq> Closed_archive"
proof -
  obtain c where c: "deadline_cutoff tz d p z = Inr c"
    and b: "b = (if c - now \<le> days (near_deadline_days cfg) then Open_near else Open_far)"
    using classify_open [OF assms(2)] by blast
  have "c \<le> now"
    using assms(3) c by (auto simp: evaluate_public_status_def split: if_splits)
  with assms(1) b show ?thesis by (auto simp: duration_defs)
qed

theorem lapsed_deadline_is_near_witness: "Open_near = Open_near \<and> Open_near \<noteq> Closed_archive"
proof (rule lapsed_deadline_is_near)
  show "0 \<le> near_deadline_days default_freshness_config" by (simp add: default_freshness_config_def)
  show "classify_bucket demo_tz Open_verified (Some (Naive 5)) ''datetime'' None None 9 default_freshness_config
        = Inr Open_near"
    by (simp add: classify_bucket_def deadline_cutoff_def default_freshness_config_def duration_defs)
  show "evaluate_public_status demo_tz Open_verified (Some (Naive 5)) None ''datetime'' None 9
        = Inr Status_unknown"
    by (simp add: evaluate_public_status_def deadline_cutoff_def)
qed

text \<open>
  A stored zone key that is no valid key makes the read itself raise: the deadline functions
  catch only the not-found error, so an open cycle carrying such a key cannot be evaluated at all,
  whatever the time.
\<close>

theorem malformed_zone_key_raises:
  "tz z = ZoneBadKey \<Longrightarrow> z \<noteq> [] \<Longrightarrow>
   evaluate_public_status tz Open_verified (Some d) vu ''date'' (Some z) now = Inl bad_zone_key"
  by (simp add: evaluate_public_status_def deadline_cutoff_def)

theorem malformed_zone_key_raises_witness:
  "evaluate_public_status demo_tz Open_verified (Some (Naive 0)) None ''date'' (Some ''/etc/localtime'') 0
     = Inl bad_zone_key"
  by (rule malformed_zone_key_raises) (simp_all add: demo_tz_def)

end
