(* ===== verification/Facts.thy ===== *)
theory Facts
  imports Status
begin

text \<open>
  The \<open>facts\<close> document of a cycle: validated construction and read-back
  (\<open>src/src/app/domain/publication.py\<close>) and the sanitising read every consumer shares
  (\<open>src/src/app/domain/facts.py\<close>).

  What the code takes from the standard library without reading it here is collected in the
  record \<open>stdlib\<close>: the zone database, \<open>datetime.isoformat\<close> with \<open>datetime.fromisoformat\<close>, and
  \<open>str\<close> of a JSON value that is no string. A builder argument whose annotated type Python does
  not enforce, and which the update path feeds with whatever the stored document holds, is a
  \<open>json\<close> value here as well.
\<close>

record stdlib =
  std_tz :: tzdb
  std_isoformat :: "datetime \<Rightarrow> string"
  std_fromisoformat :: "string \<Rightarrow> datetime option"
  std_str :: "json \<Rightarrow> string"

text \<open>The documented round trip of the ISO codec; a rendered datetime is never empty.\<close>

definition iso_roundtrip :: "stdlib \<Rightarrow> bool" where
  "iso_roundtrip std \<longleftrightarrow>
     (\<forall>d. std_fromisoformat std (std_isoformat std d) = Some d \<and> std_isoformat std d \<noteq> [])"

fun py_str :: "stdlib \<Rightarrow> json \<Rightarrow> string" where
  "py_str std (JStr s) = s"
| "py_str std v = std_str std v"

section \<open>Building the facts of a cycle\<close>

record cycle_inputs =
  in_destinations :: "string list"
  in_levels :: "string list"
  in_origin_mode :: json
  in_origins :: "string list"
  in_field_mode :: json
  in_fields :: "string list"
  in_evidence_fresh :: bool
  in_deadline_at :: "datetime option"
  in_deadline_precision :: json
  in_deadline_timezone :: json
  in_eligibility_note :: json
  in_expected_reopen_month :: json
  in_field_names :: "string list option"
  in_programme_names :: "string list option"
  in_funding_type :: json

definition check_timezone :: "tzdb \<Rightarrow> json \<Rightarrow> unit result" where
  "check_timezone tz v =
     (case v of
        JNull \<Rightarrow> Inr ()
      | JStr z \<Rightarrow>
          (case tz z of
             Zone _ \<Rightarrow> Inr ()
           | ZoneInfoNotFoundError \<Rightarrow> Inl (ValueError (''Unknown deadline_timezone '' @ z))
           | ZoneBadKey \<Rightarrow> Inl bad_zone_key)
      | _ \<Rightarrow> Inl TypeError)"

definition field_label :: "string \<Rightarrow> string result" where
  "field_label code = (case map_of (tx_fields TAXONOMY) code of None \<Rightarrow> Inl KeyError | Some l \<Rightarrow> Inr l)"

definition funding_code :: "json \<Rightarrow> json result" where
  "funding_code v =
     (case v of JStr s \<Rightarrow> bindE (funding_type TAXONOMY s) (\<lambda>c. Inr (JStr c)) | _ \<Rightarrow> Inl AttributeError)"

definition programme_name_list :: "cycle_inputs \<Rightarrow> string list" where
  "programme_name_list i =
     (let source = (case in_programme_names i of
                      Some ns \<Rightarrow> ns
                    | None \<Rightarrow> (case in_field_names i of None \<Rightarrow> [] | Some ns \<Rightarrow> ns))
      in sorted_set (filter (\<lambda>n. n \<noteq> []) (map strip source)))"

text \<open>
  The document itself, key by key in the code's order: the seven that are always there, then each
  optional one. \<open>build_cycle_facts\<close> runs every check, in the code's order, before it.
\<close>

definition assemble_facts ::
  "stdlib \<Rightarrow> cycle_inputs \<Rightarrow> string list \<Rightarrow> string list \<Rightarrow> string list \<Rightarrow> string list \<Rightarrow> string list
   \<Rightarrow> json \<Rightarrow> dict" where
  "assemble_facts std i dests levels origins flds labels ft =
     (let facts = [(''destinations'', jstrs dests),
                   (''levels'', jstrs levels),
                   (''origin_mode'', in_origin_mode i),
                   (''origins'', jstrs origins),
                   (''field_mode'', in_field_mode i),
                   (''fields'', jstrs flds),
                   (''evidence_fresh'', JBool (in_evidence_fresh i))];
          facts = dset_if (truthy (in_eligibility_note i)) ''eligibility_note'' (in_eligibility_note i) facts;
          facts = dset_if (in_expected_reopen_month i \<noteq> JNull) ''expected_reopen_month''
                    (in_expected_reopen_month i) facts;
          facts = dset_if (flds \<noteq> []) ''field_names'' (jstrs labels) facts;
          facts = dset_if (programme_name_list i \<noteq> []) ''programme_names''
                    (jstrs (programme_name_list i)) facts;
          facts = dset_if (truthy (in_funding_type i)) ''funding_type'' ft facts
      in case in_deadline_at i of
           None \<Rightarrow> facts
         | Some d \<Rightarrow>
             let facts = dset ''deadline_at'' (JStr (std_isoformat std d)) facts;
                 facts = dset ''deadline_precision'' (in_deadline_precision i) facts
             in dset_if (in_deadline_timezone i \<noteq> JNull) ''deadline_timezone''
                  (in_deadline_timezone i) facts)"

definition build_cycle_facts ::
  "stdlib \<Rightarrow> country_vocabulary \<Rightarrow> cycle_inputs \<Rightarrow> dict result" where
  "build_cycle_facts std vocab i =
     bindE (mapE (destination vocab) (in_destinations i)) (\<lambda>dests.
     bindE (guardE (dests \<noteq> []) (ValueError ''At least one destination is required'')) (\<lambda>_.
     bindE (mapE tax_degree (in_levels i)) (\<lambda>levels.
     bindE (guardE (levels \<noteq> []) (ValueError ''At least one degree level is required'')) (\<lambda>_.
     bindE (mapE (origin vocab) (in_origins i)) (\<lambda>origins.
     bindE (guardE (\<not> (in_origin_mode i = JStr ''restricted'' \<and> origins = []))
              (ValueError ''origin_mode restricted requires at least one origin'')) (\<lambda>_.
     bindE (mapE tax_field (in_fields i)) (\<lambda>flds.
     bindE (guardE (\<not> (in_field_mode i = JStr ''restricted'' \<and> flds = []))
              (ValueError ''field_mode restricted requires at least one field'')) (\<lambda>_.
     bindE (check_timezone (std_tz std) (in_deadline_timezone i)) (\<lambda>_.
     bindE (mapE field_label (sorted_set flds)) (\<lambda>labels.
     bindE (if truthy (in_funding_type i) then funding_code (in_funding_type i) else Inr JNull) (\<lambda>ft.
     Inr (assemble_facts std i (sorted_set dests) (sorted_set levels) (sorted_set origins)
            (sorted_set flds) labels ft))))))))))))"

section \<open>Reading stored facts back as inputs\<close>

definition string_list :: "json \<Rightarrow> string list" where
  "string_list v =
     (case v of
        JList xs \<Rightarrow> List.map_filter (\<lambda>x. case x of JStr s \<Rightarrow> Some s | _ \<Rightarrow> None) xs
      | _ \<Rightarrow> [])"

definition cycle_facts_to_inputs :: "stdlib \<Rightarrow> dict \<Rightarrow> cycle_inputs result" where
  "cycle_facts_to_inputs std facts =
     bindE (case dget facts ''deadline_at'' of
              JStr s \<Rightarrow>
                if s = [] then Inr None
                else (case std_fromisoformat std s of
                        Some d \<Rightarrow> Inr (Some d)
                      | None \<Rightarrow> Inl (ValueError (''Stored deadline_at '' @ s @ '' is not a valid timestamp'')))
            | _ \<Rightarrow> Inr None) (\<lambda>parsed_deadline.
     Inr \<lparr>in_destinations = string_list (dget facts ''destinations''),
          in_levels = string_list (dget facts ''levels''),
          in_origin_mode = dget_or facts ''origin_mode'' (JStr ''unknown''),
          in_origins = string_list (dget facts ''origins''),
          in_field_mode = dget_or facts ''field_mode'' (JStr ''unknown''),
          in_fields = string_list (dget facts ''fields''),
          in_evidence_fresh = truthy (dget_or facts ''evidence_fresh'' (JBool False)),
          in_deadline_at = parsed_deadline,
          in_deadline_precision = dget_or facts ''deadline_precision'' (JStr ''date''),
          in_deadline_timezone = dget facts ''deadline_timezone'',
          in_eligibility_note = dget facts ''eligibility_note'',
          in_expected_reopen_month = dget facts ''expected_reopen_month'',
          in_field_names = None,
          in_programme_names = Some (string_list (dget facts ''programme_names'')),
          in_funding_type = dget facts ''funding_type''\<rparr>)"

section \<open>The sanitising read\<close>

definition safe_deadline_at :: "stdlib \<Rightarrow> json \<Rightarrow> datetime option" where
  "safe_deadline_at std v =
     (if \<not> truthy v then None
      else case v of JStr s \<Rightarrow> std_fromisoformat std s | _ \<Rightarrow> None)"

record derived_facts =
  df_deadline_at :: "datetime option"
  df_deadline_precision :: string
  df_deadline_timezone :: "string option"
  df_degree_levels :: "string list"
  df_expected_reopen_month :: "int option"
  df_funding_type :: "string option"
  df_destinations :: "string list"
  df_eligibility_note :: "string option"
  df_field_names :: "string list"
  df_programme_names :: "string list"
  df_origin_mode :: string
  df_origins :: "string list"
  df_field_mode :: string
  df_fields :: "string list"
  df_evidence_fresh :: bool

definition clamp_literal :: "json \<Rightarrow> string list \<Rightarrow> string \<Rightarrow> string" where
  "clamp_literal v allowed dflt =
     (case v of JStr s \<Rightarrow> if s \<in> set allowed then s else dflt | _ \<Rightarrow> dflt)"

definition reopen_month :: "json \<Rightarrow> int option" where
  "reopen_month v = (case v of JInt m \<Rightarrow> if 1 \<le> m \<and> m \<le> 12 then Some m else None | _ \<Rightarrow> None)"

definition safe_funding_type :: "json \<Rightarrow> string option" where
  "safe_funding_type v =
     (case v of
        JStr s \<Rightarrow> (case funding_type TAXONOMY s of Inr c \<Rightarrow> Some c | Inl _ \<Rightarrow> None)
      | _ \<Rightarrow> None)"

definition derive_facts :: "stdlib \<Rightarrow> dict \<Rightarrow> derived_facts" where
  "derive_facts std facts =
     (let canonical_fields = fst (normalize_fields TAXONOMY (string_list (dget_or facts ''fields'' (JList []))));
          canonical_degrees = fst (normalize_degrees TAXONOMY (string_list (dget_or facts ''levels'' (JList []))))
      in \<lparr>df_deadline_at = safe_deadline_at std (dget facts ''deadline_at''),
          df_deadline_precision =
            clamp_literal (dget_or facts ''deadline_precision'' (JStr ''datetime''))
              [''date'', ''datetime''] ''datetime'',
          df_deadline_timezone = (case dget facts ''deadline_timezone'' of JStr z \<Rightarrow> Some z | _ \<Rightarrow> None),
          df_degree_levels = canonical_degrees,
          df_expected_reopen_month = reopen_month (dget facts ''expected_reopen_month''),
          df_funding_type = safe_funding_type (dget facts ''funding_type''),
          df_destinations =
            (case dget_or facts ''destinations'' (JList []) of
               JList xs \<Rightarrow> sorted_set (map (py_str std) xs) | _ \<Rightarrow> []),
          df_eligibility_note =
            (case dget facts ''eligibility_note'' of
               JStr s \<Rightarrow> if s = [] then None else Some s | _ \<Rightarrow> None),
          df_field_names =
            sorted_set (map (\<lambda>c. case map_of (tx_fields TAXONOMY) c of Some l \<Rightarrow> l | None \<Rightarrow> c)
              canonical_fields),
          df_programme_names = string_list (dget_or facts ''programme_names'' (JList [])),
          df_origin_mode =
            clamp_literal (dget facts ''origin_mode'') [''restricted'', ''unrestricted'', ''unknown'']
              ''unknown'',
          df_origins = string_list (dget_or facts ''origins'' (JList [])),
          df_field_mode =
            clamp_literal (dget facts ''field_mode'') [''restricted'', ''all'', ''unknown''] ''unknown'',
          df_fields = canonical_fields,
          df_evidence_fresh = (case dget facts ''evidence_fresh'' of JBool b \<Rightarrow> b | _ \<Rightarrow> False)\<rparr>)"

definition public_deadline_precision :: "derived_facts \<Rightarrow> string option" where
  "public_deadline_precision df =
     (case df_deadline_at df of None \<Rightarrow> None | Some _ \<Rightarrow> Some (df_deadline_precision df))"

definition sanitized_dict :: "stdlib \<Rightarrow> derived_facts \<Rightarrow> dict" where
  "sanitized_dict std df =
     (let r = [(''destinations'', jstrs (df_destinations df)),
               (''levels'', jstrs (df_degree_levels df)),
               (''origin_mode'', JStr (df_origin_mode df)),
               (''origins'', jstrs (df_origins df)),
               (''field_mode'', JStr (df_field_mode df)),
               (''fields'', jstrs (df_fields df)),
               (''evidence_fresh'', JBool (df_evidence_fresh df))];
          r = (case df_eligibility_note df of None \<Rightarrow> r | Some s \<Rightarrow> dset ''eligibility_note'' (JStr s) r);
          r = (case df_expected_reopen_month df of
                 None \<Rightarrow> r | Some m \<Rightarrow> dset ''expected_reopen_month'' (JInt m) r);
          r = dset_if (df_field_names df \<noteq> []) ''field_names'' (jstrs (df_field_names df)) r;
          r = dset_if (df_programme_names df \<noteq> []) ''programme_names'' (jstrs (df_programme_names df)) r;
          r = (case df_funding_type df of None \<Rightarrow> r | Some s \<Rightarrow> dset ''funding_type'' (JStr s) r)
      in case df_deadline_at df of
           None \<Rightarrow> r
         | Some d \<Rightarrow>
             let r = dset ''deadline_at'' (JStr (std_isoformat std d)) r;
                 r = dset ''deadline_precision'' (JStr (df_deadline_precision df)) r
             in (case df_deadline_timezone df of
                   None \<Rightarrow> r | Some z \<Rightarrow> dset ''deadline_timezone'' (JStr z) r))"

section \<open>Lemmas\<close>

lemma string_list_jstrs [simp]: "string_list (jstrs ss) = ss"
  by (induction ss) (simp_all add: string_list_def jstrs_def map_filter_simps)

lemma string_list_empty [simp]: "string_list JNull = []" "string_list (JList []) = []"
  by (simp_all add: string_list_def map_filter_simps)

lemma map_py_str [simp]: "map (py_str std) (map JStr ss) = ss"
  by (induction ss) auto

lemma mapE_fixed: "(\<And>x. x \<in> set xs \<Longrightarrow> f x = Inr x) \<Longrightarrow> mapE f xs = Inr xs"
  using mapE_Inr [of xs f id] by simp

lemma funding_keys: "map fst (tx_funding_types TAXONOMY) = [''fully_funded'', ''partial_funding'', ''tuition_only'', ''stipend_only'']"
  by (simp only: TAXONOMY_def taxonomy.simps list.map fst_conv)

lemma funding_keys_plain:
  "list_all (\<lambda>c. lower (strip c) = c \<and> c \<noteq> []) (map fst (tx_funding_types TAXONOMY))"
  by (simp add: funding_keys string_eval)

lemma funding_range: "funding_type TAXONOMY v = Inr c \<Longrightarrow> c \<in> fst ` set (tx_funding_types TAXONOMY)"
  by (auto simp: funding_type_def tx_lookup_def Let_def split: if_splits dest: map_of_keyD)

lemma funding_code_fixed:
  assumes c: "c \<in> fst ` set (tx_funding_types TAXONOMY)"
  shows "funding_type TAXONOMY c = Inr c" and "c \<noteq> []"
proof -
  have "lower (strip c) = c" and "c \<noteq> []"
    using c funding_keys_plain by (auto simp: list_all_iff)
  with c show "funding_type TAXONOMY c = Inr c" and "c \<noteq> []"
    by (simp_all add: funding_type_def tx_lookup_def map_of_key_iff)
qed

lemma funding_code_again:
  assumes "funding_code v = Inr ft"
  shows "truthy ft \<and> funding_code ft = Inr ft \<and> (\<exists>c. ft = JStr c)"
proof -
  obtain s c where ft: "ft = JStr c" and c: "funding_type TAXONOMY s = Inr c"
    using assms by (auto simp: funding_code_def bindE_eq_Inr split: json.splits)
  from funding_code_fixed [OF funding_range [OF c]] ft show ?thesis
    by (simp add: funding_code_def)
qed

text \<open>A vocabulary whose codes are normalised, as the country mirror stores them.\<close>

definition codes_normalised :: "country_vocabulary \<Rightarrow> bool" where
  "codes_normalised v \<longleftrightarrow> (\<forall>c \<in> fst ` set (names v). upper (strip c) = c)"

lemma origin_again:
  assumes "codes_normalised v" and "origin v x = Inr c"
  shows "origin v c = Inr c"
proof -
  have "c \<in> fst ` set (names v)" using assms(2) by (rule origin_range)
  moreover from this have "upper (strip c) = c"
    using assms(1) unfolding codes_normalised_def by blast
  ultimately show ?thesis by (simp add: origin_def map_of_key_iff)
qed

lemma destination_again:
  "codes_normalised v \<Longrightarrow> destination v x = Inr c \<Longrightarrow> destination v c = Inr c"
  by (auto simp: destination_def bindE_eq_Inr origin_again split: if_splits)

lemma build_cycle_facts_Inr:
  "build_cycle_facts std v i = Inr f \<longleftrightarrow>
   (\<exists>dests levels origins flds labels ft.
      mapE (destination v) (in_destinations i) = Inr dests \<and> dests \<noteq> []
      \<and> mapE tax_degree (in_levels i) = Inr levels \<and> levels \<noteq> []
      \<and> mapE (origin v) (in_origins i) = Inr origins
      \<and> \<not> (in_origin_mode i = JStr ''restricted'' \<and> origins = [])
      \<and> mapE tax_field (in_fields i) = Inr flds
      \<and> \<not> (in_field_mode i = JStr ''restricted'' \<and> flds = [])
      \<and> check_timezone (std_tz std) (in_deadline_timezone i) = Inr ()
      \<and> mapE field_label (sorted_set flds) = Inr labels
      \<and> (if truthy (in_funding_type i) then funding_code (in_funding_type i) else Inr JNull) = Inr ft
      \<and> f = assemble_facts std i (sorted_set dests) (sorted_set levels) (sorted_set origins)
               (sorted_set flds) labels ft)"
  unfolding build_cycle_facts_def bindE_eq_Inr guardE_eq_Inr by auto

lemma programme_name_list_again:
  assumes "in_programme_names j = Some (programme_name_list i)"
  shows "programme_name_list j = programme_name_list i"
proof -
  have "map strip (programme_name_list i) = programme_name_list i"
    by (rule map_idI) (auto simp: programme_name_list_def Let_def)
  moreover have "filter (\<lambda>n. n \<noteq> []) (programme_name_list i) = programme_name_list i"
    by (auto simp: programme_name_list_def Let_def filter_id_conv)
  moreover have "sorted_set (programme_name_list i) = programme_name_list i"
    by (simp add: programme_name_list_def Let_def)
  ultimately show ?thesis
    unfolding programme_name_list_def [of j] by (simp add: assms)
qed

lemma assemble_facts_cong:
  assumes "in_origin_mode j = in_origin_mode i" "in_field_mode j = in_field_mode i"
    and "in_evidence_fresh j = in_evidence_fresh i" "in_deadline_at j = in_deadline_at i"
    and "in_deadline_at i \<noteq> None \<Longrightarrow> in_deadline_precision j = in_deadline_precision i"
    and "in_deadline_at i \<noteq> None \<Longrightarrow> in_deadline_timezone j = in_deadline_timezone i"
    and "truthy (in_eligibility_note j) = truthy (in_eligibility_note i)"
    and "truthy (in_eligibility_note i) \<Longrightarrow> in_eligibility_note j = in_eligibility_note i"
    and "in_expected_reopen_month j = in_expected_reopen_month i"
    and "programme_name_list j = programme_name_list i"
    and "truthy (in_funding_type j) = truthy (in_funding_type i)"
  shows "assemble_facts std j ds ls os fs labels ft = assemble_facts std i ds ls os fs labels ft"
  using assms
  by (cases "in_deadline_at i"; cases "truthy (in_eligibility_note i)")
    (simp_all add: assemble_facts_def Let_def dset_if_def)

text \<open>What reading an assembled document back gives, key by key.\<close>

lemma assemble_get:
  "dget (assemble_facts std i ds ls os fs labels ft) ''destinations'' = jstrs ds"
  "dget (assemble_facts std i ds ls os fs labels ft) ''levels'' = jstrs ls"
  "dget (assemble_facts std i ds ls os fs labels ft) ''origins'' = jstrs os"
  "dget (assemble_facts std i ds ls os fs labels ft) ''fields'' = jstrs fs"
  "dget_or (assemble_facts std i ds ls os fs labels ft) ''origin_mode'' dm = in_origin_mode i"
  "dget_or (assemble_facts std i ds ls os fs labels ft) ''field_mode'' dm = in_field_mode i"
  "dget_or (assemble_facts std i ds ls os fs labels ft) ''evidence_fresh'' dm = JBool (in_evidence_fresh i)"
  "dget (assemble_facts std i ds ls os fs labels ft) ''eligibility_note'' =
     (if truthy (in_eligibility_note i) then in_eligibility_note i else JNull)"
  "dget (assemble_facts std i ds ls os fs labels ft) ''expected_reopen_month'' =
     in_expected_reopen_month i"
  "dget (assemble_facts std i ds ls os fs labels ft) ''programme_names'' =
     (if programme_name_list i = [] then JNull else jstrs (programme_name_list i))"
  "dget (assemble_facts std i ds ls os fs labels ft) ''funding_type'' =
     (if truthy (in_funding_type i) then ft else JNull)"
  "dget (assemble_facts std i ds ls os fs labels ft) ''deadline_at'' =
     (case in_deadline_at i of None \<Rightarrow> JNull | Some d \<Rightarrow> JStr (std_isoformat std d))"
  "dget_or (assemble_facts std i ds ls os fs labels ft) ''deadline_precision'' dm =
     (case in_deadline_at i of None \<Rightarrow> dm | Some d \<Rightarrow> in_deadline_precision i)"
  "dget (assemble_facts std i ds ls os fs labels ft) ''deadline_timezone'' =
     (case in_deadline_at i of None \<Rightarrow> JNull | Some d \<Rightarrow> in_deadline_timezone i)"
  by (simp_all add: assemble_facts_def Let_def split: option.split)

section \<open>Properties\<close>

text \<open>
  C25. What publishing accepts is what search recognises: facts that are built name at least one
  destination, all with verified coverage, at least one degree level and only taxonomy codes, and
  a restricted mode always lists what it restricts to.
\<close>

theorem built_facts_are_well_formed:
  assumes "build_cycle_facts std v i = Inr f"
  shows "string_list (dget f ''destinations'') \<noteq> []
     \<and> set (string_list (dget f ''destinations'')) \<subseteq> destinations v
     \<and> string_list (dget f ''levels'') \<noteq> []
     \<and> set (string_list (dget f ''levels'')) \<subseteq> fst ` set (tx_degrees TAXONOMY)
     \<and> set (string_list (dget f ''fields'')) \<subseteq> fst ` set (tx_fields TAXONOMY)
     \<and> (dget_or f ''origin_mode'' JNull = JStr ''restricted'' \<longrightarrow> string_list (dget f ''origins'') \<noteq> [])
     \<and> (dget_or f ''field_mode'' JNull = JStr ''restricted'' \<longrightarrow> string_list (dget f ''fields'') \<noteq> [])"
proof -
  obtain dests levels origins flds labels ft where
    d: "mapE (destination v) (in_destinations i) = Inr dests" "dests \<noteq> []"
    and l: "mapE tax_degree (in_levels i) = Inr levels" "levels \<noteq> []"
    and o: "\<not> (in_origin_mode i = JStr ''restricted'' \<and> origins = [])"
    and fl: "mapE tax_field (in_fields i) = Inr flds"
      "\<not> (in_field_mode i = JStr ''restricted'' \<and> flds = [])"
    and f: "f = assemble_facts std i (sorted_set dests) (sorted_set levels) (sorted_set origins)
               (sorted_set flds) labels ft"
    using assms unfolding build_cycle_facts_Inr by blast
  have "set dests \<subseteq> destinations v"
    using destination_range by (auto simp: mapE_eq_Inr_set [OF d(1)])
  moreover have "set levels \<subseteq> fst ` set (tx_degrees TAXONOMY)"
    using degree_range by (auto simp: mapE_eq_Inr_set [OF l(1)])
  moreover have "set flds \<subseteq> fst ` set (tx_fields TAXONOMY)"
    using field_range by (auto simp: mapE_eq_Inr_set [OF fl(1)])
  ultimately show ?thesis using d(2) l(2) o fl(2) by (simp add: f assemble_get)
qed

text \<open>Stored facts read back as inputs that build them again.\<close>

lemma facts_read_back:
  assumes "iso_roundtrip std" and "codes_normalised v"
    and "build_cycle_facts std v i = Inr f"
  shows "\<exists>i'. cycle_facts_to_inputs std f = Inr i' \<and> build_cycle_facts std v i' = Inr f"
proof -
  obtain dests levels origins flds labels ft where
    d: "mapE (destination v) (in_destinations i) = Inr dests" "dests \<noteq> []"
    and l: "mapE tax_degree (in_levels i) = Inr levels" "levels \<noteq> []"
    and o: "mapE (origin v) (in_origins i) = Inr origins"
      "\<not> (in_origin_mode i = JStr ''restricted'' \<and> origins = [])"
    and fl: "mapE tax_field (in_fields i) = Inr flds"
      "\<not> (in_field_mode i = JStr ''restricted'' \<and> flds = [])"
    and tz: "check_timezone (std_tz std) (in_deadline_timezone i) = Inr ()"
    and lab: "mapE field_label (sorted_set flds) = Inr labels"
    and ft: "(if truthy (in_funding_type i) then funding_code (in_funding_type i) else Inr JNull) = Inr ft"
    and f: "f = assemble_facts std i (sorted_set dests) (sorted_set levels) (sorted_set origins)
               (sorted_set flds) labels ft"
    using assms(3) unfolding build_cycle_facts_Inr by blast
  let ?i' = "\<lparr>in_destinations = sorted_set dests, in_levels = sorted_set levels,
     in_origin_mode = in_origin_mode i, in_origins = sorted_set origins,
     in_field_mode = in_field_mode i, in_fields = sorted_set flds,
     in_evidence_fresh = in_evidence_fresh i, in_deadline_at = in_deadline_at i,
     in_deadline_precision =
       (case in_deadline_at i of None \<Rightarrow> JStr ''date'' | Some _ \<Rightarrow> in_deadline_precision i),
     in_deadline_timezone =
       (case in_deadline_at i of None \<Rightarrow> JNull | Some _ \<Rightarrow> in_deadline_timezone i),
     in_eligibility_note =
       (if truthy (in_eligibility_note i) then in_eligibility_note i else JNull),
     in_expected_reopen_month = in_expected_reopen_month i, in_field_names = None,
     in_programme_names = Some (programme_name_list i),
     in_funding_type = (if truthy (in_funding_type i) then ft else JNull)\<rparr>"
  have read: "cycle_facts_to_inputs std f = Inr ?i'"
    using assms(1)
    by (cases "in_deadline_at i"; cases "programme_name_list i = []")
      (simp_all add: cycle_facts_to_inputs_def f assemble_get iso_roundtrip_def)
  have pn: "programme_name_list ?i' = programme_name_list i"
    by (rule programme_name_list_again) simp
  have ft_truthy: "truthy (if truthy (in_funding_type i) then ft else JNull) = truthy (in_funding_type i)"
    and ft_id: "(if truthy (in_funding_type i) then ft else JNull) = ft"
    using ft funding_code_again [of "in_funding_type i" ft] by (auto split: if_splits)
  have same: "assemble_facts std ?i' (sorted_set dests) (sorted_set levels) (sorted_set origins)
               (sorted_set flds) labels (if truthy (in_funding_type i) then ft else JNull) = f"
    unfolding f ft_id
    by (rule assemble_facts_cong) (use ft_truthy ft_id pn in \<open>auto split: option.split\<close>)
  have "build_cycle_facts std v ?i' = Inr f"
    unfolding build_cycle_facts_Inr
  proof (intro exI conjI)
    show "mapE (destination v) (in_destinations ?i') = Inr (sorted_set dests)"
      using destination_again [OF assms(2)] by (auto simp: mapE_eq_Inr_set [OF d(1)] intro!: mapE_fixed)
    show "mapE tax_degree (in_levels ?i') = Inr (sorted_set levels)"
      using degrees_resolver.resolves_itself
      by (auto simp: mapE_eq_Inr_set [OF l(1)] intro!: mapE_fixed)
    show "mapE (origin v) (in_origins ?i') = Inr (sorted_set origins)"
      using origin_again [OF assms(2)] by (auto simp: mapE_eq_Inr_set [OF o(1)] intro!: mapE_fixed)
    show "mapE tax_field (in_fields ?i') = Inr (sorted_set flds)"
      using fields_resolver.resolves_itself
      by (auto simp: mapE_eq_Inr_set [OF fl(1)] intro!: mapE_fixed)
    show "check_timezone (std_tz std) (in_deadline_timezone ?i') = Inr ()"
      using tz by (simp add: check_timezone_def split: option.split)
    show "mapE field_label (sorted_set (sorted_set flds)) = Inr labels" by (simp add: lab)
    show "(if truthy (in_funding_type ?i') then funding_code (in_funding_type ?i') else Inr JNull)
        = Inr (if truthy (in_funding_type i) then ft else JNull)"
      using ft funding_code_again [of "in_funding_type i" ft] by auto
  qed (use d l o fl same in simp_all)
  with read show ?thesis by blast
qed

text \<open>
  C21. Editing re-validates without drift: facts that were built read back as inputs, and building
  again from those inputs gives the same document, key for key.
\<close>

theorem facts_edit_roundtrip:
  assumes "iso_roundtrip std" and "codes_normalised v"
    and "build_cycle_facts std v i = Inr f"
  shows "\<exists>i'. cycle_facts_to_inputs std f = Inr i' \<and> build_cycle_facts std v i' = Inr f"
  by (rule facts_read_back [OF assms])

text \<open>
  A concrete instance: a toy codec with the round trip, and an intake for one destination.
\<close>

definition demo_isoformat :: "datetime \<Rightarrow> string" where
  "demo_isoformat d =
     (case d of
        Naive w \<Rightarrow> (if 0 \<le> w then ''N+'' else ''N-'') @ replicate (nat \<bar>w\<bar>) (CHR ''1'')
      | Aware w z \<Rightarrow> (if 0 \<le> w then ''A+'' else ''A-'') @ replicate (nat \<bar>w\<bar>) (CHR ''1'')
          @ (if 0 \<le> z then ''+'' else ''-'') @ replicate (nat \<bar>z\<bar>) (CHR ''1''))"

definition demo_sign :: "char \<Rightarrow> int" where
  "demo_sign c = (if c = CHR ''+'' then 1 else -1)"

definition demo_fromisoformat :: "string \<Rightarrow> datetime option" where
  "demo_fromisoformat s =
     (case s of
        k # sg # r \<Rightarrow>
          (let ones = takeWhile (\<lambda>c. c = CHR ''1'') r; rest = dropWhile (\<lambda>c. c = CHR ''1'') r
           in if k = CHR ''N'' then Some (Naive (demo_sign sg * int (length r)))
              else (case rest of
                      zs # q \<Rightarrow> Some (Aware (demo_sign sg * int (length ones)) (demo_sign zs * int (length q)))
                    | [] \<Rightarrow> None))
      | _ \<Rightarrow> None)"

definition demo_std :: stdlib where
  "demo_std =
     \<lparr>std_tz = demo_tz, std_isoformat = demo_isoformat, std_fromisoformat = demo_fromisoformat,
      std_str = (\<lambda>_. ''None'')\<rparr>"

lemma demo_std_roundtrip: "iso_roundtrip demo_std"
proof -
  have tw: "takeWhile (\<lambda>c. c = CHR ''1'') (replicate n (CHR ''1'') @ c # r) = replicate n (CHR ''1'')"
    and dw: "dropWhile (\<lambda>c. c = CHR ''1'') (replicate n (CHR ''1'') @ c # r) = c # r"
    if "c \<noteq> CHR ''1''" for n c and r :: string
    using that by (induction n) auto
  have "demo_fromisoformat (demo_isoformat d) = Some d \<and> demo_isoformat d \<noteq> []" for d
    by (cases d) (auto simp: demo_fromisoformat_def demo_isoformat_def demo_sign_def tw dw Let_def)
  then show ?thesis by (simp add: iso_roundtrip_def demo_std_def)
qed

definition demo_inputs :: cycle_inputs where
  "demo_inputs =
     \<lparr>in_destinations = ['' gb ''], in_levels = [''PhD''], in_origin_mode = JStr ''restricted'',
      in_origins = [''ng'', ''NG''], in_field_mode = JStr ''all'', in_fields = [''Law''],
      in_evidence_fresh = True, in_deadline_at = Some (Naive 7), in_deadline_precision = JStr ''date'',
      in_deadline_timezone = JStr ''Europe/London'', in_eligibility_note = JNull,
      in_expected_reopen_month = JNull, in_field_names = Some ['' LLM '', []],
      in_programme_names = None, in_funding_type = JStr '' Tuition_only ''\<rparr>"

definition demo_vocab :: country_vocabulary where
  "demo_vocab = \<lparr>names = [(''NG'', ''Nigeria''), (''GB'', ''United Kingdom'')], destinations = {''GB''}\<rparr>"

definition demo_facts :: dict where
  "demo_facts =
     [(''destinations'', jstrs [''GB'']), (''levels'', jstrs [''doctorate'']),
      (''origin_mode'', JStr ''restricted''), (''origins'', jstrs [''NG'']),
      (''field_mode'', JStr ''all''), (''fields'', jstrs [''law'']), (''evidence_fresh'', JBool True),
      (''field_names'', jstrs [''Law'']), (''programme_names'', jstrs [''LLM'']),
      (''funding_type'', JStr ''tuition_only''), (''deadline_at'', JStr ''N+1111111''),
      (''deadline_precision'', JStr ''date''), (''deadline_timezone'', JStr ''Europe/London'')]"

lemma demo_resolve:
  "tax_degree ''PhD'' = Inr ''doctorate''" "tax_field ''Law'' = Inr ''law''"
  "field_label ''law'' = Inr ''Law''"
  "funding_type TAXONOMY '' Tuition_only '' = Inr ''tuition_only''"
  by (simp_all add: degree_def field_def alias_of_def field_label_def funding_type_def tx_lookup_def
      string_eval TAXONOMY_def)

lemma demo_build: "build_cycle_facts demo_std demo_vocab demo_inputs = Inr demo_facts"
  unfolding demo_facts_def
  by (simp add: build_cycle_facts_def demo_inputs_def demo_vocab_def demo_std_def demo_tz_def
      destination_def origin_def string_eval demo_resolve demo_isoformat_def
      check_timezone_def guardE_def sorted_set_def assemble_facts_def
      programme_name_list_def funding_code_def dset_if_def dset_def Let_def numeral_eq_Suc)

theorem built_facts_are_well_formed_witness:
  "string_list (dget demo_facts ''destinations'') \<noteq> []"
  using built_facts_are_well_formed [OF demo_build] by blast

theorem facts_edit_roundtrip_witness:
  "\<exists>i'. cycle_facts_to_inputs demo_std demo_facts = Inr i'
       \<and> build_cycle_facts demo_std demo_vocab i' = Inr demo_facts"
proof (rule facts_edit_roundtrip [OF demo_std_roundtrip _ demo_build])
  show "codes_normalised demo_vocab"
    by (simp add: codes_normalised_def demo_vocab_def string_eval)
qed

text \<open>The sanitised fields one at a time.\<close>

lemma derive_sel:
  "df_deadline_at (derive_facts std f) = safe_deadline_at std (dget f ''deadline_at'')"
  "df_deadline_precision (derive_facts std f) =
     clamp_literal (dget_or f ''deadline_precision'' (JStr ''datetime'')) [''date'', ''datetime''] ''datetime''"
  "df_deadline_timezone (derive_facts std f) =
     (case dget f ''deadline_timezone'' of JStr z \<Rightarrow> Some z | _ \<Rightarrow> None)"
  "df_degree_levels (derive_facts std f) =
     fst (normalize_degrees TAXONOMY (string_list (dget_or f ''levels'' (JList []))))"
  "df_expected_reopen_month (derive_facts std f) = reopen_month (dget f ''expected_reopen_month'')"
  "df_funding_type (derive_facts std f) = safe_funding_type (dget f ''funding_type'')"
  "df_destinations (derive_facts std f) =
     (case dget_or f ''destinations'' (JList []) of
        JList xs \<Rightarrow> sorted_set (map (py_str std) xs) | _ \<Rightarrow> [])"
  "df_eligibility_note (derive_facts std f) =
     (case dget f ''eligibility_note'' of JStr s \<Rightarrow> if s = [] then None else Some s | _ \<Rightarrow> None)"
  "df_field_names (derive_facts std f) =
     sorted_set (map (\<lambda>c. case map_of (tx_fields TAXONOMY) c of Some l \<Rightarrow> l | None \<Rightarrow> c)
       (fst (normalize_fields TAXONOMY (string_list (dget_or f ''fields'' (JList []))))))"
  "df_programme_names (derive_facts std f) = string_list (dget_or f ''programme_names'' (JList []))"
  "df_origin_mode (derive_facts std f) =
     clamp_literal (dget f ''origin_mode'') [''restricted'', ''unrestricted'', ''unknown''] ''unknown''"
  "df_origins (derive_facts std f) = string_list (dget_or f ''origins'' (JList []))"
  "df_field_mode (derive_facts std f) =
     clamp_literal (dget f ''field_mode'') [''restricted'', ''all'', ''unknown''] ''unknown''"
  "df_fields (derive_facts std f) =
     fst (normalize_fields TAXONOMY (string_list (dget_or f ''fields'' (JList []))))"
  "df_evidence_fresh (derive_facts std f) =
     (case dget f ''evidence_fresh'' of JBool b \<Rightarrow> b | _ \<Rightarrow> False)"
  by (simp_all only: derive_facts_def Let_def derived_facts.simps)

text \<open>What a sanitised document holds, and why a second read changes nothing.\<close>

lemma sanitized_get:
  "dget_or (sanitized_dict std df) ''destinations'' dv = jstrs (df_destinations df)"
  "dget_or (sanitized_dict std df) ''levels'' dv = jstrs (df_degree_levels df)"
  "dget (sanitized_dict std df) ''origin_mode'' = JStr (df_origin_mode df)"
  "dget_or (sanitized_dict std df) ''origins'' dv = jstrs (df_origins df)"
  "dget (sanitized_dict std df) ''field_mode'' = JStr (df_field_mode df)"
  "dget_or (sanitized_dict std df) ''fields'' dv = jstrs (df_fields df)"
  "dget (sanitized_dict std df) ''evidence_fresh'' = JBool (df_evidence_fresh df)"
  "dget (sanitized_dict std df) ''eligibility_note'' = jopt JStr (df_eligibility_note df)"
  "dget (sanitized_dict std df) ''expected_reopen_month'' = jopt JInt (df_expected_reopen_month df)"
  "dget_or (sanitized_dict std df) ''programme_names'' dv =
     (if df_programme_names df = [] then dv else jstrs (df_programme_names df))"
  "dget (sanitized_dict std df) ''funding_type'' = jopt JStr (df_funding_type df)"
  "dget (sanitized_dict std df) ''deadline_at'' =
     jopt (\<lambda>d. JStr (std_isoformat std d)) (df_deadline_at df)"
  "dget_or (sanitized_dict std df) ''deadline_precision'' dv =
     (if df_deadline_at df = None then dv else JStr (df_deadline_precision df))"
  "dget (sanitized_dict std df) ''deadline_timezone'' =
     (if df_deadline_at df = None then JNull else jopt JStr (df_deadline_timezone df))"
  by (simp_all add: sanitized_dict_def Let_def split: option.split)

lemma sanitized_dict_cong:
  assumes "df_deadline_at e = df_deadline_at df"
    and "df_deadline_at df \<noteq> None \<Longrightarrow> df_deadline_precision e = df_deadline_precision df"
    and "df_deadline_at df \<noteq> None \<Longrightarrow> df_deadline_timezone e = df_deadline_timezone df"
    and "df_degree_levels e = df_degree_levels df" "df_funding_type e = df_funding_type df"
    and "df_expected_reopen_month e = df_expected_reopen_month df"
    and "df_destinations e = df_destinations df" "df_eligibility_note e = df_eligibility_note df"
    and "df_field_names e = df_field_names df" "df_programme_names e = df_programme_names df"
    and "df_origin_mode e = df_origin_mode df" "df_origins e = df_origins df"
    and "df_field_mode e = df_field_mode df" "df_fields e = df_fields df"
    and "df_evidence_fresh e = df_evidence_fresh df"
  shows "sanitized_dict std e = sanitized_dict std df"
  using assms by (cases "df_deadline_at df") (simp_all add: sanitized_dict_def)

lemma clamp_literal_again:
  "dflt \<in> set allowed \<Longrightarrow> clamp_literal (JStr (clamp_literal v allowed dflt)) allowed dflt = clamp_literal v allowed dflt"
  by (auto simp: clamp_literal_def split: json.split)

lemma reopen_month_again: "reopen_month (jopt JInt (reopen_month v)) = reopen_month v"
  by (auto simp: reopen_month_def split: json.split)

lemma safe_funding_type_again: "safe_funding_type (jopt JStr (safe_funding_type v)) = safe_funding_type v"
proof (cases "safe_funding_type v")
  case None
  then show ?thesis by (simp add: safe_funding_type_def)
next
  case (Some c)
  then obtain s where "funding_type TAXONOMY s = Inr c"
    by (auto simp: safe_funding_type_def split: json.splits sum.splits)
  from funding_code_fixed(1) [OF funding_range [OF this]] Some show ?thesis
    by (simp add: safe_funding_type_def)
qed

lemma normalize_fields_again:
  "fst (normalize_fields TAXONOMY (fst (normalize_fields TAXONOMY vs))) = fst (normalize_fields TAXONOMY vs)"
  by (simp add: normalize_fields_def fields_resolver.normalize_again)

lemma normalize_degrees_again:
  "fst (normalize_degrees TAXONOMY (fst (normalize_degrees TAXONOMY vs))) = fst (normalize_degrees TAXONOMY vs)"
  by (simp add: normalize_degrees_def degrees_resolver.normalize_again)

text \<open>
  The sanitised document is a fixed point: sanitising what a read shows gives the same document
  again, so the typed fields of a response and its \<open>facts\<close> never disagree.
\<close>

theorem sanitized_dict_fixpoint:
  assumes "iso_roundtrip std"
  shows "sanitized_dict std (derive_facts std (sanitized_dict std (derive_facts std f)))
       = sanitized_dict std (derive_facts std f)"
proof (rule sanitized_dict_cong)
  let ?df = "derive_facts std f" and ?e = "derive_facts std (sanitized_dict std (derive_facts std f))"
  have deadline: "safe_deadline_at std (jopt (\<lambda>d. JStr (std_isoformat std d)) x) = x" for x
    using assms by (cases x) (simp_all add: safe_deadline_at_def iso_roundtrip_def)
  show "df_deadline_at ?e = df_deadline_at ?df"
    by (simp add: derive_sel(1) [of std "sanitized_dict _ _"] sanitized_get deadline)
  show "df_deadline_precision ?e = df_deadline_precision ?df" if "df_deadline_at ?df \<noteq> None"
    unfolding derive_sel(2) [of std "sanitized_dict _ _"] sanitized_get
    using that by (auto simp: derive_sel(2) clamp_literal_again)
  show "df_deadline_timezone ?e = df_deadline_timezone ?df" if "df_deadline_at ?df \<noteq> None"
    unfolding derive_sel(3) [of std "sanitized_dict _ _"] sanitized_get
    using that by (cases "df_deadline_timezone ?df") simp_all
  show "df_eligibility_note ?e = df_eligibility_note ?df"
    unfolding derive_sel(8) [of std "sanitized_dict _ _"] sanitized_get
    by (simp add: derive_sel(8) split: json.split)
  show "df_destinations ?e = df_destinations ?df"
    unfolding derive_sel(7) [of std "sanitized_dict _ _"] sanitized_get jstrs_def
    by (simp add: derive_sel(7) o_def split: json.split)
  show "df_degree_levels ?e = df_degree_levels ?df"
    unfolding derive_sel(4) [of std "sanitized_dict _ _"] sanitized_get
    by (simp add: derive_sel(4) normalize_degrees_again)
  have fields: "df_fields ?e = df_fields ?df"
    unfolding derive_sel(14) [of std "sanitized_dict _ _"] sanitized_get
    by (simp add: derive_sel(14) normalize_fields_again)
  then show "df_fields ?e = df_fields ?df" .
  show "df_field_names ?e = df_field_names ?df"
    unfolding derive_sel(9) using fields unfolding derive_sel(14) by (rule arg_cong)
  show "df_expected_reopen_month ?e = df_expected_reopen_month ?df"
    unfolding derive_sel(5) [of std "sanitized_dict _ _"] sanitized_get
    by (simp add: derive_sel(5) reopen_month_again)
  show "df_funding_type ?e = df_funding_type ?df"
    unfolding derive_sel(6) [of std "sanitized_dict _ _"] sanitized_get
    by (simp add: derive_sel(6) safe_funding_type_again)
  show "df_programme_names ?e = df_programme_names ?df"
    unfolding derive_sel(10) [of std "sanitized_dict _ _"] sanitized_get
    by simp
  show "df_origin_mode ?e = df_origin_mode ?df" "df_field_mode ?e = df_field_mode ?df"
    unfolding derive_sel(11,13) [of std "sanitized_dict _ _"] sanitized_get
    by (simp_all add: derive_sel(11,13) clamp_literal_again)
  show "df_origins ?e = df_origins ?df" "df_evidence_fresh ?e = df_evidence_fresh ?df"
    unfolding derive_sel(12,15) [of std "sanitized_dict _ _"] sanitized_get by simp_all
qed

theorem sanitized_dict_fixpoint_witness:
  "sanitized_dict demo_std (derive_facts demo_std (sanitized_dict demo_std
      (derive_facts demo_std [(''levels'', JList [JStr ''PhD'', JInt 3])])))
   = sanitized_dict demo_std (derive_facts demo_std [(''levels'', JList [JStr ''PhD'', JInt 3])])"
  by (rule sanitized_dict_fixpoint [OF demo_std_roundtrip])

end
