(* ===== verification/Matching.thy ===== *)
theory Matching
  imports Facts
begin

text \<open>
  The matcher (\<open>src/src/app/domain/matching.py\<close>): hard gates and a deterministic score of a
  published cycle's facts against a search profile. The lemmas characterise when a cycle is shown,
  bound the score, and tie the confirmed verdict to known modes.
\<close>

section \<open>Profiles and decisions\<close>

record search_profile =
  pr_origin_country :: string
  pr_target_countries :: "string set"
  pr_program_levels :: "string set"
  pr_fields :: "string set option"

record match_decision =
  md_fit :: string
  md_score :: int
  md_reason_codes :: "string list"
  md_caveats :: "string list"

definition normalise :: "string \<Rightarrow> string" where
  "normalise value' = lower (strip value')"

definition normalised_set :: "stdlib \<Rightarrow> dict \<Rightarrow> string \<Rightarrow> string set" where
  "normalised_set std facts key =
     (case dget facts key of
        JList xs \<Rightarrow>
          if key = ''fields'' then set (fst (normalize_fields TAXONOMY (string_list (JList xs))))
          else if key = ''levels'' then set (fst (normalize_degrees TAXONOMY (string_list (JList xs))))
          else (\<lambda>v. normalise (py_str std v)) ` set xs
      | _ \<Rightarrow> {})"

text \<open>\<open>facts.get(key) or default\<close>.\<close>

definition mode_or_unknown :: "dict \<Rightarrow> string \<Rightarrow> json" where
  "mode_or_unknown facts key =
     (let v = dget facts key in if truthy v then v else JStr ''unknown'')"

definition check_caveat :: string where
  "check_caveat = ''Some eligibility conditions need checking.''"

text \<open>The scoring half of \<open>evaluate_match\<close>, reached once every gate has passed.\<close>

definition score_match :: "stdlib \<Rightarrow> search_profile \<Rightarrow> dict \<Rightarrow> match_decision" where
  "score_match std profile facts =
     (let origin_mode = mode_or_unknown facts ''origin_mode'';
          field_mode = mode_or_unknown facts ''field_mode'';
          flds = normalised_set std facts ''fields'';
          possible = (origin_mode = JStr ''unknown'' \<or> field_mode = JStr ''unknown'');
          field_compatible =
            (case pr_fields profile of None \<Rightarrow> False | Some fs \<Rightarrow> flds \<inter> normalise ` fs \<noteq> {});
          field_hit = (field_mode = JStr ''all'' \<or> field_compatible);
          origin_hit = (origin_mode = JStr ''unrestricted''
                        \<or> normalise (pr_origin_country profile) \<in> normalised_set std facts ''origins'');
          fresh = truthy (dget_or facts ''evidence_fresh'' (JBool False))
      in \<lparr>md_fit = (if possible then ''possible'' else ''confirmed''),
          md_score = (if field_hit then 25 else 0) + (if origin_hit then 15 else 0)
                     + (if fresh then 10 else 0),
          md_reason_codes = (if field_hit then [''field_compatible''] else [])
                            @ (if origin_hit then [''origin_eligible''] else [])
                            @ (if fresh then [''fresh_verified_evidence''] else []),
          md_caveats = (if possible then [check_caveat] else [])\<rparr>)"

definition evaluate_match :: "stdlib \<Rightarrow> search_profile \<Rightarrow> dict \<Rightarrow> match_decision option" where
  "evaluate_match std profile facts =
     (if normalised_set std facts ''destinations'' \<inter> normalise ` pr_target_countries profile = {}
      then None
      else if normalise ` pr_program_levels profile \<inter> normalised_set std facts ''levels'' = {}
      then None
      else if mode_or_unknown facts ''origin_mode'' = JStr ''restricted''
              \<and> normalise (pr_origin_country profile) \<notin> normalised_set std facts ''origins''
      then None
      else if mode_or_unknown facts ''field_mode'' = JStr ''restricted''
              \<and> (case pr_fields profile of
                    None \<Rightarrow> False
                  | Some fs \<Rightarrow> normalised_set std facts ''fields'' \<inter> normalise ` fs = {})
      then None
      else Some (score_match std profile facts))"

section \<open>Lemmas\<close>

text \<open>The gates of the matcher, as one predicate.\<close>

definition passes_gates :: "stdlib \<Rightarrow> search_profile \<Rightarrow> dict \<Rightarrow> bool" where
  "passes_gates std p f \<longleftrightarrow>
     (\<exists>c \<in> pr_target_countries p. normalise c \<in> normalised_set std f ''destinations'')
     \<and> (\<exists>l \<in> pr_program_levels p. normalise l \<in> normalised_set std f ''levels'')
     \<and> (mode_or_unknown f ''origin_mode'' = JStr ''restricted'' \<longrightarrow>
          normalise (pr_origin_country p) \<in> normalised_set std f ''origins'')
     \<and> (mode_or_unknown f ''field_mode'' = JStr ''restricted'' \<longrightarrow>
          (case pr_fields p of
             None \<Rightarrow> True
           | Some fs \<Rightarrow> \<exists>x \<in> fs. normalise x \<in> normalised_set std f ''fields''))"

lemma disjoint_image_iff: "A \<inter> g ` B = {} \<longleftrightarrow> \<not> (\<exists>b \<in> B. g b \<in> A)"
  by blast

lemma disjoint_image_iff': "g ` B \<inter> A = {} \<longleftrightarrow> \<not> (\<exists>b \<in> B. g b \<in> A)"
  by blast

lemma evaluate_match_shown: "evaluate_match std p f \<noteq> None \<longleftrightarrow> passes_gates std p f"
  by (cases "pr_fields p")
    (auto simp: evaluate_match_def passes_gates_def disjoint_image_iff disjoint_image_iff')

lemma evaluate_match_Some: "evaluate_match std p f = Some d \<Longrightarrow> d = score_match std p f"
  by (simp add: evaluate_match_def split: if_splits)

lemma score_match_fit:
  "md_fit (score_match std p f) =
     (if mode_or_unknown f ''origin_mode'' = JStr ''unknown''
         \<or> mode_or_unknown f ''field_mode'' = JStr ''unknown''
      then ''possible'' else ''confirmed'')"
  "md_caveats (score_match std p f) =
     (if md_fit (score_match std p f) = ''possible'' then [check_caveat] else [])"
  by (simp_all add: score_match_def Let_def)

definition reason_points :: "string \<Rightarrow> int" where
  "reason_points r =
     (if r = ''field_compatible'' then 25 else if r = ''origin_eligible'' then 15
      else if r = ''fresh_verified_evidence'' then 10 else 0)"

lemma score_match_points:
  "md_score (score_match std p f) = sum_list (map reason_points (md_reason_codes (score_match std p f)))"
  by (simp add: score_match_def Let_def reason_points_def)

lemma score_match_distinct: "distinct (md_reason_codes (score_match std p f))"
  by (simp add: score_match_def Let_def)

lemma score_match_bounds: "0 \<le> md_score (score_match std p f) \<and> md_score (score_match std p f) \<le> 50"
  by (simp add: score_match_def Let_def)

section \<open>Properties\<close>

text \<open>
  A cycle is shown for a profile exactly when it covers a target country and a requested level,
  admits the searcher's origin if it restricts origins, and covers an accepted field if it restricts
  fields and the searcher named any.
\<close>

theorem match_exactly_when_gates_pass:
  "(\<exists>d. evaluate_match std p f = Some d) \<longleftrightarrow>
     (\<exists>c \<in> pr_target_countries p. normalise c \<in> normalised_set std f ''destinations'')
     \<and> (\<exists>l \<in> pr_program_levels p. normalise l \<in> normalised_set std f ''levels'')
     \<and> (mode_or_unknown f ''origin_mode'' = JStr ''restricted'' \<longrightarrow>
          normalise (pr_origin_country p) \<in> normalised_set std f ''origins'')
     \<and> (mode_or_unknown f ''field_mode'' = JStr ''restricted'' \<longrightarrow>
          (\<forall>fs. pr_fields p = Some fs \<longrightarrow>
             (\<exists>x \<in> fs. normalise x \<in> normalised_set std f ''fields'')))"
  using evaluate_match_shown [of std p f]
  by (auto simp: passes_gates_def split: option.splits)

text \<open>
  The score of a match is the sum of its reasons' points, each reason given once, so it lies
  between 0 and 50; and a match is confirmed (with no caveat) exactly when both modes are known.
\<close>

theorem match_score_and_fit:
  assumes "evaluate_match std p f = Some d"
  shows "md_score d = sum_list (map reason_points (md_reason_codes d))
     \<and> 0 \<le> md_score d \<and> md_score d \<le> 50
     \<and> (md_fit d = ''confirmed'' \<longleftrightarrow>
          mode_or_unknown f ''origin_mode'' \<noteq> JStr ''unknown''
          \<and> mode_or_unknown f ''field_mode'' \<noteq> JStr ''unknown'')
     \<and> (md_caveats d = [] \<longleftrightarrow> md_fit d = ''confirmed'')"
  using evaluate_match_Some [OF assms] score_match_points [of std p f] score_match_bounds [of std p f]
  by (simp add: score_match_fit)

definition demo_profile :: search_profile where
  "demo_profile =
     \<lparr>pr_origin_country = ''NG'', pr_target_countries = {''GB''}, pr_program_levels = {''doctorate''},
      pr_fields = Some {''law''}\<rparr>"

lemma demo_match:
  "evaluate_match demo_std demo_profile demo_facts =
     Some \<lparr>md_fit = ''confirmed'', md_score = 50,
           md_reason_codes = [''field_compatible'', ''origin_eligible'', ''fresh_verified_evidence''],
           md_caveats = []\<rparr>"
proof -
  have "normalised_set demo_std demo_facts ''levels'' = {''doctorate''}"
    and "normalised_set demo_std demo_facts ''fields'' = {''law''}"
    using degrees_resolver.resolves_itself [OF demo_resolve(1)]
      fields_resolver.resolves_itself [OF demo_resolve(2)]
    by (simp_all add: normalised_set_def demo_facts_def normalize_degrees_def normalize_fields_def
        normalize_codes_def sorted_set_def jstrs_def string_list_def map_filter_simps)
  then show ?thesis
    by (simp add: evaluate_match_def score_match_def demo_profile_def normalise_def string_eval normalised_set_def
        demo_facts_def mode_or_unknown_def jstrs_def Let_def)
qed

theorem match_score_and_fit_witness:
  "0 \<le> (50 :: int) \<and> evaluate_match demo_std demo_profile demo_facts \<noteq> None"
  using match_score_and_fit [OF demo_match] demo_match by simp

theorem match_exactly_when_gates_pass_witness:
  "\<exists>l \<in> pr_program_levels demo_profile. normalise l \<in> normalised_set demo_std demo_facts ''levels''"
  using match_exactly_when_gates_pass [of demo_std demo_profile demo_facts] demo_match by blast

end
