(* ===== verification/Urls.thy ===== *)
theory Urls
  imports Facts
begin

text \<open>
  URL identity and return-URL matching: \<open>src/src/app/domain/urls.py\<close>,
  \<open>src/src/app/domain/return_urls.py\<close> and the allowlist check of
  \<open>src/src/app/infra/source_fetch.py\<close>, over the part of \<open>urllib.parse\<close> they use.

  \<open>netlib\<close> collects what lies outside: percent coding, the validity of a bracketed IP literal, the
  classification of an address by \<open>ipaddress\<close>, and name resolution. The NFKC check \<open>urlsplit\<close> makes on a
  network location never fires on the Windows-1252 repertoire: no character of it normalises to one of
  the delimiters, so the model has none.
\<close>

section \<open>String operations\<close>

fun partition_at :: "char \<Rightarrow> string \<Rightarrow> string \<times> bool \<times> string" where
  "partition_at c [] = ([], False, [])"
| "partition_at c (x # xs) =
     (if x = c then ([], True, xs) else let (a, b, r) = partition_at c xs in (x # a, b, r))"

definition rpartition_at :: "char \<Rightarrow> string \<Rightarrow> string \<times> bool \<times> string" where
  "rpartition_at c s =
     (case partition_at c (rev s) of
        (a, True, b) \<Rightarrow> (rev b, True, rev a)
      | (a, False, b) \<Rightarrow> ([], False, s))"

fun split_on :: "char \<Rightarrow> string \<Rightarrow> string list" where
  "split_on c [] = [[]]"
| "split_on c (x # xs) =
     (if x = c then [] # split_on c xs
      else case split_on c xs of [] \<Rightarrow> [[x]] | p # ps \<Rightarrow> (x # p) # ps)"

definition rstrip_char :: "char \<Rightarrow> string \<Rightarrow> string" where
  "rstrip_char c s = rev (dropWhile (\<lambda>x. x = c) (rev s))"

definition lstrip_char :: "char \<Rightarrow> string \<Rightarrow> string" where
  "lstrip_char c s = dropWhile (\<lambda>x. x = c) s"

definition ends_with :: "string \<Rightarrow> string \<Rightarrow> bool" where
  "ends_with p s = starts_with (rev p) (rev s)"

definition is_digit :: "char \<Rightarrow> bool" where
  "is_digit c = (let n = (of_char c :: nat) in 48 \<le> n \<and> n \<le> 57)"

definition is_alpha :: "char \<Rightarrow> bool" where
  "is_alpha c = (let n = (of_char c :: nat) in (65 \<le> n \<and> n \<le> 90) \<or> (97 \<le> n \<and> n \<le> 122))"

definition scheme_char :: "char \<Rightarrow> bool" where
  "scheme_char c = (is_alpha c \<or> is_digit c \<or> c \<in> {CHR ''+'', CHR ''-'', CHR ''.''})"

text \<open>\<open>int(digits)\<close> and \<open>str(n)\<close>.\<close>

definition read_decimal :: "string \<Rightarrow> nat" where
  "read_decimal s = foldl (\<lambda>n c. n * 10 + (of_char c - 48)) 0 s"

fun decimal :: "nat \<Rightarrow> string" where
  "decimal n = (if n < 10 then [char_of (48 + n)] else decimal (n div 10) @ [char_of (48 + n mod 10)])"

declare decimal.simps [simp del]

section \<open>urllib.parse\<close>

record ip_info =
  ip_version :: nat
  ip_value :: nat
  ip_is_multicast :: bool
  ip_is_unspecified :: bool
  ip_is_global :: bool

record netlib =
  nl_unquote :: "string \<Rightarrow> string"
  nl_quote_plus :: "string \<Rightarrow> string"
  nl_bracket_ok :: "string \<Rightarrow> bool"
  nl_ip_address :: "string \<Rightarrow> ip_info option"
  nl_getaddrinfo :: "string \<Rightarrow> string list option"

record split_result =
  us_scheme :: string
  us_netloc :: string
  us_path :: string
  us_query :: string
  us_fragment :: string

definition bad_ipv6 :: exn where
  "bad_ipv6 = ValueError ''Invalid IPv6 URL''"

definition check_bracketed :: "netlib \<Rightarrow> string \<Rightarrow> unit result" where
  "check_bracketed nl netloc =
     (let hostport = snd (snd (rpartition_at (CHR ''@'') netloc))
      in case partition_at (CHR ''['') hostport of
           (before, True, bracketed) \<Rightarrow>
             if before \<noteq> [] then Inl bad_ipv6
             else (case partition_at (CHR '']'') bracketed of
                     (hostname, _, port) \<Rightarrow>
                       if port \<noteq> [] \<and> \<not> starts_with '':'' port then Inl bad_ipv6
                       else guardE (nl_bracket_ok nl hostname) (ValueError ''not a valid IPv6 host''))
         | (_, False, _) \<Rightarrow>
             guardE (nl_bracket_ok nl (fst (partition_at (CHR '':'') hostport)))
               (ValueError ''not a valid IPv6 host''))"

definition netloc_delim :: "char \<Rightarrow> bool" where
  "netloc_delim c = (c \<in> {CHR ''/'', CHR ''?'', CHR ''#''})"

definition split_scheme :: "string \<Rightarrow> string \<times> string" where
  "split_scheme url =
     (case partition_at (CHR '':'') url of
        (c # cs, True, rest) \<Rightarrow>
          if is_alpha c \<and> list_all scheme_char (c # cs) then (lower (c # cs), rest) else ([], url)
      | _ \<Rightarrow> ([], url))"

definition dropped_char :: "char \<Rightarrow> bool" where
  "dropped_char c \<longleftrightarrow> c \<in> {CHR 0x09, CHR 0x0D, CHR 0x0A}"

definition urlsplit :: "netlib \<Rightarrow> string \<Rightarrow> split_result result" where
  "urlsplit nl s =
     (let url = filter (\<lambda>c. \<not> dropped_char c)
                  (dropWhile (\<lambda>c. (of_char c :: nat) \<le> 32) s);
          (scheme, rest) = split_scheme url;
          (netloc, rest2) =
            (if starts_with ''//'' rest
             then (takeWhile (\<lambda>c. \<not> netloc_delim c) (drop 2 rest), dropWhile (\<lambda>c. \<not> netloc_delim c) (drop 2 rest))
             else ([], rest));
          (rest3, _, fragment) = partition_at (CHR ''#'') rest2;
          (path, _, query) = partition_at (CHR ''?'') rest3;
          r = Inr \<lparr>us_scheme = scheme, us_netloc = netloc, us_path = path, us_query = query,
                  us_fragment = fragment\<rparr>;
          opening = CHR ''['' \<in> set netloc; closing = CHR '']'' \<in> set netloc
      in if opening \<noteq> closing then Inl bad_ipv6
         else if opening then bindE (check_bracketed nl netloc) (\<lambda>_. r) else r)"

definition userinfo :: "split_result \<Rightarrow> string option \<times> string option" where
  "userinfo u =
     (case rpartition_at (CHR ''@'') (us_netloc u) of
        (info, True, _) \<Rightarrow>
          (case partition_at (CHR '':'') info of
             (user, has_password, password) \<Rightarrow> (Some user, if has_password then Some password else None))
      | _ \<Rightarrow> (None, None))"

definition hostinfo :: "split_result \<Rightarrow> string \<times> string option" where
  "hostinfo u =
     (let hostport = snd (snd (rpartition_at (CHR ''@'') (us_netloc u)));
          (hostname, port) =
            (case partition_at (CHR ''['') hostport of
               (_, True, bracketed) \<Rightarrow>
                 (case partition_at (CHR '']'') bracketed of
                    (h, _, p) \<Rightarrow> (h, snd (snd (partition_at (CHR '':'') p))))
             | _ \<Rightarrow> (case partition_at (CHR '':'') hostport of (h, _, p) \<Rightarrow> (h, p)))
      in (hostname, if port = [] then None else Some port))"

definition us_hostname :: "split_result \<Rightarrow> string option" where
  "us_hostname u =
     (let h = fst (hostinfo u)
      in if h = [] then None
         else case partition_at (CHR ''%'') h of
                (name, pct, zone) \<Rightarrow> Some (lower name @ (if pct then ''%'' else []) @ zone))"

definition us_port :: "split_result \<Rightarrow> nat option result" where
  "us_port u =
     (case snd (hostinfo u) of
        None \<Rightarrow> Inr None
      | Some p \<Rightarrow>
          if \<not> list_all is_digit p then Inl (ValueError ''Port could not be cast to integer value'')
          else if read_decimal p > 65535 then Inl (ValueError ''Port out of range 0-65535'')
          else Inr (Some (read_decimal p)))"

definition urlunsplit :: "string \<Rightarrow> string \<Rightarrow> string \<Rightarrow> string \<Rightarrow> string" where
  "urlunsplit scheme netloc path query =
     (let url = (if netloc \<noteq> []
                 then ''//'' @ netloc @ (if path \<noteq> [] \<and> \<not> starts_with ''/'' path then ''/'' @ path else path)
                 else if starts_with ''//'' path then ''//'' @ path
                 else if path = [] \<or> starts_with ''/'' path then ''//'' @ path
                 else path);
          url = scheme @ '':'' @ url
      in if query \<noteq> [] then url @ ''?'' @ query else url)"

definition parse_qsl :: "netlib \<Rightarrow> string \<Rightarrow> (string \<times> string) list" where
  "parse_qsl nl qs =
     (let plus = map (\<lambda>c. if c = CHR ''+'' then CHR '' '' else c)
      in map (\<lambda>nv. case partition_at (CHR ''='') nv of
                (name, _, value) \<Rightarrow> (nl_unquote nl (plus name), nl_unquote nl (plus value)))
           (filter (\<lambda>nv. nv \<noteq> []) (split_on (CHR ''&'') qs)))"

definition urlencode :: "netlib \<Rightarrow> (string \<times> string) list \<Rightarrow> string" where
  "urlencode nl kvs =
     join_with ''&'' (map (\<lambda>(k, v). nl_quote_plus nl k @ ''='' @ nl_quote_plus nl v) kvs)"

section \<open>Canonical URLs\<close>

definition normalize_domain :: "string \<Rightarrow> string result" where
  "normalize_domain v =
     (let domain = lstrip_char (CHR ''.'') (lower (strip v))
      in if domain = [] then Inl (ValueError ''Domain must not be blank'') else Inr domain)"

definition tracking_key :: "string \<Rightarrow> bool" where
  "tracking_key k = (starts_with ''utm_'' (lower k) \<or> lower k \<in> {''fbclid'', ''gclid''})"

definition canonical_netloc :: "string \<Rightarrow> string \<Rightarrow> nat option \<Rightarrow> string" where
  "canonical_netloc scheme host port =
     (case port of
        None \<Rightarrow> host
      | Some p \<Rightarrow>
          if p \<noteq> 0 \<and> \<not> (scheme = ''http'' \<and> p = 80) \<and> \<not> (scheme = ''https'' \<and> p = 443)
          then host @ '':'' @ decimal p else host)"

definition canonical_path :: "string \<Rightarrow> string" where
  "canonical_path path =
     (let p = (if path = [] then ''/'' else path)
      in if p \<noteq> ''/'' then rstrip_char (CHR ''/'') p else p)"

definition canonicalize_url :: "netlib \<Rightarrow> string \<Rightarrow> string result" where
  "canonicalize_url nl v =
     bindE (urlsplit nl (strip v)) (\<lambda>parts.
       if lower (us_scheme parts) \<notin> {''http'', ''https''} \<or> us_netloc parts = []
       then Inl (ValueError ''Only absolute HTTP(S) URLs are allowed'')
       else bindE (us_port parts) (\<lambda>port.
         let scheme = lower (us_scheme parts);
             host = (case us_hostname parts of None \<Rightarrow> [] | Some h \<Rightarrow> lower h);
             query = filter (\<lambda>(k, _). \<not> tracking_key k) (parse_qsl nl (us_query parts))
         in Inr (urlunsplit scheme (canonical_netloc scheme host port) (canonical_path (us_path parts))
                   (urlencode nl query))))"

section \<open>Approved sources\<close>

definition domain_allowed :: "string \<Rightarrow> string list \<Rightarrow> bool" where
  "domain_allowed hostname approved_domains =
     (\<exists>d \<in> set (map (\<lambda>d. lstrip_char (CHR ''.'') (lower d)) approved_domains).
        hostname = d \<or> ends_with (''.'' @ d) hostname)"

definition in_carrier_grade_nat :: "ip_info \<Rightarrow> bool" where
  "in_carrier_grade_nat ip = (ip_value ip div 2 ^ 22 = (100 * 2 ^ 24 + 64 * 2 ^ 16) div 2 ^ 22)"

definition is_public_address :: "netlib \<Rightarrow> string \<Rightarrow> bool result" where
  "is_public_address nl address =
     (case nl_ip_address nl address of
        None \<Rightarrow> Inl (ValueError ''does not appear to be an IPv4 or IPv6 address'')
      | Some ip \<Rightarrow>
          if ip_version ip = 4 \<and> in_carrier_grade_nat ip then Inr False
          else if ip_is_multicast ip \<or> ip_is_unspecified ip then Inr False
          else Inr (ip_is_global ip))"

fun all_public :: "netlib \<Rightarrow> string list \<Rightarrow> bool result" where
  "all_public nl [] = Inr True"
| "all_public nl (a # as) =
     bindE (is_public_address nl a) (\<lambda>b. if b then all_public nl as else Inr False)"

definition is_public_host :: "netlib \<Rightarrow> string \<Rightarrow> bool result" where
  "is_public_host nl hostname =
     (case nl_getaddrinfo nl hostname of
        None \<Rightarrow> Inl (ValueError ''Source hostname could not be resolved'')
      | Some addresses \<Rightarrow>
          if addresses = [] then Inr False else all_public nl addresses)"

definition validate_source_url :: "netlib \<Rightarrow> string \<Rightarrow> string list \<Rightarrow> string result" where
  "validate_source_url nl url approved_domains =
     bindE (canonicalize_url nl url) (\<lambda>normalized.
     bindE (urlsplit nl normalized) (\<lambda>parts.
       let hostname = (case us_hostname parts of None \<Rightarrow> [] | Some h \<Rightarrow> h)
       in bindE (guardE (domain_allowed hostname approved_domains)
                   (ValueError ''Source URL domain is not approved'')) (\<lambda>_.
          bindE (is_public_host nl hostname) (\<lambda>public.
          bindE (guardE public (ValueError ''Private or reserved source host is not allowed'')) (\<lambda>_.
            Inr normalized)))))"

section \<open>Return URLs\<close>

definition DEFAULT_PORTS :: "(string \<times> nat) list" where
  "DEFAULT_PORTS = [(''http'', 80), (''https'', 443)]"

definition port_or_default :: "string \<Rightarrow> nat option \<Rightarrow> nat option" where
  "port_or_default scheme port = (case port of None \<Rightarrow> map_of DEFAULT_PORTS scheme | Some p \<Rightarrow> Some p)"

definition nonempty :: "string option \<Rightarrow> bool" where
  "nonempty x = (case x of None \<Rightarrow> False | Some s \<Rightarrow> s \<noteq> [])"

definition slashed :: "string \<Rightarrow> string" where
  "slashed path = (let p = (if path = [] then ''/'' else path) in if ends_with ''/'' p then p else p @ ''/'')"

definition is_allowed_return_url :: "netlib \<Rightarrow> string \<Rightarrow> string \<Rightarrow> bool result" where
  "is_allowed_return_url nl candidate allowed_prefix =
     (if allowed_prefix = [] then Inr False
      else bindE (urlsplit nl allowed_prefix) (\<lambda>allowed.
           bindE (urlsplit nl candidate) (\<lambda>target.
             let allowed_scheme = lower (us_scheme allowed)
             in if map_of DEFAULT_PORTS allowed_scheme = None \<or> lower (us_scheme target) \<noteq> allowed_scheme
                then Inr False
                else if nonempty (fst (userinfo target)) \<or> nonempty (snd (userinfo target)) then Inr False
                else if lower (or_empty (us_hostname target)) \<noteq> lower (or_empty (us_hostname allowed))
                then Inr False
                else if \<not> nonempty (us_hostname target) then Inr False
                else bindE (us_port target) (\<lambda>tp. bindE (us_port allowed) (\<lambda>ap.
                  if port_or_default allowed_scheme tp \<noteq> port_or_default allowed_scheme ap then Inr False
                  else Inr (starts_with (slashed (us_path allowed)) (slashed (us_path target))))))))"

section \<open>Lemmas on the string operations\<close>

lemma partition_at_found: "c \<notin> set a \<Longrightarrow> partition_at c (a @ c # r) = (a, True, r)"
  by (induction a) auto

lemma partition_at_absent: "c \<notin> set s \<Longrightarrow> partition_at c s = (s, False, [])"
  by (induction s) auto

lemma partition_at_iff:
  "partition_at c s = (a, f, r) \<longleftrightarrow>
     c \<notin> set a \<and> (if f then s = a @ c # r else s = a \<and> r = [])"
proof (cases "c \<in> set s")
  case True
  then obtain x y where s: "s = x @ c # y" "c \<notin> set x" by (meson split_list_first)
  then have p: "partition_at c s = (x, True, y)" by (simp add: partition_at_found)
  have "a = x \<and> r = y" if "s = a @ c # r" "c \<notin> set a"
    using p partition_at_found [OF that(2), of r] that(1) by simp
  moreover have "partition_at c s = (a, f, r) \<longleftrightarrow> x = a \<and> f \<and> y = r" unfolding p by simp
  ultimately show ?thesis using s True by (cases f) metis+
next
  case False
  then show ?thesis by (auto simp: partition_at_absent)
qed

lemma rpartition_at_absent: "c \<notin> set s \<Longrightarrow> rpartition_at c s = ([], False, s)"
  by (simp add: rpartition_at_def partition_at_absent)

lemma rpartition_at_found:
  assumes "c \<in> set s"
  obtains a r where "rpartition_at c s = (a, True, r)" "s = a @ c # r" "c \<notin> set r"
proof -
  obtain x f y where p: "partition_at c (rev s) = (x, f, y)" by (metis prod_cases3)
  with assms have f: "f" unfolding partition_at_iff by (metis set_rev)
  with p have "rev s = x @ c # y" "c \<notin> set x" unfolding partition_at_iff by auto
  then have "s = rev y @ c # rev x" by (metis append.assoc append_Cons append_Nil rev_append rev_rev_ident rev_singleton_conv rev.simps(2))
  with p f \<open>c \<notin> set x\<close> show thesis by (intro that [of "rev y" "rev x"]) (simp_all add: rpartition_at_def)
qed

lemma rpartition_at_tail: "snd (snd (rpartition_at c s)) = r \<Longrightarrow> c \<notin> set r"
  by (cases "c \<in> set s") (auto elim!: rpartition_at_found simp: rpartition_at_absent)

lemma rpartition_at_subset: "set (snd (snd (rpartition_at c s))) \<subseteq> set s"
  by (cases "c \<in> set s") (auto elim!: rpartition_at_found simp: rpartition_at_absent)

lemma of_char_bound: "(of_char c :: nat) < 256"
  using of_char_mod_256 [of c, where 'a = nat] by (metis mod_less_divisor zero_less_numeral)

lemma lower_char_idem [simp]: "lower_char (lower_char c) = lower_char c"
proof -
  have r: "(of_char (char_of (n::nat)) :: nat) = n" if "n < 256" for n
    using that by simp
  have "(of_char c :: nat) < 256" by (rule of_char_bound)
  then show ?thesis
    unfolding lower_char_def Let_def by (auto simp: r)
qed

lemma lower_idem [simp]: "lower (lower s) = lower s"
  by (simp add: lower_def)

lemma lower_append: "lower (a @ b) = lower a @ lower b"
  by (simp add: lower_def)

lemma length_lower [simp]: "length (lower s) = length s"
  by (simp add: lower_def)

text \<open>Characters that no letter lowers to.\<close>

definition unlettered :: "char \<Rightarrow> bool" where
  "unlettered c \<longleftrightarrow> (let n = (of_char c :: nat) in n < 65 \<or> (91 \<le> n \<and> n \<le> 96) \<or> (123 \<le> n \<and> n < 138))"

lemma lower_char_unlettered: "unlettered c \<Longrightarrow> lower_char x = c \<longleftrightarrow> x = c"
proof -
  assume c: "unlettered c"
  have r: "(of_char (char_of (n::nat)) :: nat) = n" if "n < 256" for n
    using that by simp
  have x: "(of_char x :: nat) < 256" by (rule of_char_bound)
  have "lower_char x = x \<or> (97 \<le> (of_char (lower_char x) :: nat) \<and> (of_char (lower_char x) :: nat) \<le> 122)
      \<or> (154 \<le> (of_char (lower_char x) :: nat))"
    using x unfolding lower_char_def Let_def by (auto simp: r)
  moreover have "lower_char c = c" using c unfolding lower_char_def unlettered_def Let_def by auto
  ultimately show ?thesis using c unfolding unlettered_def Let_def by force
qed

lemma in_lower_unlettered: "unlettered c \<Longrightarrow> c \<in> set (lower s) \<longleftrightarrow> c \<in> set s"
  unfolding lower_def set_map image_iff using lower_char_unlettered [of c] by metis

lemma unlettered_delims [simp]:
  "unlettered (CHR ''/'')" "unlettered (CHR ''?'')" "unlettered (CHR ''#'')" "unlettered (CHR '':'')"
  "unlettered (CHR ''@'')" "unlettered (CHR ''['')" "unlettered (CHR '']'')" "unlettered (CHR ''%'')"
  "unlettered (CHR 0x09)" "unlettered (CHR 0x0D)" "unlettered (CHR 0x0A)"
  by (simp_all add: unlettered_def)

lemma is_space_lower: "is_space (lower_char c) \<longleftrightarrow> is_space c"
proof -
  have r: "(of_char (char_of (n::nat)) :: nat) = n" if "n < 256" for n
    using that by simp
  have "(of_char c :: nat) < 256" by (rule of_char_bound)
  then show ?thesis unfolding is_space_def lower_char_def Let_def by (auto simp: r)
qed

lemma digit_char: "n < 10 \<Longrightarrow> is_digit (char_of (48 + n :: nat)) \<and> of_char (char_of (48 + n :: nat)) = 48 + n"
  by (simp add: is_digit_def Let_def)

lemma read_decimal_snoc: "read_decimal (s @ [c]) = read_decimal s * 10 + (of_char c - 48)"
  by (simp add: read_decimal_def)

lemma decimal_digits: "list_all is_digit (decimal n) \<and> decimal n \<noteq> []"
proof (induction n rule: decimal.induct)
  case (1 n)
  have "is_digit (char_of (48 + n mod 10))" using digit_char [of "n mod 10"] by simp
  then show ?case using 1 digit_char [of n] by (subst (1 2) decimal.simps) auto
qed

lemma read_decimal_decimal: "read_decimal (decimal n) = n"
proof (induction n rule: decimal.induct)
  case (1 n)
  show ?case
  proof (cases "n < 10")
    case True
    then show ?thesis using digit_char [of n] by (subst decimal.simps) (simp add: read_decimal_def)
  next
    case False
    have "(of_char (char_of (48 + n mod 10) :: char) :: nat) = 48 + n mod 10"
      using digit_char [of "n mod 10"] by simp
    with False 1 show ?thesis by (subst decimal.simps) (simp add: read_decimal_snoc)
  qed
qed

section \<open>Splitting what was put together\<close>

lemma digit_no_space: "is_digit c \<Longrightarrow> \<not> is_space c"
  by (auto simp: is_digit_def is_space_def Let_def)

text \<open>A network location without delimiters, brackets and removed characters.\<close>

definition special_char :: "char \<Rightarrow> bool" where
  "special_char c \<longleftrightarrow> netloc_delim c \<or> dropped_char c \<or> c = CHR ''['' \<or> c = CHR '']''"

definition plain_netloc :: "string \<Rightarrow> bool" where
  "plain_netloc n \<longleftrightarrow> list_all (\<lambda>c. \<not> special_char c) n"

lemma special_char_facts: "special_char c \<Longrightarrow> unlettered c \<and> \<not> is_digit c \<and> c \<noteq> CHR '':''"
  unfolding special_char_def netloc_delim_def dropped_char_def
  by (elim disjE insertE emptyE) (simp_all add: is_digit_def)

lemma split_scheme_http:
  "split_scheme (''https:'' @ r) = (''https'', r)" "split_scheme (''http:'' @ r) = (''http'', r)"
  by (simp_all add: split_scheme_def scheme_char_def is_alpha_def lower_def)

lemma takeWhile_append_stop:
  "list_all P a \<Longrightarrow> (r = [] \<or> \<not> P (hd r)) \<Longrightarrow> takeWhile P (a @ r) = a \<and> dropWhile P (a @ r) = r"
  by (induction a) (cases r, auto)

lemma urlsplit_parts:
  assumes "scheme = ''http'' \<or> scheme = ''https''"
    and "plain_netloc n"
    and "path = [] \<or> hd path = CHR ''/''"
    and "CHR ''?'' \<notin> set path" "CHR ''#'' \<notin> set path" "CHR ''#'' \<notin> set q"
    and "list_all (\<lambda>c. \<not> dropped_char c) (path @ q)"
  shows "urlsplit nl (scheme @ ''://'' @ n @ path @ (if q \<noteq> [] then ''?'' @ q else []))
    = Inr \<lparr>us_scheme = scheme, us_netloc = n, us_path = path, us_query = q, us_fragment = []\<rparr>"
proof -
  let ?t = "path @ (if q \<noteq> [] then ''?'' @ q else [])"
  let ?u = "scheme @ ''://'' @ n @ ?t"
  have drop: "filter (\<lambda>c. \<not> dropped_char c) (dropWhile (\<lambda>c. (of_char c :: nat) \<le> 32) ?u) = ?u"
  proof -
    have "list_all (\<lambda>c. \<not> dropped_char c) n"
      using assms(2) by (simp add: plain_netloc_def special_char_def list_all_iff)
    moreover have "list_all (\<lambda>c. \<not> dropped_char c) scheme"
      using assms(1) by (elim disjE) (simp_all add: dropped_char_def)
    ultimately have "list_all (\<lambda>c. \<not> dropped_char c) ?u"
      using assms(7) by (simp add: dropped_char_def)
    moreover have "dropWhile (\<lambda>c. (of_char c :: nat) \<le> 32) ?u = ?u"
      using assms(1) by (elim disjE) simp_all
    ultimately show ?thesis by (simp only: filter_id_conv list_all_iff)
  qed
  have sch: "split_scheme ?u = (scheme, ''//'' @ n @ ?t)"
    using assms(1) split_scheme_http [of "''//'' @ n @ ?t"] by auto
  have net: "takeWhile (\<lambda>c. \<not> netloc_delim c) (n @ ?t) = n \<and> dropWhile (\<lambda>c. \<not> netloc_delim c) (n @ ?t) = ?t"
  proof (rule takeWhile_append_stop)
    show "list_all (\<lambda>c. \<not> netloc_delim c) n" using assms(2) by (simp add: plain_netloc_def special_char_def list_all_iff)
    show "?t = [] \<or> \<not> \<not> netloc_delim (hd ?t)"
      using assms(3) by (cases path) (auto simp: netloc_delim_def)
  qed
  have frag: "partition_at (CHR ''#'') ?t = (?t, False, [])"
    using assms(5,6) by (intro partition_at_absent) auto
  have qry: "\<exists>b. partition_at (CHR ''?'') ?t = (path, b, q)"
    using assms(4) partition_at_found [of "CHR ''?''" path q] partition_at_absent [of "CHR ''?''" path] by auto
  have br: "CHR ''['' \<notin> set n" "CHR '']'' \<notin> set n"
    using assms(2) by (auto simp: plain_netloc_def special_char_def list_all_iff)
  obtain b where "partition_at (CHR ''?'') ?t = (path, b, q)" using qry by blast
  then show ?thesis
    unfolding urlsplit_def Let_def drop sch using net br frag by simp
qed

text \<open>What \<open>urlsplit\<close> guarantees of its parts.\<close>

lemma dropWhile_hd: "dropWhile P xs = [] \<or> \<not> P (hd (dropWhile P xs))"
  by (induction xs) auto

lemma urlsplit_shape:
  assumes "urlsplit nl s = Inr u"
  shows "us_netloc u \<noteq> [] \<Longrightarrow> us_path u = [] \<or> hd (us_path u) = CHR ''/''"
    and "CHR ''?'' \<notin> set (us_path u)" "CHR ''#'' \<notin> set (us_path u)"
    and "list_all (\<lambda>c. \<not> dropped_char c) (us_path u)"
    and "list_all (\<lambda>c. \<not> netloc_delim c \<and> \<not> dropped_char c) (us_netloc u)"
proof -
  obtain url scheme rest netloc rest2 rest3 f1 fragment path f2 query where
    url: "url = filter (\<lambda>c. \<not> dropped_char c) (dropWhile (\<lambda>c. (of_char c :: nat) \<le> 32) s)"
    and sch: "split_scheme url = (scheme, rest)"
    and net: "(if starts_with ''//'' rest
             then (takeWhile (\<lambda>c. \<not> netloc_delim c) (drop 2 rest), dropWhile (\<lambda>c. \<not> netloc_delim c) (drop 2 rest))
             else ([], rest)) = (netloc, rest2)"
    and fr: "partition_at (CHR ''#'') rest2 = (rest3, f1, fragment)"
    and qr: "partition_at (CHR ''?'') rest3 = (path, f2, query)"
    by (metis prod_cases3 surj_pair)
  have u: "u = \<lparr>us_scheme = scheme, us_netloc = netloc, us_path = path, us_query = query, us_fragment = fragment\<rparr>"
    using assms unfolding urlsplit_def Let_def url [symmetric] sch net fr qr prod.case
    by (auto simp: bindE_eq_Inr split: if_splits)
  have "set rest \<subseteq> set url"
    using sch by (auto simp: split_scheme_def partition_at_iff split: prod.splits list.splits bool.splits if_splits)
  moreover have "set rest2 \<subseteq> set rest" "set netloc \<subseteq> set rest"
    using net by (auto split: if_splits dest!: set_dropWhileD set_takeWhileD in_set_dropD)
  moreover have "set rest3 \<subseteq> set rest2" "set path \<subseteq> set rest3"
    using fr qr by (auto simp: partition_at_iff split: if_splits)
  ultimately have sub: "set path \<subseteq> set url" "set netloc \<subseteq> set url" by blast+
  have ok: "\<not> dropped_char c" if "c \<in> set url" for c using that url by simp
  show "list_all (\<lambda>c. \<not> dropped_char c) (us_path u)" using u ok sub by (auto simp: list_all_iff)
  show "list_all (\<lambda>c. \<not> netloc_delim c \<and> \<not> dropped_char c) (us_netloc u)"
    using u ok sub net by (auto simp: list_all_iff split: if_splits dest: set_takeWhileD)
  show "CHR ''?'' \<notin> set (us_path u)" "CHR ''#'' \<notin> set (us_path u)"
    using u fr qr by (auto simp: partition_at_iff split: if_splits)
  show "us_path u = [] \<or> hd (us_path u) = CHR ''/''" if "us_netloc u \<noteq> []"
  proof -
    have "rest2 = [] \<or> netloc_delim (hd rest2)"
      using that u net dropWhile_hd [of "\<lambda>c. \<not> netloc_delim c" "drop 2 rest"] by (auto split: if_splits)
    then have "rest3 = [] \<or> hd rest3 \<in> {CHR ''/'', CHR ''?''}"
      using fr by (cases rest3) (auto simp: partition_at_iff netloc_delim_def split: if_splits)
    then show ?thesis
      using qr u by (cases path) (auto simp: partition_at_iff split: if_splits)
  qed
qed

lemma host_of_netloc:
  assumes "CHR ''@'' \<notin> set n" "CHR ''['' \<notin> set n" "CHR '':'' \<notin> set h" "n = h \<or> n = h @ '':'' @ p"
  shows "hostinfo \<lparr>us_scheme = s, us_netloc = n, us_path = pa, us_query = q, us_fragment = f\<rparr>
     = (h, if n = h \<or> p = [] then None else Some p)"
  using assms
  by (auto simp: hostinfo_def rpartition_at_absent partition_at_absent partition_at_found)

section \<open>Canonical URLs are fixpoints\<close>

text \<open>
  The documented laws of the percent codec: decoding inverts encoding, and an encoded string holds
  none of the characters that delimit a URL, nor \<open>+\<close>-ambiguity or white space.
\<close>

definition codec_ok :: "netlib \<Rightarrow> bool" where
  "codec_ok nl \<longleftrightarrow>
     (\<forall>s. nl_unquote nl (map (\<lambda>c. if c = CHR ''+'' then CHR '' '' else c) (nl_quote_plus nl s)) = s
        \<and> list_all (\<lambda>c. c \<notin> {CHR ''&'', CHR ''='', CHR ''#''} \<and> \<not> is_space c) (nl_quote_plus nl s))"

lemma split_on_join:
  assumes "\<forall>p \<in> set ps. c \<notin> set p" and "ps \<noteq> []"
  shows "split_on c (join_with [c] ps) = ps"
proof -
  have one: "split_on c p = [p]" if "c \<notin> set p" for p
    using that by (induction p) auto
  have more: "split_on c (p @ c # r) = p # split_on c r" if "c \<notin> set p" for p r
    using that by (induction p) auto
  show ?thesis
    using assms by (induction "[c]" ps rule: join_with.induct) (auto simp: one more)
qed

lemma parse_urlencode:
  assumes "codec_ok nl"
  shows "parse_qsl nl (urlencode nl kvs) = kvs"
proof (cases "kvs = []")
  case False
  let ?enc = "\<lambda>(k, v). nl_quote_plus nl k @ ''='' @ nl_quote_plus nl v"
  have chars: "CHR ''&'' \<notin> set (nl_quote_plus nl s)" "CHR ''='' \<notin> set (nl_quote_plus nl s)" for s
    using assms by (auto simp: codec_ok_def list_all_iff)
  then have amp: "CHR ''&'' \<notin> set (?enc kv)" for kv by (cases kv) simp
  have "split_on (CHR ''&'') (urlencode nl kvs) = map ?enc kvs"
    unfolding urlencode_def using amp False by (intro split_on_join) auto
  moreover have "filter (\<lambda>nv. nv \<noteq> []) (map ?enc kvs) = map ?enc kvs"
    by (auto simp: filter_id_conv)
  moreover have "(case partition_at (CHR ''='') (?enc kv) of (name, _, value) \<Rightarrow>
      (nl_unquote nl (map (\<lambda>c. if c = CHR ''+'' then CHR '' '' else c) name),
       nl_unquote nl (map (\<lambda>c. if c = CHR ''+'' then CHR '' '' else c) value))) = kv" for kv
    using assms chars by (cases kv) (simp add: codec_ok_def partition_at_found)
  ultimately show ?thesis
    unfolding parse_qsl_def Let_def by (simp add: comp_def)
qed (simp add: parse_qsl_def urlencode_def)

lemma urlencode_chars:
  assumes "codec_ok nl"
  shows "list_all (\<lambda>c. c \<noteq> CHR ''#'' \<and> \<not> is_space c) (urlencode nl kvs)"
proof -
  have q: "list_all (\<lambda>c. c \<noteq> CHR ''#'' \<and> \<not> is_space c) (nl_quote_plus nl s)" for s
    using assms by (auto simp: codec_ok_def list_all_iff)
  have "list_all (\<lambda>c. c \<noteq> CHR ''#'' \<and> \<not> is_space c) (join_with sep ps)"
    if "list_all (\<lambda>c. c \<noteq> CHR ''#'' \<and> \<not> is_space c) sep"
       "list_all (list_all (\<lambda>c. c \<noteq> CHR ''#'' \<and> \<not> is_space c)) ps" for sep ps
    using that by (induction sep ps rule: join_with.induct) auto
  moreover have "list_all (\<lambda>c. c \<noteq> CHR ''#'' \<and> \<not> is_space c)
      (case kv of (k, v) \<Rightarrow> nl_quote_plus nl k @ ''='' @ nl_quote_plus nl v)" for kv
    using q by (cases kv) simp
  then have "list_all (list_all (\<lambda>c. c \<noteq> CHR ''#'' \<and> \<not> is_space c))
      (map (\<lambda>(k, v). nl_quote_plus nl k @ ''='' @ nl_quote_plus nl v) kvs)"
    by (induction kvs) simp_all
  ultimately show ?thesis unfolding urlencode_def by simp
qed

text \<open>
  URLs on whose parts the normal form is stable: a host that is neither missing nor an IP literal, no
  white space inside host and path, and a path that is not made of slashes alone (unless it is the
  root itself).
\<close>

definition ordinary_url :: "split_result \<Rightarrow> bool" where
  "ordinary_url u \<longleftrightarrow>
     us_hostname u \<noteq> None \<and> CHR ''['' \<notin> set (us_netloc u) \<and> CHR '']'' \<notin> set (us_netloc u)
     \<and> list_all (\<lambda>c. \<not> is_space c) (us_netloc u @ us_path u)
     \<and> (us_path u \<in> {'''', ''/''} \<or> rstrip_char (CHR ''/'') (us_path u) \<noteq> [])"

lemma rstrip_char_prefix: "\<exists>k. rstrip_char c s = take k s"
  unfolding rstrip_char_def dropWhile_eq_drop rev_drop by auto

lemma rstrip_char_idem [simp]: "rstrip_char c (rstrip_char c s) = rstrip_char c s"
  by (simp add: rstrip_char_def dropWhile_idem)

lemma strip_no_space: "list_all (\<lambda>c. \<not> is_space c) s \<Longrightarrow> strip s = s"
proof -
  assume s: "list_all (\<lambda>c. \<not> is_space c) s"
  then have "dropWhile is_space s = s" by (cases s) auto
  moreover have "dropWhile is_space (rev s) = rev s" using s by (cases "rev s") (auto simp: list_all_iff)
  ultimately show ?thesis by (simp add: strip_def)
qed

lemma dropped_is_space: "dropped_char c \<Longrightarrow> is_space c"
  by (auto simp: dropped_char_def is_space_def)

lemma hostname_ok:
  assumes "us_hostname u = Some h" and "CHR ''['' \<notin> set (us_netloc u)"
  shows "lower h = lower (fst (hostinfo u))" and "fst (hostinfo u) \<noteq> []"
    and "set (fst (hostinfo u)) \<subseteq> set (us_netloc u)"
    and "CHR '':'' \<notin> set (fst (hostinfo u))" and "CHR ''@'' \<notin> set (fst (hostinfo u))"
proof -
  let ?hp = "snd (snd (rpartition_at (CHR ''@'') (us_netloc u)))"
  have hp: "CHR ''['' \<notin> set ?hp" "CHR ''@'' \<notin> set ?hp" "set ?hp \<subseteq> set (us_netloc u)"
    using assms(2) rpartition_at_subset [of "CHR ''@''" "us_netloc u"] rpartition_at_tail by auto
  obtain a f b where p: "partition_at (CHR '':'') ?hp = (a, f, b)" by (metis prod_cases3)
  have h: "fst (hostinfo u) = a"
    using hp(1) p by (simp add: hostinfo_def partition_at_absent Let_def)
  have "set a \<subseteq> set ?hp" "CHR '':'' \<notin> set a" using p by (auto simp: partition_at_iff split: if_splits)
  with hp h show "set (fst (hostinfo u)) \<subseteq> set (us_netloc u)"
      "CHR '':'' \<notin> set (fst (hostinfo u))" "CHR ''@'' \<notin> set (fst (hostinfo u))" by auto
  show "fst (hostinfo u) \<noteq> []" using assms(1) by (auto simp: us_hostname_def Let_def)
  show "lower h = lower (fst (hostinfo u))"
    using assms(1)
    by (auto simp: us_hostname_def Let_def lower_append partition_at_iff split: if_splits prod.splits)
qed

lemma hostname_lower:
  assumes "hostinfo u = (lower g, p)" and "g \<noteq> []"
  shows "\<exists>h. us_hostname u = Some h \<and> lower h = lower g"
proof -
  obtain a f b where p: "partition_at (CHR ''%'') (lower g) = (a, f, b)" by (metis prod_cases3)
  then have g: "lower g = (if f then a @ ''%'' @ b else a)" "\<not> f \<Longrightarrow> b = []"
    by (auto simp: partition_at_iff split: if_splits)
  have "lower (lower a @ (if f then ''%'' else []) @ b) = lower (lower g)"
    using g by (cases f) (simp_all add: lower_def comp_def)
  then have "lower (lower a @ (if f then ''%'' else []) @ b) = lower g" by simp
  with p assms show ?thesis
    by (simp add: us_hostname_def) (simp add: lower_def)
qed

text \<open>
  The pieces of a canonical URL: scheme, host in lower case, port, path, and the query pairs that are kept.
\<close>

definition plain_host_char :: "char \<Rightarrow> bool" where
  "plain_host_char c \<longleftrightarrow> \<not> special_char c \<and> \<not> is_space c \<and> c \<noteq> CHR ''@''"

definition plain_path_char :: "char \<Rightarrow> bool" where
  "plain_path_char c \<longleftrightarrow> \<not> is_space c \<and> c \<noteq> CHR ''?'' \<and> c \<noteq> CHR ''#''"

lemma plain_host_char_facts:
  "plain_host_char c \<Longrightarrow> \<not> special_char c" "plain_host_char c \<Longrightarrow> \<not> is_space c"
  "\<not> plain_host_char (CHR ''@'')" "\<not> plain_host_char (CHR ''['')" "plain_host_char (CHR '':'')"
  by (simp_all add: plain_host_char_def special_char_def netloc_delim_def dropped_char_def)

lemma digit_plain_host_char: "is_digit c \<Longrightarrow> plain_host_char c"
  using special_char_facts [of c] digit_no_space [of c] by (cases "c = CHR ''@''") (auto simp: plain_host_char_def is_digit_def)

lemma plain_path_char_facts: "plain_path_char c \<Longrightarrow> \<not> is_space c" "\<not> plain_path_char (CHR ''?'')" "\<not> plain_path_char (CHR ''#'')"
  by (simp_all add: plain_path_char_def)

definition canonical_pieces :: "netlib \<Rightarrow> string \<Rightarrow> string \<Rightarrow> nat option \<Rightarrow> string \<Rightarrow> (string \<times> string) list \<Rightarrow> bool" where
  "canonical_pieces nl s g port pa q \<longleftrightarrow>
     (s = ''http'' \<or> s = ''https'') \<and> g \<noteq> [] \<and> lower g = g
     \<and> list_all plain_host_char g \<and> CHR '':'' \<notin> set g
     \<and> (\<forall>p. port = Some p \<longrightarrow> p \<le> 65535)
     \<and> pa \<noteq> [] \<and> hd pa = CHR ''/'' \<and> canonical_path pa = pa
     \<and> list_all plain_path_char pa
     \<and> filter (\<lambda>(k, _). \<not> tracking_key k) q = q"

definition pieces_url :: "netlib \<Rightarrow> string \<Rightarrow> string \<Rightarrow> nat option \<Rightarrow> string \<Rightarrow> (string \<times> string) list \<Rightarrow> string" where
  "pieces_url nl s g port pa q = urlunsplit s (canonical_netloc s g port) pa (urlencode nl q)"

lemma canonical_path_again:
  assumes "us_path parts = [] \<or> hd (us_path parts) = CHR ''/''" and "ordinary_url parts"
  shows "canonical_path (us_path parts) \<noteq> []" "hd (canonical_path (us_path parts)) = CHR ''/''"
    "set (canonical_path (us_path parts)) \<subseteq> insert (CHR ''/'') (set (us_path parts))"
    "canonical_path (canonical_path (us_path parts)) = canonical_path (us_path parts)"
proof -
  obtain k where k: "rstrip_char (CHR ''/'') (us_path parts) = take k (us_path parts)"
    using rstrip_char_prefix by blast
  have "hd (canonical_path (us_path parts)) = CHR ''/'' \<and> canonical_path (us_path parts) \<noteq> []
      \<and> set (canonical_path (us_path parts)) \<subseteq> insert (CHR ''/'') (set (us_path parts))"
    using assms set_take_subset [of k "us_path parts"]
    by (auto simp: canonical_path_def ordinary_url_def k Let_def)
  then show "canonical_path (us_path parts) \<noteq> []" "hd (canonical_path (us_path parts)) = CHR ''/''"
    "set (canonical_path (us_path parts)) \<subseteq> insert (CHR ''/'') (set (us_path parts))" by simp_all
  then show "canonical_path (canonical_path (us_path parts)) = canonical_path (us_path parts)"
    by (auto simp: canonical_path_def Let_def)
qed

lemma canonical_of_ordinary:
  assumes "urlsplit nl (strip v) = Inr parts" and "ordinary_url parts" and "canonicalize_url nl v = Inr u"
  obtains s g port pa q where "canonical_pieces nl s g port pa q" "u = pieces_url nl s g port pa q"
proof -
  define q where "q = filter (\<lambda>(k, _). \<not> tracking_key k) (parse_qsl nl (us_query parts))"
  obtain h where h: "us_hostname parts = Some h"
    and br: "CHR ''['' \<notin> set (us_netloc parts)" "CHR '']'' \<notin> set (us_netloc parts)"
    and sp: "list_all (\<lambda>c. \<not> is_space c) (us_netloc parts @ us_path parts)"
    using assms(2) by (auto simp: ordinary_url_def)
  define g where "g = fst (hostinfo parts)"
  note g = hostname_ok [OF h br(1), folded g_def]
  obtain s port where port: "us_port parts = Inr port" and s: "s = ''http'' \<or> s = ''https''"
    and nn: "us_netloc parts \<noteq> []"
    and u: "u = pieces_url nl s (lower g) port (canonical_path (us_path parts)) q"
    using assms(1,3) h g(1)
    by (auto simp: canonicalize_url_def pieces_url_def q_def Let_def bindE_eq_Inr split: if_splits)
  note shape = urlsplit_shape [OF assms(1)]
  note path = canonical_path_again [OF shape(1) [OF nn] assms(2)]
  have away: "d \<notin> set (lower g)" if "unlettered d" "d \<notin> set (us_netloc parts)" for d
    using that g(3) by (auto simp: in_lower_unlettered)
  have special: "\<not> special_char c" if c: "c \<in> set (lower g)" for c
  proof
    assume sc: "special_char c"
    then have "c \<notin> set (us_netloc parts)" using shape(5) br by (auto simp: special_char_def list_all_iff)
    with away special_char_facts [OF sc] c show False by blast
  qed
  have space: "\<not> is_space c" if "c \<in> set (lower g)" for c
    using that g(3) sp by (auto simp: lower_def is_space_lower list_all_iff)
  have colon: "CHR '':'' \<notin> set (lower g)" and at: "CHR ''@'' \<notin> set (lower g)"
    using g(4,5) by (simp_all add: in_lower_unlettered)
  have hosts: "list_all plain_host_char (lower g)"
    unfolding list_all_iff plain_host_char_def using special space at by blast
  have ports: "\<forall>p. port = Some p \<longrightarrow> p \<le> 65535"
    using port by (auto simp: us_port_def split: option.splits if_splits)
  have paths: "list_all plain_path_char (canonical_path (us_path parts))"
    unfolding list_all_iff plain_path_char_def
  proof
    fix c assume "c \<in> set (canonical_path (us_path parts))"
    then have "c = CHR ''/'' \<or> c \<in> set (us_path parts)" using path(3) by blast
    then show "\<not> is_space c \<and> c \<noteq> CHR ''?'' \<and> c \<noteq> CHR ''#''"
      using shape(2,3) sp by (auto simp: list_all_iff)
  qed
  have low: "lower g \<noteq> []" "lower (lower g) = lower g" using g(2) by (simp_all add: lower_def)
  have kept: "filter (\<lambda>(k, _). \<not> tracking_key k) q = q" by (simp add: q_def)
  have "canonical_pieces nl s (lower g) port (canonical_path (us_path parts)) q"
    unfolding canonical_pieces_def
    by (intro conjI) (fact s low hosts colon ports path paths kept)+
  then show thesis using u by (rule that)
qed

lemma pieces_netloc:
  assumes "canonical_pieces nl s g port pa q"
  shows "canonical_netloc s g port = g \<or> (\<exists>p. port = Some p \<and> canonical_netloc s g port = g @ '':'' @ decimal p)"
    and "list_all plain_host_char (canonical_netloc s g port)"
    and "canonical_netloc s g port \<noteq> []"
proof -
  show n: "canonical_netloc s g port = g \<or> (\<exists>p. port = Some p \<and> canonical_netloc s g port = g @ '':'' @ decimal p)"
    by (auto simp: canonical_netloc_def split: option.split)
  then show "canonical_netloc s g port \<noteq> []" using assms by (auto simp: canonical_pieces_def)
  have dec: "list_all plain_host_char (decimal p)" for p
    using decimal_digits [of p] digit_plain_host_char by (auto simp: list_all_iff)
  have "list_all plain_host_char g" using assms unfolding canonical_pieces_def by blast
  with n show "list_all plain_host_char (canonical_netloc s g port)"
    by (elim disjE exE conjE) (simp_all add: dec plain_host_char_facts(5))
qed

lemma pieces_split:
  assumes "codec_ok nl" and "canonical_pieces nl s g port pa q"
  shows "strip (pieces_url nl s g port pa q) = pieces_url nl s g port pa q"
    and "urlsplit nl (pieces_url nl s g port pa q) = Inr \<lparr>us_scheme = s, us_netloc = canonical_netloc s g port,
           us_path = pa, us_query = urlencode nl q, us_fragment = []\<rparr>"
proof -
  let ?n = "canonical_netloc s g port" and ?u = "pieces_url nl s g port pa q"
  note n = pieces_netloc [OF assms(2)]
  from assms(2) have s: "s = ''http'' \<or> s = ''https''" and pa: "pa \<noteq> []" "hd pa = CHR ''/''"
    and pc: "list_all plain_path_char pa"
    unfolding canonical_pieces_def by blast+
  have q_ok: "list_all (\<lambda>c. c \<noteq> CHR ''#'' \<and> \<not> is_space c) (urlencode nl q)" by (rule urlencode_chars [OF assms(1)])
  have u: "?u = s @ ''://'' @ ?n @ pa @ (if urlencode nl q \<noteq> [] then ''?'' @ urlencode nl q else [])"
    using n(3) pa by (cases pa) (simp_all add: pieces_url_def urlunsplit_def Let_def)
  have "list_all (\<lambda>c. \<not> is_space c) ?u"
  proof -
    have "list_all (\<lambda>c. \<not> is_space c) s" using s by (elim disjE) simp_all
    moreover have "list_all (\<lambda>c. \<not> is_space c) ?n" "list_all (\<lambda>c. \<not> is_space c) pa"
      "list_all (\<lambda>c. \<not> is_space c) (urlencode nl q)" using n(2) pc q_ok
      by (auto simp: list_all_iff plain_host_char_facts plain_path_char_facts(1))
    moreover have "list_all (\<lambda>c. \<not> is_space c) ''://''" "list_all (\<lambda>c. \<not> is_space c) ''?''" by simp_all
    ultimately show ?thesis unfolding u by (simp only: list_all_append if_split) simp
  qed
  then show "strip ?u = ?u" by (rule strip_no_space)
  have plain: "plain_netloc ?n" using n(2) by (simp add: plain_netloc_def list_all_iff plain_host_char_facts(1))
  show "urlsplit nl ?u = Inr \<lparr>us_scheme = s, us_netloc = ?n, us_path = pa, us_query = urlencode nl q, us_fragment = []\<rparr>"
    unfolding u
  proof (rule urlsplit_parts [OF s plain])
    show "list_all (\<lambda>c. \<not> dropped_char c) (pa @ urlencode nl q)"
      using pc q_ok unfolding list_all_iff set_append by (metis UnE dropped_is_space plain_path_char_facts(1))
    show "CHR ''#'' \<notin> set (urlencode nl q)" using q_ok by (auto simp: list_all_iff)
    show "CHR ''?'' \<notin> set pa" "CHR ''#'' \<notin> set pa" using pc plain_path_char_facts(2,3) by (auto simp: list_all_iff)
  qed (use pa in simp)
qed

lemma pieces_host:
  fixes pa :: string and rest :: string
  assumes "canonical_pieces nl s g port pa q"
  defines "parts \<equiv> \<lparr>us_scheme = s, us_netloc = canonical_netloc s g port, us_path = pa, us_query = rest, us_fragment = []\<rparr>"
  shows "\<exists>port'. us_port parts = Inr port' \<and> canonical_netloc s g port' = canonical_netloc s g port"
    and "\<exists>h. us_hostname parts = Some h \<and> lower h = g"
    and "userinfo parts = (None, None)"
proof -
  let ?n = "canonical_netloc s g port"
  note n = pieces_netloc [OF assms(1)]
  have no: "CHR ''@'' \<notin> set ?n" "CHR ''['' \<notin> set ?n" "CHR '':'' \<notin> set g"
    using n(2) plain_host_char_facts(3,4) assms(1) unfolding canonical_pieces_def list_all_iff by blast+
  from no(1) show "userinfo parts = (None, None)" by (simp add: parts_def userinfo_def rpartition_at_absent)
  have "\<exists>port' p'. us_port parts = Inr port' \<and> canonical_netloc s g port' = ?n \<and> hostinfo parts = (g, p')"
  proof (cases "?n = g")
    case True
    then have "hostinfo parts = (g, None)" using host_of_netloc [OF no disjI1] by (simp add: parts_def)
    with True show ?thesis by (auto simp: us_port_def canonical_netloc_def)
  next
    case False
    with n(1) obtain p where p: "port = Some p" "?n = g @ '':'' @ decimal p" by blast
    then have "hostinfo parts = (g, Some (decimal p))"
      using host_of_netloc [OF no disjI2] decimal_digits by (auto simp: parts_def)
    moreover have "p \<le> 65535" using assms(1) p(1) by (simp add: canonical_pieces_def)
    moreover have "list_all is_digit (decimal p)" using decimal_digits by blast
    ultimately have "us_port parts = Inr (Some p)" by (simp add: us_port_def read_decimal_decimal)
    with p \<open>hostinfo parts = _\<close> show ?thesis by auto
  qed
  then obtain port' p' where "us_port parts = Inr port'" "canonical_netloc s g port' = ?n"
    and host: "hostinfo parts = (g, p')" by blast
  then show "\<exists>port'. us_port parts = Inr port' \<and> canonical_netloc s g port' = ?n" by blast
  have "g \<noteq> []" "lower g = g" using assms(1) by (simp_all add: canonical_pieces_def)
  with host show "\<exists>h. us_hostname parts = Some h \<and> lower h = g" using hostname_lower [of parts g p'] by simp
qed

lemma pieces_again:
  assumes "codec_ok nl" and "canonical_pieces nl s g port pa q"
  shows "canonicalize_url nl (pieces_url nl s g port pa q) = Inr (pieces_url nl s g port pa q)"
proof -
  from pieces_host [OF assms(2), of "urlencode nl q"] obtain port' h where
    "us_port \<lparr>us_scheme = s, us_netloc = canonical_netloc s g port, us_path = pa, us_query = urlencode nl q,
       us_fragment = []\<rparr> = Inr port'" "canonical_netloc s g port' = canonical_netloc s g port"
    "us_hostname \<lparr>us_scheme = s, us_netloc = canonical_netloc s g port, us_path = pa, us_query = urlencode nl q,
       us_fragment = []\<rparr> = Some h" "lower h = g" by blast
  moreover have "lower s = s" "s = ''http'' \<or> s = ''https''" "canonical_path pa = pa"
    "filter (\<lambda>(k, _). \<not> tracking_key k) (parse_qsl nl (urlencode nl q)) = q"
    using assms(2) by (auto simp: canonical_pieces_def parse_urlencode [OF assms(1)] lower_def)
  ultimately show ?thesis
    unfolding canonicalize_url_def pieces_split [OF assms] bindE_Inr
    using pieces_netloc(3) [OF assms(2)] by (simp add: Let_def pieces_url_def)
qed

text \<open>
  C27. Canonical URLs identify pages: the canonical form of an ordinary URL is its own canonical form,
  and it carries no credentials and no tracking parameter, whatever the input's case, default port,
  trailing slashes or tracking parameters.
\<close>

theorem canonical_url_fixpoint:
  assumes "codec_ok nl" and "urlsplit nl (strip v) = Inr parts" and "ordinary_url parts"
    and "canonicalize_url nl v = Inr u"
  shows "canonicalize_url nl u = Inr u
     \<and> (\<exists>parts'. urlsplit nl u = Inr parts' \<and> userinfo parts' = (None, None)
          \<and> (\<forall>(k, x) \<in> set (parse_qsl nl (us_query parts')). \<not> tracking_key k))"
proof -
  from assms(2-4) obtain s g port pa q where ok: "canonical_pieces nl s g port pa q" and u: "u = pieces_url nl s g port pa q"
    by (rule canonical_of_ordinary)
  have "filter (\<lambda>(k, _). \<not> tracking_key k) q = q" using ok by (simp add: canonical_pieces_def)
  then have "\<forall>(k, x) \<in> set (parse_qsl nl (urlencode nl q)). \<not> tracking_key k"
    by (auto simp: parse_urlencode [OF assms(1)] filter_id_conv)
  with pieces_again [OF assms(1) ok] pieces_split(2) [OF assms(1) ok] pieces_host(3) [OF ok, of "urlencode nl q"]
  show ?thesis unfolding u by fastforce
qed

text \<open>A codec obeying the laws: every character is written as two letters.\<close>

definition demo_quote :: "string \<Rightarrow> string" where
  "demo_quote s = concat (map (\<lambda>c. let n = (of_char c :: nat)
     in [char_of (97 + n div 16), char_of (97 + n mod 16)]) s)"

fun demo_unquote :: "string \<Rightarrow> string" where
  "demo_unquote (a # b # r) = char_of ((of_char a - 97) * 16 + (of_char b - 97 :: nat)) # demo_unquote r"
| "demo_unquote _ = []"

definition demo_net :: netlib where
  "demo_net =
     \<lparr>nl_unquote = demo_unquote, nl_quote_plus = demo_quote, nl_bracket_ok = (\<lambda>_. True),
      nl_ip_address = (\<lambda>_. Some \<lparr>ip_version = 4, ip_value = 0, ip_is_multicast = False,
                                 ip_is_unspecified = False, ip_is_global = True\<rparr>),
      nl_getaddrinfo = (\<lambda>h. Some [h])\<rparr>"

lemma demo_letter:
  assumes "n < 16"
  shows "char_of (97 + n :: nat) \<noteq> CHR ''+''" "char_of (97 + n :: nat) \<noteq> CHR ''&''"
    "char_of (97 + n :: nat) \<noteq> CHR ''=''" "char_of (97 + n :: nat) \<noteq> CHR ''#''"
    "\<not> is_space (char_of (97 + n :: nat))"
proof -
  have *: "(of_char (char_of (97 + n :: nat) :: char) :: nat) = 97 + n" using assms by simp
  have "(of_char c :: nat) < 97 \<Longrightarrow> char_of (97 + n :: nat) \<noteq> c" for c using * by auto
  then show "char_of (97 + n :: nat) \<noteq> CHR ''+''" "char_of (97 + n :: nat) \<noteq> CHR ''&''"
    "char_of (97 + n :: nat) \<noteq> CHR ''=''" "char_of (97 + n :: nat) \<noteq> CHR ''#''" by simp_all
  show "\<not> is_space (char_of (97 + n :: nat))" using * assms by (simp add: is_space_def Let_def)
qed

lemma demo_codec: "codec_ok demo_net"
proof -
  have hi: "(of_char c :: nat) div 16 < 16" for c using of_char_bound [of c] by linarith
  have lo: "(of_char c :: nat) mod 16 < 16" for c by simp
  have one: "(of_char (char_of (97 + n :: nat) :: char) :: nat) = 97 + n" if "n < 16" for n
    using that by simp
  have chars: "list_all (\<lambda>c. c \<notin> {CHR ''&'', CHR ''='', CHR ''#''} \<and> \<not> is_space c \<and> c \<noteq> CHR ''+'') (demo_quote s)" for s
    by (induction s) (simp_all add: demo_quote_def Let_def demo_letter [OF hi] demo_letter [OF lo])
  then have "map (\<lambda>c. if c = CHR ''+'' then CHR '' '' else c) (demo_quote s) = demo_quote s" for s
    by (intro map_idI) (auto simp: list_all_iff)
  moreover have "demo_unquote (demo_quote s) = s" for s
    by (induction s) (simp_all add: demo_quote_def Let_def one [OF hi] one [OF lo] del: of_char_of)
  ultimately show ?thesis using chars by (auto simp: codec_ok_def demo_net_def list_all_iff)
qed

definition demo_url :: string where
  "demo_url = ''HTTPS://User@Demo.org:443/apply/?''"

definition demo_parts :: split_result where
  "demo_parts = \<lparr>us_scheme = ''https'', us_netloc = ''User@Demo.org:443'', us_path = ''/apply/'',
     us_query = [], us_fragment = []\<rparr>"

lemma demo_split: "urlsplit demo_net (strip demo_url) = Inr demo_parts"
  by (simp add: urlsplit_def demo_url_def strip_def split_scheme_def Let_def scheme_char_def is_alpha_def
      lower_def netloc_delim_def dropped_char_def demo_parts_def)

lemma demo_canonical: "canonicalize_url demo_net demo_url = Inr ''https://demo.org/apply''"
  unfolding canonicalize_url_def demo_split bindE_Inr
  by (simp add: demo_parts_def us_port_def us_hostname_def hostinfo_def rpartition_at_def Let_def
      is_digit_def read_decimal_def lower_def canonical_netloc_def canonical_path_def rstrip_char_def
      parse_qsl_def urlencode_def urlunsplit_def)

theorem canonical_url_fixpoint_witness:
  "canonicalize_url demo_net ''https://demo.org/apply'' = Inr ''https://demo.org/apply''"
proof -
  have "ordinary_url demo_parts"
    by (simp add: ordinary_url_def demo_parts_def us_hostname_def hostinfo_def rpartition_at_def Let_def
        rstrip_char_def)
  from canonical_url_fixpoint [OF demo_codec demo_split this demo_canonical] show ?thesis by blast
qed

text \<open>
  A path of slashes alone escapes the normal form: it is stripped to nothing, so one and the same
  page has two canonical URLs, and the first of them is not a fixpoint.
\<close>

theorem slash_only_path_is_no_fixpoint:
  "canonicalize_url demo_net ''https://demo.org//'' = Inr ''https://demo.org''
   \<and> canonicalize_url demo_net ''https://demo.org'' = Inr ''https://demo.org/''
   \<and> canonicalize_url demo_net ''https://demo.org/'' = Inr ''https://demo.org/''"
  by (simp add: canonicalize_url_def urlsplit_def strip_def split_scheme_def Let_def scheme_char_def
      is_alpha_def lower_def netloc_delim_def dropped_char_def us_port_def us_hostname_def hostinfo_def
      rpartition_at_def is_digit_def canonical_netloc_def canonical_path_def rstrip_char_def
      parse_qsl_def urlencode_def urlunsplit_def)

section \<open>Return URLs compare by structure\<close>

definition host_char :: "char \<Rightarrow> bool" where
  "host_char c \<longleftrightarrow> is_digit c \<or> (let n = (of_char c :: nat) in 97 \<le> n \<and> n \<le> 122) \<or> c = CHR ''-'' \<or> c = CHR ''.''"

definition plain_host :: "string \<Rightarrow> bool" where
  "plain_host h \<longleftrightarrow> h \<noteq> [] \<and> list_all host_char h"

lemma host_char_facts:
  assumes "host_char c"
  shows "\<not> special_char c" "c \<noteq> CHR '':''" "c \<noteq> CHR ''@''" "c \<noteq> CHR ''%''"
    "\<not> dropped_char c" "\<not> netloc_delim c" "c \<noteq> CHR ''[''" "c \<noteq> CHR '']''"
proof -
  have n: "45 \<le> (of_char c :: nat) \<and> (of_char c :: nat) \<le> 46 \<or> 48 \<le> (of_char c :: nat) \<and> (of_char c :: nat) \<le> 57
      \<or> 97 \<le> (of_char c :: nat)"
    using assms by (auto simp: host_char_def is_digit_def Let_def)
  then have "c \<noteq> d" if "(of_char d :: nat) \<in> {9, 10, 13, 35, 37, 47, 58, 63, 64, 91, 93}" for d
    using that by auto
  then show "\<not> special_char c" "c \<noteq> CHR '':''" "c \<noteq> CHR ''@''" "c \<noteq> CHR ''%''"
    "\<not> dropped_char c" "\<not> netloc_delim c" "c \<noteq> CHR ''[''" "c \<noteq> CHR '']''"
    by (simp_all add: special_char_def dropped_char_def netloc_delim_def)
qed

lemma plain_host_netloc: "plain_host h \<Longrightarrow> plain_netloc h"
  using host_char_facts by (auto simp: plain_host_def plain_netloc_def list_all_iff)

lemma plain_host_absent:
  assumes "plain_host h"
  shows "CHR '':'' \<notin> set h" "CHR ''@'' \<notin> set h" "CHR ''['' \<notin> set h" "CHR '']'' \<notin> set h"
    "CHR ''%'' \<notin> set h"
proof -
  have "c \<notin> set h" if "\<not> host_char c" for c
    using assms that by (auto simp: plain_host_def list_all_iff)
  then show "CHR '':'' \<notin> set h" "CHR ''@'' \<notin> set h" "CHR ''['' \<notin> set h" "CHR '']'' \<notin> set h"
    "CHR ''%'' \<notin> set h"
    using host_char_facts(2,3,4,7,8) by metis+
qed

lemma split_extended:
  assumes s: "s = ''http'' \<or> s = ''https''" and h: "plain_host h"
    and t: "urlsplit nl (s @ ''://'' @ h @ r) = Inr t"
  shows "us_netloc t = h @ takeWhile (\<lambda>c. \<not> netloc_delim c) (filter (\<lambda>c. \<not> dropped_char c) r)"
    and "CHR ''['' \<in> set (us_netloc t) \<Longrightarrow> check_bracketed nl (us_netloc t) = Inr ()"
proof -
  let ?r = "filter (\<lambda>c. \<not> dropped_char c) r"
  have hf: "filter (\<lambda>c. \<not> dropped_char c) h = h"
    using h host_char_facts by (auto simp: plain_host_def list_all_iff filter_id_conv)
  have 1: "filter (\<lambda>c. \<not> dropped_char c) (dropWhile (\<lambda>c. (of_char c :: nat) \<le> 32) (s @ ''://'' @ h @ r))
      = s @ ''://'' @ h @ ?r"
    using s hf by (elim disjE) (simp_all add: dropped_char_def)
  have 2: "split_scheme (s @ ''://'' @ h @ ?r) = (s, ''//'' @ h @ ?r)"
    using s split_scheme_http [of "''//'' @ h @ ?r"] by auto
  have 3: "takeWhile (\<lambda>c. \<not> netloc_delim c) (h @ ?r) = h @ takeWhile (\<lambda>c. \<not> netloc_delim c) ?r"
    using h host_char_facts by (intro takeWhile_append2) (auto simp: plain_host_def list_all_iff)
  show "us_netloc t = h @ takeWhile (\<lambda>c. \<not> netloc_delim c) ?r"
    using t unfolding urlsplit_def Let_def 1 2
    by (auto simp: 3 bindE_eq_Inr split: prod.splits if_splits)
  show "check_bracketed nl (us_netloc t) = Inr ()" if "CHR ''['' \<in> set (us_netloc t)"
    using t that unfolding urlsplit_def Let_def 1 2
    by (auto simp: 3 bindE_eq_Inr split: prod.splits if_splits)
qed

lemma split_plain_host:
  assumes "s = ''http'' \<or> s = ''https''" and "plain_host h"
  shows "urlsplit nl (s @ ''://'' @ h)
    = Inr \<lparr>us_scheme = s, us_netloc = h, us_path = [], us_query = [], us_fragment = []\<rparr>"
  using urlsplit_parts [OF assms(1) plain_host_netloc [OF assms(2)], of "[]" "[]"] by simp

lemma plain_hostinfo:
  assumes "plain_host h"
  shows "hostinfo \<lparr>us_scheme = s, us_netloc = h, us_path = p, us_query = q, us_fragment = f\<rparr> = (h, None)"
  using host_of_netloc [OF plain_host_absent(2,3,1) [OF assms] disjI1] by simp

lemma lower_plain_host: "plain_host h \<Longrightarrow> lower h = h"
  unfolding lower_def plain_host_def
  by (intro map_idI) (auto simp: list_all_iff host_char_def is_digit_def lower_char_def Let_def)

lemma plain_hostname:
  assumes "plain_host h"
  shows "us_hostname \<lparr>us_scheme = s, us_netloc = h, us_path = p, us_query = q, us_fragment = f\<rparr> = Some h"
proof -
  have "CHR ''%'' \<notin> set h" "h \<noteq> []" using assms plain_host_absent(5) by (auto simp: plain_host_def)
  then show ?thesis
    using assms by (simp add: us_hostname_def plain_hostinfo partition_at_absent lower_plain_host)
qed

lemma extended_host_differs:
  assumes h: "plain_host h" and n: "us_netloc t = h @ c # w" and c: "c \<noteq> CHR '':''"
    and br: "CHR ''['' \<in> set (us_netloc t) \<Longrightarrow> check_bracketed nl (us_netloc t) = Inr ()"
  shows "nonempty (fst (userinfo t)) \<or> (\<exists>g. us_hostname t = Some g \<and> lower g \<noteq> h)"
proof (cases "CHR ''@'' \<in> set (us_netloc t)")
  case True
  then obtain a b where a: "rpartition_at (CHR ''@'') (us_netloc t) = (a, True, b)" "us_netloc t = a @ CHR ''@'' # b"
    "CHR ''@'' \<notin> set b" by (rule rpartition_at_found)
  obtain x xs where hx: "h = x # xs" using h by (cases h) (auto simp: plain_host_def)
  have "x \<noteq> CHR ''@''" "x \<noteq> CHR '':''" using plain_host_absent [OF h] hx by auto
  then obtain as where as: "a = x # as" using n a(2) hx by (cases a) auto
  have "fst (userinfo t) = Some (fst (partition_at (CHR '':'') a))"
    using a(1) by (simp add: userinfo_def split: prod.split)
  then show ?thesis using as \<open>x \<noteq> CHR '':''\<close> by (simp add: nonempty_def split: prod.split)
next
  case False
  have rp: "rpartition_at (CHR ''@'') (us_netloc t) = ([], False, us_netloc t)"
    by (rule rpartition_at_absent [OF False])
  have nb: "CHR ''['' \<notin> set (us_netloc t)"
  proof
    assume b: "CHR ''['' \<in> set (us_netloc t)"
    then obtain p q where pq: "us_netloc t = p @ CHR ''['' # q" "CHR ''['' \<notin> set p"
      by (meson split_list_first)
    have "p \<noteq> []" using pq n h plain_host_absent(3) [OF h] by (cases h) (auto simp: plain_host_def)
    moreover have "partition_at (CHR ''['') (us_netloc t) = (p, True, q)"
      using pq by (simp add: partition_at_found)
    ultimately have "check_bracketed nl (us_netloc t) = Inl bad_ipv6"
      by (simp add: check_bracketed_def rp)
    with br [OF b] show False by simp
  qed
  obtain a' f b where "partition_at (CHR '':'') w = (a', f, b)" by (metis prod_cases3)
  then obtain a where p: "partition_at (CHR '':'') (c # w) = (a, f, b)" and a: "a \<noteq> []"
    using c by simp
  have "partition_at (CHR '':'') (us_netloc t) = (h @ a, f, b)"
    using p plain_host_absent(1) [OF h] unfolding n partition_at_iff by (cases f) auto
  then have hi: "fst (hostinfo t) = h @ a"
    using nb by (simp add: hostinfo_def rp partition_at_absent)
  then obtain g where g: "us_hostname t = Some g"
    using a h by (cases "partition_at (CHR ''%'') (h @ a)") (auto simp: us_hostname_def)
  from hostname_ok(1) [OF this nb] hi have "length g = length h + length a"
    by (metis length_append length_lower)
  with a have "lower g \<noteq> h" by (metis add_cancel_left_right length_0_conv length_lower)
  with g show ?thesis by blast
qed

text \<open>
  The return-URL check is no lexical prefix match: a candidate that continues the allowed origin's
  text is accepted only if the origin ends right there, at a path, query, fragment or port, so the
  token can go to no other host; and every plain path and query under the origin is accepted.
\<close>

theorem return_url_stays_on_origin:
  assumes "s = ''http'' \<or> s = ''https''" and "plain_host h"
  shows "(is_allowed_return_url nl (s @ ''://'' @ h @ r) (s @ ''://'' @ h) = Inr True \<longrightarrow>
            filter (\<lambda>c. \<not> dropped_char c) r = []
            \<or> hd (filter (\<lambda>c. \<not> dropped_char c) r) \<in> {CHR ''/'', CHR ''?'', CHR ''#'', CHR '':''})
     \<and> (\<forall>p q. (p = [] \<or> hd p = CHR ''/'') \<and> CHR ''?'' \<notin> set p \<and> CHR ''#'' \<notin> set p \<and> CHR ''#'' \<notin> set q
            \<and> list_all (\<lambda>c. \<not> dropped_char c) (p @ q) \<longrightarrow>
            is_allowed_return_url nl (s @ ''://'' @ h @ p @ (if q \<noteq> [] then ''?'' @ q else [])) (s @ ''://'' @ h)
              = Inr True)"
proof (intro conjI impI allI)
  let ?r = "filter (\<lambda>c. \<not> dropped_char c) r"
  have ls: "lower s = s" "s \<noteq> []" "map_of DEFAULT_PORTS s \<noteq> None"
    using assms(1) by (auto simp: lower_def DEFAULT_PORTS_def)
  note split0 = split_plain_host [OF assms, of nl] and name0 = plain_hostname [OF assms(2)]
  assume ok: "is_allowed_return_url nl (s @ ''://'' @ h @ r) (s @ ''://'' @ h) = Inr True"
  then obtain t where t: "urlsplit nl (s @ ''://'' @ h @ r) = Inr t"
    unfolding is_allowed_return_url_def split0 bindE_Inr
    by (cases "urlsplit nl (s @ ''://'' @ h @ r)") (auto split: if_splits)
  with ok have acc: "\<not> nonempty (fst (userinfo t))" "lower (or_empty (us_hostname t)) = lower h"
    unfolding is_allowed_return_url_def split0 t bindE_Inr Let_def
    by (auto simp: name0 or_empty_def split: if_splits)
  show "?r = [] \<or> hd ?r \<in> {CHR ''/'', CHR ''?'', CHR ''#'', CHR '':''}"
  proof (rule ccontr)
    assume no: "\<not> (?r = [] \<or> hd ?r \<in> {CHR ''/'', CHR ''?'', CHR ''#'', CHR '':''})"
    then obtain c cs where c: "?r = c # cs" by (cases ?r) auto
    with no have "c \<noteq> CHR '':''" and nd: "\<not> netloc_delim c" by (auto simp: netloc_delim_def)
    moreover have "us_netloc t = h @ c # takeWhile (\<lambda>c. \<not> netloc_delim c) cs"
      using split_extended(1) [OF assms t] c nd by simp
    ultimately have "\<exists>g. us_hostname t = Some g \<and> lower g \<noteq> h"
      using extended_host_differs [OF assms(2)] split_extended(2) [OF assms t] acc(1) by blast
    with acc(2) show False by (auto simp: or_empty_def lower_plain_host [OF assms(2)])
  qed
next
  have ls: "lower s = s" "s \<noteq> []" "map_of DEFAULT_PORTS s \<noteq> None"
    using assms(1) by (auto simp: lower_def DEFAULT_PORTS_def)
  note split0 = split_plain_host [OF assms, of nl] and name0 = plain_hostname [OF assms(2)]
  fix p q
  assume pq: "(p = [] \<or> hd p = CHR ''/'') \<and> CHR ''?'' \<notin> set p \<and> CHR ''#'' \<notin> set p \<and> CHR ''#'' \<notin> set q
            \<and> list_all (\<lambda>c. \<not> dropped_char c) (p @ q)"
  have t: "urlsplit nl (s @ ''://'' @ h @ p @ (if q \<noteq> [] then ''?'' @ q else []))
      = Inr \<lparr>us_scheme = s, us_netloc = h, us_path = p, us_query = q, us_fragment = []\<rparr>"
    using pq by (intro urlsplit_parts [OF assms(1) plain_host_netloc [OF assms(2)]]) auto
  have path: "starts_with (slashed []) (slashed p)"
    using pq by (cases p) (auto simp: slashed_def ends_with_def Let_def)
  have u: "userinfo \<lparr>us_scheme = s, us_netloc = h, us_path = p, us_query = q, us_fragment = []\<rparr> = (None, None)"
    using plain_host_absent [OF assms(2)] by (simp add: userinfo_def rpartition_at_absent)
  show "is_allowed_return_url nl (s @ ''://'' @ h @ p @ (if q \<noteq> [] then ''?'' @ q else [])) (s @ ''://'' @ h)
      = Inr True"
    unfolding is_allowed_return_url_def t split0 bindE_Inr Let_def
    using ls path u name0 assms
    by (auto simp: us_port_def plain_hostinfo or_empty_def nonempty_def plain_host_def)
qed

theorem return_url_stays_on_origin_witness:
  "is_allowed_return_url demo_net ''https://app.org/next?x'' ''https://app.org'' = Inr True
   \<and> is_allowed_return_url demo_net ''https://app.org.evil.org/'' ''https://app.org'' \<noteq> Inr True
   \<and> is_allowed_return_url demo_net ''https://app.org@evil.org/'' ''https://app.org'' \<noteq> Inr True"
proof -
  have h: "plain_host ''app.org''" by (simp add: plain_host_def host_char_def is_digit_def)
  note th = return_url_stays_on_origin [OF disjI2 [OF refl] h, of demo_net]
  have "is_allowed_return_url demo_net ''https://app.org/next?x'' ''https://app.org'' = Inr True"
    using th [THEN conjunct2, rule_format, of "''/next''" "''x''"] by (simp add: dropped_char_def)
  then show ?thesis
    using th [THEN conjunct1, of "''.evil.org/''"] th [THEN conjunct1, of "''@evil.org/''"]
    by (auto simp: dropped_char_def)
qed

end
