(* ===== verification/Jobs.thy ===== *)
theory Jobs
  imports Facts
begin

text \<open>
  The durable job queue: the pure transitions (\<open>src/src/app/domain/jobs.py\<close>) and the operations
  on the \<open>processing_jobs\<close> table (\<open>src/src/app/infra/jobs.py\<close>).

  A transaction is one step. A row another transaction has locked is skipped by the sweeps
  (\<open>skip_locked\<close>): the predicate \<open>locked\<close>. A worker keeps the job object it claimed (the session
  does not expire objects on commit) and writes the job's columns through it, so
  \<open>complete_job\<close> and \<open>fail_job_for_execution\<close> take that object. The queue as a whole is the step
  relation \<open>job_step\<close>, in which a worker writes while its claim stands; what a worker does that
  writes after its lease was reaped is the last theorem.
\<close>

section \<open>Transitions\<close>

definition RETRYABLE_KINDS :: "string set" where
  "RETRYABLE_KINDS =
     {''fetch_source_page'', ''extract_candidate'', ''dispatch_outbox'', ''refresh_status'',
      ''reverify_due'', ''sweep_due_jobs'', ''auto_approve_sweep'', ''reconcile_stuck_jobs''}"

record job_transition =
  tr_state :: job_state
  tr_attempts :: nat
  tr_next_attempt_at :: "instant option"
  tr_error :: "string option"

definition LEASE_SECONDS :: int where
  "LEASE_SECONDS = 900"

definition claim_job :: "job_state \<Rightarrow> nat \<Rightarrow> instant \<Rightarrow> instant option \<Rightarrow> job_transition result" where
  "claim_job state attempts now next_attempt_at =
     (if state \<noteq> Queued \<and> state \<noteq> Retry_wait then Inl (ValueError ''Job is not claimable'')
      else if (case next_attempt_at of None \<Rightarrow> False | Some t \<Rightarrow> t > now)
      then Inl (ValueError ''Job is not due yet'')
      else Inr \<lparr>tr_state = Running, tr_attempts = attempts + 1, tr_next_attempt_at = None,
                tr_error = None\<rparr>)"

definition lease_expiry :: "instant \<Rightarrow> instant" where
  "lease_expiry now = now + seconds LEASE_SECONDS"

definition is_lease_expired :: "instant option \<Rightarrow> instant \<Rightarrow> bool" where
  "is_lease_expired lease_expires_at now =
     (case lease_expires_at of None \<Rightarrow> False | Some t \<Rightarrow> t \<le> now)"

definition finish_job :: job_transition where
  "finish_job = \<lparr>tr_state = Completed, tr_attempts = 0, tr_next_attempt_at = None, tr_error = None\<rparr>"

definition backoff_seconds :: "nat \<Rightarrow> int" where
  "backoff_seconds attempts = min (60 * 2 ^ (attempts - 1)) 21600"

definition fail_job :: "string \<Rightarrow> nat \<Rightarrow> string \<Rightarrow> instant \<Rightarrow> job_transition" where
  "fail_job kind attempts error now =
     (if kind \<in> RETRYABLE_KINDS \<and> attempts < 5
      then \<lparr>tr_state = Retry_wait, tr_attempts = attempts,
            tr_next_attempt_at = Some (now + seconds (backoff_seconds attempts)),
            tr_error = Some (take 1000 error)\<rparr>
      else \<lparr>tr_state = Failed_review, tr_attempts = attempts, tr_next_attempt_at = None,
            tr_error = Some (take 1000 error)\<rparr>)"

section \<open>Operations on the table\<close>

definition job_by_dedupe :: "string \<Rightarrow> processing_job list \<Rightarrow> processing_job option" where
  "job_by_dedupe key js = find (\<lambda>j. pj_dedupe_key j = key) js"

definition new_job :: "uuid \<Rightarrow> string \<Rightarrow> string \<Rightarrow> dict \<Rightarrow> string option \<Rightarrow> processing_job" where
  "new_job i kind dedupe_key payload correlation_id =
     \<lparr>pj_id = i, pj_kind = kind, pj_dedupe_key = dedupe_key, pj_state = Queued, pj_attempts = 0,
      pj_payload = payload, pj_last_error = None, pj_next_attempt_at = None,
      pj_lease_expires_at = None, pj_correlation_id = correlation_id\<rparr>"

definition enqueue_job ::
  "string \<Rightarrow> string \<Rightarrow> dict \<Rightarrow> db \<Rightarrow> ((processing_job \<times> bool) \<times> db) result" where
  "enqueue_job kind dedupe_key payload d =
     (let (i, d1) = new_uuid7 d;
          inserted = (job_by_dedupe dedupe_key (jobs d1) = None);
          d2 = (if inserted then d1\<lparr>jobs := jobs d1 @ [new_job i kind dedupe_key payload None]\<rparr> else d1)
      in case job_by_dedupe dedupe_key (jobs d2) of
           None \<Rightarrow> Inl (LookupError ''Job disappeared immediately after insert'')
         | Some job \<Rightarrow> Inr ((job, inserted), d2))"

definition claim_row :: "instant \<Rightarrow> job_transition \<Rightarrow> processing_job \<Rightarrow> processing_job" where
  "claim_row now t j =
     j\<lparr>pj_state := tr_state t, pj_attempts := tr_attempts t,
       pj_lease_expires_at := Some (lease_expiry now)\<rparr>"

definition claim_job_for_execution ::
  "instant \<Rightarrow> uuid \<Rightarrow> db \<Rightarrow> (processing_job \<times> db) result" where
  "claim_job_for_execution now job_id d =
     (case tget pj_id job_id (jobs d) of
        None \<Rightarrow> Inl (LookupError ''Job not found'')
      | Some job \<Rightarrow>
          bindE (claim_job (pj_state job) (pj_attempts job) now (pj_next_attempt_at job)) (\<lambda>t.
            Inr (claim_row now t job, d\<lparr>jobs := tmod pj_id job_id (claim_row now t) (jobs d)\<rparr>)))"

text \<open>
  The session writes a column back only where the object's value changed: from the value it
  loaded, \<open>old\<close>, to \<open>new\<close>. For a worker whose claim still stands the row holds \<open>old\<close>.
\<close>

definition flush :: "'a \<Rightarrow> 'a \<Rightarrow> 'a \<Rightarrow> 'a" where
  "flush old new cur = (if new = old then cur else new)"

definition complete_row :: "processing_job \<Rightarrow> processing_job \<Rightarrow> processing_job" where
  "complete_row job r =
     r\<lparr>pj_state := flush (pj_state job) (tr_state finish_job) (pj_state r),
       pj_lease_expires_at := flush (pj_lease_expires_at job) None (pj_lease_expires_at r),
       pj_next_attempt_at := flush (pj_next_attempt_at job) None (pj_next_attempt_at r)\<rparr>"

definition complete_job :: "processing_job \<Rightarrow> db \<Rightarrow> db" where
  "complete_job job d = d\<lparr>jobs := tmod pj_id (pj_id job) (complete_row job) (jobs d)\<rparr>"

definition fail_row :: "job_transition \<Rightarrow> processing_job \<Rightarrow> processing_job \<Rightarrow> processing_job" where
  "fail_row t job r =
     r\<lparr>pj_state := flush (pj_state job) (tr_state t) (pj_state r),
       pj_last_error := flush (pj_last_error job) (tr_error t) (pj_last_error r),
       pj_next_attempt_at := flush (pj_next_attempt_at job) (tr_next_attempt_at t) (pj_next_attempt_at r),
       pj_lease_expires_at := flush (pj_lease_expires_at job) None (pj_lease_expires_at r)\<rparr>"

definition fail_job_for_execution :: "instant \<Rightarrow> processing_job \<Rightarrow> string \<Rightarrow> db \<Rightarrow> db" where
  "fail_job_for_execution now job error d =
     (let t = fail_job (pj_kind job) (pj_attempts job) error now
      in d\<lparr>jobs := tmod pj_id (pj_id job) (fail_row t job) (jobs d)\<rparr>)"

definition stuck :: "instant \<Rightarrow> processing_job \<Rightarrow> bool" where
  "stuck now j = (pj_state j = Running \<and> is_lease_expired (pj_lease_expires_at j) now)"

definition reap_row :: "instant \<Rightarrow> processing_job \<Rightarrow> processing_job" where
  "reap_row now j =
     fail_row (fail_job (pj_kind j) (pj_attempts j) ''lease expired before completion'' now) j j"

definition reconcile_stuck_jobs :: "instant \<Rightarrow> (uuid \<Rightarrow> bool) \<Rightarrow> nat \<Rightarrow> db \<Rightarrow> nat \<times> db" where
  "reconcile_stuck_jobs now locked limit d =
     (let rows = take limit (sort_key pj_id (filter (\<lambda>j. stuck now j \<and> \<not> locked (pj_id j)) (jobs d)))
      in (length rows, d\<lparr>jobs := tmods pj_id (map pj_id rows) (reap_row now) (jobs d)\<rparr>))"

definition due_predicate :: "instant \<Rightarrow> processing_job \<Rightarrow> bool" where
  "due_predicate now j =
     ((pj_state j = Queued \<or> pj_state j = Retry_wait)
      \<and> (case pj_next_attempt_at j of None \<Rightarrow> True | Some t \<Rightarrow> t \<le> now))"

definition due_jobs :: "instant \<Rightarrow> (uuid \<Rightarrow> bool) \<Rightarrow> nat \<Rightarrow> db \<Rightarrow> processing_job list" where
  "due_jobs now locked limit d =
     take limit (sort_key pj_id (filter (\<lambda>j. due_predicate now j \<and> \<not> locked (pj_id j)) (jobs d)))"

definition count_due_jobs :: "instant \<Rightarrow> db \<Rightarrow> nat" where
  "count_due_jobs now d = length (filter (due_predicate now) (jobs d))"

section \<open>Row lemmas\<close>

lemmas job_row_defs = claim_row_def complete_row_def fail_row_def reap_row_def

lemma flush_same [simp]: "flush cur new cur = new"
  by (simp add: flush_def)

lemma job_row_keys [simp]:
  "pj_id (claim_row now t j) = pj_id j" "pj_id (complete_row h j) = pj_id j"
  "pj_id (fail_row t h j) = pj_id j" "pj_id (reap_row now j) = pj_id j"
  "pj_dedupe_key (claim_row now t j) = pj_dedupe_key j"
  "pj_dedupe_key (complete_row h j) = pj_dedupe_key j"
  "pj_dedupe_key (fail_row t h j) = pj_dedupe_key j"
  "pj_dedupe_key (reap_row now j) = pj_dedupe_key j"
  "pj_kind (claim_row now t j) = pj_kind j" "pj_kind (complete_row h j) = pj_kind j"
  "pj_kind (fail_row t h j) = pj_kind j" "pj_kind (reap_row now j) = pj_kind j"
  "pj_attempts (complete_row h j) = pj_attempts j" "pj_attempts (fail_row t h j) = pj_attempts j"
  "pj_attempts (reap_row now j) = pj_attempts j"
  by (simp_all add: job_row_defs)

lemma fail_job_state:
  "tr_state (fail_job k a e now) = (if k \<in> RETRYABLE_KINDS \<and> a < 5 then Retry_wait else Failed_review)"
  by (simp add: fail_job_def)

lemma fail_job_next:
  "tr_next_attempt_at (fail_job k a e now) =
     (if k \<in> RETRYABLE_KINDS \<and> a < 5 then Some (now + seconds (backoff_seconds a)) else None)"
  by (simp add: fail_job_def)

lemma claim_job_Inr:
  "claim_job s a now n = Inr t \<longleftrightarrow>
     (s = Queued \<or> s = Retry_wait) \<and> (\<forall>u. n = Some u \<longrightarrow> u \<le> now)
     \<and> t = \<lparr>tr_state = Running, tr_attempts = a + 1, tr_next_attempt_at = None, tr_error = None\<rparr>"
  by (auto simp: claim_job_def split: option.splits)

lemma due_predicate_claim:
  "due_predicate now j \<longleftrightarrow> (\<exists>t. claim_job (pj_state j) (pj_attempts j) now (pj_next_attempt_at j) = Inr t)"
  by (auto simp: due_predicate_def claim_job_Inr split: option.splits)

lemma backoff_bounds: "60 \<le> backoff_seconds a \<and> backoff_seconds a \<le> 21600"
proof -
  have "(1::int) \<le> 2 ^ (a - 1)" by simp
  then show ?thesis unfolding backoff_seconds_def by linarith
qed

lemma backoff_mono: "a \<le> b \<Longrightarrow> backoff_seconds a \<le> backoff_seconds b"
proof -
  assume "a \<le> b"
  then have "(2::int) ^ (a - 1) \<le> 2 ^ (b - 1)" by (intro power_increasing) auto
  then show ?thesis unfolding backoff_seconds_def by linarith
qed

section \<open>The queue as a machine\<close>

text \<open>
  One step of the queue: a delivery enqueues, a worker claims, a worker whose claim still stands
  (the row is as it claimed it) completes or fails its job, or a sweep reaps expired leases.
\<close>

inductive job_step :: "db \<Rightarrow> db \<Rightarrow> bool" where
  enqueue: "enqueue_job kind key payload d = Inr (r, d') \<Longrightarrow> job_step d d'"
| claim: "claim_job_for_execution now i d = Inr (j, d') \<Longrightarrow> job_step d d'"
| complete: "tget pj_id (pj_id j) (jobs d) = Some j \<Longrightarrow> pj_state j = Running \<Longrightarrow>
    job_step d (complete_job j d)"
| fail: "tget pj_id (pj_id j) (jobs d) = Some j \<Longrightarrow> pj_state j = Running \<Longrightarrow>
    job_step d (fail_job_for_execution now j error d)"
| reap: "job_step d (snd (reconcile_stuck_jobs now locked limit d))"

text \<open>What every row satisfies between steps, and the keys of the table.\<close>

definition job_row_ok :: "processing_job \<Rightarrow> bool" where
  "job_row_ok j \<longleftrightarrow>
     (pj_state j = Running \<longleftrightarrow> pj_lease_expires_at j \<noteq> None)
     \<and> (pj_state j = Queued \<longrightarrow> pj_attempts j = 0 \<and> pj_next_attempt_at j = None)
     \<and> (pj_state j = Retry_wait \<longrightarrow>
          pj_next_attempt_at j \<noteq> None \<and> pj_kind j \<in> RETRYABLE_KINDS
          \<and> 1 \<le> pj_attempts j \<and> pj_attempts j < 5)
     \<and> (pj_state j = Running \<or> pj_state j = Completed \<or> pj_state j = Failed_review \<longrightarrow> 1 \<le> pj_attempts j)
     \<and> pj_attempts j \<le> 5
     \<and> (pj_kind j \<notin> RETRYABLE_KINDS \<longrightarrow> pj_attempts j \<le> 1)
     \<and> (pj_state j = Failed_review \<longrightarrow> pj_kind j \<in> RETRYABLE_KINDS \<longrightarrow> pj_attempts j = 5)"

definition queue_ok :: "db \<Rightarrow> bool" where
  "queue_ok d \<longleftrightarrow>
     distinct (map pj_id (jobs d)) \<and> distinct (map pj_dedupe_key (jobs d))
     \<and> (\<forall>j \<in> set (jobs d). pj_id j < next_id d \<and> job_row_ok j)"

lemma job_row_ok_new: "job_row_ok (new_job i k key p c)"
  by (simp add: job_row_ok_def new_job_def)

lemma job_row_ok_claim:
  "job_row_ok j \<Longrightarrow> claim_job (pj_state j) (pj_attempts j) now (pj_next_attempt_at j) = Inr t \<Longrightarrow>
   job_row_ok (claim_row now t j)"
  by (auto simp: job_row_ok_def claim_job_Inr claim_row_def)

lemma job_row_ok_complete: "job_row_ok j \<Longrightarrow> pj_state j = Running \<Longrightarrow> job_row_ok (complete_row j j)"
  by (auto simp: job_row_ok_def complete_row_def finish_job_def)

lemma job_row_ok_fail:
  "job_row_ok j \<Longrightarrow> pj_state j = Running \<Longrightarrow>
   job_row_ok (fail_row (fail_job (pj_kind j) (pj_attempts j) e now) j j)"
  by (auto simp: job_row_ok_def fail_row_def fail_job_def)

lemma job_row_ok_reap: "job_row_ok j \<Longrightarrow> stuck now j \<Longrightarrow> job_row_ok (reap_row now j)"
  unfolding reap_row_def by (rule job_row_ok_fail) (simp_all add: stuck_def)

lemma job_by_dedupe_None: "job_by_dedupe key js = None \<longleftrightarrow> key \<notin> pj_dedupe_key ` set js"
  by (auto simp: job_by_dedupe_def find_None_iff)

lemma enqueue_job_jobs:
  "enqueue_job k key p d = Inr ((j, new), d') \<Longrightarrow>
     (if job_by_dedupe key (jobs d) = None
      then new \<and> j = new_job (next_id d) k key p None \<and> jobs d' = jobs d @ [j]
      else \<not> new \<and> job_by_dedupe key (jobs d) = Some j \<and> jobs d' = jobs d)
     \<and> next_id d' = Suc (next_id d)"
  by (auto simp: enqueue_job_def new_uuid7_def Let_def job_by_dedupe_def new_job_def find_None_iff
      split: if_splits option.splits)
    (auto simp: find_Some_iff nth_append split: if_splits)


lemma tget_unique:
  "distinct (map pk rows) \<Longrightarrow> tget pk k rows = Some r \<Longrightarrow> r' \<in> set rows \<Longrightarrow> pk r' = k \<Longrightarrow> r' = r"
  using tget_in_set [of pk rows r'] by auto

lemma map_tmod_other: "(\<And>r. g (f r) = g r) \<Longrightarrow> map g (tmod pk k f rows) = map g rows"
  by (induction rows) auto

lemma map_tmods_other: "(\<And>r. g (f r) = g r) \<Longrightarrow> map g (tmods pk ks f rows) = map g rows"
  by (induction ks arbitrary: rows) (simp_all add: tmods_def map_tmod_other)

text \<open>An update of one row keeps the queue in order if the new row is well formed.\<close>

lemma queue_ok_mod:
  assumes "queue_ok d" and "tget pj_id k (jobs d) = Some j"
    and "\<And>r. pj_id (f r) = pj_id r" and "\<And>r. pj_dedupe_key (f r) = pj_dedupe_key r"
    and "job_row_ok j \<Longrightarrow> job_row_ok (f j)"
  shows "queue_ok (d\<lparr>jobs := tmod pj_id k f (jobs d)\<rparr>)"
proof -
  have "\<forall>r \<in> set (tmod pj_id k f (jobs d)). pj_id r < next_id d \<and> job_row_ok r"
  proof (rule job_table.ball_mod)
    show "\<forall>r \<in> set (jobs d). pj_id r < next_id d \<and> job_row_ok r"
      using assms(1) by (simp add: queue_ok_def)
    fix r assume "r \<in> set (jobs d)" "pj_id r = k" and ok: "pj_id r < next_id d \<and> job_row_ok r"
    then have "r = j"
      using assms(1,2) tget_unique unfolding queue_ok_def by metis
    with ok assms(3,5) show "pj_id (f r) < next_id d \<and> job_row_ok (f r)" by simp
  qed
  with assms(1,3,4) show ?thesis
    by (simp add: queue_ok_def map_tmod_other)
qed

lemma set_sorted_batch: "r \<in> set (take n (sort_key g (filter P rows))) \<Longrightarrow> r \<in> set rows \<and> P r"
  by (metis filter_is_subset in_set_takeD mem_Collect_eq set_filter set_sort)

lemma distinct_batch:
  "distinct (map pk rows) \<Longrightarrow> distinct (map pk (take n (sort_key g (filter P rows))))"
proof -
  assume "distinct (map pk rows)"
  moreover have "set (take n (sort_key g (filter P rows))) \<subseteq> set rows"
    using set_sorted_batch by fastforce
  ultimately show ?thesis by (auto simp: distinct_map intro: inj_on_subset)
qed

lemma reconcile_jobs:
  assumes "distinct (map pj_id (jobs d))"
  shows "jobs (snd (reconcile_stuck_jobs now locked limit d)) =
     map (\<lambda>r. if pj_id r \<in> set (map pj_id (take limit (sort_key pj_id
                (filter (\<lambda>j. stuck now j \<and> \<not> locked (pj_id j)) (jobs d)))))
               then reap_row now r else r) (jobs d)"
  using job_table.mods_map [OF _ distinct_batch [OF assms], of "reap_row now"]
  by (simp add: reconcile_stuck_jobs_def Let_def)

lemma reconcile_row_cases:
  assumes "distinct (map pj_id (jobs d))" and "r' \<in> set (jobs (snd (reconcile_stuck_jobs now locked limit d)))"
  shows "\<exists>r \<in> set (jobs d). r' = r \<or> (r' = reap_row now r \<and> stuck now r)"
proof -
  let ?rows = "take limit (sort_key pj_id (filter (\<lambda>j. stuck now j \<and> \<not> locked (pj_id j)) (jobs d)))"
  obtain r where r: "r \<in> set (jobs d)" and r': "r' = (if pj_id r \<in> set (map pj_id ?rows) then reap_row now r else r)"
    using assms(2) unfolding reconcile_jobs [OF assms(1)] by auto
  have "stuck now r" if mem: "pj_id r \<in> set (map pj_id ?rows)"
  proof -
    obtain q where q: "q \<in> set ?rows" "pj_id q = pj_id r" using mem by auto
    then have "q \<in> set (jobs d)" "stuck now q" using set_sorted_batch by fastforce+
    with q(2) r assms(1) have "q = r" by (metis tget_in_set option.inject)
    with \<open>stuck now q\<close> show ?thesis by simp
  qed
  with r r' show ?thesis by auto
qed

lemma reconcile_keys:
  "map pj_id (jobs (snd (reconcile_stuck_jobs now locked limit d))) = map pj_id (jobs d)"
  "map pj_dedupe_key (jobs (snd (reconcile_stuck_jobs now locked limit d))) = map pj_dedupe_key (jobs d)"
  "next_id (snd (reconcile_stuck_jobs now locked limit d)) = next_id d"
  by (simp_all add: reconcile_stuck_jobs_def Let_def map_tmods_other)

lemma reconcile_queue_ok: "queue_ok d \<Longrightarrow> queue_ok (snd (reconcile_stuck_jobs now locked limit d))"
  unfolding queue_ok_def reconcile_keys
  using reconcile_row_cases [of d _ now locked limit] job_row_ok_reap by (fastforce simp: reconcile_keys)

lemma enqueue_queue_ok:
  assumes "queue_ok d" and "enqueue_job k key p d = Inr ((j, new), d')"
  shows "queue_ok d'"
  using assms(1) enqueue_job_jobs [OF assms(2)] job_row_ok_new
  by (auto simp: queue_ok_def job_by_dedupe_None new_job_def less_Suc_eq split: if_splits)

lemma claim_Inr:
  "claim_job_for_execution now i d = Inr (j', d') \<longleftrightarrow>
     (\<exists>j t. tget pj_id i (jobs d) = Some j
        \<and> claim_job (pj_state j) (pj_attempts j) now (pj_next_attempt_at j) = Inr t
        \<and> j' = claim_row now t j \<and> d' = d\<lparr>jobs := tmod pj_id i (claim_row now t) (jobs d)\<rparr>)"
  by (auto simp: claim_job_for_execution_def bindE_eq_Inr split: option.splits)

lemma job_step_queue_ok: "job_step d d' \<Longrightarrow> queue_ok d \<Longrightarrow> queue_ok d'"
proof (induction rule: job_step.induct)
  case (enqueue kind key payload d r d')
  then show ?case using enqueue_queue_ok by (cases r) blast
next
  case (claim now i d j d')
  then show ?case by (auto simp: claim_Inr intro!: queue_ok_mod job_row_ok_claim)
next
  case (complete j d)
  then show ?case unfolding complete_job_def by (intro queue_ok_mod [of d _ j]) (auto intro: job_row_ok_complete)
next
  case (fail j d now error)
  then show ?case unfolding fail_job_for_execution_def Let_def
    by (intro queue_ok_mod [of d _ j]) (auto intro: job_row_ok_fail)
next
  case (reap now locked limit d)
  then show ?case by (intro reconcile_queue_ok)
qed

text \<open>Finished rows: completed, or handed to a reviewer.\<close>

definition job_final :: "db \<Rightarrow> processing_job \<Rightarrow> bool" where
  "job_final d j \<longleftrightarrow> j \<in> set (jobs d) \<and> (pj_state j = Completed \<or> pj_state j = Failed_review)"

lemma tmod_keeps:
  "j \<in> set rows \<Longrightarrow> pk j \<noteq> k \<Longrightarrow> j \<in> set (tmod pk k f rows)"
  by (induction rows) auto

lemma job_step_final:
  assumes "job_step d d'" and "queue_ok d" and "job_final d j"
  shows "job_final d' j"
proof -
  have j: "j \<in> set (jobs d)" and fin: "pj_state j = Completed \<or> pj_state j = Failed_review"
    and dist: "distinct (map pj_id (jobs d))"
    using assms(2,3) by (auto simp: job_final_def queue_ok_def)
  note self = tget_in_set [OF dist j]
  have "j \<in> set (jobs d')"
    using assms(1)
  proof cases
    case (enqueue kind key payload r)
    with j enqueue_job_jobs show ?thesis by (cases r) (fastforce split: if_splits)
  next
    case (claim now i h)
    then show ?thesis using j fin self by (auto simp: claim_Inr claim_job_Inr intro!: tmod_keeps)
  next
    case (complete h)
    then show ?thesis using j fin self by (auto simp: complete_job_def intro!: tmod_keeps)
  next
    case (fail h now error)
    then show ?thesis using j fin self by (auto simp: fail_job_for_execution_def Let_def intro!: tmod_keeps)
  next
    case (reap now locked limit)
    let ?rows = "take limit (sort_key pj_id (filter (\<lambda>j. stuck now j \<and> \<not> locked (pj_id j)) (jobs d)))"
    have "pj_id j \<notin> set (map pj_id ?rows)"
    proof
      assume "pj_id j \<in> set (map pj_id ?rows)"
      then obtain q where "q \<in> set ?rows" "pj_id q = pj_id j" by auto
      then have "q \<in> set (jobs d)" "stuck now q" using set_sorted_batch by fastforce+
      then have "q = j" using \<open>pj_id q = pj_id j\<close> self tget_in_set [OF dist] by fastforce
      with \<open>stuck now q\<close> fin show False by (auto simp: stuck_def)
    qed
    then show ?thesis unfolding reap reconcile_jobs [OF dist] using j by auto
  qed
  with fin show ?thesis by (simp add: job_final_def)
qed

interpretation job_queue: step_stable job_step queue_ok job_final
  by unfold_locales (auto intro: job_step_queue_ok job_step_final)

section \<open>Properties of the queue\<close>

text \<open>With room for every expired lease and no row locked, a sweep reaps exactly the expired.\<close>

lemma take_all_batch: "length rows \<le> n \<Longrightarrow> take n (sort_key g (filter P rows)) = sort_key g (filter P rows)"
  by (simp add: order_trans [OF length_filter_le])

lemma reconcile_full:
  assumes "distinct (map pj_id (jobs d))" and "length (jobs d) \<le> limit"
  shows "jobs (snd (reconcile_stuck_jobs now (\<lambda>_. False) limit d)) =
     map (\<lambda>r. if stuck now r then reap_row now r else r) (jobs d)"
proof -
  have "pj_id r \<in> pj_id ` {q \<in> set (jobs d). stuck now q} \<longleftrightarrow> stuck now r" if "r \<in> set (jobs d)" for r
    using that assms(1) by (auto simp: distinct_map inj_on_def)
  then show ?thesis
    unfolding reconcile_jobs [OF assms(1)] take_all_batch [OF assms(2)] by simp
qed

lemma not_stuck_reap: "\<not> stuck now' (reap_row now j)" if "pj_state j = Running" for j
  using that by (simp add: stuck_def reap_row_def fail_row_def fail_job_state)


definition demo_queue :: db where
  "demo_queue = empty_db\<lparr>jobs := [new_job 1 ''sync_countries'' ''k'' [] None], next_id := 2\<rparr>"

lemma demo_enqueue:
  "enqueue_job ''sync_countries'' ''k'' [] empty_db =
     Inr ((new_job 1 ''sync_countries'' ''k'' [] None, True), demo_queue)"
  by (simp add: enqueue_job_def new_uuid7_def job_by_dedupe_def empty_db_def demo_queue_def new_job_def Let_def)

lemma demo_queue_ok: "queue_ok demo_queue"
  by (rule enqueue_queue_ok [OF _ demo_enqueue]) (simp add: queue_ok_def empty_db_def)


text \<open>
  A finished job is never touched again: once its row is completed or handed to a reviewer, no
  later run of the queue (redeliveries, sweeps, claims) changes any column of it.
\<close>

theorem finished_jobs_never_change:
  assumes "job_step\<^sup>*\<^sup>* empty_db d" and "j \<in> set (jobs d)"
    and "pj_state j = Completed \<or> pj_state j = Failed_review" and "job_step\<^sup>*\<^sup>* d d'"
  shows "tget pj_id (pj_id j) (jobs d') = Some j"
proof -
  have "queue_ok empty_db" by (simp add: queue_ok_def empty_db_def)
  with assms(1) have ok: "queue_ok d" by (rule job_queue.run_keeps)
  then have "queue_ok d'" using assms(4) by (rule job_queue.run_keeps [rotated])
  moreover have "job_final d' j"
    using assms(4) ok assms(2,3) by (intro job_queue.run_final [of d d' j]) (auto simp: job_final_def)
  ultimately show ?thesis by (auto simp: queue_ok_def job_final_def intro: tget_in_set)
qed

definition demo_running :: processing_job where
  "demo_running = (new_job 1 ''sync_countries'' ''k'' [] None)
     \<lparr>pj_state := Running, pj_attempts := 1, pj_lease_expires_at := Some 900000000\<rparr>"

lemma demo_claim: "claim_job_for_execution 0 1 demo_queue = Inr (demo_running, demo_queue\<lparr>jobs := [demo_running]\<rparr>)"
  by (simp add: claim_job_for_execution_def demo_queue_def claim_job_def claim_row_def new_job_def
      demo_running_def lease_expiry_def LEASE_SECONDS_def seconds_def)

theorem finished_jobs_never_change_witness:
  "tget pj_id 1 (jobs (complete_job demo_running (demo_queue\<lparr>jobs := [demo_running]\<rparr>)))
     = Some (complete_row demo_running demo_running)"
proof -
  let ?d1 = "demo_queue\<lparr>jobs := [demo_running]\<rparr>" and ?j = "complete_row demo_running demo_running"
  have "job_step empty_db demo_queue" by (rule job_step.enqueue [OF demo_enqueue])
  moreover have "job_step demo_queue ?d1" by (rule job_step.claim [OF demo_claim])
  moreover have "job_step ?d1 (complete_job demo_running ?d1)"
    by (rule job_step.complete) (simp_all add: demo_running_def new_job_def)
  ultimately have "job_step\<^sup>*\<^sup>* empty_db (complete_job demo_running ?d1)" by auto
  moreover have "?j \<in> set (jobs (complete_job demo_running ?d1))"
    by (simp add: complete_job_def)
  moreover have "pj_state ?j = Completed \<or> pj_state ?j = Failed_review"
    by (simp add: complete_row_def finish_job_def flush_def demo_running_def)
  ultimately show ?thesis
    using finished_jobs_never_change [of _ ?j, OF _ _ _ rtranclp.rtrancl_refl]
    by (simp add: demo_running_def new_job_def)
qed

text \<open>
  Enqueueing is idempotent in the dedupe key: a repeated delivery creates nothing, reports that
  it created nothing, and returns the job of the first delivery as it stands.
\<close>

theorem enqueue_is_idempotent:
  assumes "enqueue_job k key p d = Inr ((j, created), d1)"
  shows "\<exists>d2. enqueue_job k' key p' d1 = Inr ((j, False), d2) \<and> jobs d2 = jobs d1"
proof -
  have "job_by_dedupe key (jobs d1) = Some j"
    using assms by (auto simp: enqueue_job_def new_uuid7_def Let_def split: if_splits option.splits)
  then show ?thesis by (auto simp: enqueue_job_def new_uuid7_def Let_def)
qed

theorem enqueue_is_idempotent_witness:
  "\<exists>d2. enqueue_job ''other'' ''k'' [(''x'', JNull)] demo_queue =
        Inr ((new_job 1 ''sync_countries'' ''k'' [] None, False), d2) \<and> jobs d2 = jobs demo_queue"
  by (rule enqueue_is_idempotent [OF demo_enqueue])

text \<open>
  The sweep hands out exactly the work a claim accepts: a job is due at an instant if and only
  if claiming it at that instant succeeds.
\<close>

theorem due_exactly_when_claimable:
  assumes "queue_ok d" and "j \<in> set (jobs d)"
  shows "due_predicate now j \<longleftrightarrow> is_ok (claim_job_for_execution now (pj_id j) d)"
proof -
  have "tget pj_id (pj_id j) (jobs d) = Some j"
    using assms by (auto simp: queue_ok_def intro: tget_in_set)
  then show ?thesis
    by (auto simp: due_predicate_claim is_ok_iff claim_job_for_execution_def bindE_eq_Inr)
qed

theorem due_exactly_when_claimable_witness:
  "due_predicate 0 (new_job 1 ''sync_countries'' ''k'' [] None)
     \<longleftrightarrow> is_ok (claim_job_for_execution 0 1 demo_queue)"
  using due_exactly_when_claimable [OF demo_queue_ok, of "new_job 1 ''sync_countries'' ''k'' [] None" 0]
  by (simp add: demo_queue_def new_job_def)

text \<open>
  A crashed worker cannot strand work: a sweep with room for the whole queue and no row locked
  leaves no expired lease behind and touches no other job.
\<close>

theorem reconcile_leaves_none_stuck:
  assumes "queue_ok d" and "length (jobs d) \<le> limit"
  shows "(\<forall>j \<in> set (jobs (snd (reconcile_stuck_jobs now (\<lambda>_. False) limit d))). \<not> stuck now j)
    \<and> (\<forall>j \<in> set (jobs d). \<not> stuck now j \<longrightarrow>
           j \<in> set (jobs (snd (reconcile_stuck_jobs now (\<lambda>_. False) limit d))))"
proof -
  have dist: "distinct (map pj_id (jobs d))" using assms(1) by (simp add: queue_ok_def)
  have "stuck now r \<Longrightarrow> \<not> stuck now (reap_row now r)" for r
    using not_stuck_reap [of r now now] by (simp add: stuck_def [of now r])
  then show ?thesis unfolding reconcile_full [OF dist assms(2)] by (auto split: if_splits)
qed

lemma demo_claimed_ok: "queue_ok (demo_queue\<lparr>jobs := [demo_running]\<rparr>)"
  by (rule job_step_queue_ok [OF job_step.claim [OF demo_claim] demo_queue_ok])

theorem reconcile_leaves_none_stuck_witness:
  "stuck 900000000 demo_running
   \<and> filter (stuck 900000000)
        (jobs (snd (reconcile_stuck_jobs 900000000 (\<lambda>_. False) 100 (demo_queue\<lparr>jobs := [demo_running]\<rparr>)))) = []"
proof
  show "stuck 900000000 demo_running"
    by (simp add: stuck_def demo_running_def is_lease_expired_def)
  show "filter (stuck 900000000)
        (jobs (snd (reconcile_stuck_jobs 900000000 (\<lambda>_. False) 100 (demo_queue\<lparr>jobs := [demo_running]\<rparr>)))) = []"
    using reconcile_leaves_none_stuck [OF demo_claimed_ok, of 100 900000000]
    by (simp add: filter_empty_conv)
qed

text \<open>
  Runs in which every worker crashes: claim at each of the given instants, then a sweep when the
  lease has just run out.
\<close>

fun crash_rounds :: "instant list \<Rightarrow> uuid \<Rightarrow> db \<Rightarrow> db result" where
  "crash_rounds [] i d = Inr d"
| "crash_rounds (t # ts) i d =
     bindE (claim_job_for_execution t i d) (\<lambda>(_, d1).
       crash_rounds ts i
         (snd (reconcile_stuck_jobs (lease_expiry t) (\<lambda>_. False) (length (jobs d1)) d1)))"

lemma crash_round:
  assumes "queue_ok d" and "tget pj_id i (jobs d) = Some j"
    and "pj_state j = Queued \<or> pj_state j = Retry_wait"
  shows "\<exists>t d1. claim_job_for_execution t i d = Inr d1 \<and>
           (let d2 = snd (reconcile_stuck_jobs (lease_expiry t) (\<lambda>_. False) (length (jobs (snd d1))) (snd d1))
            in queue_ok d2 \<and> (\<exists>j'. tget pj_id i (jobs d2) = Some j' \<and> pj_kind j' = pj_kind j
                 \<and> pj_attempts j' = Suc (pj_attempts j)
                 \<and> pj_state j' = (if pj_kind j \<in> RETRYABLE_KINDS \<and> Suc (pj_attempts j) < 5
                                  then Retry_wait else Failed_review)))"
proof -
  obtain t where t: "\<forall>u. pj_next_attempt_at j = Some u \<longrightarrow> u \<le> t"
    by (cases "pj_next_attempt_at j") auto
  let ?tr = "\<lparr>tr_state = Running, tr_attempts = pj_attempts j + 1, tr_next_attempt_at = None, tr_error = None\<rparr>"
  let ?d1 = "d\<lparr>jobs := tmod pj_id i (claim_row t ?tr) (jobs d)\<rparr>"
  have claim: "claim_job_for_execution t i d = Inr (claim_row t ?tr j, ?d1)"
    using assms t by (auto simp: claim_Inr claim_job_Inr)
  have ok1: "queue_ok ?d1" using job_step_queue_ok [OF job_step.claim [OF claim] assms(1)] .
  then have dist: "distinct (map pj_id (jobs ?d1))" by (simp add: queue_ok_def)
  let ?d2 = "snd (reconcile_stuck_jobs (lease_expiry t) (\<lambda>_. False) (length (jobs ?d1)) ?d1)"
  let ?r = "claim_row t ?tr j"
  have get1: "tget pj_id i (jobs ?d1) = Some ?r"
    using assms(2) by (simp add: job_table.get_mod_same)
  have st: "stuck (lease_expiry t) ?r"
    by (simp add: stuck_def claim_row_def is_lease_expired_def)
  have "reap_row (lease_expiry t) ?r \<in> set (jobs ?d2)"
    unfolding reconcile_full [OF dist order_refl] using tget_SomeD [OF get1] st by force
  moreover have ok2: "queue_ok ?d2" by (rule reconcile_queue_ok [OF ok1])
  ultimately have "tget pj_id i (jobs ?d2) = Some (reap_row (lease_expiry t) ?r)"
    using tget_in_set [of pj_id "jobs ?d2"] tget_SomeD [OF get1] by (fastforce simp: queue_ok_def)
  with claim ok2 show ?thesis
    by (intro exI [of _ t] exI [of _ "(?r, ?d1)"])
      (auto simp: Let_def reap_row_def fail_row_def fail_job_state claim_row_def)
qed

text \<open>
  C18. Giving up is guaranteed: a waiting job all of whose workers crash ends with a reviewer after
  exactly the runs it has left (five in all for a retryable kind, one otherwise).
\<close>

theorem crashing_job_reaches_review:
  assumes "queue_ok d" and "tget pj_id i (jobs d) = Some j"
    and "pj_state j = Queued \<or> pj_state j = Retry_wait"
  shows "\<exists>ts d' j'. crash_rounds ts i d = Inr d' \<and> tget pj_id i (jobs d') = Some j'
           \<and> pj_state j' = Failed_review
           \<and> length ts = (if pj_kind j \<in> RETRYABLE_KINDS then 5 - pj_attempts j else 1)"
  using assms
proof (induction "5 - pj_attempts j" arbitrary: d j)
  case 0
  then have "job_row_ok j" by (auto simp: queue_ok_def dest: tget_SomeD)
  with 0 show ?case by (auto simp: job_row_ok_def)
next
  case (Suc n)
  obtain t h d1 d2 j2 where cl: "claim_job_for_execution t i d = Inr (h, d1)"
    and d2: "d2 = snd (reconcile_stuck_jobs (lease_expiry t) (\<lambda>_. False) (length (jobs d1)) d1)"
    and ok: "queue_ok d2" and j2: "tget pj_id i (jobs d2) = Some j2" "pj_kind j2 = pj_kind j"
      "pj_attempts j2 = Suc (pj_attempts j)"
      "pj_state j2 = (if pj_kind j \<in> RETRYABLE_KINDS \<and> Suc (pj_attempts j) < 5
                      then Retry_wait else Failed_review)"
    using crash_round [OF Suc.prems] by (auto simp: Let_def)
  show ?case
  proof (cases "pj_kind j \<in> RETRYABLE_KINDS \<and> Suc (pj_attempts j) < 5")
    case True
    then obtain ts d' j' where "crash_rounds ts i d2 = Inr d'" "tget pj_id i (jobs d') = Some j'"
      "pj_state j' = Failed_review" "length ts = 5 - pj_attempts j2"
      using Suc.hyps(1) [OF _ ok j2(1)] Suc.hyps(2) j2 by fastforce
    with True cl d2 j2 show ?thesis by (intro exI [of _ "t # ts"]) auto
  next
    case False
    with Suc.hyps(2) have "pj_kind j \<in> RETRYABLE_KINDS \<Longrightarrow> 5 - pj_attempts j = 1" by linarith
    with False cl d2 j2 show ?thesis by (intro exI [of _ "[t]"]) auto
  qed
qed

theorem crashing_job_reaches_review_witness:
  "\<exists>ts d' j'. crash_rounds ts 1 demo_queue = Inr d' \<and> tget pj_id 1 (jobs d') = Some j'
      \<and> pj_state j' = Failed_review"
  using crashing_job_reaches_review [OF demo_queue_ok, of 1 "new_job 1 ''sync_countries'' ''k'' [] None"]
  by (fastforce simp: demo_queue_def new_job_def)

text \<open>
  The bound of five runs relies on workers finishing within their lease. A worker that fails
  after its lease was reaped and the job claimed again writes its own, older attempt count's verdict
  over the row: a retryable job on its fifth run goes back to waiting and is claimed a sixth time.
\<close>

theorem late_failure_grants_sixth_run:
  assumes "tget pj_id (pj_id h) (jobs d) = Some r" and "pj_attempts r = 5"
    and "pj_state h = Running" and "pj_kind h \<in> RETRYABLE_KINDS" and "pj_attempts h < 5"
  shows "\<exists>t j' d'. claim_job_for_execution t (pj_id h) (fail_job_for_execution now h error d) = Inr (j', d')
           \<and> pj_attempts j' = 6"
proof -
  let ?tr = "fail_job (pj_kind h) (pj_attempts h) error now"
  let ?r = "fail_row ?tr h r"
  have "tget pj_id (pj_id h) (jobs (fail_job_for_execution now h error d)) = Some ?r"
    using assms(1) by (simp add: fail_job_for_execution_def Let_def job_table.get_mod_same)
  moreover have "pj_state ?r = Retry_wait" "pj_attempts ?r = 5"
    using assms by (simp_all add: fail_row_def flush_def fail_job_state)
  moreover obtain t where "\<forall>u. pj_next_attempt_at ?r = Some u \<longrightarrow> u \<le> t"
    by (cases "pj_next_attempt_at ?r") auto
  ultimately show ?thesis
    by (intro exI [of _ t]) (auto simp: claim_Inr claim_job_Inr claim_row_def)
qed

definition demo_late :: processing_job where
  "demo_late = (new_job 1 ''reverify_due'' ''k'' [] None)
     \<lparr>pj_state := Running, pj_attempts := 4, pj_lease_expires_at := Some 0\<rparr>"

theorem late_failure_grants_sixth_run_witness:
  "\<exists>t j' d'. claim_job_for_execution t 1 (fail_job_for_execution 0 demo_late ''e''
      (empty_db\<lparr>jobs := [demo_late\<lparr>pj_attempts := 5\<rparr>]\<rparr>)) = Inr (j', d') \<and> pj_attempts j' = 6"
  using late_failure_grants_sixth_run
    [of demo_late "empty_db\<lparr>jobs := [demo_late\<lparr>pj_attempts := 5\<rparr>]\<rparr>" "demo_late\<lparr>pj_attempts := 5\<rparr>" 0 "''e''"]
  by (simp add: demo_late_def new_job_def RETRYABLE_KINDS_def)

end
