(* ===== verification/Outbox.thy ===== *)
theory Outbox
  imports Jobs Settings
begin

text \<open>
  Durable analytics events (\<open>src/src/app/infra/outbox.py\<close>, \<open>src/src/app/infra/posthog_client.py\<close>).
  The HTTP exchange with PostHog is the parameter \<open>send\<close>: it takes the rendered batch and answers
  with acceptance, an \<open>httpx.HTTPError\<close> or any other exception. As in the queue, one transaction is
  one step and \<open>locked\<close> names the rows another transaction holds.
\<close>

section \<open>Operations\<close>

definition DESTINATION_ANALYTICS :: string where
  "DESTINATION_ANALYTICS = ''posthog''"

definition MAX_DISPATCH_ATTEMPTS :: nat where
  "MAX_DISPATCH_ATTEMPTS = 5"

definition new_event :: "instant \<Rightarrow> uuid \<Rightarrow> string \<Rightarrow> string \<Rightarrow> dict \<Rightarrow> outbox_event" where
  "new_event now i event_type dedupe_key payload =
     \<lparr>ob_id = i, ob_event_type = event_type, ob_destination = DESTINATION_ANALYTICS,
      ob_dedupe_key = dedupe_key, ob_payload = payload, ob_state = ''pending'', ob_attempts = 0,
      ob_dispatched_at = None, ob_created_at = now\<rparr>"

definition enqueue_analytics_event :: "instant \<Rightarrow> string \<Rightarrow> string \<Rightarrow> dict \<Rightarrow> db \<Rightarrow> db" where
  "enqueue_analytics_event now event_type dedupe_key payload d =
     (let (i, d1) = new_uuid7 d
      in if \<exists>e \<in> set (outbox d1). ob_dedupe_key e = dedupe_key then d1
         else d1\<lparr>outbox := outbox d1 @ [new_event now i event_type dedupe_key payload]\<rparr>)"

definition pending_event :: "string \<Rightarrow> outbox_event \<Rightarrow> bool" where
  "pending_event dest e =
     (ob_destination e = dest \<and> ob_state e = ''pending'' \<and> ob_attempts e < MAX_DISPATCH_ATTEMPTS)"

definition claim_pending_events :: "string \<Rightarrow> (uuid \<Rightarrow> bool) \<Rightarrow> nat \<Rightarrow> db \<Rightarrow> outbox_event list" where
  "claim_pending_events dest locked limit d =
     take limit (sort_key ob_id
       (filter (\<lambda>e. pending_event dest e \<and> \<not> locked (ob_id e)) (outbox d)))"

definition mark_dispatched :: "instant \<Rightarrow> outbox_event \<Rightarrow> outbox_event" where
  "mark_dispatched now e = e\<lparr>ob_state := ''dispatched'', ob_dispatched_at := Some now\<rparr>"

definition mark_failed :: "string \<Rightarrow> outbox_event \<Rightarrow> outbox_event" where
  "mark_failed error e =
     e\<lparr>ob_attempts := ob_attempts e + 1,
       ob_state := (if ob_attempts e + 1 \<ge> MAX_DISPATCH_ATTEMPTS then ''dead_letter'' else ob_state e),
       ob_payload := dset ''last_error'' (JStr (take 500 error)) (ob_payload e)\<rparr>"

section \<open>Rendering a batch\<close>

definition DISTINCT_ID_FIELD :: "(string \<times> string) list" where
  "DISTINCT_ID_FIELD = [(''scholarship_search_completed'', ''search_id'')]"

definition distinct_id :: "stdlib \<Rightarrow> outbox_event \<Rightarrow> string" where
  "distinct_id std e =
     (let system = (let s = dget (ob_payload e) ''scholarship_id''
                    in ''system:'' @ (if truthy s then py_str std s else uuid_str (ob_id e)))
      in case map_of DISTINCT_ID_FIELD (ob_event_type e) of
           None \<Rightarrow> system
         | Some f \<Rightarrow> (case map_of (ob_payload e) f of None \<Rightarrow> system | Some v \<Rightarrow> py_str std v))"

definition to_posthog_event :: "stdlib \<Rightarrow> outbox_event \<Rightarrow> json" where
  "to_posthog_event std e =
     JObj [(''event'', JStr (ob_event_type e)),
           (''distinct_id'', JStr (distinct_id std e)),
           (''properties'', JObj (ob_payload e)),
           (''timestamp'', JStr (std_isoformat std (Aware (ob_created_at e) 0))),
           (''uuid'', JStr (uuid_str (ob_id e)))]"

datatype send_outcome = Accepted | HTTPFailure string | SendRaised exn

definition send_batch ::
  "stdlib \<Rightarrow> (json \<Rightarrow> send_outcome) \<Rightarrow> string \<Rightarrow> outbox_event list \<Rightarrow> send_outcome" where
  "send_batch std post api_key events =
     post (JObj [(''api_key'', JStr api_key), (''batch'', JList (map (to_posthog_event std) events))])"

section \<open>Dispatch\<close>

record dispatch_report =
  held :: nat
  dispatched :: nat
  failed :: nat

definition dispatch_analytics_events ::
  "stdlib \<Rightarrow> settings \<Rightarrow> (json \<Rightarrow> send_outcome) \<Rightarrow> instant \<Rightarrow> (uuid \<Rightarrow> bool) \<Rightarrow> nat \<Rightarrow> db
   \<Rightarrow> (dispatch_report \<times> db) result" where
  "dispatch_analytics_events std st post now locked limit d =
     (let events = claim_pending_events DESTINATION_ANALYTICS locked limit d;
          write = (\<lambda>f. d\<lparr>outbox := tmods ob_id (map ob_id events) f (outbox d)\<rparr>)
      in if \<not> (posthog_dispatch_active st \<and> is_set (posthog_api_key st))
         then Inr (\<lparr>held = length events, dispatched = 0, failed = 0\<rparr>, d)
         else if events = [] then Inr (\<lparr>held = 0, dispatched = 0, failed = 0\<rparr>, d)
         else case send_batch std post (the (posthog_api_key st)) events of
                SendRaised e \<Rightarrow> Inl e
              | HTTPFailure error \<Rightarrow>
                  Inr (\<lparr>held = 0, dispatched = 0, failed = length events\<rparr>, write (mark_failed error))
              | Accepted \<Rightarrow>
                  Inr (\<lparr>held = 0, dispatched = length events, failed = 0\<rparr>, write (mark_dispatched now)))"

section \<open>The outbox as a machine\<close>

inductive outbox_step :: "db \<Rightarrow> db \<Rightarrow> bool" where
  enqueue_event: "outbox_step d (enqueue_analytics_event now ty key p d)"
| dispatch: "dispatch_analytics_events std st post now locked limit d = Inr (r, d') \<Longrightarrow> outbox_step d d'"

definition event_ok :: "outbox_event \<Rightarrow> bool" where
  "event_ok e \<longleftrightarrow>
     (ob_state e = ''pending'' \<and> ob_attempts e < MAX_DISPATCH_ATTEMPTS \<and> ob_dispatched_at e = None)
     \<or> (ob_state e = ''dispatched'' \<and> ob_attempts e < MAX_DISPATCH_ATTEMPTS \<and> ob_dispatched_at e \<noteq> None)
     \<or> (ob_state e = ''dead_letter'' \<and> ob_attempts e = MAX_DISPATCH_ATTEMPTS \<and> ob_dispatched_at e = None)"

definition outbox_ok :: "db \<Rightarrow> bool" where
  "outbox_ok d \<longleftrightarrow>
     distinct (map ob_id (outbox d)) \<and> distinct (map ob_dedupe_key (outbox d))
     \<and> (\<forall>e \<in> set (outbox d). ob_id e < next_id d \<and> event_ok e)"

definition event_settled :: "db \<Rightarrow> outbox_event \<Rightarrow> bool" where
  "event_settled d e \<longleftrightarrow> e \<in> set (outbox d) \<and> ob_state e \<noteq> ''pending''"

lemma mark_keys [simp]:
  "ob_id (mark_dispatched now e) = ob_id e" "ob_id (mark_failed err e) = ob_id e"
  "ob_dedupe_key (mark_dispatched now e) = ob_dedupe_key e"
  "ob_dedupe_key (mark_failed err e) = ob_dedupe_key e"
  by (simp_all add: mark_dispatched_def mark_failed_def)

lemma event_ok_marks:
  "event_ok e \<Longrightarrow> ob_state e = ''pending'' \<Longrightarrow> event_ok (mark_dispatched now e)"
  "event_ok e \<Longrightarrow> ob_state e = ''pending'' \<Longrightarrow> event_ok (mark_failed err e)"
  by (auto simp: event_ok_def mark_dispatched_def mark_failed_def MAX_DISPATCH_ATTEMPTS_def)

lemma claimed_pending:
  "e \<in> set (claim_pending_events dst locked limit d) \<Longrightarrow>
     e \<in> set (outbox d) \<and> pending_event dst e \<and> \<not> locked (ob_id e)"
  by (auto simp: claim_pending_events_def dest: in_set_takeD)

lemma distinct_claimed:
  "distinct (map ob_id (outbox d)) \<Longrightarrow> distinct (map ob_id (claim_pending_events dst locked limit d))"
  by (simp add: claim_pending_events_def flip: take_map)
    (rule distinct_take, auto simp: distinct_map inj_on_def)

text \<open>What a dispatch writes: only pending rows of its own destination, each by one marking.\<close>

lemma batch_write:
  assumes "distinct (map ob_id (outbox d))" and "\<forall>e. ob_id (f e) = ob_id e"
  shows "tmods ob_id (map ob_id (claim_pending_events dst locked limit d)) f (outbox d)
    = map (\<lambda>e. if e \<in> set (claim_pending_events dst locked limit d) then f e else e) (outbox d)"
proof -
  let ?ev = "claim_pending_events dst locked limit d"
  have "ob_id e \<in> set (map ob_id ?ev) \<longleftrightarrow> e \<in> set ?ev" if "e \<in> set (outbox d)" for e
  proof -
    have "set ?ev \<subseteq> set (outbox d)" by (auto dest: claimed_pending)
    then show ?thesis
      using that assms(1) by (auto simp: distinct_map dest: inj_onD)
  qed
  then show ?thesis
    using outbox_table.mods_map [OF assms(2) distinct_claimed [OF assms(1)]] by (simp cong: map_cong)
qed

lemma dispatch_cases:
  assumes "dispatch_analytics_events std st post now locked limit d = Inr (r, d')"
  obtains "d' = d"
  | f where "f = mark_dispatched now \<or> (\<exists>err. f = mark_failed err)"
      "posthog_dispatch_active st \<and> is_set (posthog_api_key st)"
      "d' = d\<lparr>outbox := tmods ob_id (map ob_id (claim_pending_events DESTINATION_ANALYTICS locked limit d))
                          f (outbox d)\<rparr>"
proof -
  let ?ev = "claim_pending_events DESTINATION_ANALYTICS locked limit d"
  have "d' = d \<or> (\<exists>f. (f = mark_dispatched now \<or> (\<exists>err. f = mark_failed err))
      \<and> (posthog_dispatch_active st \<and> is_set (posthog_api_key st))
      \<and> d' = d\<lparr>outbox := tmods ob_id (map ob_id ?ev) f (outbox d)\<rparr>)"
  proof (cases "posthog_dispatch_active st \<and> is_set (posthog_api_key st) \<and> ?ev \<noteq> []")
    case True
    with assms have "d' = d\<lparr>outbox := tmods ob_id (map ob_id ?ev) (mark_dispatched now) (outbox d)\<rparr>
        \<or> (\<exists>err. d' = d\<lparr>outbox := tmods ob_id (map ob_id ?ev) (mark_failed err) (outbox d)\<rparr>)"
      by (simp add: dispatch_analytics_events_def Let_def split: send_outcome.splits) blast
    with True show ?thesis by blast
  next
    case False
    with assms show ?thesis by (simp add: dispatch_analytics_events_def Let_def split: if_splits)
  qed
  with that show thesis by blast
qed

definition marked :: "outbox_event \<Rightarrow> outbox_event \<Rightarrow> bool" where
  "marked e e' \<longleftrightarrow> e' = e \<or> (pending_event DESTINATION_ANALYTICS e
     \<and> ((\<exists>now. e' = mark_dispatched now e) \<or> (\<exists>err. e' = mark_failed err e)))"

lemma dispatch_writes:
  assumes "dispatch_analytics_events std st post now locked limit d = Inr (r, d')"
    and "distinct (map ob_id (outbox d))"
  obtains g where "outbox d' = map g (outbox d)" "next_id d' = next_id d" "\<And>e. marked e (g e)"
  using assms(1)
proof (cases rule: dispatch_cases)
  case 1
  then show ?thesis using that [of id] by (simp add: marked_def)
next
  case (2 f)
  let ?ev = "claim_pending_events DESTINATION_ANALYTICS locked limit d"
  have "\<forall>e. ob_id (f e) = ob_id e" using 2(1) by auto
  from batch_write [OF assms(2) this] 2(3) show ?thesis
    using 2(1) claimed_pending [of _ DESTINATION_ANALYTICS locked limit d]
    by (intro that [of "\<lambda>e. if e \<in> set ?ev then f e else e"]) (auto simp: marked_def)
qed

lemma marked_keys: "marked e e' \<Longrightarrow> ob_id e' = ob_id e \<and> ob_dedupe_key e' = ob_dedupe_key e"
  by (auto simp: marked_def)

lemma marked_ok: "marked e e' \<Longrightarrow> event_ok e \<Longrightarrow> event_ok e'"
  by (auto simp: marked_def pending_event_def intro: event_ok_marks)

lemma marked_settled: "marked e e' \<Longrightarrow> ob_state e \<noteq> ''pending'' \<Longrightarrow> e' = e"
  by (auto simp: marked_def pending_event_def)

lemma enqueue_event_outbox_ok: "outbox_ok d \<Longrightarrow> outbox_ok (enqueue_analytics_event now ty key p d)"
  by (fastforce simp: outbox_ok_def enqueue_analytics_event_def new_uuid7_def new_event_def event_ok_def
      MAX_DISPATCH_ATTEMPTS_def)

lemma dispatch_outbox_ok:
  assumes "outbox_ok d" and "dispatch_analytics_events std st post now locked limit d = Inr (r, d')"
  shows "outbox_ok d'"
proof -
  obtain g where o: "outbox d' = map g (outbox d)" and n: "next_id d' = next_id d"
    and m: "\<And>e. marked e (g e)"
    using assms by (elim dispatch_writes) (auto simp: outbox_ok_def)
  have "ob_id (g e) = ob_id e" "ob_dedupe_key (g e) = ob_dedupe_key e" "event_ok e \<Longrightarrow> event_ok (g e)" for e
    using m marked_keys marked_ok by blast+
  then show ?thesis
    using assms(1) by (simp add: outbox_ok_def o n comp_def)
qed

interpretation outbox_machine: step_stable outbox_step outbox_ok event_settled
proof unfold_locales
  fix d d' assume "outbox_step d d'" and "outbox_ok d"
  then show "outbox_ok d'"
    by (cases rule: outbox_step.cases) (auto intro: enqueue_event_outbox_ok dispatch_outbox_ok)
next
  fix d d' e assume st: "outbox_step d d'" and ok: "outbox_ok d" and e: "event_settled d e"
  from st show "event_settled d' e"
  proof (cases rule: outbox_step.cases)
    case enqueue_event
    then show ?thesis
      using e by (auto simp: event_settled_def enqueue_analytics_event_def new_uuid7_def)
  next
    case dispatch
    with ok obtain g where "outbox d' = map g (outbox d)" "\<And>e. marked e (g e)"
      by (elim dispatch_writes) (auto simp: outbox_ok_def)
    with e show ?thesis
      unfolding event_settled_def by (metis imageI list.set_map marked_settled)
  qed
qed

section \<open>Properties\<close>

text \<open>
  C26. A delivered or exhausted event is final: whatever the program enqueues and dispatches later, an
  event that reached \<open>dispatched\<close> or \<open>dead_letter\<close> keeps its row unchanged and is in no later
  batch, so no event is sent twice after a recorded delivery and no exhausted one is lost.
\<close>

theorem settled_events_are_final:
  assumes "outbox_step\<^sup>*\<^sup>* empty_db d" and "e \<in> set (outbox d)" and "ob_state e \<noteq> ''pending''"
    and "outbox_step\<^sup>*\<^sup>* d d'"
  shows "e \<in> set (outbox d') \<and> e \<notin> set (claim_pending_events dest locked limit d')
    \<and> (ob_state e = ''dead_letter'' \<longleftrightarrow> ob_attempts e = MAX_DISPATCH_ATTEMPTS)"
proof -
  have "outbox_ok empty_db" by (simp add: outbox_ok_def empty_db_def)
  with assms(1) have ok: "outbox_ok d" by (rule outbox_machine.run_keeps)
  from assms(4) ok have "event_settled d' e"
    by (rule outbox_machine.run_final) (simp add: event_settled_def assms)
  moreover have "event_ok e" using ok assms(2) by (simp add: outbox_ok_def)
  ultimately show ?thesis
    using assms(3) claimed_pending [of e dest locked limit d']
    by (auto simp: event_settled_def pending_event_def event_ok_def)
qed

definition demo_outbox :: db where
  "demo_outbox = enqueue_analytics_event 0 ''scholarship_withdrawn'' ''withdrawn:1'' [] empty_db"

definition demo_event :: outbox_event where
  "demo_event = new_event 0 1 ''scholarship_withdrawn'' ''withdrawn:1'' []"

lemma demo_outbox_rows: "outbox demo_outbox = [demo_event]" "next_id demo_outbox = 2"
  by (simp_all add: demo_outbox_def demo_event_def enqueue_analytics_event_def new_uuid7_def empty_db_def)

lemma demo_event_pending: "pending_event DESTINATION_ANALYTICS demo_event"
  by (simp add: pending_event_def demo_event_def new_event_def MAX_DISPATCH_ATTEMPTS_def)

lemma demo_claimed:
  "claim_pending_events DESTINATION_ANALYTICS (\<lambda>_. False) 100 demo_outbox = [demo_event]"
  by (simp add: claim_pending_events_def demo_outbox_rows demo_event_pending)

lemma demo_dispatch:
  "dispatch_analytics_events demo_std demo_live (\<lambda>_. Accepted) 7 (\<lambda>_. False) 100 demo_outbox =
     Inr (\<lparr>held = 0, dispatched = 1, failed = 0\<rparr>, demo_outbox\<lparr>outbox := [mark_dispatched 7 demo_event]\<rparr>)"
  unfolding dispatch_analytics_events_def demo_claimed
  by (simp add: demo_live_def posthog_dispatch_active_def send_batch_def tmods_def demo_outbox_rows)

theorem settled_events_are_final_witness:
  "mark_dispatched 7 demo_event \<notin>
     set (claim_pending_events ''posthog'' (\<lambda>_. False) 9
            (enqueue_analytics_event 8 ''x'' ''y'' [] (demo_outbox\<lparr>outbox := [mark_dispatched 7 demo_event]\<rparr>)))"
proof -
  let ?d = "demo_outbox\<lparr>outbox := [mark_dispatched 7 demo_event]\<rparr>"
  have "outbox_step empty_db demo_outbox"
    unfolding demo_outbox_def by (rule outbox_step.enqueue_event)
  moreover have "outbox_step demo_outbox ?d" by (rule outbox_step.dispatch [OF demo_dispatch])
  ultimately have "outbox_step\<^sup>*\<^sup>* empty_db ?d" by auto
  moreover have "outbox_step\<^sup>*\<^sup>* ?d (enqueue_analytics_event 8 ''x'' ''y'' [] ?d)"
    by (rule r_into_rtranclp, rule outbox_step.enqueue_event)
  moreover have "mark_dispatched 7 demo_event \<in> set (outbox ?d)"
    "ob_state (mark_dispatched 7 demo_event) \<noteq> ''pending''"
    by (simp_all add: mark_dispatched_def)
  ultimately show ?thesis using settled_events_are_final by blast
qed

text \<open>
  Held is not lost: without the environment switch or an API key a dispatch changes nothing and
  calls no vendor; and with both, a row that is addressed to another destination, already settled,
  or locked elsewhere is not written.
\<close>

theorem dispatch_respects_its_scope:
  assumes "outbox_ok d"
    and "dispatch_analytics_events std st post now locked limit d = Inr (r, d')"
  shows "(\<not> (posthog_dispatch_active st \<and> is_set (posthog_api_key st)) \<longrightarrow>
            d' = d \<and> (\<forall>post'. dispatch_analytics_events std st post' now locked limit d = Inr (r, d)))
     \<and> (\<forall>e \<in> set (outbox d). \<not> pending_event DESTINATION_ANALYTICS e \<or> locked (ob_id e) \<longrightarrow>
            e \<in> set (outbox d'))
     \<and> length (outbox d') = length (outbox d)"
proof -
  let ?ev = "claim_pending_events DESTINATION_ANALYTICS locked limit d"
  have dist: "distinct (map ob_id (outbox d))" using assms(1) by (simp add: outbox_ok_def)
  have "\<forall>e \<in> set (outbox d). \<not> pending_event DESTINATION_ANALYTICS e \<or> locked (ob_id e) \<longrightarrow>
            e \<in> set (outbox d')"
    using assms(2)
  proof (cases rule: dispatch_cases)
    case (2 f)
    have "\<forall>e. ob_id (f e) = ob_id e" using 2(1) by auto
    from batch_write [OF dist this] 2(3) show ?thesis by (force dest: claimed_pending)
  qed simp
  moreover have "length (outbox d') = length (outbox d)"
    using assms(2) by (cases rule: dispatch_cases) simp_all
  moreover have "d' = d \<and> (\<forall>post'. dispatch_analytics_events std st post' now locked limit d = Inr (r, d))"
    if "\<not> (posthog_dispatch_active st \<and> is_set (posthog_api_key st))"
    using assms(2) that by (auto simp: dispatch_analytics_events_def Let_def)
  ultimately show ?thesis by blast
qed

lemma demo_outbox_ok: "outbox_ok demo_outbox"
  by (simp add: outbox_ok_def demo_outbox_rows)
    (simp add: demo_event_def new_event_def event_ok_def MAX_DISPATCH_ATTEMPTS_def)

theorem dispatch_respects_its_scope_witness:
  "length (outbox (demo_outbox\<lparr>outbox := [mark_dispatched 7 demo_event]\<rparr>)) = length (outbox demo_outbox)"
  using dispatch_respects_its_scope [OF demo_outbox_ok demo_dispatch] by blast

text \<open>
  Dispatches all of whose batches the vendor rejects.
\<close>

fun rejected_rounds :: "stdlib \<Rightarrow> settings \<Rightarrow> string \<Rightarrow> instant \<Rightarrow> nat \<Rightarrow> db \<Rightarrow> db result" where
  "rejected_rounds std st err now 0 d = Inr d"
| "rejected_rounds std st err now (Suc n) d =
     bindE (dispatch_analytics_events std st (\<lambda>_. HTTPFailure err) now (\<lambda>_. False) (length (outbox d)) d)
       (\<lambda>(_, d1). rejected_rounds std st err now n d1)"

lemma claim_all:
  "set (claim_pending_events dst (\<lambda>_. False) (length (outbox d)) d)
     = {e \<in> set (outbox d). pending_event dst e}"
  using length_filter_le [of "pending_event dst" "outbox d"]
  by (simp add: claim_pending_events_def)

definition reject_row :: "string \<Rightarrow> outbox_event \<Rightarrow> outbox_event" where
  "reject_row err e = (if pending_event DESTINATION_ANALYTICS e then mark_failed err e else e)"

lemma rejected_round:
  assumes "outbox_ok d" and "posthog_dispatch_active st" and "is_set (posthog_api_key st)"
  shows "\<exists>r d1. dispatch_analytics_events std st (\<lambda>_. HTTPFailure err) now (\<lambda>_. False) (length (outbox d)) d
           = Inr (r, d1) \<and> outbox d1 = map (reject_row err) (outbox d)"
proof -
  let ?ev = "claim_pending_events DESTINATION_ANALYTICS (\<lambda>_. False) (length (outbox d)) d"
  have "tmods ob_id (map ob_id ?ev) (mark_failed err) (outbox d) = map (reject_row err) (outbox d)"
    using assms(1) by (simp add: batch_write outbox_ok_def claim_all reject_row_def cong: map_cong)
  moreover have "map (reject_row err) (outbox d) = outbox d" if "?ev = []"
    using that claim_all [of DESTINATION_ANALYTICS d] by (intro map_idI) (auto simp: reject_row_def)
  ultimately show ?thesis
    using assms(2,3) by (auto simp: dispatch_analytics_events_def Let_def send_batch_def)
qed

lemma rejected_rounds_outbox:
  assumes "outbox_ok d" and "posthog_dispatch_active st" and "is_set (posthog_api_key st)"
  shows "\<exists>d'. rejected_rounds std st err now n d = Inr d' \<and> outbox d' = map (reject_row err ^^ n) (outbox d)"
  using assms(1)
proof (induction n arbitrary: d)
  case 0
  then show ?case by simp
next
  case (Suc n)
  obtain r d1 where d1: "dispatch_analytics_events std st (\<lambda>_. HTTPFailure err) now (\<lambda>_. False)
        (length (outbox d)) d = Inr (r, d1)" and o: "outbox d1 = map (reject_row err) (outbox d)"
    using rejected_round [OF Suc.prems assms(2,3)] by blast
  have "outbox_ok d1" by (rule dispatch_outbox_ok [OF Suc.prems d1])
  from Suc.IH [OF this] show ?case by (auto simp: d1 o funpow_swap1)
qed

lemma reject_row_power:
  assumes "pending_event DESTINATION_ANALYTICS e"
  shows "ob_attempts ((reject_row err ^^ n) e) = min MAX_DISPATCH_ATTEMPTS (ob_attempts e + n)
    \<and> ob_destination ((reject_row err ^^ n) e) = DESTINATION_ANALYTICS
    \<and> ob_state ((reject_row err ^^ n) e)
        = (if MAX_DISPATCH_ATTEMPTS \<le> ob_attempts e + n then ''dead_letter'' else ''pending'')"
  using assms
  by (induction n) (auto simp: reject_row_def pending_event_def mark_failed_def)

text \<open>
  A vendor outage ends in the operator's view, never in silence: after \<open>n\<close> rejected dispatches
  that reach the whole table, a waiting analytics event has been tried exactly \<open>n\<close> more times up to
  five, and it is a dead letter from the fifth rejection on and still waiting before.
\<close>

theorem outage_ends_in_dead_letter:
  assumes "outbox_ok d" and "posthog_dispatch_active st" and "is_set (posthog_api_key st)"
    and "i < length (outbox d)" and "pending_event DESTINATION_ANALYTICS (outbox d ! i)"
  shows "\<exists>d'. rejected_rounds std st err now n d = Inr d'
     \<and> ob_attempts (outbox d' ! i) = min 5 (ob_attempts (outbox d ! i) + n)
     \<and> ob_state (outbox d' ! i)
         = (if 5 \<le> ob_attempts (outbox d ! i) + n then ''dead_letter'' else ''pending'')"
proof -
  obtain d' where d': "rejected_rounds std st err now n d = Inr d'"
      "outbox d' = map (reject_row err ^^ n) (outbox d)"
    using rejected_rounds_outbox [OF assms(1-3)] by blast
  show ?thesis
    using d' assms(4) reject_row_power [OF assms(5), of n err]
    by (intro exI [of _ d']) (simp add: MAX_DISPATCH_ATTEMPTS_def)
qed

theorem outage_ends_in_dead_letter_witness:
  "\<exists>d'. rejected_rounds demo_std demo_live ''502'' 0 5 demo_outbox = Inr d'
     \<and> ob_state (outbox d' ! 0) = ''dead_letter''"
  using outage_ends_in_dead_letter [OF demo_outbox_ok, of demo_live 0 demo_std "''502''" 0 5] demo_event_pending
  by (auto simp: demo_outbox_rows demo_live_def posthog_dispatch_active_def)

end
