(* ===== verification/Catalogue.thy ===== *)
theory Catalogue
  imports Outbox
begin

text \<open>
  The catalogue's life: a reviewer's decision creates a scholarship
  (\<open>src/src/app/infra/reviews.py\<close>), publishing adds a cycle and makes it public, a correction edits
  one cycle (\<open>src/src/app/infra/publication.py\<close>) and a withdrawal removes the record with all its
  cycles (\<open>src/src/app/infra/withdrawals.py\<close>). Every operation is one transaction on the database;
  a raised exception leaves it unchanged, as the request's rollback does.
\<close>

section \<open>Shared writes\<close>

definition add_audit ::
  "string \<Rightarrow> string \<Rightarrow> uuid \<Rightarrow> string \<Rightarrow> dict option \<Rightarrow> db \<Rightarrow> db" where
  "add_audit actor action target reason context d =
     (let (i, d1) = new_uuid7 d
      in d1\<lparr>audit_log := audit_log d1 @
           [\<lparr>au_id = i, au_actor = actor, au_action = action, au_target_id = Some target,
             au_reason = Some reason, au_context = context\<rparr>]\<rparr>)"

text \<open>Inserting a scholarship: the slug is unique and fits its column, and the provider must exist.\<close>

definition SLUG_LENGTH :: nat where
  "SLUG_LENGTH = 255"

definition insert_scholarship ::
  "uuid \<Rightarrow> string \<Rightarrow> string \<Rightarrow> string \<Rightarrow> string \<Rightarrow> record_state \<Rightarrow> db \<Rightarrow> (uuid \<times> db) result" where
  "insert_scholarship provider slug name url award state d =
     (let (i, d1) = new_uuid7 d
      in if slug \<in> sch_slug ` set (scholarships d) \<or> provider \<notin> pv_id ` set (providers d)
         then Inl IntegrityError
         else if length slug > SLUG_LENGTH then Inl DataError
         else Inr (i, d1\<lparr>scholarships := scholarships d1 @
                [\<lparr>sch_id = i, sch_provider_id = provider, sch_slug = slug, sch_name = name,
                  sch_official_home_url = url, sch_award_type = award, sch_lifecycle_state = state,
                  sch_current_published_revision_id = None\<rparr>]\<rparr>))"

section \<open>Review decisions\<close>

record review_request =
  rq_decision :: string
  rq_provider_id :: "uuid option"
  rq_canonical_name :: "string option"
  rq_official_home_url :: "string option"
  rq_slug :: "string option"
  rq_award_type :: "string option"
  rq_reason :: string

definition or_else :: "string option \<Rightarrow> string \<Rightarrow> string" where
  "or_else x y = (case x of None \<Rightarrow> y | Some s \<Rightarrow> if s = [] then y else s)"

definition link_row :: "uuid \<Rightarrow> discovery \<Rightarrow> discovery" where
  "link_row sid r = r\<lparr>di_canonical_scholarship_id := Some sid, di_processing_state := ''linked''\<rparr>"

definition resolve_row :: "string \<Rightarrow> review_task \<Rightarrow> review_task" where
  "resolve_row reason t = t\<lparr>rt_state := ''resolved'', rt_resolution := Some (take 2000 reason)\<rparr>"

definition approve_discovery ::
  "review_task \<Rightarrow> review_request \<Rightarrow> db \<Rightarrow> (uuid \<times> db) result" where
  "approve_discovery task rq d =
     (case (rt_discovery_id task, rq_provider_id rq, rq_official_home_url rq, rq_slug rq, rq_award_type rq) of
        (Some did, Some pid, Some url, Some slug, Some award) \<Rightarrow>
          bindE (award_type TAXONOMY award) (\<lambda>award'.
          case tget di_id did (discoveries d) of
            None \<Rightarrow> Inl (LookupError ''Discovery not found'')
          | Some disc \<Rightarrow>
              bindE (insert_scholarship pid slug
                       (or_else (rq_canonical_name rq) (or_else (di_raw_title disc) ''Unnamed scholarship''))
                       url award' Needs_review d) (\<lambda>(sid, d1).
                Inr (sid, d1\<lparr>discoveries := tmod di_id did (link_row sid) (discoveries d1)\<rparr>)))
      | _ \<Rightarrow> Inl (ValueError
               ''Approval requires discovery, provider, slug, award type, and official URL''))"

definition decide_review :: "uuid \<Rightarrow> review_request \<Rightarrow> db \<Rightarrow> (uuid option \<times> db) result" where
  "decide_review task_id rq d =
     (case tget rt_id task_id (review_tasks d) of
        None \<Rightarrow> Inl (LookupError ''Open review task not found'')
      | Some task \<Rightarrow>
          if rt_state task \<noteq> ''open'' then Inl (LookupError ''Open review task not found'')
          else bindE (if rq_decision rq = ''approve''
                      then bindE (approve_discovery task rq d) (\<lambda>(sid, d1). Inr (Some sid, d1))
                      else Inr (None, d)) (\<lambda>(sid, d1).
                 Inr (sid, d1\<lparr>review_tasks :=
                        tmod rt_id task_id (resolve_row (rq_reason rq)) (review_tasks d1)\<rparr>)))"

section \<open>Publishing\<close>

record cycle_content =
  cc_key :: string
  cc_segment :: string
  cc_url :: string
  cc_status :: public_status
  cc_facts :: dict
  cc_valid_until :: "instant option"
  cc_verified_at :: "instant option"

definition same_identity :: "uuid \<Rightarrow> string \<Rightarrow> string \<Rightarrow> cycle \<Rightarrow> bool" where
  "same_identity sid key seg c =
     (cy_scholarship_id c = sid \<and> cy_provider_cycle_key c = key \<and> cy_applicant_segment c = seg)"

definition new_cycle :: "instant \<Rightarrow> uuid \<Rightarrow> uuid \<Rightarrow> cycle_content \<Rightarrow> cycle" where
  "new_cycle now i sid cc =
     \<lparr>cy_id = i, cy_scholarship_id = sid, cy_provider_cycle_key = cc_key cc,
      cy_applicant_segment = cc_segment cc, cy_official_cycle_url = cc_url cc,
      cy_public_status = cc_status cc, cy_status_valid_until = cc_valid_until cc,
      cy_last_verified_at = cc_verified_at cc, cy_facts = cc_facts cc, cy_source_page_id = None,
      cy_auto_downgraded = False, cy_is_auto_approved = False, cy_auto_approval_score = None,
      cy_created_at = now\<rparr>"

definition set_lifecycle :: "record_state \<Rightarrow> scholarship \<Rightarrow> scholarship" where
  "set_lifecycle st s = s\<lparr>sch_lifecycle_state := st\<rparr>"

definition publish_cycle ::
  "instant \<Rightarrow> uuid \<Rightarrow> cycle_content \<Rightarrow> string \<Rightarrow> db \<Rightarrow> (cycle \<times> db) result" where
  "publish_cycle now sid cc actor d =
     (case tget sch_id sid (scholarships d) of
        None \<Rightarrow> Inl (LookupError ''Scholarship not found'')
      | Some s \<Rightarrow>
          if sch_lifecycle_state s = Withdrawn
          then Inl (ValueError ''Cannot publish a withdrawn scholarship'')
          else if \<exists>c \<in> set (cycles d). same_identity sid (cc_key cc) (cc_segment cc) c
          then Inl (ValueError ''A cycle with this key and segment is already published'')
          else let (i, d1) = new_uuid7 d;
                   c = new_cycle now i sid cc;
                   d2 = d1\<lparr>cycles := cycles d1 @ [c],
                           scholarships := tmod sch_id sid (set_lifecycle Published) (scholarships d1)\<rparr>;
                   d3 = add_audit actor ''scholarship.published'' sid
                          (''cycle '' @ cc_key cc @ '' ('' @ cc_segment cc @ '') published'') None d2;
                   d4 = enqueue_analytics_event now ''scholarship_published''
                          (''published:'' @ uuid_str sid @ '':'' @ cc_key cc @ '':'' @ cc_segment cc)
                          [(''scholarship_id'', JStr (uuid_str sid)), (''cycle_id'', JStr (uuid_str i)),
                           (''provider_cycle_key'', JStr (cc_key cc))] d3
               in Inr (c, d4))"

section \<open>Correcting a cycle\<close>

definition load_cycle_for_update :: "uuid \<Rightarrow> uuid \<Rightarrow> db \<Rightarrow> cycle result" where
  "load_cycle_for_update sid cid d =
     (case tget sch_id sid (scholarships d) of
        None \<Rightarrow> Inl (LookupError ''Scholarship not found'')
      | Some s \<Rightarrow>
          if sch_lifecycle_state s = Withdrawn
          then Inl (ValueError ''Cannot update a cycle of a withdrawn scholarship'')
          else case find (\<lambda>c. cy_id c = cid \<and> cy_scholarship_id c = sid) (cycles d) of
                 None \<Rightarrow> Inl (LookupError ''Cycle not found'')
               | Some c \<Rightarrow> Inr c)"

definition write_content :: "cycle_content \<Rightarrow> cycle \<Rightarrow> cycle" where
  "write_content cc c =
     c\<lparr>cy_provider_cycle_key := cc_key cc, cy_applicant_segment := cc_segment cc,
       cy_official_cycle_url := cc_url cc, cy_public_status := cc_status cc,
       cy_status_valid_until := cc_valid_until cc, cy_last_verified_at := cc_verified_at cc,
       cy_facts := cc_facts cc\<rparr>"

definition update_cycle ::
  "cycle \<Rightarrow> cycle_content \<Rightarrow> string list \<Rightarrow> string \<Rightarrow> db \<Rightarrow> (cycle \<times> db) result" where
  "update_cycle cyc cc changed_fields actor d =
     (let identity_changed = (cc_key cc \<noteq> cy_provider_cycle_key cyc \<or> cc_segment cc \<noteq> cy_applicant_segment cyc)
      in if identity_changed \<and>
            (\<exists>c \<in> set (cycles d). same_identity (cy_scholarship_id cyc) (cc_key cc) (cc_segment cc) c
                                  \<and> cy_id c \<noteq> cy_id cyc)
         then Inl (ValueError ''A cycle with this key and segment is already published'')
         else let d1 = d\<lparr>cycles := tmod cy_id (cy_id cyc) (write_content cc) (cycles d)\<rparr>;
                  d2 = add_audit actor ''scholarship.cycle_updated'' (cy_scholarship_id cyc)
                         (''cycle '' @ cc_key cc @ '' ('' @ cc_segment cc @ '') updated'')
                         (Some [(''cycle_id'', JStr (uuid_str (cy_id cyc))),
                                (''changed_fields'', jstrs (sort changed_fields))]) d1
              in Inr (write_content cc cyc, d2))"

section \<open>Withdrawing\<close>

definition withdraw_row :: "cycle \<Rightarrow> cycle" where
  "withdraw_row c = c\<lparr>cy_public_status := Status_unknown, cy_status_valid_until := None\<rparr>"

definition withdraw_scholarship ::
  "instant \<Rightarrow> uuid \<Rightarrow> string \<Rightarrow> string \<Rightarrow> db \<Rightarrow> (nat \<times> db) result" where
  "withdraw_scholarship now sid reason actor d =
     (case tget sch_id sid (scholarships d) of
        None \<Rightarrow> Inl (LookupError ''Scholarship not found'')
      | Some s \<Rightarrow>
          if sch_lifecycle_state s = Withdrawn
          then Inl (ValueError ''Scholarship is already withdrawn'')
          else let own = filter (\<lambda>c. cy_scholarship_id c = sid) (cycles d);
                   d1 = d\<lparr>scholarships := tmod sch_id sid (set_lifecycle Withdrawn) (scholarships d),
                          cycles := map (\<lambda>c. if cy_scholarship_id c = sid then withdraw_row c else c) (cycles d)\<rparr>;
                   d2 = add_audit actor ''scholarship.withdrawn'' sid (take 2000 reason) None d1;
                   d3 = enqueue_analytics_event now ''scholarship_withdrawn''
                          (''withdrawn:'' @ uuid_str sid)
                          [(''scholarship_id'', JStr (uuid_str sid)), (''cycles'', JInt (int (length own)))] d2
               in Inr (length own, d3))"

section \<open>What the shared writes leave alone\<close>

lemma add_audit_frame [simp, frame_simps]:
  "scholarships (add_audit a b t r c d) = scholarships d" "cycles (add_audit a b t r c d) = cycles d"
  "discoveries (add_audit a b t r c d) = discoveries d" "review_tasks (add_audit a b t r c d) = review_tasks d"
  "pages (add_audit a b t r c d) = pages d" "outbox (add_audit a b t r c d) = outbox d"
  "jobs (add_audit a b t r c d) = jobs d" "providers (add_audit a b t r c d) = providers d"
  "sources (add_audit a b t r c d) = sources d" "auto_audits (add_audit a b t r c d) = auto_audits d"
  "next_id (add_audit a b t r c d) = Suc (next_id d)"
  by (simp_all add: add_audit_def new_uuid7_def)

lemma enqueue_event_frame [simp, frame_simps]:
  "scholarships (enqueue_analytics_event n ty k p d) = scholarships d"
  "cycles (enqueue_analytics_event n ty k p d) = cycles d"
  "discoveries (enqueue_analytics_event n ty k p d) = discoveries d"
  "review_tasks (enqueue_analytics_event n ty k p d) = review_tasks d"
  "pages (enqueue_analytics_event n ty k p d) = pages d"
  "jobs (enqueue_analytics_event n ty k p d) = jobs d"
  "audit_log (enqueue_analytics_event n ty k p d) = audit_log d"
  "providers (enqueue_analytics_event n ty k p d) = providers d"
  "sources (enqueue_analytics_event n ty k p d) = sources d"
  "auto_audits (enqueue_analytics_event n ty k p d) = auto_audits d"
  "next_id (enqueue_analytics_event n ty k p d) = Suc (next_id d)"
  by (simp_all add: enqueue_analytics_event_def new_uuid7_def)

section \<open>The invariant of the catalogue\<close>

definition identity_of :: "cycle \<Rightarrow> uuid \<times> string \<times> string" where
  "identity_of c = (cy_scholarship_id c, cy_provider_cycle_key c, cy_applicant_segment c)"

definition silenced :: "cycle \<Rightarrow> bool" where
  "silenced c \<longleftrightarrow> cy_public_status c = Status_unknown \<and> cy_status_valid_until c = None"

definition lifecycle_of :: "db \<Rightarrow> uuid \<Rightarrow> record_state option" where
  "lifecycle_of d sid = map_option sch_lifecycle_state (tget sch_id sid (scholarships d))"

definition catalogue_ok :: "db \<Rightarrow> bool" where
  "catalogue_ok d \<longleftrightarrow>
     distinct (map sch_id (scholarships d)) \<and> distinct (map sch_slug (scholarships d))
     \<and> distinct (map cy_id (cycles d)) \<and> distinct (map identity_of (cycles d))
     \<and> (\<forall>s \<in> set (scholarships d). sch_id s < next_id d
          \<and> (sch_lifecycle_state s = Published \<longrightarrow> sch_id s \<in> cy_scholarship_id ` set (cycles d)))
     \<and> (\<forall>c \<in> set (cycles d). cy_id c < next_id d
          \<and> (lifecycle_of d (cy_scholarship_id c) = Some Published
             \<or> lifecycle_of d (cy_scholarship_id c) = Some Withdrawn \<and> silenced c))"

lemma catalogue_okI:
  assumes "distinct (map sch_id (scholarships d))" and "distinct (map sch_slug (scholarships d))"
    and "distinct (map cy_id (cycles d))" and "distinct (map identity_of (cycles d))"
    and "\<And>s. s \<in> set (scholarships d) \<Longrightarrow> sch_id s < next_id d"
    and "\<And>s. s \<in> set (scholarships d) \<Longrightarrow> sch_lifecycle_state s = Published \<Longrightarrow>
           sch_id s \<in> cy_scholarship_id ` set (cycles d)"
    and "\<And>c. c \<in> set (cycles d) \<Longrightarrow> cy_id c < next_id d"
    and "\<And>c. c \<in> set (cycles d) \<Longrightarrow> lifecycle_of d (cy_scholarship_id c) = Some Published
           \<or> lifecycle_of d (cy_scholarship_id c) = Some Withdrawn \<and> silenced c"
  shows "catalogue_ok d"
  using assms by (simp add: catalogue_ok_def)

lemma catalogue_okD:
  assumes "catalogue_ok d"
  shows "distinct (map sch_id (scholarships d))" and "distinct (map sch_slug (scholarships d))"
    and "distinct (map cy_id (cycles d))" and "distinct (map identity_of (cycles d))"
    and "s \<in> set (scholarships d) \<Longrightarrow> sch_id s < next_id d"
    and "s \<in> set (scholarships d) \<Longrightarrow> sch_lifecycle_state s = Published \<Longrightarrow>
           sch_id s \<in> cy_scholarship_id ` set (cycles d)"
    and "c \<in> set (cycles d) \<Longrightarrow> cy_id c < next_id d"
    and "c \<in> set (cycles d) \<Longrightarrow> lifecycle_of d (cy_scholarship_id c) = Some Published
           \<or> lifecycle_of d (cy_scholarship_id c) = Some Withdrawn \<and> silenced c"
  using assms by (simp_all add: catalogue_ok_def)

text \<open>A withdrawn record: its row and exactly the cycles it has.\<close>

definition withdrawn_record :: "db \<Rightarrow> scholarship \<times> cycle list \<Rightarrow> bool" where
  "withdrawn_record d v \<longleftrightarrow>
     tget sch_id (sch_id (fst v)) (scholarships d) = Some (fst v)
     \<and> sch_lifecycle_state (fst v) = Withdrawn
     \<and> filter (\<lambda>c. cy_scholarship_id c = sch_id (fst v)) (cycles d) = snd v"

lemma same_identity_iff: "same_identity sid key seg c \<longleftrightarrow> identity_of c = (sid, key, seg)"
  by (simp add: same_identity_def identity_of_def)

lemma set_lifecycle_sel [simp]:
  "sch_id (set_lifecycle st s) = sch_id s" "sch_slug (set_lifecycle st s) = sch_slug s"
  "sch_lifecycle_state (set_lifecycle st s) = st"
  by (simp_all add: set_lifecycle_def)

lemma withdraw_row_sel [simp]:
  "cy_id (withdraw_row c) = cy_id c" "cy_scholarship_id (withdraw_row c) = cy_scholarship_id c"
  "identity_of (withdraw_row c) = identity_of c" "silenced (withdraw_row c)"
  by (simp_all add: withdraw_row_def identity_of_def silenced_def)

lemma write_content_sel [simp]:
  "cy_id (write_content cc c) = cy_id c"
  "cy_scholarship_id (write_content cc c) = cy_scholarship_id c"
  "cy_auto_downgraded (write_content cc c) = cy_auto_downgraded c"
  "identity_of (write_content cc c) = (cy_scholarship_id c, cc_key cc, cc_segment cc)"
  by (simp_all add: write_content_def identity_of_def)

lemma new_cycle_sel [simp]:
  "cy_id (new_cycle now i sid cc) = i" "cy_scholarship_id (new_cycle now i sid cc) = sid"
  "identity_of (new_cycle now i sid cc) = (sid, cc_key cc, cc_segment cc)"
  by (simp_all add: new_cycle_def identity_of_def)

lemma map_tmod_same: "(\<And>r. g (f r) = g r) \<Longrightarrow> map g (tmod pk k f rows) = map g rows"
  by (simp add: tmod_def)

lemma lifecycle_tmod:
  "scholarships d' = tmod sch_id sid (set_lifecycle st) (scholarships d) \<Longrightarrow>
   lifecycle_of d' i = (if i = sid then map_option (\<lambda>_. st) (lifecycle_of d i) else lifecycle_of d i)"
  by (auto simp: lifecycle_of_def scholarship_table.get_mod option.map_comp comp_def)

lemma lifecycle_of_SomeD: "lifecycle_of d i = Some st \<Longrightarrow> \<exists>s. tget sch_id i (scholarships d) = Some s \<and> sch_lifecycle_state s = st"
  by (auto simp: lifecycle_of_def)

lemma publish_cases:
  assumes "publish_cycle now sid cc actor d = Inr (c, d')"
  obtains s where "tget sch_id sid (scholarships d) = Some s" "sch_lifecycle_state s \<noteq> Withdrawn"
    "\<not> (\<exists>c \<in> set (cycles d). same_identity sid (cc_key cc) (cc_segment cc) c)"
    "c = new_cycle now (next_id d) sid cc" "cycles d' = cycles d @ [c]"
    "scholarships d' = tmod sch_id sid (set_lifecycle Published) (scholarships d)"
    "next_id d' = Suc (Suc (Suc (next_id d)))"
  using assms
  by (auto simp: publish_cycle_def new_uuid7_def Let_def split: option.splits if_splits)

lemma publish_catalogue_ok:
  assumes ok: "catalogue_ok d" and p: "publish_cycle now sid cc actor d = Inr (c, d')"
  shows "catalogue_ok d'"
  using p
proof (cases rule: publish_cases)
  case (1 s)
  have lc: "lifecycle_of d' i = (if i = sid then Some Published else lifecycle_of d i)" for i
    using lifecycle_tmod [OF 1(6), of i] 1(1) by (auto simp: lifecycle_of_def)
  have ids: "cy_id x < next_id d" if "x \<in> set (cycles d)" for x
    using ok that by (simp add: catalogue_ok_def)
  have keys: "map sch_id (scholarships d') = map sch_id (scholarships d)"
      "map sch_slug (scholarships d') = map sch_slug (scholarships d)"
    unfolding 1(6) by (simp_all add: map_tmod_same)
  show ?thesis
  proof (rule catalogue_okI)
    show "distinct (map sch_id (scholarships d'))" "distinct (map sch_slug (scholarships d'))"
      unfolding keys using ok by (simp_all add: catalogue_okD)
    show "distinct (map cy_id (cycles d'))"
      using catalogue_okD(3) [OF ok] ids 1(4,5) by fastforce
    show "distinct (map identity_of (cycles d'))"
      using catalogue_okD(4) [OF ok] 1(3-5) by (auto simp: same_identity_iff)
    show "sch_id x < next_id d'" if "x \<in> set (scholarships d')" for x
      using that catalogue_okD(5) [OF ok] 1(6,7) by (force simp: set_tmod)
    show "sch_id x \<in> cy_scholarship_id ` set (cycles d')"
      if "x \<in> set (scholarships d')" "sch_lifecycle_state x = Published" for x
      using that catalogue_okD(6) [OF ok] 1(4-6) by (force simp: set_tmod split: if_splits)
    show "cy_id x < next_id d'" if "x \<in> set (cycles d')" for x
      using that ids 1(4,5,7) by force
    show "lifecycle_of d' (cy_scholarship_id x) = Some Published
        \<or> lifecycle_of d' (cy_scholarship_id x) = Some Withdrawn \<and> silenced x"
      if "x \<in> set (cycles d')" for x
      using that catalogue_okD(8) [OF ok, of x] 1(4,5) by (auto simp: lc)
  qed
qed

lemma withdraw_cases:
  assumes "withdraw_scholarship now sid reason actor d = Inr (n, d')"
  obtains s where "tget sch_id sid (scholarships d) = Some s" "sch_lifecycle_state s \<noteq> Withdrawn"
    "cycles d' = map (\<lambda>c. if cy_scholarship_id c = sid then withdraw_row c else c) (cycles d)"
    "scholarships d' = tmod sch_id sid (set_lifecycle Withdrawn) (scholarships d)"
    "next_id d' = Suc (Suc (next_id d))"
    "n = length (filter (\<lambda>c. cy_scholarship_id c = sid) (cycles d))"
  using assms
  by (auto simp: withdraw_scholarship_def Let_def split: option.splits if_splits)

text \<open>
  An operation that rewrites cycles in place keeps the invariant when it keeps their keys and leaves
  those of withdrawn records alone.
\<close>

lemma catalogue_ok_rewrite:
  assumes "catalogue_ok d" and "scholarships d' = scholarships d" and "next_id d \<le> next_id d'"
    and "cycles d' = map g (cycles d)"
    and "\<And>c. cy_id (g c) = cy_id c \<and> cy_scholarship_id (g c) = cy_scholarship_id c"
    and "distinct (map identity_of (cycles d'))"
    and "\<And>c. c \<in> set (cycles d) \<Longrightarrow> lifecycle_of d (cy_scholarship_id c) = Some Withdrawn \<Longrightarrow> g c = c"
  shows "catalogue_ok d'"
proof -
  note ok = assms(1)
  have lc: "lifecycle_of d' = lifecycle_of d" using assms(2) by (simp add: lifecycle_of_def fun_eq_iff)
  show ?thesis
  proof (rule catalogue_okI)
    show "distinct (map sch_id (scholarships d'))" "distinct (map sch_slug (scholarships d'))"
      unfolding assms(2) using ok by (simp_all add: catalogue_okD)
    show "distinct (map cy_id (cycles d'))"
      using catalogue_okD(3) [OF ok] assms(4,5) by (simp add: comp_def)
    show "distinct (map identity_of (cycles d'))" by (rule assms(6))
    show "sch_id x < next_id d'" if "x \<in> set (scholarships d')" for x
      using that catalogue_okD(5) [OF ok, of x] assms(2,3) by simp
    show "sch_id x \<in> cy_scholarship_id ` set (cycles d')"
      if "x \<in> set (scholarships d')" "sch_lifecycle_state x = Published" for x
      using that catalogue_okD(6) [OF ok, of x] assms(2,4,5) by (simp add: image_image)
    show "cy_id x < next_id d'" if "x \<in> set (cycles d')" for x
      using that catalogue_okD(7) [OF ok] assms(3-5) by (force intro: order.strict_trans2)
    show "lifecycle_of d' (cy_scholarship_id x) = Some Published
        \<or> lifecycle_of d' (cy_scholarship_id x) = Some Withdrawn \<and> silenced x"
      if x: "x \<in> set (cycles d')" for x
    proof -
      obtain c where c: "c \<in> set (cycles d)" "x = g c" using x assms(4) by auto
      with catalogue_okD(8) [OF ok c(1)] assms(5,7) show ?thesis by (auto simp: lc)
    qed
  qed
qed

lemma update_cases:
  assumes "update_cycle cyc cc ch actor d = Inr (c, d')"
  obtains "cycles d' = tmod cy_id (cy_id cyc) (write_content cc) (cycles d)"
    "scholarships d' = scholarships d" "next_id d' = Suc (next_id d)" "c = write_content cc cyc"
    "cc_key cc = cy_provider_cycle_key cyc \<and> cc_segment cc = cy_applicant_segment cyc \<or>
     (\<forall>c \<in> set (cycles d). identity_of c = (cy_scholarship_id cyc, cc_key cc, cc_segment cc) \<longrightarrow>
        cy_id c = cy_id cyc)"
  using assms by (auto simp: update_cycle_def Let_def same_identity_iff split: if_splits)

lemma tget_key: "tget pk k rows = Some r \<Longrightarrow> k \<in> pk ` set rows"
  by (auto dest: tget_SomeD)

lemma identity_unique:
  assumes "catalogue_ok d" and "a \<in> set (cycles d)" and "b \<in> set (cycles d)" and "identity_of a = identity_of b"
  shows "a = b"
  using catalogue_okD(4) [OF assms(1)] assms(2-4) by (auto simp: distinct_map dest: inj_onD)

lemma load_cases:
  assumes "load_cycle_for_update sid cid d = Inr cyc"
  shows "lifecycle_of d sid \<noteq> Some Withdrawn \<and> lifecycle_of d sid \<noteq> None \<and> cyc \<in> set (cycles d)
     \<and> cy_id cyc = cid \<and> cy_scholarship_id cyc = sid"
  using assms
  by (auto simp: load_cycle_for_update_def lifecycle_of_def find_Some_iff split: option.splits if_splits)

lemma update_catalogue_ok:
  assumes ok: "catalogue_ok d" and l: "load_cycle_for_update sid cid d = Inr cyc"
    and u: "update_cycle cyc cc ch actor d = Inr (c, d')"
  shows "catalogue_ok d'"
  using u
proof (cases rule: update_cases)
  case 1
  note cyc = load_cases [OF l]
  let ?g = "\<lambda>x. if cy_id x = cid then write_content cc x else x"
  have g: "cycles d' = map ?g (cycles d)" using 1(1) cyc by (simp add: tmod_def)
  have same: "x = cyc" if "x \<in> set (cycles d)" "cy_id x = cid" for x
    using that cyc catalogue_okD(3) [OF ok] by (auto simp: distinct_map dest: inj_onD)
  show ?thesis
  proof (rule catalogue_ok_rewrite [OF ok 1(2) _ g])
    show "next_id d \<le> next_id d'" using 1(3) by simp
    show "distinct (map identity_of (cycles d'))"
    proof (subst distinct_map, intro conjI)
      show "distinct (cycles d')"
        using catalogue_okD(3) [OF ok] unfolding g
        by (intro distinct_map [THEN iffD1, THEN conjunct1, of cy_id]) (simp add: comp_def if_distrib cong: if_cong)
      show "inj_on identity_of (set (cycles d'))"
      proof (rule inj_onI)
        fix a b assume a: "a \<in> set (cycles d')" and b: "b \<in> set (cycles d')" and eq: "identity_of a = identity_of b"
        obtain a0 b0 where 0: "a0 \<in> set (cycles d)" "a = ?g a0" "b0 \<in> set (cycles d)" "b = ?g b0"
          using a b g by auto
        have clash: "cy_id x = cid" if "x \<in> set (cycles d)" "identity_of x = (sid, cc_key cc, cc_segment cc)" for x
          using that 1(5) cyc identity_unique [OF ok, of x cyc] by (auto simp: identity_of_def)
        have both: "cy_id y = cid"
          if "x \<in> set (cycles d)" "y \<in> set (cycles d)" "cy_id x = cid" "identity_of (?g x) = identity_of (?g y)" for x y
        proof (rule ccontr)
          assume "cy_id y \<noteq> cid"
          with that same [of x] cyc have "identity_of y = (sid, cc_key cc, cc_segment cc)" by simp
          with that(2) clash have "cy_id y = cid" by blast
          with \<open>cy_id y \<noteq> cid\<close> show False ..
        qed
        show "a = b"
        proof (cases "cy_id a0 = cid \<or> cy_id b0 = cid")
          case True
          then have "cy_id a0 = cid \<and> cy_id b0 = cid"
            using 0 eq both [of a0 b0] both [of b0 a0] by argo
          with 0 same [of a0] same [of b0] show ?thesis by simp
        next
          case False
          with 0 eq identity_unique [OF ok] show ?thesis by simp
        qed
      qed
    qed
    show "?g x = x" if "x \<in> set (cycles d)" "lifecycle_of d (cy_scholarship_id x) = Some Withdrawn" for x
      using that cyc same by auto
  qed simp
qed

lemma withdraw_catalogue_ok:
  assumes ok: "catalogue_ok d" and w: "withdraw_scholarship now sid reason actor d = Inr (n, d')"
  shows "catalogue_ok d'"
  using w
proof (cases rule: withdraw_cases)
  case (1 s)
  have lc: "lifecycle_of d' i = (if i = sid then Some Withdrawn else lifecycle_of d i)" for i
    using lifecycle_tmod [OF 1(4), of i] 1(1) by (auto simp: lifecycle_of_def)
  have keys: "map sch_id (scholarships d') = map sch_id (scholarships d)"
      "map sch_slug (scholarships d') = map sch_slug (scholarships d)"
      "map cy_id (cycles d') = map cy_id (cycles d)"
      "map identity_of (cycles d') = map identity_of (cycles d)"
      "map cy_scholarship_id (cycles d') = map cy_scholarship_id (cycles d)"
    unfolding 1(3,4) by (simp_all add: map_tmod_same)
  show ?thesis
  proof (rule catalogue_okI)
    show "distinct (map sch_id (scholarships d'))" "distinct (map sch_slug (scholarships d'))"
      "distinct (map cy_id (cycles d'))" "distinct (map identity_of (cycles d'))"
      unfolding keys using ok by (simp_all add: catalogue_okD)
    show "sch_id x < next_id d'" if "x \<in> set (scholarships d')" for x
      using that catalogue_okD(5) [OF ok] 1(4,5) by (force simp: set_tmod)
    show "sch_id x \<in> cy_scholarship_id ` set (cycles d')"
      if "x \<in> set (scholarships d')" "sch_lifecycle_state x = Published" for x
    proof -
      have "x \<in> set (scholarships d)" using that 1(4) by (auto simp: set_tmod)
      then show ?thesis
        using catalogue_okD(6) [OF ok, of x] that(2) keys(5) by (metis list.set_map)
    qed
    show "cy_id x < next_id d'" if "x \<in> set (cycles d')" for x
      using that catalogue_okD(7) [OF ok] 1(3,5) by (force split: if_splits)
    show "lifecycle_of d' (cy_scholarship_id x) = Some Published
        \<or> lifecycle_of d' (cy_scholarship_id x) = Some Withdrawn \<and> silenced x"
      if "x \<in> set (cycles d')" for x
      using that catalogue_okD(8) [OF ok] 1(3) by (auto simp: lc)
  qed
qed

lemma insert_scholarship_Inr:
  "insert_scholarship p slug nm url aw st d = Inr (i, d') \<Longrightarrow>
     i = next_id d \<and> slug \<notin> sch_slug ` set (scholarships d) \<and> p \<in> pv_id ` set (providers d)
     \<and> next_id d' = Suc (next_id d) \<and> cycles d' = cycles d \<and> discoveries d' = discoveries d
     \<and> review_tasks d' = review_tasks d \<and> providers d' = providers d
     \<and> (\<exists>s. sch_id s = i \<and> sch_slug s = slug \<and> sch_lifecycle_state s = st \<and> sch_provider_id s = p
          \<and> sch_award_type s = aw \<and> sch_name s = nm \<and> sch_official_home_url s = url
          \<and> scholarships d' = scholarships d @ [s])"
  by (auto simp: insert_scholarship_def new_uuid7_def split: if_splits)

lemma add_scholarship_catalogue_ok:
  assumes ok: "catalogue_ok d" and s: "scholarships d' = scholarships d @ [s]" "sch_id s = next_id d"
    "sch_slug s \<notin> sch_slug ` set (scholarships d)" "sch_lifecycle_state s \<noteq> Published"
    and "cycles d' = cycles d" and "next_id d < next_id d'"
  shows "catalogue_ok d'"
proof -
  have old: "sch_id x < next_id d" if "x \<in> set (scholarships d)" for x
    using catalogue_okD(5) [OF ok that] .
  then have fresh: "sch_id s \<notin> sch_id ` set (scholarships d)" using s(2) by fastforce
  have lc: "lifecycle_of d' i = lifecycle_of d i" if "lifecycle_of d i \<noteq> None" for i
    using that s by (auto simp: lifecycle_of_def row_simps split: option.splits)
  show ?thesis
  proof (rule catalogue_okI)
    show "distinct (map sch_id (scholarships d'))" "distinct (map sch_slug (scholarships d'))"
      using catalogue_okD(1,2) [OF ok] s fresh by auto
    show "sch_id x < next_id d'" if "x \<in> set (scholarships d')" for x
      using that old s assms(7) by (force intro: order.strict_trans)
    show "sch_id x \<in> cy_scholarship_id ` set (cycles d')"
      if "x \<in> set (scholarships d')" "sch_lifecycle_state x = Published" for x
      using that catalogue_okD(6) [OF ok, of x] s assms(6) by auto
    show "cy_id x < next_id d'" if "x \<in> set (cycles d')" for x
      using that catalogue_okD(7) [OF ok, of x] assms(6,7) by simp
    show "lifecycle_of d' (cy_scholarship_id x) = Some Published
        \<or> lifecycle_of d' (cy_scholarship_id x) = Some Withdrawn \<and> silenced x"
      if "x \<in> set (cycles d')" for x
      using that catalogue_okD(8) [OF ok, of x] assms(6) by (auto simp: lc)
  qed (use ok assms(6) in \<open>simp_all add: catalogue_okD\<close>)
qed

lemma decide_cases:
  assumes "decide_review tid rq d = Inr (r, d')"
  obtains task where "tget rt_id tid (review_tasks d) = Some task" "rt_state task = ''open''"
    "review_tasks d' = tmod rt_id tid (resolve_row (rq_reason rq)) (review_tasks d)"
    "cycles d' = cycles d"
    "r = None \<and> scholarships d' = scholarships d \<and> next_id d' = next_id d \<and> discoveries d' = discoveries d
       \<and> rq_decision rq \<noteq> ''approve''
     \<or> (\<exists>s did. r = Some (sch_id s) \<and> sch_id s = next_id d \<and> scholarships d' = scholarships d @ [s]
          \<and> sch_slug s \<notin> sch_slug ` set (scholarships d) \<and> sch_lifecycle_state s = Needs_review
          \<and> rt_discovery_id task = Some did \<and> did \<in> di_id ` set (discoveries d)
          \<and> discoveries d' = tmod di_id did (link_row (sch_id s)) (discoveries d)
          \<and> next_id d' = Suc (next_id d) \<and> rq_decision rq = ''approve'')"
proof -
  obtain task sid d1 where t: "tget rt_id tid (review_tasks d) = Some task" "rt_state task = ''open''"
    and b: "(if rq_decision rq = ''approve'' then bindE (approve_discovery task rq d) (\<lambda>(sid, d1). Inr (Some sid, d1))
             else Inr (None, d)) = Inr (sid, d1)"
    and r: "r = sid" "d' = d1\<lparr>review_tasks := tmod rt_id tid (resolve_row (rq_reason rq)) (review_tasks d1)\<rparr>"
    using assms unfolding decide_review_def
    by (auto simp: bindE_eq_Inr simp del: split_paired_Ex split: option.splits if_splits)
  show thesis
  proof (cases "rq_decision rq = ''approve''")
    case True
    with b obtain i where a: "approve_discovery task rq d = Inr (i, d1)" "sid = Some i"
      by (auto simp: bindE_eq_Inr)
    have "\<exists>did pid url slug award' d0 nm. rt_discovery_id task = Some did \<and> did \<in> di_id ` set (discoveries d)
      \<and> insert_scholarship pid slug nm url award' Needs_review d = Inr (i, d0)
      \<and> d1 = d0\<lparr>discoveries := tmod di_id did (link_row i) (discoveries d0)\<rparr>"
      using a(1) unfolding approve_discovery_def
      by (auto simp: bindE_eq_Inr split: option.splits dest: tget_key) blast
    then obtain did pid url slug award' d0 nm where q: "rt_discovery_id task = Some did"
      "did \<in> di_id ` set (discoveries d)"
      "insert_scholarship pid slug nm url award' Needs_review d = Inr (i, d0)"
      "d1 = d0\<lparr>discoveries := tmod di_id did (link_row i) (discoveries d0)\<rparr>"
      by blast
    from insert_scholarship_Inr [OF q(3)] q r t a True show thesis
      by (intro that [OF t]) auto
  next
    case False
    with b r t show thesis by (intro that [OF t]) auto
  qed
qed

lemma decide_catalogue_ok:
  assumes "catalogue_ok d" and "decide_review tid rq d = Inr (r, d')"
  shows "catalogue_ok d'"
  using assms(2)
proof (cases rule: decide_cases)
  case (1 task)
  from 1(5) show ?thesis
  proof
    assume "r = None \<and> scholarships d' = scholarships d \<and> next_id d' = next_id d \<and> discoveries d' = discoveries d
       \<and> rq_decision rq \<noteq> ''approve''"
    then show ?thesis
      using assms(1) 1(4) by (simp add: catalogue_ok_def lifecycle_of_def)
  next
    assume "\<exists>s did. r = Some (sch_id s) \<and> sch_id s = next_id d \<and> scholarships d' = scholarships d @ [s]
          \<and> sch_slug s \<notin> sch_slug ` set (scholarships d) \<and> sch_lifecycle_state s = Needs_review
          \<and> rt_discovery_id task = Some did \<and> did \<in> di_id ` set (discoveries d)
          \<and> discoveries d' = tmod di_id did (link_row (sch_id s)) (discoveries d)
          \<and> next_id d' = Suc (next_id d) \<and> rq_decision rq = ''approve''"
    then obtain s where "scholarships d' = scholarships d @ [s]" "sch_id s = next_id d"
        "sch_slug s \<notin> sch_slug ` set (scholarships d)" "sch_lifecycle_state s \<noteq> Published"
        "next_id d < next_id d'"
      by auto
    then show ?thesis using add_scholarship_catalogue_ok [OF assms(1)] 1(4) by blast
  qed
qed

lemma publish_final:
  assumes "withdrawn_record d v" and "publish_cycle now sid cc actor d = Inr (c, d')"
  shows "withdrawn_record d' v"
  using assms(2)
proof (cases rule: publish_cases)
  case (1 s)
  then have "sid \<noteq> sch_id (fst v)" using assms(1) by (auto simp: withdrawn_record_def)
  with 1 assms(1) show ?thesis
    by (simp add: withdrawn_record_def scholarship_table.get_mod_other)
qed

lemma withdraw_final:
  assumes "withdrawn_record d v" and "withdraw_scholarship now sid reason actor d = Inr (n, d')"
  shows "withdrawn_record d' v"
  using assms(2)
proof (cases rule: withdraw_cases)
  case (1 s)
  then have ne: "sid \<noteq> sch_id (fst v)" using assms(1) by (auto simp: withdrawn_record_def)
  have "filter (\<lambda>c. cy_scholarship_id c = sch_id (fst v))
        (map (\<lambda>c. if cy_scholarship_id c = sid then withdraw_row c else c) cs)
      = filter (\<lambda>c. cy_scholarship_id c = sch_id (fst v)) cs" for cs
    using ne by (induction cs) auto
  with 1 ne assms(1) show ?thesis
    by (simp add: withdrawn_record_def scholarship_table.get_mod_other)
qed

text \<open>In-place writes that leave the cycles of a withdrawn record alone leave the record alone.\<close>

lemma final_rewrite:
  assumes "withdrawn_record d v" and "scholarships d' = scholarships d"
    and "cycles d' = map g (cycles d)" and "\<And>c. cy_scholarship_id (g c) = cy_scholarship_id c"
    and "\<And>c. c \<in> set (cycles d) \<Longrightarrow> lifecycle_of d (cy_scholarship_id c) = Some Withdrawn \<Longrightarrow> g c = c"
  shows "withdrawn_record d' v"
proof -
  let ?i = "sch_id (fst v)"
  have w: "lifecycle_of d ?i = Some Withdrawn" using assms(1) by (simp add: withdrawn_record_def lifecycle_of_def)
  have "filter (\<lambda>c. cy_scholarship_id c = ?i) (map g cs) = filter (\<lambda>c. cy_scholarship_id c = ?i) cs"
    if "set cs \<subseteq> set (cycles d)" for cs
    using that assms(4,5) w by (induction cs) auto
  from this [of "cycles d"] show ?thesis
    using assms(1-3) by (simp add: withdrawn_record_def)
qed

lemma update_final:
  assumes "catalogue_ok d" and "withdrawn_record d v" and l: "load_cycle_for_update sid cid d = Inr cyc"
    and "update_cycle cyc cc ch actor d = Inr (c, d')"
  shows "withdrawn_record d' v"
  using assms(4)
proof (cases rule: update_cases)
  case 1
  note cyc = load_cases [OF l]
  have same: "x = cyc" if "x \<in> set (cycles d)" "cy_id x = cid" for x
    using that cyc catalogue_okD(3) [OF assms(1)] by (auto simp: distinct_map dest: inj_onD)
  show ?thesis
    by (rule final_rewrite [OF assms(2) 1(2), of "\<lambda>x. if cy_id x = cid then write_content cc x else x"])
      (use 1(1) cyc same in \<open>auto simp: tmod_def\<close>)
qed

lemma decide_final:
  assumes "catalogue_ok d" and "withdrawn_record d v" and "decide_review tid rq d = Inr (r, d')"
  shows "withdrawn_record d' v"
  using assms(3)
proof (cases rule: decide_cases)
  case (1 task)
  with assms(2) show ?thesis by (auto simp: withdrawn_record_def row_simps split: option.split)
qed

section \<open>Properties\<close>


definition demo_scholarship :: scholarship where
  "demo_scholarship =
     \<lparr>sch_id = 2, sch_provider_id = 1, sch_slug = ''demo'', sch_name = ''Demo'',
      sch_official_home_url = ''https://demo.org'', sch_award_type = ''scholarship'',
      sch_lifecycle_state = Needs_review, sch_current_published_revision_id = None\<rparr>"

definition demo_task :: review_task where
  "demo_task =
     \<lparr>rt_id = 3, rt_revision_id = None, rt_discovery_id = None, rt_cycle_id = Some 9,
      rt_reason = ''reverify_fetch_failed'', rt_priority = 50, rt_state = ''open'', rt_resolution = None,
      rt_draft_recommendation = None, rt_created_at = 0\<rparr>"

definition demo_catalogue :: db where
  "demo_catalogue = empty_db\<lparr>
     providers := [\<lparr>pv_id = 1, pv_name = ''P'', pv_approved_domains = [''demo.org''], pv_country = None\<rparr>],
     scholarships := [demo_scholarship], review_tasks := [demo_task], next_id := 4\<rparr>"

definition demo_content :: cycle_content where
  "demo_content =
     \<lparr>cc_key = ''2027'', cc_segment = ''all'', cc_url = ''https://demo.org/apply'',
      cc_status = Open_verified, cc_facts = [], cc_valid_until = None, cc_verified_at = Some 0\<rparr>"

lemma demo_catalogue_ok: "catalogue_ok demo_catalogue"
  by (simp add: catalogue_ok_def demo_catalogue_def empty_db_def demo_scholarship_def)


text \<open>
  A review task is decided once, and deciding publishes nothing: after any decision the same task
  refuses every further one, no cycle changes, and exactly an approval adds one scholarship, which
  waits in \<open>needs_review\<close>.
\<close>

theorem decision_is_final_and_private:
  assumes "catalogue_ok d" and "decide_review tid rq d = Inr (r, d')"
  shows "(\<forall>rq'. decide_review tid rq' d' = Inl (LookupError ''Open review task not found''))
     \<and> cycles d' = cycles d
     \<and> (r \<noteq> None \<longleftrightarrow> rq_decision rq = ''approve'')
     \<and> (\<forall>i. lifecycle_of d' i = (if r = Some i then Some Needs_review else lifecycle_of d i))
     \<and> (\<forall>t. t \<noteq> tid \<longrightarrow> tget rt_id t (review_tasks d') = tget rt_id t (review_tasks d))"
  using assms(2)
proof (cases rule: decide_cases)
  case (1 task)
  have keep: "\<forall>x. rt_id (resolve_row (rq_reason rq) x) = rt_id x" by (simp add: resolve_row_def)
  have "tget rt_id tid (review_tasks d') = Some (resolve_row (rq_reason rq) task)"
    using 1(1,3) task_table.get_mod_same [OF keep, of tid "review_tasks d"] by simp
  then have "\<forall>rq'. decide_review tid rq' d' = Inl (LookupError ''Open review task not found'')"
    by (simp add: decide_review_def resolve_row_def)
  moreover have "\<forall>t. t \<noteq> tid \<longrightarrow> tget rt_id t (review_tasks d') = tget rt_id t (review_tasks d)"
    using 1(3) task_table.get_mod_other [OF keep] by simp
  moreover have "(r \<noteq> None \<longleftrightarrow> rq_decision rq = ''approve'')
      \<and> (\<forall>i. lifecycle_of d' i = (if r = Some i then Some Needs_review else lifecycle_of d i))"
    using 1(5)
  proof
    assume "\<exists>s did. r = Some (sch_id s) \<and> sch_id s = next_id d \<and> scholarships d' = scholarships d @ [s]
          \<and> sch_slug s \<notin> sch_slug ` set (scholarships d) \<and> sch_lifecycle_state s = Needs_review
          \<and> rt_discovery_id task = Some did \<and> did \<in> di_id ` set (discoveries d)
          \<and> discoveries d' = tmod di_id did (link_row (sch_id s)) (discoveries d)
          \<and> next_id d' = Suc (next_id d) \<and> rq_decision rq = ''approve''"
    then obtain s where s: "r = Some (sch_id s)" "sch_id s = next_id d" "scholarships d' = scholarships d @ [s]"
      "sch_lifecycle_state s = Needs_review" "rq_decision rq = ''approve''" by blast
    have "tget sch_id (next_id d) (scholarships d) = None"
      using catalogue_okD(5) [OF assms(1)] by (force simp: tget_None_iff)
    with s show ?thesis by (auto simp: lifecycle_of_def row_simps split: option.split)
  qed (simp add: lifecycle_of_def)
  ultimately show ?thesis using 1(4) by blast
qed

definition demo_reject :: review_request where
  "demo_reject =
     \<lparr>rq_decision = ''reject'', rq_provider_id = None, rq_canonical_name = None,
      rq_official_home_url = None, rq_slug = None, rq_award_type = None, rq_reason = ''stale''\<rparr>"

lemma demo_decision:
  "decide_review 3 demo_reject demo_catalogue =
     Inr (None, demo_catalogue\<lparr>review_tasks := [resolve_row ''stale'' demo_task]\<rparr>)"
  by (simp add: decide_review_def demo_catalogue_def demo_task_def demo_reject_def)

theorem decision_is_final_and_private_witness:
  "decide_review 3 demo_reject (demo_catalogue\<lparr>review_tasks := [resolve_row ''stale'' demo_task]\<rparr>)
     = Inl (LookupError ''Open review task not found'')"
  using decision_is_final_and_private [OF demo_catalogue_ok demo_decision] by blast

end
