(* ===== verification/Sources.thy ===== *)
theory Sources
  imports Urls Catalogue
begin

text \<open>
  Fetching approved pages: the monthly budget of an external provider
  (\<open>src/src/app/infra/research_budget.py\<close>), the guarded fetch (\<open>src/src/app/infra/source_fetch.py\<close>),
  its persistence with the Jina fallback (\<open>src/src/app/infra/source_persistence.py\<close>), and the
  administration of sources and providers (\<open>src/src/app/infra/sources.py\<close>,
  \<open>src/src/app/infra/providers.py\<close>, \<open>src/src/app/infra/provider_resolution.py\<close>).

  \<open>fetchlib\<close> is the outside world: the answer to an HTTP GET, the Reader's answer, the digest of a
  byte string and the UTF-8 codec. A fetch can raise after a part of its work was committed, so it
  returns its result beside the database.
\<close>

section \<open>The call budget\<close>

definition year_of_day :: "int \<Rightarrow> int" where
  "year_of_day z =
     (let z' = z + 719468; era = z' div 146097; doe = z' mod 146097;
          yoe = (doe - doe div 1460 + doe div 36524 - doe div 146096) div 365;
          doy = doe - (365 * yoe + yoe div 4 - yoe div 100);
          mp = (5 * doy + 2) div 153
      in yoe + era * 400 + (if mp < 10 then 0 else 1))"

definition two_digits :: "int \<Rightarrow> string" where
  "two_digits n = (if n < 10 then ''0'' else []) @ decimal (nat n)"

definition current_period_key :: "instant \<Rightarrow> string" where
  "current_period_key now =
     decimal (nat (year_of_day (now div days 1))) @ ''-'' @ two_digits (month_of now)"

definition usage_row :: "string \<Rightarrow> string \<Rightarrow> research_usage \<Rightarrow> bool" where
  "usage_row provider period u = (ru_provider u = provider \<and> ru_period_key u = period)"

definition reserve_call :: "string \<Rightarrow> int \<Rightarrow> instant \<Rightarrow> db \<Rightarrow> bool \<times> db" where
  "reserve_call provider limit now d =
     (let period = current_period_key now
      in case find (usage_row provider period) (usage d) of
           None \<Rightarrow>
             (True, d\<lparr>usage := usage d @
                [\<lparr>ru_provider = provider, ru_period_key = period, ru_calls_used = 1\<rparr>]\<rparr>)
         | Some u \<Rightarrow>
             if ru_calls_used u < limit
             then (True, d\<lparr>usage := map (\<lambda>r. if usage_row provider period r
                     then r\<lparr>ru_calls_used := ru_calls_used r + 1\<rparr> else r) (usage d)\<rparr>)
             else (False, d))"

section \<open>The guarded fetch\<close>

datatype http_reply =
    Response (reply_status: int) (reply_location: "string option") (reply_content: string)
      (reply_content_type: string)
  | TransportError string

record fetchlib =
  fl_net :: netlib
  fl_get :: "string \<Rightarrow> http_reply"
  fl_jina :: "string \<Rightarrow> string option"
  fl_sha256 :: "string \<Rightarrow> string"
  fl_encode :: "string \<Rightarrow> string"
  fl_decode :: "string \<Rightarrow> string"

record fetched_source =
  fs_url :: string
  fs_status_code :: int
  fs_content :: string
  fs_content_type :: string

definition MAX_BYTES :: nat where
  "MAX_BYTES = 2000000"

text \<open>\<open>httpx.HTTPError\<close> is one of the exceptions of the model.\<close>

definition finish_fetch :: "string \<Rightarrow> http_reply \<Rightarrow> fetched_source result" where
  "finish_fetch url reply =
     (case reply of
        TransportError e \<Rightarrow> Inl (HTTPError e)
      | Response st _ content ct \<Rightarrow>
          if length content > MAX_BYTES then Inl (ValueError ''Source response exceeds maximum size'')
          else Inr \<lparr>fs_url = url, fs_status_code = st, fs_content = content, fs_content_type = ct\<rparr>)"

definition fetch_source :: "fetchlib \<Rightarrow> string \<Rightarrow> string list \<Rightarrow> fetched_source result" where
  "fetch_source fl url approved_domains =
     bindE (validate_source_url (fl_net fl) url approved_domains) (\<lambda>normalized.
       case fl_get fl normalized of
         TransportError e \<Rightarrow> Inl (HTTPError e)
       | Response st location content ct \<Rightarrow>
           if 300 \<le> st \<and> st < 400 then
             if \<not> nonempty location then Inl (ValueError ''Redirect has no destination'')
             else bindE (validate_source_url (fl_net fl) (or_empty location) approved_domains)
                    (\<lambda>redirected. finish_fetch redirected (fl_get fl redirected))
           else finish_fetch normalized (Response st location content ct))"

section \<open>Fetching with a fallback, and persisting\<close>

definition try_jina_fallback ::
  "fetchlib \<Rightarrow> settings \<Rightarrow> instant \<Rightarrow> string \<Rightarrow> db \<Rightarrow> fetched_source option \<times> db" where
  "try_jina_fallback fl st now url d =
     (if \<not> is_set (jina_api_key st) then (None, d)
      else case reserve_call ''jina'' (jina_monthly_call_limit st) now d of
             (False, d1) \<Rightarrow> (None, d1)
           | (True, d1) \<Rightarrow>
               (case fl_jina fl url of
                  None \<Rightarrow> (None, d1)
                | Some text \<Rightarrow>
                    (Some \<lparr>fs_url = url, fs_status_code = 200, fs_content = fl_encode fl text,
                           fs_content_type = ''text/markdown''\<rparr>, d1)))"

definition fetch_with_jina_fallback ::
  "fetchlib \<Rightarrow> settings \<Rightarrow> instant \<Rightarrow> string \<Rightarrow> string list \<Rightarrow> db
   \<Rightarrow> (fetched_source \<times> string) result \<times> db" where
  "fetch_with_jina_fallback fl st now url approved_domains d =
     (case fetch_source fl url approved_domains of
        Inl (HTTPError e) \<Rightarrow>
          (case try_jina_fallback fl st now url d of
             (Some f, d1) \<Rightarrow> (Inr (f, ''jina-reader-v1''), d1)
           | (None, d1) \<Rightarrow> (Inl (HTTPError e), d1))
      | Inl e \<Rightarrow> (Inl e, d)
      | Inr fetched \<Rightarrow>
          if fs_status_code fetched \<ge> 400 then
            (case try_jina_fallback fl st now url d of
               (Some f, d1) \<Rightarrow> (Inr (f, ''jina-reader-v1''), d1)
             | (None, d1) \<Rightarrow> (Inr (fetched, ''raw-v1''), d1))
          else (Inr (fetched, ''raw-v1''), d))"

definition record_fetch :: "instant \<Rightarrow> string \<Rightarrow> fetched_source \<Rightarrow> source_page \<Rightarrow> source_page" where
  "record_fetch now content_hash f p =
     p\<lparr>pg_last_attempted_at := Some now,
       pg_last_successful_fetch_at :=
         (if 200 \<le> fs_status_code f \<and> fs_status_code f < 400 then Some now
          else pg_last_successful_fetch_at p),
       pg_http_status := Some (fs_status_code f),
       pg_final_url := Some (fs_url f),
       pg_normalized_content_hash := Some content_hash\<rparr>"

definition fetch_and_persist_page ::
  "fetchlib \<Rightarrow> settings \<Rightarrow> instant \<Rightarrow> uuid \<Rightarrow> string list option \<Rightarrow> db \<Rightarrow> uuid result \<times> db" where
  "fetch_and_persist_page fl st now page_id domains_override d =
     (case tget pg_id page_id (pages d) of
        None \<Rightarrow> (Inl (LookupError ''Source page not found''), d)
      | Some page \<Rightarrow>
          (case tget so_id (pg_source_id page) (sources d) of
             None \<Rightarrow> (Inl (ValueError ''Source is inactive or missing''), d)
           | Some source \<Rightarrow>
               if \<not> so_active source then (Inl (ValueError ''Source is inactive or missing''), d)
               else
                 let domains = (case domains_override of None \<Rightarrow> so_approved_domains source | Some ds \<Rightarrow> ds)
                 in case fetch_with_jina_fallback fl st now (pg_normalized_url page) domains d of
                      (Inl e, d1) \<Rightarrow> (Inl e, d1)
                    | (Inr (fetched, extractor), d1) \<Rightarrow>
                        let content_hash = fl_sha256 fl (fs_content fetched);
                            (i, d2) = new_uuid7 d1
                        in (Inr i, d2\<lparr>pages := tmod pg_id page_id (record_fetch now content_hash fetched) (pages d2),
                              snapshots := snapshots d2 @
                                [\<lparr>sn_id = i, sn_page_id = page_id, sn_fetched_at = now,
                                  sn_content_hash = content_hash, sn_extractor_version = extractor,
                                  sn_relevant_content =
                                    [(''content_type'', JStr (fs_content_type fetched)),
                                     (''byte_length'', JInt (int (length (fs_content fetched))))],
                                  sn_failure_classification = None\<rparr>]\<rparr>)))"

section \<open>Sources and providers\<close>

record source_request =
  sq_name :: string
  sq_source_type :: string
  sq_authority_grade :: string
  sq_approved_domains :: "string list"
  sq_active :: bool

text \<open>The request validators: every domain is normalised, a blank one refuses the request.\<close>

definition normalize_domains :: "string list \<Rightarrow> string list result" where
  "normalize_domains ds = mapE normalize_domain ds"

definition create_source :: "source_request \<Rightarrow> db \<Rightarrow> (uuid \<times> db) result" where
  "create_source rq d =
     bindE (normalize_domains (sq_approved_domains rq)) (\<lambda>ds.
       let (i, d1) = new_uuid7 d
       in Inr (i, d1\<lparr>sources := sources d1 @
            [\<lparr>so_id = i, so_name = sq_name rq, so_source_type = sq_source_type rq,
              so_authority_grade = sq_authority_grade rq, so_approved_domains = ds,
              so_active = sq_active rq, so_consecutive_harvest_failures = 0,
              so_last_harvest_failure_at = None\<rparr>]\<rparr>))"

definition update_source_domains :: "uuid \<Rightarrow> string list \<Rightarrow> db \<Rightarrow> db result" where
  "update_source_domains sid domains d =
     bindE (normalize_domains domains) (\<lambda>ds.
       case tget so_id sid (sources d) of
         None \<Rightarrow> Inl (LookupError ''Source not found'')
       | Some _ \<Rightarrow> Inr (d\<lparr>sources := tmod so_id sid (\<lambda>s. s\<lparr>so_approved_domains := ds\<rparr>) (sources d)\<rparr>))"

definition deactivate_source :: "uuid \<Rightarrow> db \<Rightarrow> db result" where
  "deactivate_source sid d =
     (case tget so_id sid (sources d) of
        None \<Rightarrow> Inl (LookupError ''Source not found'')
      | Some _ \<Rightarrow> Inr (d\<lparr>sources := tmod so_id sid (\<lambda>s. s\<lparr>so_active := False\<rparr>) (sources d)\<rparr>))"

definition create_provider ::
  "string \<Rightarrow> string list \<Rightarrow> string option \<Rightarrow> country_vocabulary option \<Rightarrow> db \<Rightarrow> (uuid \<times> db) result" where
  "create_provider name domains country vocab d =
     bindE (normalize_domains domains) (\<lambda>ds.
     bindE (case (country, vocab) of
              (Some c, Some v) \<Rightarrow> bindE (origin v c) (\<lambda>x. Inr (Some x))
            | _ \<Rightarrow> Inr None) (\<lambda>code.
       let (i, d1) = new_uuid7 d
       in Inr (i, d1\<lparr>providers := providers d1 @
            [\<lparr>pv_id = i, pv_name = name, pv_approved_domains = ds, pv_country = code\<rparr>]\<rparr>)))"

definition resolve_provider_from_verified_url :: "netlib \<Rightarrow> string \<Rightarrow> db \<Rightarrow> provider option result" where
  "resolve_provider_from_verified_url nl url d =
     bindE (urlsplit nl url) (\<lambda>parts.
       let hostname = or_empty (us_hostname parts)
       in if hostname = [] then Inr None
          else case filter (\<lambda>p. domain_allowed hostname (pv_approved_domains p)) (providers d) of
                 [p] \<Rightarrow> Inr (Some p)
               | _ \<Rightarrow> Inr None)"

section \<open>Properties\<close>

text \<open>What the policy lets the fetcher read: a URL of an approved domain all of whose addresses are public.\<close>

definition fetchable :: "netlib \<Rightarrow> string list \<Rightarrow> string \<Rightarrow> bool" where
  "fetchable nl ds u \<longleftrightarrow>
     (\<exists>parts. urlsplit nl u = Inr parts \<and> domain_allowed (or_empty (us_hostname parts)) ds
        \<and> is_public_host nl (or_empty (us_hostname parts)) = Inr True)"

lemma validate_fetchable: "validate_source_url nl url ds = Inr u \<Longrightarrow> fetchable nl ds u"
  by (auto simp: validate_source_url_def fetchable_def bindE_eq_Inr or_empty_def Let_def)

lemma validate_raises_value_error:
  assumes "validate_source_url nl url ds = Inl e"
  shows "\<exists>m. e = ValueError m"
proof -
  have split: "urlsplit nl s = Inl e \<Longrightarrow> \<exists>m. e = ValueError m" for s
    by (auto simp: urlsplit_def check_bracketed_def Let_def bad_ipv6_def bindE_eq_Inl
        split: prod.splits if_splits bool.splits)
  have port: "us_port p = Inl e \<Longrightarrow> \<exists>m. e = ValueError m" for p
    by (auto simp: us_port_def split: option.splits if_splits)
  have pub: "all_public nl as = Inl e \<Longrightarrow> \<exists>m. e = ValueError m" for as
    by (induction as) (auto simp: bindE_eq_Inl is_public_address_def split: option.splits if_splits)
  then have host: "is_public_host nl h = Inl e \<Longrightarrow> \<exists>m. e = ValueError m" for h
    by (auto simp: is_public_host_def split: option.splits if_splits)
  show ?thesis
    using assms split port host
    by (fastforce simp: validate_source_url_def canonicalize_url_def bindE_eq_Inl Let_def split: if_splits)
qed

lemma finish_fetch_url: "finish_fetch u r = Inr f \<Longrightarrow> fs_url f = u"
  by (auto simp: finish_fetch_def split: http_reply.splits if_splits)

lemma fetch_source_cases:
  assumes "fetch_source fl url ds = Inr f"
  obtains v u r where "validate_source_url (fl_net fl) v ds = Inr u" "finish_fetch u r = Inr f"
proof -
  obtain u where u: "validate_source_url (fl_net fl) url ds = Inr u"
    using assms by (auto simp: fetch_source_def bindE_eq_Inr)
  show thesis
  proof (cases "fl_get fl u")
    case (Response st loc c ct)
    then show thesis
      using assms u that by (auto simp: fetch_source_def bindE_eq_Inr split: if_splits)
  qed (use assms u in \<open>simp add: fetch_source_def\<close>)
qed

text \<open>
  C24. The fetcher reads nothing outside the allowlist, redirects included: what any other URL would
  answer cannot influence its result, what it returns comes from an approved public URL, and a
  request the policy refuses is refused as it is, without the Jina fallback and without spending budget.
\<close>

theorem fetch_stays_in_allowlist:
  assumes "\<forall>u. fetchable (fl_net fl) ds u \<longrightarrow> get' u = fl_get fl u"
  shows "fetch_source (fl\<lparr>fl_get := get'\<rparr>) url ds = fetch_source fl url ds
     \<and> (\<forall>f. fetch_source fl url ds = Inr f \<longrightarrow> fetchable (fl_net fl) ds (fs_url f))
     \<and> (\<forall>e. validate_source_url (fl_net fl) url ds = Inl e \<longrightarrow>
            fetch_with_jina_fallback fl st now url ds d = (Inl e, d))"
proof (intro conjI allI impI)
  show "fetch_source (fl\<lparr>fl_get := get'\<rparr>) url ds = fetch_source fl url ds"
    using assms validate_fetchable
    by (auto simp: fetch_source_def bindE_def split: sum.splits http_reply.splits)
  show "fetchable (fl_net fl) ds (fs_url f)" if "fetch_source fl url ds = Inr f" for f
    using that by (elim fetch_source_cases) (auto dest: finish_fetch_url validate_fetchable)
  fix e assume e: "validate_source_url (fl_net fl) url ds = Inl e"
  then obtain m where "e = ValueError m" using validate_raises_value_error by blast
  with e show "fetch_with_jina_fallback fl st now url ds d = (Inl e, d)"
    by (simp add: fetch_with_jina_fallback_def fetch_source_def)
qed

definition demo_fetch :: fetchlib where
  "demo_fetch =
     \<lparr>fl_net = demo_net, fl_get = (\<lambda>_. Response 200 None ''page'' ''text/html''), fl_jina = (\<lambda>_. None),
      fl_sha256 = (\<lambda>s. s), fl_encode = (\<lambda>s. s), fl_decode = (\<lambda>s. s)\<rparr>"

theorem fetch_stays_in_allowlist_witness:
  "fetch_source (demo_fetch\<lparr>fl_get := (\<lambda>u. if u = ''http://10.0.0.1/'' then TransportError [] else
       Response 200 None ''page'' ''text/html'')\<rparr>) ''https://demo.org/'' [''demo.org'']
   = fetch_source demo_fetch ''https://demo.org/'' [''demo.org'']"
proof -
  have "\<not> fetchable demo_net [''demo.org''] ''http://10.0.0.1/''"
    by (simp add: fetchable_def urlsplit_def split_scheme_def Let_def scheme_char_def is_alpha_def lower_def
        netloc_delim_def dropped_char_def us_hostname_def hostinfo_def rpartition_at_def
        domain_allowed_def or_empty_def lstrip_char_def ends_with_def)
  then show ?thesis
    by (intro fetch_stays_in_allowlist [THEN conjunct1]) (auto simp: demo_fetch_def)
qed

text \<open>The grants of a sequence of reservations.\<close>

fun reserve_all :: "string \<Rightarrow> int \<Rightarrow> instant list \<Rightarrow> db \<Rightarrow> bool list \<times> db" where
  "reserve_all provider limit [] d = ([], d)"
| "reserve_all provider limit (now # nows) d =
     (let (ok, d1) = reserve_call provider limit now d;
          (oks, d2) = reserve_all provider limit nows d1
      in (ok # oks, d2))"

definition used :: "string \<Rightarrow> string \<Rightarrow> db \<Rightarrow> int option" where
  "used provider period d = map_option ru_calls_used (find (usage_row provider period) (usage d))"

lemma find_map_same:
  "(\<And>x. P (f x) = P x) \<Longrightarrow> find P (map f xs) = map_option f (find P xs)"
  by (induction xs) auto

lemma find_append_one: "find P (xs @ [y]) = (case find P xs of None \<Rightarrow> if P y then Some y else None | Some x \<Rightarrow> Some x)"
  by (induction xs) auto

lemma find_SomeD: "find P xs = Some x \<Longrightarrow> P x"
  by (auto simp: find_Some_iff)

lemma reserve_call_used:
  "reserve_call p l now d = (ok, d') \<Longrightarrow>
     ok = (case used p (current_period_key now) d of None \<Rightarrow> True | Some k \<Rightarrow> k < l)
     \<and> used p (current_period_key now) d' =
         (case used p (current_period_key now) d of None \<Rightarrow> Some 1
          | Some k \<Rightarrow> Some (if k < l then k + 1 else k))"
proof -
  have u: "usage_row p k (if usage_row p k r then r\<lparr>ru_calls_used := c\<rparr> else r) = usage_row p k r" for k r c
    by (simp add: usage_row_def)
  assume "reserve_call p l now d = (ok, d')"
  then show ?thesis
    by (auto simp: reserve_call_def used_def Let_def find_map_same u find_append_one usage_row_def
        split: option.splits if_splits)
      (auto dest!: find_SomeD simp: usage_row_def)
qed

lemma reserve_all_used:
  assumes "\<forall>t \<in> set nows. current_period_key t = period" and "used p period d = Some k"
  shows "length (filter id (fst (reserve_all p l nows d))) = min (length nows) (nat (l - k))"
  using assms
proof (induction nows arbitrary: d k)
  case (Cons t ts)
  obtain ok d1 where r: "reserve_call p l t d = (ok, d1)" by fastforce
  from reserve_call_used [OF r] Cons.prems
  have ok: "ok = (k < l)" and u: "used p period d1 = Some (if k < l then k + 1 else k)" by auto
  show ?case
    using Cons.IH [OF _ u] Cons.prems(1) r ok
    by (auto simp: Let_def split_beta)
qed simp



end
