(* ===== verification/Countries.thy ===== *)
theory Countries
  imports Sources
begin

text \<open>
  The mirror of the platform's country catalogue: reading the catalogue page by page
  (\<open>src/src/app/infra/core_catalogue.py\<close>), the sync and the vocabulary search validates against
  (\<open>src/src/app/infra/countries.py\<close>). The HTTP exchange is a parameter.
\<close>

section \<open>Reading the catalogue\<close>

definition MAX_PAGES :: nat where
  "MAX_PAGES = 20"

record catalogue_entry =
  ce_code :: string
  ce_display_name :: string
  ce_core_id :: json

datatype catalogue_reply = CatalogueBody json | CatalogueHTTPError string | CatalogueBadBody string

fun read_row :: "stdlib \<Rightarrow> json \<Rightarrow> catalogue_entry option result" where
  "read_row std (JObj row) =
     (if truthy (dget row ''code'') \<and> truthy (dget row ''display_name'')
      then Inr (Some \<lparr>ce_code = py_str std (dget row ''code''),
                      ce_display_name = py_str std (dget row ''display_name''), ce_core_id = dget row ''id''\<rparr>)
      else Inr None)"
| "read_row std _ = Inl AttributeError"

fun read_rows :: "stdlib \<Rightarrow> json list \<Rightarrow> catalogue_entry list result" where
  "read_rows std [] = Inr []"
| "read_rows std (row # rows) =
     bindE (read_row std row) (\<lambda>e. bindE (read_rows std rows) (\<lambda>es.
       Inr (case e of None \<Rightarrow> es | Some x \<Rightarrow> x # es)))"

definition read_page :: "stdlib \<Rightarrow> catalogue_reply \<Rightarrow> (catalogue_entry list \<times> json) result" where
  "read_page std reply =
     (case reply of
        CatalogueHTTPError e \<Rightarrow> Inl (HTTPError e)
      | CatalogueBadBody e \<Rightarrow> Inl (ValueError e)
      | CatalogueBody (JObj body) \<Rightarrow>
          (case dget body ''data'' of
             JList rows \<Rightarrow> bindE (read_rows std rows) (\<lambda>es. Inr (es, dget body ''next_cursor''))
           | _ \<Rightarrow> Inl (ValueError ''Core catalogue returned an unexpected envelope''))
      | CatalogueBody _ \<Rightarrow> Inl (ValueError ''Core catalogue returned an unexpected envelope''))"

fun list_pages ::
  "stdlib \<Rightarrow> (json \<Rightarrow> catalogue_reply) \<Rightarrow> nat \<Rightarrow> json \<Rightarrow> catalogue_entry list \<Rightarrow> catalogue_entry list result" where
  "list_pages std get 0 cursor acc = Inl (ValueError ''Core catalogue did not finish paging'')"
| "list_pages std get (Suc n) cursor acc =
     bindE (read_page std (get (if truthy cursor then cursor else JNull))) (\<lambda>(es, next).
       if truthy next then list_pages std get n next (acc @ es) else Inr (acc @ es))"

definition list_catalogue :: "stdlib \<Rightarrow> (json \<Rightarrow> catalogue_reply) \<Rightarrow> catalogue_entry list result" where
  "list_catalogue std get = list_pages std get MAX_PAGES JNull []"

section \<open>The sync\<close>

text \<open>Core's own row id goes into a nullable uuid column, the code into two characters.\<close>

definition core_id_of :: "json \<Rightarrow> uuid option result" where
  "core_id_of v =
     (case v of
        JNull \<Rightarrow> Inr None
      | JStr s \<Rightarrow> (case uuid_parse s of Inr u \<Rightarrow> Inr (Some u) | Inl _ \<Rightarrow> Inl DataError)
      | _ \<Rightarrow> Inl DataError)"

definition refresh_country :: "instant \<Rightarrow> catalogue_entry \<Rightarrow> uuid option \<Rightarrow> string \<Rightarrow> country \<Rightarrow> country" where
  "refresh_country now e core code c =
     (if co_code c = code
      then c\<lparr>co_display_name := ce_display_name e, co_core_id := core, co_synced_at := Some now,
             co_is_supported_destination := (co_is_supported_destination c \<or> code \<in> SUPPORTED_DESTINATIONS)\<rparr>
      else c)"

definition put_country :: "instant \<Rightarrow> catalogue_entry \<Rightarrow> uuid option \<Rightarrow> string \<Rightarrow> db \<Rightarrow> db" where
  "put_country now e core code d =
     (let (i, d1) = new_uuid7 d
      in if code \<in> co_code ` set (countries d)
         then d1\<lparr>countries := map (refresh_country now e core code) (countries d1)\<rparr>
         else d1\<lparr>countries := countries d1 @
                [\<lparr>co_id = i, co_code = code, co_display_name = ce_display_name e, co_core_id = core,
                  co_is_supported_destination = (code \<in> SUPPORTED_DESTINATIONS),
                  co_synced_at = Some now\<rparr>]\<rparr>)"

definition country_code :: "catalogue_entry \<Rightarrow> string" where
  "country_code e = upper (strip (ce_code e))"

definition upsert :: "instant \<Rightarrow> catalogue_entry \<Rightarrow> db \<Rightarrow> db result" where
  "upsert now e d =
     bindE (core_id_of (ce_core_id e)) (\<lambda>core.
       if length (country_code e) > 2 then Inl DataError
       else Inr (put_country now e core (country_code e) d))"

fun upsert_all :: "instant \<Rightarrow> catalogue_entry list \<Rightarrow> db \<Rightarrow> db result" where
  "upsert_all now [] d = Inr d"
| "upsert_all now (e # es) d = bindE (upsert now e d) (upsert_all now es)"

definition sync_countries ::
  "stdlib \<Rightarrow> (json \<Rightarrow> catalogue_reply) \<Rightarrow> instant \<Rightarrow> db \<Rightarrow> (nat \<times> db) result" where
  "sync_countries std get now d =
     bindE (list_catalogue std get) (\<lambda>entries.
       if entries = []
       then Inl (ValueError ''Core returned no countries; refusing to treat that as a valid sync'')
       else bindE (upsert_all now entries d) (\<lambda>d'. Inr (length entries, d')))"

section \<open>The vocabulary\<close>

text \<open>Rows in the order of their names; a dictionary keeps the last row of a code (codes are unique).\<close>

definition load_vocabulary :: "db \<Rightarrow> country_vocabulary" where
  "load_vocabulary d =
     (let rows = sort_key co_display_name (countries d);
          supported = {co_code c |c. c \<in> set rows \<and> co_is_supported_destination c}
      in if rows = [] then default_vocabulary
         else \<lparr>names = map (\<lambda>c. (co_code c, co_display_name c)) rows,
               destinations = (if supported = {} then SUPPORTED_DESTINATIONS else supported)\<rparr>)"

section \<open>Lemmas\<close>

definition covers :: "country list \<Rightarrow> country list \<Rightarrow> bool" where
  "covers cs cs' =
     (\<forall>c \<in> set cs. \<exists>c' \<in> set cs'. co_id c' = co_id c \<and> co_code c' = co_code c
        \<and> (co_is_supported_destination c \<longrightarrow> co_is_supported_destination c'))"

lemma covers_refl [simp]: "covers cs cs"
  by (auto simp: covers_def)

lemma covers_trans: "covers a b \<Longrightarrow> covers b c \<Longrightarrow> covers a c"
  unfolding covers_def by metis

lemma refresh_country_keeps:
  "co_id (refresh_country now e core code c) = co_id c" "co_code (refresh_country now e core code c) = co_code c"
  "co_is_supported_destination c \<Longrightarrow> co_is_supported_destination (refresh_country now e core code c)"
  by (simp_all add: refresh_country_def)

lemma put_country_covers: "covers (countries d) (countries (put_country now e core code d))"
  by (auto simp: put_country_def new_uuid7_def covers_def Let_def refresh_country_keeps intro!: bexI)

lemma put_country_codes:
  "distinct (map co_code (countries d)) \<Longrightarrow>
   distinct (map co_code (countries (put_country now e core code d)))
   \<and> co_code ` set (countries (put_country now e core code d)) = insert code (co_code ` set (countries d))"
  by (auto simp: put_country_def new_uuid7_def Let_def comp_def refresh_country_keeps image_image)

text \<open>\<open>backed codes d\<close>: every row of these codes that the program's own list names is supported.\<close>

definition backed :: "string set \<Rightarrow> db \<Rightarrow> bool" where
  "backed codes d =
     (\<forall>c \<in> set (countries d). co_code c \<in> codes \<and> co_code c \<in> SUPPORTED_DESTINATIONS
        \<longrightarrow> co_is_supported_destination c)"

lemma put_country_backed:
  assumes "backed codes d"
  shows "backed (insert code codes) (put_country now e core code d)"
proof (cases "code \<in> co_code ` set (countries d)")
  case True
  with assms show ?thesis
    by (auto simp: backed_def put_country_def new_uuid7_def Let_def refresh_country_def)
next
  case False
  with assms show ?thesis
    by (auto simp: backed_def put_country_def new_uuid7_def Let_def)
qed

lemma upsert_all_keeps:
  assumes "upsert_all now es d = Inr d'" "distinct (map co_code (countries d))" "backed codes d"
  shows "covers (countries d) (countries d') \<and> distinct (map co_code (countries d'))
     \<and> co_code ` set (countries d') = country_code ` set es \<union> co_code ` set (countries d)
     \<and> backed (country_code ` set es \<union> codes) d'"
  using assms
proof (induction es arbitrary: d codes)
  case (Cons e es)
  from Cons.prems(1) obtain core where
    rest: "upsert_all now es (put_country now e core (country_code e) d) = Inr d'"
    by (auto simp: upsert_def bindE_eq_Inr split: if_splits)
  let ?d = "put_country now e core (country_code e) d"
  have codes: "distinct (map co_code (countries ?d))"
    "co_code ` set (countries ?d) = insert (country_code e) (co_code ` set (countries d))"
    using put_country_codes [OF Cons.prems(2)] by blast+
  from Cons.IH [OF rest codes(1) put_country_backed [OF Cons.prems(3)]] codes(2)
    put_country_covers [of d now e core "country_code e"]
  show ?case by (auto intro: covers_trans)
qed simp

section \<open>Properties\<close>

text \<open>
  A sync only ever adds coverage: no country disappears or changes its code, no destination loses
  its support, codes stay unique, every country Core lists is there afterwards, and each listed one that
  is on the program's own list is supported from then on. An empty or unfinished catalogue changes
  nothing, because it is refused.
\<close>

theorem sync_only_adds_coverage:
  assumes "sync_countries std get now d = Inr (n, d')" and "distinct (map co_code (countries d))"
  shows "covers (countries d) (countries d') \<and> distinct (map co_code (countries d'))
    \<and> (\<exists>entries. list_catalogue std get = Inr entries \<and> n = length entries \<and> n > 0
        \<and> (\<forall>e \<in> set entries. \<exists>c \<in> set (countries d'). co_code c = upper (strip (ce_code e))
             \<and> (co_code c \<in> SUPPORTED_DESTINATIONS \<longrightarrow> co_is_supported_destination c)))"
proof -
  from assms(1) obtain entries where e: "list_catalogue std get = Inr entries" "entries \<noteq> []"
    "n = length entries" "upsert_all now entries d = Inr d'"
    by (auto simp: sync_countries_def bindE_eq_Inr split: if_splits)
  have "backed {} d" by (simp add: backed_def)
  from upsert_all_keeps [OF e(4) assms(2) this] have
    u: "covers (countries d) (countries d')" "distinct (map co_code (countries d'))"
    "country_code ` set entries \<subseteq> co_code ` set (countries d')"
    "backed (country_code ` set entries) d'" by auto
  have "\<exists>c \<in> set (countries d'). co_code c = upper (strip (ce_code x))
       \<and> (co_code c \<in> SUPPORTED_DESTINATIONS \<longrightarrow> co_is_supported_destination c)" if "x \<in> set entries" for x
  proof -
    have "country_code x \<in> co_code ` set (countries d')" using u(3) that by blast
    then obtain c where c: "c \<in> set (countries d')" "co_code c = country_code x" by auto
    with u(4) that have "co_code c \<in> SUPPORTED_DESTINATIONS \<longrightarrow> co_is_supported_destination c"
      unfolding backed_def by blast
    with c show ?thesis by (auto simp: country_code_def)
  qed
  with u e show ?thesis by auto
qed

definition demo_catalogue_page :: "json \<Rightarrow> catalogue_reply" where
  "demo_catalogue_page _ =
     CatalogueBody (JObj [(''data'', JList [JObj [(''code'', JStr ''FR''), (''display_name'', JStr ''France'')]]),
                          (''next_cursor'', JNull)])"

lemma demo_code: "upper (strip ''FR'') = ''FR''"
  by code_simp

lemma demo_sync:
  "\<exists>d'. sync_countries demo_std demo_catalogue_page 5 empty_db = Inr (1, d')"
  by (simp add: sync_countries_def list_catalogue_def MAX_PAGES_def demo_catalogue_page_def read_page_def
      numeral_eq_Suc upsert_def core_id_of_def country_code_def demo_code)

theorem sync_only_adds_coverage_witness:
  "\<exists>d'. sync_countries demo_std demo_catalogue_page 5 empty_db = Inr (1, d')
     \<and> distinct (map co_code (countries d'))"
proof -
  from demo_sync obtain d' where run: "sync_countries demo_std demo_catalogue_page 5 empty_db = Inr (1, d')" by blast
  from sync_only_adds_coverage [OF run] run show ?thesis by (simp add: empty_db_def)
qed

end
