(* ===== verification/Cursors.thy ===== *)
theory Cursors
  imports Facts
begin

text \<open>
  Pagination cursors (\<open>src/src/app/core/cursors.py\<close>): a payload of four fields, signed, in base64.
  What the module takes from the standard library is the record \<open>codec\<close>: HMAC-SHA256 in hex, the
  URL-safe base64 of a text, \<open>json.dumps\<close> with \<open>json.loads\<close>, and SHA-256 in hex; a \<open>None\<close> of the
  decoders is the \<open>ValueError\<close> they raise. \<open>codec_laws\<close> collects their documented behaviour.
\<close>

section \<open>The codec\<close>

record codec =
  co_hmac :: "string \<Rightarrow> string \<Rightarrow> string"
  co_b64encode :: "string \<Rightarrow> string"
  co_b64decode :: "string \<Rightarrow> string option"
  co_dumps :: "dict \<Rightarrow> string"
  co_loads :: "string \<Rightarrow> json option"
  co_sha256 :: "string \<Rightarrow> string"

record cursor_state =
  cs_offset :: int
  cs_search_id :: uuid

definition cursor_sign :: "codec \<Rightarrow> string \<Rightarrow> string \<Rightarrow> string" where
  "cursor_sign cx value' secret = co_hmac cx secret value'"

definition cursor_payload :: "int \<Rightarrow> string \<Rightarrow> uuid \<Rightarrow> int \<Rightarrow> dict" where
  "cursor_payload offset filter_digest search_id limit =
     [(''offset'', JInt offset), (''filter_digest'', JStr filter_digest),
      (''search_id'', JStr (uuid_str search_id)), (''limit'', JInt limit)]"

definition encode_cursor :: "codec \<Rightarrow> int \<Rightarrow> string \<Rightarrow> uuid \<Rightarrow> int \<Rightarrow> string \<Rightarrow> string" where
  "encode_cursor cx offset filter_digest search_id limit secret =
     (let payload = co_dumps cx (cursor_payload offset filter_digest search_id limit)
      in co_b64encode cx (payload @ ''.'' @ cursor_sign cx payload secret))"

section \<open>Decoding\<close>

text \<open>\<open>token.rsplit(".", 1)\<close> unpacked into two names: a \<open>ValueError\<close> without a dot.\<close>

definition rsplit_dot :: "string \<Rightarrow> (string \<times> string) option" where
  "rsplit_dot s =
     (case dropWhile (\<lambda>c. c \<noteq> CHR ''.'') (rev s) of
        [] \<Rightarrow> None
      | _ # r \<Rightarrow> Some (rev r, rev (takeWhile (\<lambda>c. c \<noteq> CHR ''.'') (rev s))))"

text \<open>\<open>data[key]\<close> on a decoded value, \<open>value == n\<close> and \<open>isinstance(value, int)\<close>: a \<open>bool\<close> is an int.\<close>

definition item :: "json \<Rightarrow> string \<Rightarrow> json result" where
  "item data key =
     (case data of
        JObj d \<Rightarrow> (case map_of d key of None \<Rightarrow> Inl KeyError | Some v \<Rightarrow> Inr v)
      | _ \<Rightarrow> Inl TypeError)"

fun int_value :: "json \<Rightarrow> int option" where
  "int_value (JInt n) = Some n"
| "int_value (JBool b) = Some (of_bool b)"
| "int_value _ = None"

fun equals_int :: "json \<Rightarrow> int \<Rightarrow> bool" where
  "equals_int (JFloat r) n = (r = of_int n)"
| "equals_int v n = (int_value v = Some n)"

definition offset_value :: "json \<Rightarrow> int result" where
  "offset_value v =
     (case int_value v of
        None \<Rightarrow> Inl (ValueError [])
      | Some n \<Rightarrow> if n < 0 then Inl (ValueError []) else Inr n)"

definition bad_cursor :: exn where
  "bad_cursor = ValueError ''Invalid or expired search cursor''"

text \<open>The body of the \<open>try\<close> block: the checks on the loaded document, after the signature.\<close>

definition read_cursor :: "stdlib \<Rightarrow> json \<Rightarrow> string \<Rightarrow> int \<Rightarrow> cursor_state result" where
  "read_cursor std data filter_digest limit =
     bindE (item data ''filter_digest'') (\<lambda>fd.
     bindE (guardE (fd = JStr filter_digest) (ValueError [])) (\<lambda>_.
     bindE (item data ''limit'') (\<lambda>lm.
     bindE (guardE (equals_int lm limit) (ValueError [])) (\<lambda>_.
     bindE (item data ''offset'') (\<lambda>off.
     bindE (offset_value off) (\<lambda>n.
     bindE (item data ''search_id'') (\<lambda>sid.
     bindE (uuid_parse (py_str std sid)) (\<lambda>search_id.
     Inr \<lparr>cs_offset = n, cs_search_id = search_id\<rparr>))))))))"

definition redeem_cursor ::
  "stdlib \<Rightarrow> codec \<Rightarrow> string \<Rightarrow> string \<Rightarrow> int \<Rightarrow> string \<Rightarrow> cursor_state result" where
  "redeem_cursor std cx cursor filter_digest limit secret =
     (case Option.bind (co_b64decode cx cursor) rsplit_dot of
        None \<Rightarrow> Inl (ValueError [])
      | Some (payload, signature) \<Rightarrow>
          if signature \<noteq> cursor_sign cx payload secret then Inl (ValueError [])
          else (case co_loads cx payload of
                  None \<Rightarrow> Inl (ValueError [])
                | Some data \<Rightarrow> read_cursor std data filter_digest limit))"

text \<open>The \<open>except\<close> clause: the classes it names become one message, any other would escape.\<close>

definition decode_cursor ::
  "stdlib \<Rightarrow> codec \<Rightarrow> string \<Rightarrow> string \<Rightarrow> int \<Rightarrow> string \<Rightarrow> cursor_state result" where
  "decode_cursor std cx cursor filter_digest limit secret =
     (case redeem_cursor std cx cursor filter_digest limit secret of
        Inr s \<Rightarrow> Inr s
      | Inl (ValueError _) \<Rightarrow> Inl bad_cursor
      | Inl KeyError \<Rightarrow> Inl bad_cursor
      | Inl TypeError \<Rightarrow> Inl bad_cursor
      | Inl e \<Rightarrow> Inl e)"

section \<open>Lemmas\<close>

text \<open>
  The documented behaviour of the codec: base64 of a text decodes to the text (and is not
  empty unless the text is), a dumped payload
  loads to an equal document, and a hex digest has no dot in it.
\<close>

definition codec_laws :: "codec \<Rightarrow> bool" where
  "codec_laws cx \<longleftrightarrow>
     (\<forall>s. co_b64decode cx (co_b64encode cx s) = Some s \<and> (s \<noteq> [] \<longrightarrow> co_b64encode cx s \<noteq> []))
     \<and> (\<forall>n fd sid lm. co_loads cx (co_dumps cx (cursor_payload n fd sid lm))
                        = Some (JObj (cursor_payload n fd sid lm)))
     \<and> (\<forall>k v. CHR ''.'' \<notin> set (co_hmac cx k v))"

lemma rsplit_dot_join: "CHR ''.'' \<notin> set sig \<Longrightarrow> rsplit_dot (p @ ''.'' @ sig) = Some (p, sig)"
proof -
  let ?P = "\<lambda>c. c \<noteq> CHR ''.''"
  assume "CHR ''.'' \<notin> set sig"
  then have all: "c \<in> set (rev sig) \<Longrightarrow> ?P c" for c by auto
  have "dropWhile ?P (rev sig @ CHR ''.'' # rev p) = CHR ''.'' # rev p"
    by (subst dropWhile_append2 [OF all]) simp_all
  moreover have "takeWhile ?P (rev sig @ CHR ''.'' # rev p) = rev sig"
    by (subst takeWhile_append2 [OF all]) simp_all
  ultimately show ?thesis by (simp add: rsplit_dot_def)
qed

lemma rsplit_dot_Some:
  assumes "rsplit_dot s = Some (p, sig)"
  shows "s = p @ ''.'' @ sig"
proof -
  let ?P = "\<lambda>c. c \<noteq> CHR ''.''"
  from assms obtain c r where r: "dropWhile ?P (rev s) = c # r" "p = rev r" "sig = rev (takeWhile ?P (rev s))"
    by (auto simp: rsplit_dot_def split: list.split_asm)
  with hd_dropWhile [of ?P "rev s"] have c: "c = CHR ''.''" by auto
  have "rev s = rev sig @ c # rev p" using takeWhile_dropWhile_id [of ?P "rev s"] r by simp
  then have "rev (rev s) = rev (rev sig @ c # rev p)" by (rule arg_cong)
  with c show ?thesis by simp
qed

fun caught :: "exn \<Rightarrow> bool" where
  "caught (ValueError _) = True"
| "caught KeyError = True"
| "caught TypeError = True"
| "caught _ = False"

lemma item_errors: "item data k = Inl e \<Longrightarrow> caught e"
  by (auto simp: item_def split: json.splits option.splits)

lemma uuid_parse_errors: "uuid_parse s = Inl e \<Longrightarrow> caught e"
  by (auto simp: uuid_parse_def Let_def split: if_splits option.splits)

lemma offset_errors: "offset_value v = Inl e \<Longrightarrow> caught e"
  by (auto simp: offset_value_def split: option.split_asm if_split_asm)

lemma read_errors: "read_cursor std data fd lm = Inl e \<Longrightarrow> caught e"
  unfolding read_cursor_def bindE_eq_Inl
  by (auto dest: item_errors uuid_parse_errors offset_errors)

lemma read_offset: "read_cursor std data fd lm = Inr s \<Longrightarrow> 0 \<le> cs_offset s"
  by (auto simp: read_cursor_def offset_value_def bindE_eq_Inr split: option.split_asm if_split_asm)

lemma redeem_errors: "redeem_cursor std cx c fd lm secret = Inl e \<Longrightarrow> caught e"
  by (auto simp: redeem_cursor_def split: option.split_asm if_split_asm intro: read_errors)

lemma redeem_Inr:
  assumes "redeem_cursor std cx c fd lm secret = Inr s"
  shows "0 \<le> cs_offset s" and "\<exists>p. co_b64decode cx c = Some (p @ ''.'' @ co_hmac cx secret p)"
  using assms
  by (auto simp: redeem_cursor_def cursor_sign_def bind_eq_Some_conv
      split: option.split_asm if_split_asm dest!: rsplit_dot_Some intro: read_offset)

lemma decode_errors: "decode_cursor std cx c fd lm secret = Inl e \<Longrightarrow> e = bad_cursor"
  using redeem_errors [of std cx c fd lm secret]
  by (auto simp: decode_cursor_def split: sum.splits exn.splits)

lemma decode_Inr: "decode_cursor std cx c fd lm secret = Inr s \<longleftrightarrow> redeem_cursor std cx c fd lm secret = Inr s"
  by (auto simp: decode_cursor_def split: sum.splits exn.splits)

lemma redeem_minted:
  assumes "codec_laws cx" and "0 \<le> n" and "sid < 16 ^ 32"
  shows "redeem_cursor std cx (encode_cursor cx n fd sid lm secret) fd' lm' secret =
     (if fd' = fd \<and> lm' = lm then Inr \<lparr>cs_offset = n, cs_search_id = sid\<rparr> else Inl (ValueError []))"
proof -
  from assms(1) have "co_b64decode cx (co_b64encode cx s) = Some s"
    and "co_loads cx (co_dumps cx (cursor_payload n fd sid lm)) = Some (JObj (cursor_payload n fd sid lm))"
    and "CHR ''.'' \<notin> set (co_hmac cx k v)" for s k v
    by (simp_all add: codec_laws_def)
  moreover note uuid_roundtrip [OF assms(3)]
  ultimately show ?thesis
    using assms(2) rsplit_dot_join
    by (auto simp: redeem_cursor_def read_cursor_def encode_cursor_def cursor_sign_def Let_def
        cursor_payload_def item_def guardE_def offset_value_def)
qed

lemma encode_cursor_nonempty: "codec_laws cx \<Longrightarrow> encode_cursor cx n fd sid lm secret \<noteq> []"
  by (simp add: codec_laws_def encode_cursor_def Let_def)

lemma decode_minted:
  "codec_laws cx \<Longrightarrow> 0 \<le> n \<Longrightarrow> sid < 16 ^ 32 \<Longrightarrow>
     decode_cursor std cx (encode_cursor cx n fd sid lm secret) fd lm secret
       = Inr \<lparr>cs_offset = n, cs_search_id = sid\<rparr>"
  by (simp add: decode_Inr redeem_minted)

section \<open>Properties\<close>

text \<open>C35.
  A cursor the service minted is redeemed, under the same signing secret, exactly by the query and
  page size it was minted for, and gives back its offset and its search; with another filter digest
  or another limit it is refused with the one message every refusal has.
\<close>

theorem minted_cursor_is_bound_to_its_search:
  assumes "codec_laws cx" and "0 \<le> offset" and "search_id < 16 ^ 32"
  shows "decode_cursor std cx (encode_cursor cx offset fd search_id lm secret) fd' lm' secret =
     (if fd' = fd \<and> lm' = lm then Inr \<lparr>cs_offset = offset, cs_search_id = search_id\<rparr>
      else Inl bad_cursor)"
  using redeem_minted [OF assms] by (simp add: decode_cursor_def)

text \<open>C2.
  Whatever text a caller sends as a cursor: if it is accepted it carries a payload signed with the
  service's secret and a non-negative offset, and if it is not, the answer is the same
  \<open>ValueError\<close>, however it failed.
\<close>

theorem cursor_is_signed_or_uniformly_refused:
  "case decode_cursor std cx cursor fd lm secret of
     Inr s \<Rightarrow> 0 \<le> cs_offset s
        \<and> (\<exists>payload. co_b64decode cx cursor = Some (payload @ ''.'' @ co_hmac cx secret payload))
   | Inl e \<Rightarrow> e = bad_cursor"
proof (cases "decode_cursor std cx cursor fd lm secret")
  case (Inr s)
  then have "redeem_cursor std cx cursor fd lm secret = Inr s" by (simp add: decode_Inr)
  with redeem_Inr [OF this] Inr show ?thesis by simp
qed (simp add: decode_errors)

section \<open>A concrete codec\<close>

text \<open>Numbers in unary after a sign, a fixed-width id, and the digest at the end.\<close>

definition demo_unary :: "int \<Rightarrow> string" where
  "demo_unary n = (if 0 \<le> n then CHR ''+'' else CHR ''-'') # replicate (nat \<bar>n\<bar>) (CHR ''1'')"

definition demo_read :: "string \<Rightarrow> int \<times> string" where
  "demo_read s =
     (demo_sign (hd s) * int (length (takeWhile (\<lambda>c. c = CHR ''1'') (tl s))),
      dropWhile (\<lambda>c. c = CHR ''1'') (tl s))"

fun json_int :: "json \<Rightarrow> int" where
  "json_int (JInt n) = n"
| "json_int _ = 0"

fun json_text :: "json \<Rightarrow> string" where
  "json_text (JStr s) = s"
| "json_text _ = []"

definition demo_dumps :: "dict \<Rightarrow> string" where
  "demo_dumps d =
     demo_unary (json_int (dget d ''offset'')) @ demo_unary (json_int (dget d ''limit'')) @ ''/''
     @ json_text (dget d ''search_id'') @ json_text (dget d ''filter_digest'')"

definition demo_loads :: "string \<Rightarrow> json option" where
  "demo_loads s =
     (let (n, r) = demo_read s; (lm, q) = demo_read r
      in Some (JObj [(''offset'', JInt n), (''filter_digest'', JStr (drop 36 (tl q))),
                     (''search_id'', JStr (take 36 (tl q))), (''limit'', JInt lm)]))"

definition demo_codec :: codec where
  "demo_codec =
     \<lparr>co_hmac = (\<lambda>k v. map (\<lambda>c. if c = CHR ''.'' then CHR ''0'' else c) (k @ v)),
      co_b64encode = (\<lambda>s. s), co_b64decode = Some, co_dumps = demo_dumps, co_loads = demo_loads,
      co_sha256 = (\<lambda>s. s)\<rparr>"

lemma demo_read_unary: "c \<noteq> CHR ''1'' \<Longrightarrow> demo_read (demo_unary n @ c # r) = (n, c # r)"
proof -
  assume c: "c \<noteq> CHR ''1''"
  have "takeWhile (\<lambda>c. c = CHR ''1'') (replicate k (CHR ''1'') @ c # r) = replicate k (CHR ''1'')"
    and "dropWhile (\<lambda>c. c = CHR ''1'') (replicate k (CHR ''1'') @ c # r) = c # r" for k
    using c by (induction k) auto
  then show ?thesis by (simp add: demo_read_def demo_unary_def demo_sign_def)
qed

lemma length_uuid_str [simp]: "length (uuid_str u) = 36"
  by (simp add: uuid_str_def Let_def)

lemma demo_unary_start: "\<exists>c r. demo_unary n = c # r \<and> c \<noteq> CHR ''1''"
  by (simp add: demo_unary_def)

lemma demo_loads_dumps: "demo_loads (demo_dumps (cursor_payload n fd sid lm)) = Some (JObj (cursor_payload n fd sid lm))"
proof -
  obtain c r where lm: "demo_unary lm = c # r" and c: "c \<noteq> CHR ''1''" using demo_unary_start by blast
  have "demo_read (demo_unary n @ demo_unary lm @ s) = (n, demo_unary lm @ s)" for s
    using demo_read_unary [OF c, of n "r @ s"] by (simp add: lm)
  moreover have "demo_read (demo_unary lm @ CHR ''/'' # s) = (lm, CHR ''/'' # s)" for s
    by (rule demo_read_unary) simp
  ultimately show ?thesis by (simp add: demo_loads_def demo_dumps_def cursor_payload_def)
qed

lemma demo_codec_laws: "codec_laws demo_codec"
  by (auto simp: codec_laws_def demo_codec_def demo_loads_dumps)

theorem minted_cursor_is_bound_to_its_search_witness:
  "decode_cursor demo_std demo_codec (encode_cursor demo_codec 20 ''f'' 7 20 ''k'') ''f'' 20 ''k''
     = Inr \<lparr>cs_offset = 20, cs_search_id = 7\<rparr>
   \<and> decode_cursor demo_std demo_codec (encode_cursor demo_codec 20 ''f'' 7 20 ''k'') ''f'' 10 ''k''
     = Inl bad_cursor"
  using minted_cursor_is_bound_to_its_search [OF demo_codec_laws, of 20 7] by simp

end
