(* ===== verification/Sessions.thy ===== *)
theory Sessions
  imports Cursors
begin

text \<open>
  Visitors and what a search showed them: \<open>src/src/app/infra/sessions.py\<close> (the session behind a
  bearer cookie, the stored row of one response page) and \<open>src/src/app/domain/snapshots.py\<close> (the
  stored copy of a page, by an allowlist of keys). \<open>secrets.token_urlsafe(32)\<close> is the argument
  \<open>token\<close>.
\<close>

section \<open>Sessions\<close>

definition SESSION_TTL :: timedelta where "SESSION_TTL = days 30"

definition get_existing_session :: "instant \<Rightarrow> string option \<Rightarrow> db \<Rightarrow> anonymous_session option" where
  "get_existing_session now cookie d =
     (if \<not> (case cookie of None \<Rightarrow> False | Some c \<Rightarrow> c \<noteq> []) then None
      else find (\<lambda>s. Some (se_pseudonymous_id s) = cookie \<and> se_expires_at s > now) (sessions d))"

definition new_session :: "instant \<Rightarrow> string \<Rightarrow> uuid \<Rightarrow> anonymous_session" where
  "new_session now token i =
     \<lparr>se_id = i, se_pseudonymous_id = token, se_consent_state = ''unknown'',
      se_expires_at = now + SESSION_TTL\<rparr>"

text \<open>The second component is the cookie the response sets, if it sets one.\<close>

definition get_or_create_session ::
  "instant \<Rightarrow> string \<Rightarrow> string option \<Rightarrow> db \<Rightarrow> (anonymous_session \<times> string option \<times> db) result" where
  "get_or_create_session now token cookie d =
     (case get_existing_session now cookie d of
        Some s \<Rightarrow> Inr (s, None, d)
      | None \<Rightarrow>
          let (i, d1) = new_uuid7 d; s = new_session now token i
          in if \<exists>s' \<in> set (sessions d1). se_pseudonymous_id s' = token then Inl IntegrityError
             else Inr (s, Some token, d1\<lparr>sessions := sessions d1 @ [s]\<rparr>))"

section \<open>Snapshots\<close>

text \<open>The values a result object holds before they are stored.\<close>

datatype pyval =
    PNone
  | PBool bool
  | PInt int
  | PFloat rat
  | PStr string
  | PDatetime datetime
  | PUuid uuid
  | PList "pyval list"
  | PDict "(string \<times> pyval) list"

type_synonym pydict = "(string \<times> pyval) list"

definition SNAPSHOT_SCHEMA_VERSION :: string where
  "SNAPSHOT_SCHEMA_VERSION = ''snapshot-v3''"

definition ALLOWED_RESULT_KEYS :: "string list" where
  "ALLOWED_RESULT_KEYS =
     [''scholarship_id'', ''cycle_id'', ''name'', ''provider'', ''award_type'', ''status'',
      ''status_detail'', ''fit'', ''official_url'', ''last_verified_at'', ''eligibility_note'',
      ''field_names'', ''fields'', ''programme_names'', ''destinations'', ''deadline_at'',
      ''deadline_precision'', ''degree_levels'', ''expected_reopen_month'', ''funding_type'',
      ''provider_country'', ''caveats'']"

fun plain :: "stdlib \<Rightarrow> pyval \<Rightarrow> json" where
  "plain std PNone = JNull"
| "plain std (PBool b) = JBool b"
| "plain std (PInt n) = JInt n"
| "plain std (PFloat r) = JFloat r"
| "plain std (PStr s) = JStr s"
| "plain std (PDatetime d) = JStr (std_isoformat std d)"
| "plain std (PUuid u) = JStr (uuid_str u)"
| "plain std (PList xs) = JList (map (plain std) xs)"
| "plain std (PDict kvs) = JObj (map (\<lambda>kv. (fst kv, plain std (snd kv))) kvs)"

definition stored_result :: "stdlib \<Rightarrow> pydict \<Rightarrow> dict" where
  "stored_result std result =
     map (\<lambda>kv. (fst kv, plain std (snd kv))) (filter (\<lambda>kv. fst kv \<in> set ALLOWED_RESULT_KEYS) result)"

definition rejected_keys :: "pydict list \<Rightarrow> string list" where
  "rejected_keys results =
     sorted_set (filter (\<lambda>k. k \<notin> set ALLOWED_RESULT_KEYS) (concat (map (map fst) results)))"

definition counts_json :: "(string \<times> int) list \<Rightarrow> json" where
  "counts_json cs = JObj (map (\<lambda>(k, n). (k, JInt n)) cs)"

definition snapshot_meta ::
  "stdlib \<Rightarrow> pydict list \<Rightarrow> instant \<Rightarrow> string \<Rightarrow> string \<Rightarrow> int \<Rightarrow> string list
   \<Rightarrow> (string \<times> int) list option \<Rightarrow> int option \<Rightarrow> dict" where
  "snapshot_meta std results evaluated_at match_policy_version taxonomy_version total_match_count
     warnings confirmed_counts possible_match_count =
     [(''evaluated_at'', JStr (std_isoformat std (Aware evaluated_at 0))),
      (''match_policy_version'', JStr match_policy_version),
      (''taxonomy_version'', JStr taxonomy_version),
      (''total_match_count'', JInt total_match_count),
      (''returned_count'', JInt (int (length results))),
      (''warnings'', jstrs warnings),
      (''excluded_fields'', jstrs (rejected_keys results)),
      (''confirmed_counts'', jopt counts_json confirmed_counts),
      (''possible_match_count'', jopt JInt possible_match_count)]"

definition build_result_snapshot ::
  "stdlib \<Rightarrow> pydict list \<Rightarrow> instant \<Rightarrow> string \<Rightarrow> string \<Rightarrow> int \<Rightarrow> int \<Rightarrow> int \<Rightarrow> bool \<Rightarrow> string list
   \<Rightarrow> (string \<times> int) list option \<Rightarrow> int option \<Rightarrow> dict" where
  "build_result_snapshot std results evaluated_at match_policy_version taxonomy_version page_number
     requested_limit total_match_count has_next_page warnings confirmed_counts possible_match_count =
     [(''schema_version'', JStr SNAPSHOT_SCHEMA_VERSION),
      (''data'', JList (map (JObj \<circ> stored_result std) results)),
      (''meta'', JObj (snapshot_meta std results evaluated_at match_policy_version taxonomy_version
                         total_match_count warnings confirmed_counts possible_match_count)),
      (''pagination'', JObj [(''page_number'', JInt page_number),
                             (''requested_limit'', JInt requested_limit),
                             (''has_next_page'', JBool has_next_page)])]"

section \<open>The stored page\<close>

definition SEARCH_RETENTION :: timedelta where "SEARCH_RETENTION = days 30"

definition filter_digest :: "codec \<Rightarrow> dict \<Rightarrow> string" where
  "filter_digest cx filters = co_sha256 cx (co_dumps cx (sort_key fst filters))"

definition page_row :: "uuid \<Rightarrow> int \<Rightarrow> search_row \<Rightarrow> bool" where
  "page_row search_id page_number r = (sr_search_id r = search_id \<and> sr_page_number r = page_number)"

text \<open>The arguments of one evaluated page.\<close>

record page_response =
  pp_session_id :: "uuid option"
  pp_search_id :: uuid
  pp_filters :: dict
  pp_filter_digest :: string
  pp_snapshot :: dict
  pp_evaluated_at :: instant
  pp_page_number :: int
  pp_requested_limit :: int
  pp_returned_count :: int
  pp_total_match_count :: int
  pp_duration_ms :: int

definition written_row :: "stdlib \<Rightarrow> page_response \<Rightarrow> string \<Rightarrow> string \<Rightarrow> uuid \<Rightarrow> search_row" where
  "written_row std p policy taxonomy i =
     \<lparr>sr_id = i, sr_search_id = pp_search_id p, sr_session_id = pp_session_id p,
      sr_filter_digest = pp_filter_digest p, sr_filters = pp_filters p,
      sr_result_snapshot = pp_snapshot p,
      sr_snapshot_schema_version =
        py_str std (dget_or (pp_snapshot p) ''schema_version'' (JStr ''snapshot-v3'')),
      sr_match_policy_version = policy, sr_taxonomy_version = taxonomy,
      sr_page_number = pp_page_number p, sr_requested_limit = pp_requested_limit p,
      sr_returned_count = pp_returned_count p, sr_total_match_count = pp_total_match_count p,
      sr_duration_ms = pp_duration_ms p, sr_expires_at = Some (pp_evaluated_at p + SEARCH_RETENTION),
      sr_evaluated_at = pp_evaluated_at p\<rparr>"

definition record_search_response :: "stdlib \<Rightarrow> page_response \<Rightarrow> db \<Rightarrow> (search_row \<times> db) result" where
  "record_search_response std p d =
     (let existing = find (page_row (pp_search_id p) (pp_page_number p)) (searches d)
      in bindE (item (JObj (pp_snapshot p)) ''meta'') (\<lambda>meta.
         bindE (item meta ''match_policy_version'') (\<lambda>policy.
         bindE (item meta ''taxonomy_version'') (\<lambda>taxonomy.
         let row = written_row std p (py_str std policy) (py_str std taxonomy)
         in case existing of
              Some r \<Rightarrow>
                Inr (row (sr_id r), d\<lparr>searches := tmod sr_id (sr_id r) (\<lambda>_. row (sr_id r)) (searches d)\<rparr>)
            | None \<Rightarrow>
                let (i, d1) = new_uuid7 d in Inr (row i, d1\<lparr>searches := searches d1 @ [row i]\<rparr>)))))"

section \<open>Lemmas\<close>

lemma get_existing_session_live:
  "get_existing_session now cookie d = Some s \<Longrightarrow>
     s \<in> set (sessions d) \<and> now < se_expires_at s \<and> cookie = Some (se_pseudonymous_id s)"
  by (auto simp: get_existing_session_def find_Some_iff split: if_splits)

lemma get_existing_session_finds:
  "s \<in> set (sessions d) \<Longrightarrow> now < se_expires_at s \<Longrightarrow> se_pseudonymous_id s \<noteq> [] \<Longrightarrow>
     get_existing_session now (Some (se_pseudonymous_id s)) d \<noteq> None"
  by (auto simp: get_existing_session_def find_None_iff)

lemma get_or_create_cases:
  assumes "get_or_create_session now token cookie d = Inr (s, ck, d')"
  obtains (known) "get_existing_session now cookie d = Some s" "ck = None" "d' = d"
  | (minted) "get_existing_session now cookie d = None" "s = new_session now token (next_id d)"
      "ck = Some token" "d' = d\<lparr>sessions := sessions d @ [s], next_id := Suc (next_id d)\<rparr>"
  using assms
  by (auto simp: get_or_create_session_def new_uuid7_def Let_def split: option.split_asm if_split_asm)

text \<open>What creating a session leaves alone: every table but its own.\<close>

lemma get_or_create_frame [frame_simps]:
  assumes "get_or_create_session now token cookie d = Inr (s, ck, d')"
  shows "providers d' = providers d" "scholarships d' = scholarships d" "cycles d' = cycles d"
    "countries d' = countries d" "searches d' = searches d" "outbox d' = outbox d"
    "next_id d \<le> next_id d'" "next_id d' \<le> Suc (next_id d)"
  using assms by (cases rule: get_or_create_cases; simp)+

lemma snapshot_keys [simp]:
  "item (JObj (build_result_snapshot std rs t mp tv pn rl tm hn ws cc pm)) ''data''
     = Inr (JList (map (JObj \<circ> stored_result std) rs))"
  "item (JObj (build_result_snapshot std rs t mp tv pn rl tm hn ws cc pm)) ''meta'' \<noteq> Inl e"
  by (simp_all add: build_result_snapshot_def item_def)

text \<open>The identity of a stored page: its key, and its place in a search.\<close>

definition searches_ok :: "db \<Rightarrow> bool" where
  "searches_ok d \<longleftrightarrow>
     distinct (map sr_id (searches d))
     \<and> distinct (map (\<lambda>r. (sr_search_id r, sr_page_number r)) (searches d))
     \<and> (\<forall>r \<in> set (searches d). sr_id r < next_id d)"

lemma page_row_key: "page_row u n r \<longleftrightarrow> (sr_search_id r, sr_page_number r) = (u, n)"
  by (simp add: page_row_def)

lemma written_row_place [simp]:
  "sr_id (written_row std p mp tv i) = i"
  "sr_search_id (written_row std p mp tv i) = pp_search_id p"
  "sr_page_number (written_row std p mp tv i) = pp_page_number p"
  "sr_result_snapshot (written_row std p mp tv i) = pp_snapshot p"
  "sr_session_id (written_row std p mp tv i) = pp_session_id p"
  by (simp_all add: written_row_def)

lemma record_cases:
  assumes "record_search_response std p d = Inr (r, d')"
  obtains (rewritten) old mp tv where
      "find (page_row (pp_search_id p) (pp_page_number p)) (searches d) = Some old"
      "r = written_row std p mp tv (sr_id old)"
      "d' = d\<lparr>searches := tmod sr_id (sr_id old) (\<lambda>_. r) (searches d)\<rparr>"
  | (added) mp tv where
      "find (page_row (pp_search_id p) (pp_page_number p)) (searches d) = None"
      "r = written_row std p mp tv (next_id d)"
      "d' = d\<lparr>searches := searches d @ [r], next_id := Suc (next_id d)\<rparr>"
proof -
  let ?old = "find (page_row (pp_search_id p) (pp_page_number p)) (searches d)"
  from assms obtain policy taxonomy where
    "(case ?old of
        Some old \<Rightarrow> Inr (written_row std p (py_str std policy) (py_str std taxonomy) (sr_id old),
          d\<lparr>searches := tmod sr_id (sr_id old)
            (\<lambda>_. written_row std p (py_str std policy) (py_str std taxonomy) (sr_id old)) (searches d)\<rparr>)
      | None \<Rightarrow> (case new_uuid7 d of (i, d1) \<Rightarrow>
                Inr (written_row std p (py_str std policy) (py_str std taxonomy) i,
                  d1\<lparr>searches := searches d1
                    @ [written_row std p (py_str std policy) (py_str std taxonomy) i]\<rparr>)))
     = (Inr (r, d') :: (search_row \<times> db) result)"
    unfolding record_search_response_def Let_def bindE_eq_Inr by (elim exE conjE) (rule that)
  then show thesis
    using rewritten added by (cases ?old) (fastforce simp: new_uuid7_def)+
qed

lemma record_frame [frame_simps]:
  assumes "record_search_response std p d = Inr (r, d')"
  shows "providers d' = providers d" "scholarships d' = scholarships d" "cycles d' = cycles d"
    "countries d' = countries d" "sessions d' = sessions d" "outbox d' = outbox d"
    "next_id d \<le> next_id d'" "next_id d' \<le> Suc (next_id d)"
  using assms by (cases rule: record_cases; simp)+

lemma distinct_key_filter:
  "distinct (map k xs) \<Longrightarrow> x \<in> set xs \<Longrightarrow> filter (\<lambda>y. k y = k x) xs = [x]"
  by (induction xs) (auto simp: filter_empty_conv rev_image_eqI)

lemma map_overwrite:
  "distinct (map k xs) \<Longrightarrow> x \<in> set xs \<Longrightarrow> k' r = k' x \<Longrightarrow>
     map k' (map (\<lambda>y. if k y = k x then r else y) xs) = map k' xs"
  by (auto simp: eq_key_imp_eq_value distinct_map inj_on_def)

text \<open>Writing a page leaves exactly one row at its place and every other page as it was.\<close>

lemma record_page:
  assumes ok: "searches_ok d" and "record_search_response std p d = Inr (r, d')"
  shows "searches_ok d'"
    and "filter (page_row (pp_search_id p) (pp_page_number p)) (searches d') = [r]"
    and "filter (\<lambda>x. \<not> page_row (pp_search_id p) (pp_page_number p) x) (searches d')
       = filter (\<lambda>x. \<not> page_row (pp_search_id p) (pp_page_number p) x) (searches d)"
proof -
  let ?place = "\<lambda>r. (sr_search_id r, sr_page_number r)"
  let ?at = "page_row (pp_search_id p) (pp_page_number p)"
  from ok have ids: "distinct (map sr_id (searches d))" and places: "distinct (map ?place (searches d))"
    and fresh: "\<forall>r \<in> set (searches d). sr_id r < next_id d"
    by (auto simp: searches_ok_def)
  from assms(2) have "searches_ok d' \<and> filter ?at (searches d') = [r]
      \<and> filter (\<lambda>x. \<not> ?at x) (searches d') = filter (\<lambda>x. \<not> ?at x) (searches d)"
  proof (cases rule: record_cases)
    case (rewritten old mp tv)
    then have old: "old \<in> set (searches d)" "?place old = ?place r" "?at old" "sr_id r = sr_id old" "?at r"
      by (auto simp: find_Some_iff page_row_key)
    let ?w = "\<lambda>y. if y = old then r else y"
    have "sr_id y = sr_id old \<longleftrightarrow> y = old" if "y \<in> set (searches d)" for y
      using that old(1) inj_onD [of sr_id "set (searches d)" y old] ids by (auto simp: distinct_map)
    then have new: "searches d' = map ?w (searches d)" by (simp add: rewritten tmod_def)
    have same: "?at y \<longleftrightarrow> y = old" if "y \<in> set (searches d)" for y
      using that old(1,3) inj_onD [of ?place "set (searches d)" y old] places
      by (auto simp: page_row_key distinct_map)
    have "map ?place (searches d') = map ?place (searches d)" "map sr_id (searches d') = map sr_id (searches d)"
      using old by (auto simp: new)
    moreover have "filter ?at (searches d') = map ?w (filter (\<lambda>y. y = old) (searches d))"
      unfolding new filter_map o_def using same old(5) by (intro arg_cong [of _ _ "map ?w"] filter_cong) auto
    moreover have "filter (\<lambda>y. y = old) (searches d) = [old]"
      using distinct_key_filter [of id, OF _ old(1)] ids by (simp add: distinct_map)
    moreover have "filter (\<lambda>x. \<not> ?at x) (searches d') = map ?w (filter (\<lambda>x. \<not> ?at x) (searches d))"
      unfolding new filter_map o_def using same old(5) by (intro arg_cong [of _ _ "map ?w"] filter_cong) auto
    moreover have "map ?w (filter (\<lambda>x. \<not> ?at x) (searches d)) = filter (\<lambda>x. \<not> ?at x) (searches d)"
      using old(3) by (intro map_idI) auto
    moreover have "\<forall>x \<in> set (searches d'). sr_id x < next_id d'"
      using fresh old(1,4) by (auto simp: set_tmod rewritten(3))
    ultimately show ?thesis
      using ids places by (simp add: searches_ok_def)
  next
    case (added mp tv)
    then show ?thesis using ok
      by (auto simp: searches_ok_def find_None_iff page_row_key filter_empty_conv)
  qed
  then show "searches_ok d'" "filter ?at (searches d') = [r]"
    "filter (\<lambda>x. \<not> ?at x) (searches d') = filter (\<lambda>x. \<not> ?at x) (searches d)"
    by blast+
qed

section \<open>Properties\<close>

text \<open>C1.
  Recording an evaluated page twice never adds history: after it the page's place in its search holds
  exactly one row, with this response's snapshot, every other stored page is as it was, and the row
  keeps its identity if the page was there before.
\<close>

theorem page_is_stored_once:
  assumes "searches_ok d" and "record_search_response std p d = Inr (r, d')"
  shows "searches_ok d'
     \<and> filter (page_row (pp_search_id p) (pp_page_number p)) (searches d') = [r]
     \<and> sr_result_snapshot r = pp_snapshot p
     \<and> filter (\<lambda>x. \<not> page_row (pp_search_id p) (pp_page_number p) x) (searches d')
         = filter (\<lambda>x. \<not> page_row (pp_search_id p) (pp_page_number p) x) (searches d)
     \<and> (\<forall>old. find (page_row (pp_search_id p) (pp_page_number p)) (searches d) = Some old \<longrightarrow>
          sr_id r = sr_id old)"
  using assms(2) record_page [OF assms] by (cases rule: record_cases) auto

definition demo_response :: page_response where
  "demo_response =
     \<lparr>pp_session_id = Some 1, pp_search_id = 2, pp_filters = [], pp_filter_digest = ''f'',
      pp_snapshot = build_result_snapshot demo_std [[(''fit'', PStr ''possible''), (''note'', PNone)]]
        0 ''match-v2'' ''taxonomy-v3'' 1 20 1 False [] None None,
      pp_evaluated_at = 0, pp_page_number = 1, pp_requested_limit = 20, pp_returned_count = 1,
      pp_total_match_count = 1, pp_duration_ms = 4\<rparr>"

lemma demo_record:
  "\<exists>r d'. record_search_response demo_std demo_response empty_db = Inr (r, d')
      \<and> find (page_row 2 1) (searches d') = Some r"
  by (simp add: record_search_response_def empty_db_def demo_response_def build_result_snapshot_def snapshot_meta_def item_def
      new_uuid7_def Let_def page_row_def written_row_def)

theorem page_is_stored_once_witness:
  "\<exists>r d'. record_search_response demo_std demo_response empty_db = Inr (r, d')
      \<and> filter (page_row 2 1) (searches d') = [r]"
proof -
  obtain r d' where r: "record_search_response demo_std demo_response empty_db = Inr (r, d')"
    using demo_record by blast
  have "searches_ok empty_db" by (simp add: searches_ok_def empty_db_def)
  from page_is_stored_once [OF this r] r show ?thesis by (simp add: demo_response_def)
qed

text \<open>C2.
  A stored snapshot holds only fields of the allowlist: each result keeps, in order, exactly its
  listed fields, and every field left out is named.
\<close>

theorem snapshot_keeps_only_listed_fields:
  "\<exists>stored meta. build_result_snapshot std rs t mp tv pn rl tm hn ws cc pm
       = [(''schema_version'', JStr SNAPSHOT_SCHEMA_VERSION), (''data'', JList (map JObj stored)),
          (''meta'', JObj meta),
          (''pagination'', JObj [(''page_number'', JInt pn), (''requested_limit'', JInt rl),
                                 (''has_next_page'', JBool hn)])]
     \<and> map (map fst) stored = map (filter (\<lambda>k. k \<in> set ALLOWED_RESULT_KEYS) \<circ> map fst) rs
     \<and> set (string_list (dget meta ''excluded_fields''))
         = (\<Union>r \<in> set rs. fst ` set r) - set ALLOWED_RESULT_KEYS"
proof -
  let ?stored = "map (stored_result std) rs"
  let ?meta = "snapshot_meta std rs t mp tv tm ws cc pm"
  have "dget ?meta ''excluded_fields'' = jstrs (rejected_keys rs)" by (simp add: snapshot_meta_def)
  moreover
  have "map (map fst) ?stored = map (filter (\<lambda>k. k \<in> set ALLOWED_RESULT_KEYS) \<circ> map fst) rs"
    by (simp add: stored_result_def filter_map o_def)
  moreover have "set (rejected_keys rs) = (\<Union>r \<in> set rs. fst ` set r) - set ALLOWED_RESULT_KEYS"
    by (auto simp: rejected_keys_def)
  ultimately show ?thesis
    by (intro exI [of _ ?stored] exI [of _ ?meta]) (simp add: build_result_snapshot_def)
qed

end
