(* ===== verification/RateLimits.thy ===== *)
theory RateLimits
  imports Prelude
begin

text \<open>
  The in-memory rate limiter (\<open>src/src/app/core/rate_limit.py\<close>): a bucket of accepted instants per
  key, trimmed when its key is served, and a sweep that drops the buckets of silent keys once a
  window. The clock is an argument, in its own ticks; a \<open>defaultdict\<close> is a map read through
  \<open>bucket_of\<close>. The lemmas show that neither trimming nor sweeping is visible: the limiter decides as
  one that keeps every accepted request for ever.
\<close>

section \<open>The limiter\<close>

record limiter =
  requests :: "string \<Rightarrow> int list option"
  next_sweep :: int

definition new_limiter :: limiter where
  "new_limiter = \<lparr>requests = (\<lambda>_. None), next_sweep = 0\<rparr>"

definition bucket_of :: "limiter \<Rightarrow> string \<Rightarrow> int list" where
  "bucket_of lm key = (case requests lm key of None \<Rightarrow> [] | Some b \<Rightarrow> b)"

definition evict_expired :: "int \<Rightarrow> int \<Rightarrow> limiter \<Rightarrow> limiter" where
  "evict_expired now window lm =
     (if now < next_sweep lm then lm
      else \<lparr>requests = (\<lambda>k. case requests lm k of
                              None \<Rightarrow> None
                            | Some b \<Rightarrow> if b = [] \<or> last b \<le> now - window then None else Some b),
            next_sweep = now + window\<rparr>)"

definition allow :: "int \<Rightarrow> string \<Rightarrow> nat \<Rightarrow> int \<Rightarrow> limiter \<Rightarrow> bool \<times> limiter" where
  "allow now key limit window lm =
     (let swept = evict_expired now window lm;
          bucket = dropWhile (\<lambda>t. t \<le> now - window) (bucket_of swept key);
          store = (\<lambda>b. swept\<lparr>requests := (requests swept)(key \<mapsto> b)\<rparr>)
      in if limit \<le> length bucket then (False, store bucket) else (True, store (bucket @ [now])))"

section \<open>Serving a sequence of calls\<close>

text \<open>One limit and one window, as every limiter of the service is used.\<close>

fun serve :: "nat \<Rightarrow> int \<Rightarrow> (int \<times> string) list \<Rightarrow> limiter \<Rightarrow> bool list" where
  "serve limit window [] lm = []"
| "serve limit window ((now, key) # calls) lm =
     (let (ok, lm') = allow now key limit window lm in ok # serve limit window calls lm')"

text \<open>
  The specification: a history of the accepted calls that nothing is ever removed from. A call is
  accepted when fewer than \<open>limit\<close> accepted calls of its key are younger than the window.
\<close>

definition times :: "(int \<times> string) list \<Rightarrow> string \<Rightarrow> int list" where
  "times history key = map fst (filter (\<lambda>c. snd c = key) history)"

definition live :: "int \<Rightarrow> int list \<Rightarrow> int list" where
  "live cutoff ts = filter (\<lambda>t. cutoff < t) ts"

fun sliding_window :: "nat \<Rightarrow> int \<Rightarrow> (int \<times> string) list \<Rightarrow> (int \<times> string) list \<Rightarrow> bool list" where
  "sliding_window limit window [] history = []"
| "sliding_window limit window ((now, key) # calls) history =
     (let ok = length (live (now - window) (times history key)) < limit
      in ok # sliding_window limit window calls (if ok then history @ [(now, key)] else history))"

section \<open>Lemmas\<close>

lemma times_simps [simp]:
  "times [] k = []"
  "times (history @ [(t, k')]) k = times history k @ (if k' = k then [t] else [])"
  by (simp_all add: times_def)

lemma live_simps [simp]:
  "live c [] = []" "live c (xs @ ys) = live c xs @ live c ys"
  by (simp_all add: live_def)

lemma live_later: "c \<le> c' \<Longrightarrow> live c' (live c xs) = live c' xs"
  by (induction xs) (auto simp: live_def)

lemma live_later_cong: "live c xs = live c ys \<Longrightarrow> c \<le> c' \<Longrightarrow> live c' xs = live c' ys"
  by (metis live_later)

lemma live_none: "sorted xs \<Longrightarrow> xs = [] \<or> last xs \<le> c \<Longrightarrow> live c xs = []"
  by (induction xs) (fastforce simp: live_def split: if_splits dest: last_in_set)+

lemma dropWhile_live: "sorted xs \<Longrightarrow> dropWhile (\<lambda>t. t \<le> c) xs = live c xs"
proof (induction xs)
  case (Cons x xs)
  then show ?case by (auto simp: live_def intro!: filter_True [symmetric])
qed (simp add: live_def)

lemma sorted_live: "sorted xs \<Longrightarrow> sorted (live c xs)"
  by (simp add: live_def sorted_wrt_filter)

text \<open>A limiter that stands for a history at an instant.\<close>

definition stands_for :: "int \<Rightarrow> int \<Rightarrow> limiter \<Rightarrow> (int \<times> string) list \<Rightarrow> bool" where
  "stands_for now window lm history \<longleftrightarrow>
     (\<forall>k. live (now - window) (bucket_of lm k) = live (now - window) (times history k)
        \<and> sorted (bucket_of lm k) \<and> (\<forall>t \<in> set (bucket_of lm k). t \<le> now))"

lemma stands_for_later:
  assumes "stands_for now window lm history" and "now \<le> now'"
  shows "stands_for now' window lm history"
  unfolding stands_for_def
proof (intro allI conjI ballI)
  fix k
  from assms have "live (now - window) (bucket_of lm k) = live (now - window) (times history k)"
    by (simp add: stands_for_def)
  with assms(2) show "live (now' - window) (bucket_of lm k) = live (now' - window) (times history k)"
    by (auto elim: live_later_cong)
qed (use assms in \<open>fastforce simp: stands_for_def\<close>)+

lemma evict_bucket:
  "bucket_of (evict_expired now window lm) k = bucket_of lm k
   \<or> bucket_of (evict_expired now window lm) k = []
     \<and> (bucket_of lm k = [] \<or> last (bucket_of lm k) \<le> now - window)"
  by (auto simp: evict_expired_def bucket_of_def split: option.split)

lemma evict_stands_for:
  assumes "stands_for now window lm history"
  shows "stands_for now window (evict_expired now window lm) history"
  unfolding stands_for_def
proof
  fix k
  from assms have b: "live (now - window) (bucket_of lm k) = live (now - window) (times history k)"
    "sorted (bucket_of lm k)" "\<forall>t \<in> set (bucket_of lm k). t \<le> now"
    by (auto simp: stands_for_def)
  from evict_bucket [of now window lm k] b
  show "live (now - window) (bucket_of (evict_expired now window lm) k) = live (now - window) (times history k)
      \<and> sorted (bucket_of (evict_expired now window lm) k)
      \<and> (\<forall>t \<in> set (bucket_of (evict_expired now window lm) k). t \<le> now)"
    using live_none [of "bucket_of lm k" "now - window"] by auto
qed

lemma allow_stands_for:
  assumes "stands_for now window lm history" and "allow now key limit window lm = (ok, lm')"
  shows "ok = (length (live (now - window) (times history key)) < limit)"
    and "stands_for now window lm' (if ok then history @ [(now, key)] else history)"
proof -
  let ?sw = "evict_expired now window lm" and ?c = "now - window"
  note s = evict_stands_for [OF assms(1)]
  then have b: "live ?c (bucket_of ?sw key) = live ?c (times history key)" "sorted (bucket_of ?sw key)"
    "\<forall>t \<in> set (bucket_of ?sw key). t \<le> now"
    by (auto simp: stands_for_def)
  let ?b = "live ?c (times history key)"
  have trimmed: "dropWhile (\<lambda>t. t \<le> ?c) (bucket_of ?sw key) = ?b"
    by (simp add: dropWhile_live b)
  have bs: "sorted ?b" "\<forall>t \<in> set ?b. t \<le> now" "live ?c ?b = ?b"
    using b sorted_live [OF b(2), of ?c] live_later [of ?c ?c]
    by (simp, metis b(1) filter_is_subset live_def subsetD, simp)
  from assms(2) trimmed show ok: "ok = (length ?b < limit)"
    by (auto simp: allow_def Let_def split: if_splits)
  from assms(2) trimmed ok have l: "bucket_of lm' k
      = (if k = key then (if ok then ?b @ [now] else ?b) else bucket_of ?sw k)" for k
    by (auto simp: allow_def Let_def bucket_of_def split: if_splits)
  show "stands_for now window lm' (if ok then history @ [(now, key)] else history)"
    using s bs unfolding stands_for_def by (auto simp: l sorted_append)
qed

lemma serve_stands_for:
  assumes "stands_for t window lm history" and "sorted (t # map fst calls)"
  shows "serve limit window calls lm = sliding_window limit window calls history"
  using assms
proof (induction calls arbitrary: t lm history)
  case (Cons c calls)
  obtain now key where c: "c = (now, key)" by (cases c)
  obtain ok lm' where a: "allow now key limit window lm = (ok, lm')" by (cases "allow now key limit window lm")
  from Cons.prems c have s: "stands_for now window lm history" by (auto intro: stands_for_later)
  from Cons.IH [OF allow_stands_for(2) [OF s a]] Cons.prems(2) c
  show ?case using allow_stands_for(1) [OF s a] by (simp add: c a Let_def)
qed simp

lemma new_limiter_stands_for: "stands_for now window new_limiter []"
  by (simp add: stands_for_def new_limiter_def bucket_of_def)

text \<open>The calls a limiter accepts.\<close>

definition accepted :: "(int \<times> string) list \<Rightarrow> bool list \<Rightarrow> (int \<times> string) list" where
  "accepted calls oks = map fst (filter snd (zip calls oks))"

lemma accepted_simps [simp]:
  "accepted [] oks = []"
  "accepted (c # calls) (ok # oks) = (if ok then c # accepted calls oks else accepted calls oks)"
  by (simp_all add: accepted_def)

definition in_span :: "int \<Rightarrow> int \<Rightarrow> int list \<Rightarrow> int list" where
  "in_span start window ts = filter (\<lambda>t. start < t \<and> t \<le> start + window) ts"

lemma in_span_live:
  "start < now \<Longrightarrow> now \<le> start + window \<Longrightarrow>
     length (in_span start window ts) \<le> length (live (now - window) ts)"
  unfolding in_span_def live_def by (induction ts) auto

lemma sliding_window_bound:
  assumes "\<forall>s. length (in_span s window (times history k)) \<le> limit"
  shows "length (in_span s window (times (history @ accepted calls (sliding_window limit window calls history)) k))
    \<le> limit"
  using assms
proof (induction calls arbitrary: history)
  case (Cons c calls)
  obtain now key where c: "c = (now, key)" by (cases c)
  let ?ok = "length (live (now - window) (times history key)) < limit"
  show ?case
  proof (cases ?ok)
    case True
    have "length (in_span s window (times (history @ [(now, key)]) k)) \<le> limit" for s
      using Cons.prems [rule_format, of s] True in_span_live [of s now window "times history key"]
      by (cases "key = k \<and> s < now \<and> now \<le> s + window") (auto simp: in_span_def)
    from Cons.IH [OF allI, OF this] True show ?thesis by (simp add: c Let_def)
  next
    case False
    with Cons.IH [OF Cons.prems] show ?thesis by (simp add: c Let_def)
  qed
qed simp

section \<open>Properties\<close>

text \<open>C34.
  Trimming and sweeping are invisible: served by a clock that never runs backwards, the limiter
  decides every call exactly as the specification that remembers every accepted call for ever, for
  any mix of keys.
\<close>

theorem limiter_is_a_sliding_window:
  assumes "sorted (map fst calls)"
  shows "serve limit window calls new_limiter = sliding_window limit window calls []"
proof (cases calls)
  case (Cons c cs)
  with assms show ?thesis
    by (intro serve_stands_for [of "fst c"] new_limiter_stands_for) simp
qed simp

definition demo_calls :: "(int \<times> string) list" where
  "demo_calls = [(0, ''a''), (1, ''a''), (2, ''a''), (2, ''b''), (61, ''a''), (61, ''a''), (200, ''b'')]"

theorem limiter_is_a_sliding_window_witness:
  "serve 2 60 demo_calls new_limiter = [True, True, False, True, True, True, True]"
  using limiter_is_a_sliding_window [of demo_calls 2 60]
  by (simp add: demo_calls_def live_def times_def Let_def)

text \<open>C2.
  Whatever the calls, at most \<open>limit\<close> calls of one key are accepted in any interval as long as the
  window.
\<close>

theorem accepted_calls_are_bounded:
  assumes "sorted (map fst calls)"
  shows "length (in_span start window (times (accepted calls (serve limit window calls new_limiter)) key))
    \<le> limit"
proof -
  have "serve limit window calls new_limiter = sliding_window limit window calls []"
    using assms by (cases calls) (auto intro: serve_stands_for new_limiter_stands_for)
  with sliding_window_bound [of window "[]" key limit start calls] show ?thesis
    by (simp add: in_span_def)
qed

theorem accepted_calls_are_bounded_witness:
  "length (in_span 0 60 (times (accepted demo_calls (serve 2 60 demo_calls new_limiter)) ''a'')) \<le> 2"
  using accepted_calls_are_bounded [of demo_calls 0 60 2 "''a''"] by (simp add: demo_calls_def)

end
