(* ===== verification/Http.thy ===== *)
theory Http
  imports RateLimits Settings
begin

text \<open>
  What every route shares: an \<open>HTTPException\<close> as a value, the problem documents of
  \<open>src/src/app/core/errors.py\<close>, the service-token guard and the per-client rate limit of
  \<open>src/src/app/api/routes.py\<close>. A route answers \<open>'a response\<close>: \<open>HTTPException\<close> is one it
  raises itself, \<open>Unhandled\<close> an exception of another class that leaves it (a 500). The request
  session of \<open>infra/db.py\<close> commits on a clean return and rolls back on any exception, so a route
  returns its new database only beside a clean answer.
\<close>

section \<open>Answers of a route\<close>

datatype http_error =
    HTTPException int string "(string \<times> string) list"
  | Unhandled exn

type_synonym 'a response = "http_error + 'a"

definition bindH :: "'a response \<Rightarrow> ('a \<Rightarrow> 'b response) \<Rightarrow> 'b response" where
  "bindH m f = (case m of Inl e \<Rightarrow> Inl e | Inr x \<Rightarrow> f x)"

definition guardH :: "bool \<Rightarrow> http_error \<Rightarrow> unit response" where
  "guardH b e = (if b then Inr () else Inl e)"

text \<open>A call inside \<open>try\<close>, its exceptions sorted by the \<open>except\<close> clauses; and one outside.\<close>

definition try_call :: "(exn \<Rightarrow> http_error) \<Rightarrow> 'a result \<Rightarrow> 'a response" where
  "try_call except m = (case m of Inl e \<Rightarrow> Inl (except e) | Inr x \<Rightarrow> Inr x)"

abbreviation "plain_call \<equiv> try_call Unhandled"

abbreviation http_raise :: "int \<Rightarrow> string \<Rightarrow> http_error" where
  "http_raise status detail \<equiv> HTTPException status detail []"

lemma bindH_simps [simp]: "bindH (Inl e) f = Inl e" "bindH (Inr x) f = f x"
  by (simp_all add: bindH_def)

lemma bindH_eq_Inr: "bindH m f = Inr y \<longleftrightarrow> (\<exists>x. m = Inr x \<and> f x = Inr y)"
  by (cases m) auto

lemma bindH_eq_Inl: "bindH m f = Inl e \<longleftrightarrow> m = Inl e \<or> (\<exists>x. m = Inr x \<and> f x = Inl e)"
  by (cases m) auto

lemma guardH_eq [simp]:
  "guardH b e = Inr u \<longleftrightarrow> b" "guardH b e = Inl e' \<longleftrightarrow> \<not> b \<and> e' = e"
  by (auto simp: guardH_def)

lemma try_call_eq:
  "try_call x m = Inr y \<longleftrightarrow> m = Inr y" "try_call x m = Inl h \<longleftrightarrow> (\<exists>e. m = Inl e \<and> h = x e)"
  by (auto simp: try_call_def split: sum.split)

lemma try_call_simps [simp]: "try_call x (Inr y) = Inr y" "try_call x (Inl e) = Inl (x e)"
  by (simp_all add: try_call_def)

section \<open>Problem documents\<close>

record request =
  rq_url :: string
  rq_request_id :: "string option"
  rq_client_host :: "string option"
  rq_cookie :: "string option"

record problem_response =
  pb_status :: int
  pb_body :: dict
  pb_headers :: "(string \<times> string) list"

definition problem ::
  "request \<Rightarrow> int \<Rightarrow> string \<Rightarrow> string \<Rightarrow> string \<Rightarrow> dict option \<Rightarrow> (string \<times> string) list
   \<Rightarrow> problem_response" where
  "problem rq status code title detail errors headers =
     (let body = [(''type'', JStr (''https://errors.edufurther.com/'' @ lower code)),
                  (''title'', JStr title), (''status'', JInt status), (''detail'', JStr detail),
                  (''code'', JStr code), (''instance'', JStr (rq_url rq))];
          body = (case errors of None \<Rightarrow> body
                  | Some es \<Rightarrow> dset_if (es \<noteq> []) ''errors'' (JObj es) body);
          body = (case rq_request_id rq of None \<Rightarrow> body
                  | Some i \<Rightarrow> dset_if (i \<noteq> []) ''request_id'' (JStr (take 128 i)) body)
      in \<lparr>pb_status = status, pb_body = body, pb_headers = headers\<rparr>)"

text \<open>\<open>found\<close> is the encoded list of validation errors, which pydantic produces.\<close>

definition validation_exception_handler :: "request \<Rightarrow> json \<Rightarrow> problem_response" where
  "validation_exception_handler rq found =
     problem rq 422 ''VALIDATION_ERROR'' ''Request validation failed''
       ''One or more request fields are invalid.'' (Some [(''fields'', found)]) []"

definition STATUS_CODES :: "(int \<times> string) list" where
  "STATUS_CODES = [(404, ''NOT_FOUND''), (429, ''RATE_LIMIT_EXCEEDED'')]"

definition http_exception_handler ::
  "request \<Rightarrow> int \<Rightarrow> string \<Rightarrow> (string \<times> string) list \<Rightarrow> problem_response" where
  "http_exception_handler rq status detail headers =
     problem rq status
       (case map_of STATUS_CODES status of None \<Rightarrow> ''REQUEST_FAILED'' | Some c \<Rightarrow> c)
       ''Request failed'' detail None headers"

lemma problem_states:
  "pb_status (problem rq s c t dt es hs) = s" "pb_headers (problem rq s c t dt es hs) = hs"
  "dget (pb_body (problem rq s c t dt es hs)) ''status'' = JInt s"
  "dget (pb_body (problem rq s c t dt es hs)) ''code'' = JStr c"
  "dget (pb_body (problem rq s c t dt es hs)) ''detail'' = JStr dt"
  by (simp_all add: problem_def Let_def split: option.split)

lemma problem_request_id:
  "rq_request_id rq = Some i \<Longrightarrow> i \<noteq> [] \<Longrightarrow>
     dget (pb_body (problem rq s c t dt es hs)) ''request_id'' = JStr (take 128 i)"
  by (simp add: problem_def Let_def)

section \<open>The service token\<close>

text \<open>\<open>hmac.compare_digest\<close> of two strings: a \<open>TypeError\<close> unless both are ASCII.\<close>

definition is_ascii :: "string \<Rightarrow> bool" where
  "is_ascii s = (\<forall>c \<in> set s. (of_char c :: nat) < 128)"

definition compare_digest :: "string \<Rightarrow> string \<Rightarrow> bool result" where
  "compare_digest a b = (if is_ascii a \<and> is_ascii b then Inr (a = b) else Inl TypeError)"

definition require_token :: "string option \<Rightarrow> string \<Rightarrow> string option \<Rightarrow> unit response" where
  "require_token expected detail header =
     (if \<not> is_set expected then Inl (http_raise 401 detail)
      else bindH (plain_call (compare_digest (or_empty header) (the expected))) (\<lambda>same.
        guardH same (http_raise 401 detail)))"

definition require_internal_service :: "settings \<Rightarrow> string option \<Rightarrow> unit response" where
  "require_internal_service st x_service_token =
     require_token (internal_service_token st) ''Internal service authentication required'' x_service_token"

lemma require_token_passes: "require_token ex m h = Inr u \<Longrightarrow> is_set ex \<and> h = ex"
  by (cases ex; cases h)
    (auto simp: require_token_def compare_digest_def or_empty_def bindH_eq_Inr split: if_splits)

section \<open>Per-client limits\<close>

definition client_key :: "request \<Rightarrow> string" where
  "client_key rq = (case rq_client_host rq of None \<Rightarrow> ''unknown'' | Some h \<Rightarrow> h)"

definition admit_call :: "int \<Rightarrow> string \<Rightarrow> nat \<Rightarrow> string \<Rightarrow> limiter \<Rightarrow> unit response \<times> limiter" where
  "admit_call clock key limit detail lm =
     (let (ok, lm') = allow clock key limit 60 lm
      in (guardH ok (HTTPException 429 detail [(''Retry-After'', ''60'')]), lm'))"

end
