(* ===== verification/Search.thy ===== *)
theory Search
  imports Matching Countries Outbox Sessions Http "HOL-Library.Product_Lexorder"
begin

text \<open>
  The public search of \<open>src/src/app/api/routes.py\<close>: one scan of the published cycles, the matcher,
  the status of each match on read, the ranking, one page of it with a signed cursor to the next, the
  stored copy of the page and the one event of a completed search. What a route takes from its
  request and its process is the record \<open>visit\<close>: the wall clock, the limiter's clock, a fresh session
  token, the time the evaluation took.
\<close>

section \<open>One result\<close>

record search_result =
  re_scholarship_id :: uuid
  re_cycle_id :: uuid
  re_name :: string
  re_provider :: string
  re_award_type :: string
  re_status :: string
  re_status_detail :: string
  re_fit :: string
  re_official_url :: string
  re_last_verified_at :: "datetime option"
  re_eligibility_note :: "string option"
  re_field_names :: "string list"
  re_fields :: "string list"
  re_programme_names :: "string list"
  re_destinations :: "string list"
  re_deadline_at :: "datetime option"
  re_deadline_precision :: "string option"
  re_degree_levels :: "string list"
  re_expected_reopen_month :: "int option"
  re_funding_type :: "string option"
  re_provider_country :: "string option"
  re_caveats :: "string list"

definition stale_caveat :: string where
  "stale_caveat = ''Current status evidence requires re-verification.''"

definition automated_caveat :: string where
  "automated_caveat =
     ''This record was verified through automated evidence review, not direct human review.''"

text \<open>
  The status of a cycle on read, shared with the detail page: the public status and its display form.
\<close>

definition status_on_read ::
  "stdlib \<Rightarrow> cycle \<Rightarrow> derived_facts \<Rightarrow> instant \<Rightarrow> (public_status \<times> string) result" where
  "status_on_read std row derived now =
     bindE (evaluate_public_status (std_tz std) (cy_public_status row) (df_deadline_at derived)
              (cy_status_valid_until row) (df_deadline_precision derived)
              (df_deadline_timezone derived) now) (\<lambda>status.
     bindE (evaluate_status_detail (std_tz std) status (df_deadline_at derived)
              (df_deadline_precision derived) (df_deadline_timezone derived)
              (df_expected_reopen_month derived) now) (\<lambda>detail.
     Inr (status, detail)))"

definition read_caveats :: "cycle \<Rightarrow> public_status \<Rightarrow> string list" where
  "read_caveats row status =
     (if status \<noteq> cy_public_status row then [stale_caveat] else [])
     @ (if cy_is_auto_approved row then [automated_caveat] else [])"

text \<open>\<open>row.scholarship\<close> and \<open>row.scholarship.provider\<close>; a missing one would be an attribute of \<open>None\<close>.\<close>

definition loaded_parent :: "db \<Rightarrow> cycle \<Rightarrow> (scholarship \<times> provider) result" where
  "loaded_parent d row =
     (case tget sch_id (cy_scholarship_id row) (scholarships d) of
        None \<Rightarrow> Inl AttributeError
      | Some s \<Rightarrow> (case tget pv_id (sch_provider_id s) (providers d) of
                    None \<Rightarrow> Inl AttributeError | Some p \<Rightarrow> Inr (s, p)))"

definition result_of ::
  "derived_facts \<Rightarrow> cycle \<Rightarrow> scholarship \<Rightarrow> provider \<Rightarrow> match_decision \<Rightarrow> public_status \<Rightarrow> string
   \<Rightarrow> search_result" where
  "result_of derived row s p decision status detail =
     \<lparr>re_scholarship_id = cy_scholarship_id row, re_cycle_id = cy_id row, re_name = sch_name s,
      re_provider = pv_name p, re_award_type = sch_award_type s, re_status = detail,
      re_status_detail = detail, re_fit = md_fit decision, re_official_url = cy_official_cycle_url row,
      re_last_verified_at = map_option (\<lambda>t. Aware t 0) (cy_last_verified_at row),
      re_eligibility_note = df_eligibility_note derived,
      re_field_names = df_field_names derived, re_fields = df_fields derived,
      re_programme_names = df_programme_names derived, re_destinations = df_destinations derived,
      re_deadline_at = df_deadline_at derived,
      re_deadline_precision = public_deadline_precision derived,
      re_degree_levels = df_degree_levels derived,
      re_expected_reopen_month = df_expected_reopen_month derived,
      re_funding_type = df_funding_type derived, re_provider_country = pv_country p,
      re_caveats = md_caveats decision @ read_caveats row status\<rparr>"

definition search_result_of ::
  "stdlib \<Rightarrow> db \<Rightarrow> cycle \<Rightarrow> match_decision \<Rightarrow> instant \<Rightarrow> search_result option result" where
  "search_result_of std d row decision evaluated_at =
     (let derived = derive_facts std (cy_facts row)
      in bindE (status_on_read std row derived evaluated_at) (\<lambda>(status, detail).
         if status = Status_unknown then Inr None
         else bindE (loaded_parent d row) (\<lambda>(s, p).
           Inr (Some (result_of derived row s p decision status detail)))))"

section \<open>Matching and ranking\<close>

definition SEARCH_SCAN_LIMIT :: nat where "SEARCH_SCAN_LIMIT = 2000"
definition MATCH_POLICY_VERSION :: string where "MATCH_POLICY_VERSION = ''match-v2''"

definition publicly_listed :: "db \<Rightarrow> cycle \<Rightarrow> bool" where
  "publicly_listed d row =
     (case tget sch_id (cy_scholarship_id row) (scholarships d) of
        None \<Rightarrow> False | Some s \<Rightarrow> sch_lifecycle_state s = Published)"

definition published_rows :: "db \<Rightarrow> cycle list" where
  "published_rows d = sort_key cy_id (filter (publicly_listed d) (cycles d))"

fun match_rows :: "stdlib \<Rightarrow> search_profile \<Rightarrow> instant \<Rightarrow> db \<Rightarrow> cycle list \<Rightarrow> search_result list result" where
  "match_rows std profile now d [] = Inr []"
| "match_rows std profile now d (row # rows) =
     (case evaluate_match std profile (cy_facts row) of
        None \<Rightarrow> match_rows std profile now d rows
      | Some decision \<Rightarrow>
          bindE (search_result_of std d row decision now) (\<lambda>found.
          bindE (match_rows std profile now d rows) (\<lambda>rest.
          Inr (case found of None \<Rightarrow> rest | Some r \<Rightarrow> r # rest))))"

definition result_sort_value :: "stdlib \<Rightarrow> instant \<Rightarrow> search_result \<Rightarrow> int \<times> string" where
  "result_sort_value std evaluated_at r =
     (if re_status r \<in> {''open'', ''closing_soon''} then
        (case re_deadline_at r of None \<Rightarrow> (1, []) | Some dl \<Rightarrow> (0, std_isoformat std dl))
      else case re_expected_reopen_month r of
             None \<Rightarrow> (1, ''13'')
           | Some m \<Rightarrow> (0, two_digits ((m - month_of evaluated_at) mod 12)))"

definition status_rank :: "string \<Rightarrow> int" where
  "status_rank s =
     (case map_of [(''open'', 0), (''closing_soon'', 1), (''likely_to_open'', 2)] s of
        None \<Rightarrow> 9 | Some n \<Rightarrow> n)"

definition rank_key :: "stdlib \<Rightarrow> instant \<Rightarrow> search_result \<Rightarrow> int \<times> int \<times> (int \<times> string) \<times> string" where
  "rank_key std now r =
     (if re_fit r = ''confirmed'' then 0 else 1, status_rank (re_status r),
      result_sort_value std now r, uuid_str (re_cycle_id r))"

text \<open>The scanned rows, and whether the index outgrew the scan.\<close>

definition scanned_rows :: "db \<Rightarrow> cycle list" where
  "scanned_rows d = take SEARCH_SCAN_LIMIT (published_rows d)"

definition scan_truncated :: "db \<Rightarrow> bool" where
  "scan_truncated d = (SEARCH_SCAN_LIMIT < length (take (SEARCH_SCAN_LIMIT + 1) (published_rows d)))"

definition ranked_matches ::
  "stdlib \<Rightarrow> search_profile \<Rightarrow> instant \<Rightarrow> db \<Rightarrow> search_result list result" where
  "ranked_matches std profile now d =
     bindE (match_rows std profile now d (scanned_rows d)) (\<lambda>matched.
     Inr (sort_key (rank_key std now) matched))"

fun confirmed_counts :: "search_result list \<Rightarrow> (string \<times> int) list \<Rightarrow> (string \<times> int) list" where
  "confirmed_counts [] counts = counts"
| "confirmed_counts (r # rs) counts =
     confirmed_counts rs
       (if re_fit r = ''confirmed''
        then AList.update (re_status r)
               ((case map_of counts (re_status r) of None \<Rightarrow> 0 | Some n \<Rightarrow> n) + 1) counts
        else counts)"

definition possible_match_count :: "search_result list \<Rightarrow> int" where
  "possible_match_count rs = int (length (filter (\<lambda>r. re_fit r = ''possible'') rs))"

section \<open>The request\<close>

record search_request =
  sq_origin_country :: string
  sq_program_levels :: "string list"
  sq_field :: "string option"
  sq_target_countries :: "string list"
  sq_limit :: int
  sq_cursor :: "string option"

record visit =
  vi_now :: instant
  vi_clock :: int
  vi_token :: string
  vi_duration_ms :: int

text \<open>The filters as stored, and the profile the matcher reads.\<close>

definition profile_of :: "search_filters \<Rightarrow> search_profile" where
  "profile_of f =
     \<lparr>pr_origin_country = sf_origin f, pr_target_countries = sf_covered f,
      pr_program_levels = sf_degrees f, pr_fields = sf_accepted_fields f\<rparr>"

definition filters_json :: "search_filters \<Rightarrow> dict" where
  "filters_json f =
     [(''origin_country'', JStr (sf_origin f)),
      (''target_countries'', jstrs (sorted_list_of_set (sf_covered f))),
      (''program_levels'', jstrs (sorted_list_of_set (sf_degrees f))),
      (''field'', jopt JStr (sf_field f))]"

definition coverage_warnings :: "search_filters \<Rightarrow> string list" where
  "coverage_warnings f =
     (if sf_uncovered f = {} then []
      else [''no_verified_coverage:'' @ join_with '','' (sorted_list_of_set (sf_uncovered f))])"

definition model_dump :: "search_result \<Rightarrow> pydict" where
  "model_dump r =
     [(''scholarship_id'', PUuid (re_scholarship_id r)),
      (''cycle_id'', PUuid (re_cycle_id r)),
      (''name'', PStr (re_name r)),
      (''provider'', PStr (re_provider r)),
      (''award_type'', PStr (re_award_type r)),
      (''status'', PStr (re_status r)),
      (''status_detail'', PStr (re_status_detail r)),
      (''fit'', PStr (re_fit r)),
      (''official_url'', PStr (re_official_url r)),
      (''last_verified_at'', case re_last_verified_at r of None \<Rightarrow> PNone | Some t \<Rightarrow> PDatetime t),
      (''eligibility_note'', case re_eligibility_note r of None \<Rightarrow> PNone | Some s \<Rightarrow> PStr s),
      (''field_names'', PList (map PStr (re_field_names r))),
      (''fields'', PList (map PStr (re_fields r))),
      (''programme_names'', PList (map PStr (re_programme_names r))),
      (''destinations'', PList (map PStr (re_destinations r))),
      (''deadline_at'', case re_deadline_at r of None \<Rightarrow> PNone | Some dl \<Rightarrow> PDatetime dl),
      (''deadline_precision'', case re_deadline_precision r of None \<Rightarrow> PNone | Some s \<Rightarrow> PStr s),
      (''degree_levels'', PList (map PStr (re_degree_levels r))),
      (''expected_reopen_month'', case re_expected_reopen_month r of None \<Rightarrow> PNone | Some m \<Rightarrow> PInt m),
      (''funding_type'', case re_funding_type r of None \<Rightarrow> PNone | Some s \<Rightarrow> PStr s),
      (''provider_country'', case re_provider_country r of None \<Rightarrow> PNone | Some s \<Rightarrow> PStr s),
      (''caveats'', PList (map PStr (re_caveats r)))]"

section \<open>The response\<close>

record search_response =
  rs_data :: "search_result list"
  rs_next_cursor :: "string option"
  rs_search_id :: uuid
  rs_response_id :: uuid
  rs_confirmed_counts :: "(string \<times> int) list"
  rs_possible_match_count :: int
  rs_warnings :: "string list"
  rs_set_cookie :: "string option"

text \<open>Where a request stands: a fresh search at offset 0, or the place its cursor carries.\<close>

definition search_position ::
  "stdlib \<Rightarrow> codec \<Rightarrow> settings \<Rightarrow> search_request \<Rightarrow> string \<Rightarrow> uuid \<Rightarrow> cursor_state response" where
  "search_position std cx st payload digest new_id =
     (case sq_cursor payload of
        None \<Rightarrow> Inr \<lparr>cs_offset = 0, cs_search_id = new_id\<rparr>
      | Some c \<Rightarrow>
          if c = [] then Inr \<lparr>cs_offset = 0, cs_search_id = new_id\<rparr>
          else try_call (\<lambda>e. case e of ValueError m \<Rightarrow> http_raise 400 m | _ \<Rightarrow> Unhandled e)
                 (decode_cursor std cx c digest (sq_limit payload) (cursor_secret st)))"

definition page_of :: "int \<Rightarrow> int \<Rightarrow> 'a list \<Rightarrow> 'a list" where
  "page_of offset limit matched = take (nat limit) (drop (nat offset) matched)"

definition completed_payload ::
  "uuid \<Rightarrow> uuid \<Rightarrow> dict \<Rightarrow> search_result list \<Rightarrow> dict" where
  "completed_payload search_id response_id filters matched =
     [(''search_id'', JStr (uuid_str search_id)), (''response_id'', JStr (uuid_str response_id)),
      (''filters'', JObj filters), (''total_match_count'', JInt (int (length matched))),
      (''confirmed_counts'', counts_json (confirmed_counts matched [])),
      (''possible_match_count'', JInt (possible_match_count matched)),
      (''match_policy_version'', JStr MATCH_POLICY_VERSION),
      (''taxonomy_version'', JStr (tx_version TAXONOMY))]"

text \<open>From the ranked matches to the response: the page, its cursor, its row and its event.\<close>

definition answer_page ::
  "stdlib \<Rightarrow> codec \<Rightarrow> settings \<Rightarrow> visit \<Rightarrow> search_request \<Rightarrow> search_filters \<Rightarrow> string list
   \<Rightarrow> anonymous_session \<Rightarrow> string option \<Rightarrow> cursor_state \<Rightarrow> search_result list \<Rightarrow> db
   \<Rightarrow> (search_response \<times> db) result" where
  "answer_page std cx st vi payload f warnings session ck pos matched d =
     (let offset = cs_offset pos; search_id = cs_search_id pos; limit = sq_limit payload;
          filters = filters_json f; digest = filter_digest cx filters;
          data = page_of offset limit matched;
          has_next_page = offset + limit < int (length matched);
          next_cursor = (if has_next_page
            then Some (encode_cursor cx (offset + limit) digest search_id limit (cursor_secret st))
            else None);
          page_number = offset div limit + 1;
          counts = confirmed_counts matched [];
          possible = possible_match_count matched;
          snapshot = build_result_snapshot std (map model_dump data) (vi_now vi) MATCH_POLICY_VERSION
            (tx_version TAXONOMY) page_number limit (int (length matched)) has_next_page warnings
            (Some counts) (Some possible)
      in bindE (record_search_response std
           \<lparr>pp_session_id = Some (se_id session), pp_search_id = search_id, pp_filters = filters,
            pp_filter_digest = digest, pp_snapshot = snapshot, pp_evaluated_at = vi_now vi,
            pp_page_number = page_number, pp_requested_limit = limit,
            pp_returned_count = int (length data), pp_total_match_count = int (length matched),
            pp_duration_ms = vi_duration_ms vi\<rparr> d) (\<lambda>(stored, d1).
         Inr (\<lparr>rs_data = data, rs_next_cursor = next_cursor, rs_search_id = search_id,
               rs_response_id = sr_id stored, rs_confirmed_counts = counts,
               rs_possible_match_count = possible, rs_warnings = warnings, rs_set_cookie = ck\<rparr>,
              if page_number = 1
              then enqueue_analytics_event (vi_now vi) ''scholarship_search_completed''
                     (''search_completed:'' @ uuid_str search_id)
                     (completed_payload search_id (sr_id stored) filters matched) d1
              else d1)))"

definition answer_422 :: "exn \<Rightarrow> http_error" where
  "answer_422 e = (case e of ValueError m \<Rightarrow> http_raise 422 m | _ \<Rightarrow> Unhandled e)"

text \<open>The route past its rate limit.\<close>

definition search_admitted ::
  "stdlib \<Rightarrow> codec \<Rightarrow> settings \<Rightarrow> visit \<Rightarrow> string option \<Rightarrow> search_request \<Rightarrow> db
   \<Rightarrow> (search_response \<times> db) response" where
  "search_admitted std cx st vi cookie payload d =
     bindH (try_call answer_422
              (normalize_search_filters (sq_origin_country payload) (sq_target_countries payload)
                 (sq_program_levels payload) (sq_field payload) (Some (load_vocabulary d)))) (\<lambda>f.
     bindH (plain_call (get_or_create_session (vi_now vi) (vi_token vi) cookie d)) (\<lambda>(session, ck, d1).
     let (new_id, d2) = new_uuid7 d1
     in bindH (search_position std cx st payload (filter_digest cx (filters_json f)) new_id) (\<lambda>pos.
        bindH (plain_call (ranked_matches std (profile_of f) (vi_now vi) d2)) (\<lambda>matched.
        plain_call (answer_page std cx st vi payload f
          (coverage_warnings f @ (if scan_truncated d2 then [''index_scan_truncated''] else []))
          session ck pos matched d2)))))"

text \<open>\<open>POST /search\<close>. The limiter is keyed on the client address, never on the cookie.\<close>

definition search_route ::
  "stdlib \<Rightarrow> codec \<Rightarrow> settings \<Rightarrow> visit \<Rightarrow> request \<Rightarrow> search_request \<Rightarrow> limiter \<Rightarrow> db
   \<Rightarrow> (search_response \<times> db) response \<times> limiter" where
  "search_route std cx st vi rq payload lm d =
     (let (admitted, lm') = admit_call (vi_clock vi) (client_key rq) (api_rate_limit_per_minute st)
                              ''Search rate limit exceeded'' lm
      in (bindH admitted (\<lambda>_. search_admitted std cx st vi (rq_cookie rq) payload d), lm'))"

section \<open>Lemmas: matching and ranking\<close>

lemma match_rows_set:
  "match_rows std p now d rows = Inr rs \<Longrightarrow>
     r \<in> set rs \<longleftrightarrow> (\<exists>row \<in> set rows. \<exists>dec. evaluate_match std p (cy_facts row) = Some dec
        \<and> search_result_of std d row dec now = Inr (Some r))"
proof (induction rows arbitrary: rs)
  case (Cons row rows)
  then show ?case
  proof (cases "evaluate_match std p (cy_facts row)")
    case (Some dec)
    with Cons.prems obtain found rest where f: "search_result_of std d row dec now = Inr found"
      and rest: "match_rows std p now d rows = Inr rest"
      and rs: "rs = (case found of None \<Rightarrow> rest | Some r \<Rightarrow> r # rest)"
      by (auto simp: bindE_eq_Inr)
    from Cons.IH [OF rest] show ?thesis by (cases found) (auto simp: f rs Some)
  qed auto
qed simp

lemma ranked_Inr:
  "ranked_matches std p now d = Inr rs \<longleftrightarrow>
     (\<exists>ms. match_rows std p now d (scanned_rows d) = Inr ms \<and> rs = sort_key (rank_key std now) ms)"
  by (auto simp: ranked_matches_def bindE_eq_Inr)

lemma ranked_set:
  "ranked_matches std p now d = Inr rs \<Longrightarrow>
     r \<in> set rs \<longleftrightarrow> (\<exists>row \<in> set (scanned_rows d). \<exists>dec. evaluate_match std p (cy_facts row) = Some dec
        \<and> search_result_of std d row dec now = Inr (Some r))"
  using match_rows_set by (fastforce simp: ranked_Inr)

lemma scanned_published: "row \<in> set (scanned_rows d) \<Longrightarrow> row \<in> set (cycles d) \<and> publicly_listed d row"
  by (auto simp: scanned_rows_def published_rows_def dest: in_set_takeD)

lemma detail_of_status:
  "evaluate_status_detail tz s dl p z m now = Inr x \<Longrightarrow>
     (s = Open_verified \<longrightarrow> x = ''open'' \<or> x = ''closing_soon'')
     \<and> (s = Expected_to_reopen \<longrightarrow> x = ''likely_to_open'') \<and> (s = Status_unknown \<longrightarrow> x = ''status_unknown'')"
  by (cases s) (auto simp: evaluate_status_detail_def bindE_eq_Inr split: option.split_asm if_split_asm)

lemma search_result_Some:
  assumes "search_result_of std d row dec now = Inr (Some r)"
  obtains status s p where
    "status_on_read std row (derive_facts std (cy_facts row)) now = Inr (status, re_status r)"
    "status \<noteq> Status_unknown" "loaded_parent d row = Inr (s, p)"
    "r = result_of (derive_facts std (cy_facts row)) row s p dec status (re_status r)"
proof -
  from assms obtain status detail s p where
    "status_on_read std row (derive_facts std (cy_facts row)) now = Inr (status, detail)"
    "status \<noteq> Status_unknown" "loaded_parent d row = Inr (s, p)"
    "r = result_of (derive_facts std (cy_facts row)) row s p dec status detail"
    by (auto simp: search_result_of_def bindE_eq_Inr Let_def split: if_split_asm)
  with that show thesis by (auto simp: result_of_def)
qed

lemma result_fit: "search_result_of std d row dec now = Inr (Some r) \<Longrightarrow> re_fit r = md_fit dec"
  by (erule search_result_Some) (metis result_of_def search_result.select_convs(8))

lemma matched_fit:
  assumes "ranked_matches std p now d = Inr rs" and "r \<in> set rs"
  shows "re_fit r = ''confirmed'' \<or> re_fit r = ''possible''"
proof -
  from assms obtain row dec where "evaluate_match std p (cy_facts row) = Some dec"
    "search_result_of std d row dec now = Inr (Some r)"
    by (auto simp: ranked_set)
  then show ?thesis
    using evaluate_match_Some [of std p "cy_facts row" dec] score_match_fit(1) [of std p "cy_facts row"]
    by (simp add: result_fit)
qed

text \<open>What \<open>open\<close> means to a visitor: confirmed open, and neither deadline nor evidence has run out.\<close>

definition really_open :: "stdlib \<Rightarrow> instant \<Rightarrow> cycle \<Rightarrow> bool" where
  "really_open std now row \<longleftrightarrow>
     cy_public_status row = Open_verified
     \<and> (case df_deadline_at (derive_facts std (cy_facts row)) of
          None \<Rightarrow> True
        | Some dl \<Rightarrow> \<exists>cutoff. deadline_cutoff (std_tz std) dl
              (df_deadline_precision (derive_facts std (cy_facts row)))
              (df_deadline_timezone (derive_facts std (cy_facts row))) = Inr cutoff \<and> now < cutoff)
     \<and> (case cy_status_valid_until row of None \<Rightarrow> True | Some u \<Rightarrow> now < u)"

lemma status_on_read_open:
  assumes "status_on_read std row (derive_facts std (cy_facts row)) now = Inr (status, x)"
    and "status \<noteq> Status_unknown"
  shows "(x = ''likely_to_open'' \<and> cy_public_status row = Expected_to_reopen)
     \<or> ((x = ''open'' \<or> x = ''closing_soon'') \<and> really_open std now row)"
proof -
  let ?df = "derive_facts std (cy_facts row)"
  from assms have e: "evaluate_public_status (std_tz std) (cy_public_status row) (df_deadline_at ?df)
        (cy_status_valid_until row) (df_deadline_precision ?df) (df_deadline_timezone ?df) now = Inr status"
    and x: "evaluate_status_detail (std_tz std) status (df_deadline_at ?df)
        (df_deadline_precision ?df) (df_deadline_timezone ?df) (df_expected_reopen_month ?df) now = Inr x"
    by (auto simp: status_on_read_def bindE_eq_Inr)
  show ?thesis
  proof (cases status)
    case Open_verified
    with e detail_of_status [OF x] show ?thesis by (simp add: evaluate_open_iff really_open_def)
  next
    case Expected_to_reopen
    with e detail_of_status [OF x] evaluate_cases [OF e] show ?thesis by simp
  qed (simp add: assms(2))
qed

lemma confirmed_counts_sum:
  "sum_list (map snd (confirmed_counts rs counts))
     = sum_list (map snd counts) + int (length (filter (\<lambda>r. re_fit r = ''confirmed'') rs))"
proof (induction rs arbitrary: counts)
  case (Cons r rs)
  have "sum_list (map snd (AList.update k ((case map_of cs k of None \<Rightarrow> 0 | Some n \<Rightarrow> n) + 1) cs))
      = sum_list (map snd cs) + (1 :: int)" for k :: string and cs :: "(string \<times> int) list"
    by (induction cs) (auto split: option.split)
  with Cons show ?case by simp
qed simp

section \<open>Properties: what a search shows\<close>


text \<open>C4.
  Nothing misleading is shown: every result is a cycle of a published scholarship, and it is shown as
  open or closing soon only if its stored status is open, its deadline (if any) lies ahead and its
  evidence has not expired; otherwise it is shown as likely to open.
\<close>

theorem shown_as_open_is_open:
  assumes "ranked_matches std profile now d = Inr rs" and "r \<in> set rs"
  shows "\<exists>row \<in> set (cycles d). cy_id row = re_cycle_id r \<and> publicly_listed d row
     \<and> ((re_status r = ''likely_to_open'' \<and> cy_public_status row = Expected_to_reopen)
        \<or> (re_status r \<in> {''open'', ''closing_soon''} \<and> really_open std now row))"
proof -
  from assms obtain row dec where row: "row \<in> set (scanned_rows d)"
    and r: "search_result_of std d row dec now = Inr (Some r)"
    by (auto simp: ranked_set)
  from r show ?thesis
  proof (rule search_result_Some)
    fix status s p
    assume s: "status_on_read std row (derive_facts std (cy_facts row)) now = Inr (status, re_status r)"
      "status \<noteq> Status_unknown"
      and eq: "r = result_of (derive_facts std (cy_facts row)) row s p dec status (re_status r)"
    have "re_cycle_id r = cy_id row" by (subst eq) (simp add: result_of_def)
    with status_on_read_open [OF s] scanned_published [OF row] show ?thesis by auto
  qed
qed

text \<open>C3.
  The totals a search reports describe its whole result: the confirmed counts and the possible count
  add up to the number of matches.
\<close>

theorem reported_counts_add_up:
  assumes "ranked_matches std profile now d = Inr rs"
  shows "sum_list (map snd (confirmed_counts rs [])) + possible_match_count rs = int (length rs)"
proof -
  have "filter (\<lambda>r. re_fit r = ''possible'') rs = filter (\<lambda>r. re_fit r \<noteq> ''confirmed'') rs"
    using matched_fit [OF assms] by (intro filter_cong) auto
  then show ?thesis
    using sum_length_filter_compl [of "\<lambda>r. re_fit r = ''confirmed''" rs]
    by (simp add: confirmed_counts_sum possible_match_count_def flip: of_nat_add)
qed

section \<open>Paging\<close>

text \<open>What a search reads of the catalogue; its own writes leave it alone.\<close>

definition same_listing :: "db \<Rightarrow> db \<Rightarrow> bool" where
  "same_listing d d' \<longleftrightarrow>
     providers d' = providers d \<and> scholarships d' = scholarships d \<and> cycles d' = cycles d
     \<and> countries d' = countries d"

lemma search_result_cong:
  "same_listing d d' \<Longrightarrow> search_result_of std d' = search_result_of std d"
proof -
  assume "same_listing d d'"
  then have "loaded_parent d' = loaded_parent d" by (intro ext) (simp add: loaded_parent_def same_listing_def split: option.split)
  then show ?thesis unfolding search_result_of_def by (intro ext) (simp only:)
qed

lemma match_rows_cong:
  "same_listing d d' \<Longrightarrow> match_rows std p now d' rows = match_rows std p now d rows"
  by (induction rows) (simp_all add: search_result_cong split: option.split)

lemma scanned_cong: "same_listing d d' \<Longrightarrow> scanned_rows d' = scanned_rows d"
proof -
  assume same: "same_listing d d'"
  then have "publicly_listed d' = publicly_listed d" by (intro ext) (simp add: publicly_listed_def same_listing_def)
  with same show ?thesis by (simp add: scanned_rows_def published_rows_def same_listing_def)
qed

lemma ranked_cong: "same_listing d d' \<Longrightarrow> ranked_matches std p now d' = ranked_matches std p now d"
  by (simp add: ranked_matches_def match_rows_cong scanned_cong)

lemma vocabulary_cong: "same_listing d d' \<Longrightarrow> load_vocabulary d' = load_vocabulary d"
  by (simp add: load_vocabulary_def same_listing_def)

lemma enqueue_event_visitors [frame_simps]:
  "countries (enqueue_analytics_event now ty k p d) = countries d"
  "sessions (enqueue_analytics_event now ty k p d) = sessions d"
  "searches (enqueue_analytics_event now ty k p d) = searches d"
  by (simp_all add: enqueue_analytics_event_def new_uuid7_def Let_def)

lemma record_total:
  assumes "pp_snapshot p = build_result_snapshot std rs t mp tv pn rl tm hn ws cc pm"
  shows "\<exists>r d'. record_search_response std p d = Inr (r, d')"
  by (simp add: assms record_search_response_def build_result_snapshot_def snapshot_meta_def item_def
      new_uuid7_def Let_def split: option.split)

lemma answer_page_total:
  "\<exists>r d'. answer_page std cx st vi payload f ws session ck pos matched d = Inr (r, d')
     \<and> rs_data r = page_of (cs_offset pos) (sq_limit payload) matched
     \<and> rs_next_cursor r =
         (if cs_offset pos + sq_limit payload < int (length matched)
          then Some (encode_cursor cx (cs_offset pos + sq_limit payload) (filter_digest cx (filters_json f))
                       (cs_search_id pos) (sq_limit payload) (cursor_secret st))
          else None)
     \<and> rs_set_cookie r = ck \<and> same_listing d d' \<and> sessions d' = sessions d"
  (is "\<exists>r d'. ?answer = Inr (r, d') \<and> _")
proof -
  let ?page = "\<lparr>pp_session_id = Some (se_id session), pp_search_id = cs_search_id pos,
      pp_filters = filters_json f, pp_filter_digest = filter_digest cx (filters_json f),
      pp_snapshot = build_result_snapshot std
        (map model_dump (page_of (cs_offset pos) (sq_limit payload) matched)) (vi_now vi)
        MATCH_POLICY_VERSION (tx_version TAXONOMY) (cs_offset pos div sq_limit payload + 1)
        (sq_limit payload) (int (length matched)) (cs_offset pos + sq_limit payload < int (length matched))
        ws (Some (confirmed_counts matched [])) (Some (possible_match_count matched)),
      pp_evaluated_at = vi_now vi, pp_page_number = cs_offset pos div sq_limit payload + 1,
      pp_requested_limit = sq_limit payload,
      pp_returned_count = int (length (page_of (cs_offset pos) (sq_limit payload) matched)),
      pp_total_match_count = int (length matched), pp_duration_ms = vi_duration_ms vi\<rparr>"
  obtain row d1 where w: "record_search_response std ?page d = Inr (row, d1)"
    using record_total [of ?page] by fastforce
  from record_frame [OF w] show ?thesis
    by (simp add: answer_page_def Let_def w same_listing_def frame_simps)
qed

text \<open>A client that follows the cursors, keeping the cookie it is given; \<open>None\<close> is out of fuel.\<close>

fun walk ::
  "nat \<Rightarrow> (string option \<Rightarrow> string option \<Rightarrow> db \<Rightarrow> (search_response \<times> db) response)
   \<Rightarrow> string option \<Rightarrow> string option \<Rightarrow> db \<Rightarrow> search_result list response option" where
  "walk 0 call cursor cookie d = None"
| "walk (Suc n) call cursor cookie d =
     (case call cursor cookie d of
        Inl e \<Rightarrow> Some (Inl e)
      | Inr (r, d') \<Rightarrow>
          (case rs_next_cursor r of
             None \<Rightarrow> Some (Inr (rs_data r))
           | Some c \<Rightarrow>
               map_option (\<lambda>rest. bindH rest (\<lambda>xs. Inr (rs_data r @ xs)))
                 (walk n call (Some c)
                    (case rs_set_cookie r of None \<Rightarrow> cookie | Some t \<Rightarrow> Some t) d')))"

definition ask_page ::
  "stdlib \<Rightarrow> codec \<Rightarrow> settings \<Rightarrow> visit \<Rightarrow> search_request \<Rightarrow> string option \<Rightarrow> string option \<Rightarrow> db
   \<Rightarrow> (search_response \<times> db) response" where
  "ask_page std cx st vi payload cursor cookie d =
     search_admitted std cx st vi cookie (payload\<lparr>sq_cursor := cursor\<rparr>) d"

text \<open>One page of a search whose filters, session and matches are known.\<close>

lemma ask_page:
  assumes f: "normalize_search_filters (sq_origin_country p) (sq_target_countries p)
      (sq_program_levels p) (sq_field p) (Some (load_vocabulary d)) = Inr f"
    and m: "ranked_matches std (profile_of f) (vi_now vi) d = Inr matched"
    and s: "get_or_create_session (vi_now vi) (vi_token vi) cookie d = Inr (session, ck, d1)"
    and pos: "search_position std cx st (p\<lparr>sq_cursor := cursor\<rparr>) (filter_digest cx (filters_json f))
      (next_id d1) = Inr pos"
  shows "\<exists>r d'. ask_page std cx st vi p cursor cookie d = Inr (r, d')
     \<and> rs_data r = page_of (cs_offset pos) (sq_limit p) matched
     \<and> rs_next_cursor r =
         (if cs_offset pos + sq_limit p < int (length matched)
          then Some (encode_cursor cx (cs_offset pos + sq_limit p) (filter_digest cx (filters_json f))
                       (cs_search_id pos) (sq_limit p) (cursor_secret st))
          else None)
     \<and> rs_set_cookie r = ck \<and> same_listing d d' \<and> sessions d' = sessions d1"
proof -
  let ?d2 = "d1\<lparr>next_id := Suc (next_id d1)\<rparr>"
  have same: "same_listing d ?d2"
    using get_or_create_frame [OF s] by (simp add: same_listing_def)
  then have m2: "ranked_matches std (profile_of f) (vi_now vi) ?d2 = Inr matched"
    using m by (simp add: ranked_cong [OF same])
  let ?ws = "coverage_warnings f @ (if scan_truncated ?d2 then [''index_scan_truncated''] else [])"
  from answer_page_total [of std cx st vi "p\<lparr>sq_cursor := cursor\<rparr>" f ?ws session ck pos matched ?d2] same
  show ?thesis
    by (auto simp: ask_page_def search_admitted_def f s pos m2 new_uuid7_def Let_def same_listing_def)
qed

lemma page_then_rest:
  "0 \<le> o' \<Longrightarrow> 0 \<le> l \<Longrightarrow> page_of o' l xs @ drop (nat (o' + l)) xs = drop (nat o') xs"
  by (simp add: page_of_def nat_add_distrib add.commute flip: drop_drop)

lemma known_session:
  "get_existing_session now cookie d \<noteq> None \<Longrightarrow>
     \<exists>s. get_or_create_session now token cookie d = Inr (s, None, d)"
  by (auto simp: get_or_create_session_def)

lemma existing_cong: "sessions d' = sessions d \<Longrightarrow> get_existing_session now c d' = get_existing_session now c d"
  by (simp add: get_existing_session_def)

text \<open>Following the cursor of any offset yields the rest of the ranked matches.\<close>

lemma walk_rest:
  assumes cx: "codec_laws cx" and l: "1 \<le> sq_limit p" and sid: "sid < 16 ^ 32"
    and f: "normalize_search_filters (sq_origin_country p) (sq_target_countries p)
      (sq_program_levels p) (sq_field p) (Some (load_vocabulary d)) = Inr f"
    and m: "ranked_matches std (profile_of f) (vi_now vi) d = Inr matched"
    and s: "get_existing_session (vi_now vi) cookie d \<noteq> None"
    and o: "0 \<le> o'" "o' \<le> int (length matched)" "length matched < n + nat o'"
  shows "walk n (ask_page std cx st vi p) (Some (encode_cursor cx o' (filter_digest cx (filters_json f)) sid
      (sq_limit p) (cursor_secret st))) cookie d = Some (Inr (drop (nat o') matched))"
  using f m s o
proof (induction n arbitrary: d o')
  case (Suc n)
  let ?fd = "filter_digest cx (filters_json f)"
  let ?cursor = "\<lambda>o'. encode_cursor cx o' ?fd sid (sq_limit p) (cursor_secret st)"
  obtain session where se: "get_or_create_session (vi_now vi) (vi_token vi) cookie d = Inr (session, None, d)"
    using known_session [OF Suc.prems(3)] by blast
  have pos: "search_position std cx st (p\<lparr>sq_cursor := Some (?cursor o')\<rparr>) ?fd (next_id d)
      = Inr \<lparr>cs_offset = o', cs_search_id = sid\<rparr>"
    using decode_minted [OF cx Suc.prems(4) sid] by (simp add: search_position_def encode_cursor_nonempty [OF cx])
  from ask_page [OF Suc.prems(1) Suc.prems(2) se pos] obtain r d' where
    r: "ask_page std cx st vi p (Some (?cursor o')) cookie d = Inr (r, d')"
      "rs_data r = page_of o' (sq_limit p) matched"
      "rs_next_cursor r = (if o' + sq_limit p < int (length matched) then Some (?cursor (o' + sq_limit p)) else None)"
      "rs_set_cookie r = None"
    and same: "same_listing d d'" "sessions d' = sessions d"
    by auto
  have "walk n (ask_page std cx st vi p) (Some (?cursor (o' + sq_limit p))) cookie d'
      = Some (Inr (drop (nat (o' + sq_limit p)) matched))" if "o' + sq_limit p < int (length matched)"
    using that Suc.prems l
    by (intro Suc.IH) (simp_all add: vocabulary_cong [OF same(1)] ranked_cong [OF same(1)]
        existing_cong [OF same(2)])
  then show ?case
    using r page_then_rest [of o' "sq_limit p" matched] Suc.prems(4) l
    by (simp add: nat_le_iff page_of_def split: if_split)
qed simp


section \<open>A concrete search\<close>

definition demo_search_db :: db where
  "demo_search_db = empty_db
     \<lparr>providers := [\<lparr>pv_id = 1, pv_name = ''Trust'', pv_approved_domains = [], pv_country = None\<rparr>],
      scholarships := [\<lparr>sch_id = 2, sch_provider_id = 1, sch_slug = ''llm'', sch_name = ''LLM'',
        sch_official_home_url = ''u'', sch_award_type = ''scholarship'', sch_lifecycle_state = Published,
        sch_current_published_revision_id = None\<rparr>],
      cycles := [\<lparr>cy_id = 3, cy_scholarship_id = 2, cy_provider_cycle_key = ''2026'',
        cy_applicant_segment = ''all'', cy_official_cycle_url = ''u'', cy_public_status = Open_verified,
        cy_status_valid_until = None, cy_last_verified_at = None, cy_facts = demo_facts,
        cy_source_page_id = None, cy_auto_downgraded = False, cy_is_auto_approved = False,
        cy_auto_approval_score = None, cy_created_at = 0\<rparr>],
      next_id := 4\<rparr>"

definition demo_filters :: search_filters where
  "demo_filters =
     \<lparr>sf_origin = ''NG'', sf_covered = {''GB''}, sf_uncovered = {}, sf_degrees = {''doctorate''},
      sf_field = Some ''law'', sf_accepted_fields = Some {''law''}\<rparr>"

definition demo_request :: search_request where
  "demo_request =
     \<lparr>sq_origin_country = ''ng'', sq_program_levels = [''PhD''], sq_field = Some ''Law'',
      sq_target_countries = ['' gb ''], sq_limit = 20, sq_cursor = None\<rparr>"

definition demo_visit :: visit where
  "demo_visit = \<lparr>vi_now = 0, vi_clock = 0, vi_token = ''t'', vi_duration_ms = 3\<rparr>"

lemma demo_filters_ok:
  "normalize_search_filters (sq_origin_country demo_request) (sq_target_countries demo_request)
     (sq_program_levels demo_request) (sq_field demo_request) (Some (load_vocabulary demo_search_db))
     = Inr demo_filters"
  by (auto simp: normalize_search_filters_def demo_request_def demo_search_db_def empty_db_def
      load_vocabulary_def default_vocabulary_def SEED_COUNTRIES_def SUPPORTED_DESTINATIONS_def origin_def
      string_eval demo_resolve demo_filters_def Let_def)

lemma demo_profile_of: "profile_of demo_filters = demo_profile"
  by (simp add: profile_of_def demo_filters_def demo_profile_def)

lemma demo_derived:
  "df_deadline_at (derive_facts demo_std demo_facts) = Some (Naive 7)"
  "df_deadline_precision (derive_facts demo_std demo_facts) = ''date''"
  "df_deadline_timezone (derive_facts demo_std demo_facts) = Some ''Europe/London''"
  unfolding derive_sel
  by (simp_all add: demo_facts_def safe_deadline_at_def clamp_literal_def demo_std_def
      demo_fromisoformat_def demo_sign_def Let_def)

lemma demo_status:
  assumes "cy_facts row = demo_facts" "cy_public_status row = Open_verified" "cy_status_valid_until row = None"
  shows "status_on_read demo_std row (derive_facts demo_std demo_facts) 0 = Inr (Open_verified, ''closing_soon'')"
proof -
  have "deadline_cutoff (std_tz demo_std) (Naive 7) ''date'' (Some ''Europe/London'') = Inr (82799000000 :: int)"
    by (simp add: deadline_cutoff_def demo_std_def demo_tz_def date_of_def end_of_day_def duration_defs)
  then show ?thesis
    by (simp add: status_on_read_def assms demo_derived evaluate_public_status_def evaluate_status_detail_def
        CLOSING_SOON_WINDOW_DAYS_def duration_defs)
qed

lemma demo_ranked:
  obtains r where "ranked_matches demo_std demo_profile 0 demo_search_db = Inr [r]"
    "re_cycle_id r = 3" "re_status r = ''closing_soon''"
proof -
  have rows: "scanned_rows demo_search_db = cycles demo_search_db"
    by (simp add: scanned_rows_def published_rows_def demo_search_db_def empty_db_def publicly_listed_def
        SEARCH_SCAN_LIMIT_def)
  obtain row where row: "cycles demo_search_db = [row]" "cy_facts row = demo_facts" "cy_id row = 3"
    "cy_public_status row = Open_verified" "cy_status_valid_until row = None" "cy_scholarship_id row = 2"
    by (simp add: demo_search_db_def)
  obtain s p where "loaded_parent demo_search_db row = Inr (s, p)"
    by (simp add: loaded_parent_def row demo_search_db_def)
  then have "search_result_of demo_std demo_search_db row dec 0
      = Inr (Some (result_of (derive_facts demo_std demo_facts) row s p dec Open_verified ''closing_soon''))" for dec
    by (simp add: search_result_of_def row demo_status)
  then show thesis
    by (intro that) (simp_all add: ranked_matches_def rows row demo_match, simp_all add: result_of_def row)
qed


theorem shown_as_open_is_open_witness:
  "\<exists>row \<in> set (cycles demo_search_db). publicly_listed demo_search_db row \<and> really_open demo_std 0 row"
proof -
  obtain r where r: "ranked_matches demo_std demo_profile 0 demo_search_db = Inr [r]" "re_status r = ''closing_soon''"
    by (rule demo_ranked)
  from shown_as_open_is_open [OF r(1), of r] r(2) show ?thesis by auto
qed

theorem reported_counts_add_up_witness:
  "\<exists>rs. ranked_matches demo_std demo_profile 0 demo_search_db = Inr rs
     \<and> sum_list (map snd (confirmed_counts rs [])) + possible_match_count rs = 1"
proof -
  obtain r where r: "ranked_matches demo_std demo_profile 0 demo_search_db = Inr [r]" by (rule demo_ranked)
  from reported_counts_add_up [OF r] r show ?thesis by simp
qed

lemma demo_ask:
  obtains r first d1 where "ranked_matches demo_std demo_profile 0 demo_search_db = Inr [r]"
    "ask_page demo_std demo_codec demo_live demo_visit demo_request None None demo_search_db = Inr (first, d1)"
    "rs_set_cookie first = Some ''t''" "sessions d1 = [new_session 0 ''t'' 4]" "same_listing demo_search_db d1"
proof -
  obtain r where r: "ranked_matches demo_std demo_profile 0 demo_search_db = Inr [r]" by (rule demo_ranked)
  then have m: "ranked_matches demo_std (profile_of demo_filters) (vi_now demo_visit) demo_search_db = Inr [r]"
    by (simp add: demo_profile_of demo_visit_def)
  have "get_or_create_session (vi_now demo_visit) (vi_token demo_visit) None demo_search_db
      = Inr (new_session 0 ''t'' 4, Some ''t'', demo_search_db\<lparr>sessions := [new_session 0 ''t'' 4], next_id := 5\<rparr>)"
    by (simp add: get_or_create_session_def get_existing_session_def demo_visit_def demo_search_db_def
        empty_db_def new_uuid7_def Let_def)
  from ask_page [OF demo_filters_ok m this, of demo_codec demo_live None]
  show thesis using that [OF r] by (auto simp: search_position_def)
qed


end
