(* ===== verification/Replay.thy ===== *)
theory Replay
  imports Search
begin

text \<open>
  Replaying a stored search (\<open>get_search\<close> and \<open>_replay_search\<close> of \<open>src/src/app/api/routes.py\<close>):
  the session check, the stored first page, the filter to what is still published, and pydantic's
  reading of the stored objects as \<open>SearchResult\<close> (\<open>src/src/app/api/schemas.py\<close>). Pydantic's
  scalar parsers are the record \<open>pydlib\<close>; a response that does not validate is \<open>None\<close>.
\<close>

section \<open>Reading a stored result\<close>

record pydlib =
  pd_datetime :: "json \<Rightarrow> datetime option"
  pd_uuid :: "json \<Rightarrow> uuid option"
  pd_int :: "json \<Rightarrow> int option"

fun str_field :: "json \<Rightarrow> string option" where
  "str_field (JStr s) = Some s"
| "str_field _ = None"

fun all_some :: "'a option list \<Rightarrow> 'a list option" where
  "all_some [] = Some []"
| "all_some (x # xs) =
     (case (x, all_some xs) of (Some y, Some ys) \<Rightarrow> Some (y # ys) | _ \<Rightarrow> None)"

fun str_list_field :: "json \<Rightarrow> string list option" where
  "str_list_field (JList xs) = all_some (map str_field xs)"
| "str_list_field _ = None"

definition literal_field :: "string list \<Rightarrow> json \<Rightarrow> string option" where
  "literal_field allowed v = (case v of JStr s \<Rightarrow> if s \<in> set allowed then Some s else None | _ \<Rightarrow> None)"

definition month_field :: "pydlib \<Rightarrow> json \<Rightarrow> int option" where
  "month_field pd v = (case pd_int pd v of None \<Rightarrow> None | Some m \<Rightarrow> if 1 \<le> m \<and> m \<le> 12 then Some m else None)"

text \<open>A required field, an optional one that defaults to null, and a list that defaults to empty.\<close>

definition required :: "(json \<Rightarrow> 'a option) \<Rightarrow> dict \<Rightarrow> string \<Rightarrow> 'a option" where
  "required parse d k = Option.bind (map_of d k) parse"

definition nullable :: "(json \<Rightarrow> 'a option) \<Rightarrow> dict \<Rightarrow> string \<Rightarrow> 'a option option" where
  "nullable parse d k =
     (case map_of d k of
        None \<Rightarrow> Some None
      | Some v \<Rightarrow> if v = JNull then Some None else map_option Some (parse v))"

definition list_field :: "dict \<Rightarrow> string \<Rightarrow> string list option" where
  "list_field d k = (case map_of d k of None \<Rightarrow> Some [] | Some v \<Rightarrow> str_list_field v)"

definition bindO :: "'a option \<Rightarrow> ('a \<Rightarrow> 'b option) \<Rightarrow> 'b option" where
  "bindO = Option.bind"

lemma bindO_Some [simp]: "bindO (Some x) f = f x"
  by (simp add: bindO_def)

definition read_result :: "pydlib \<Rightarrow> dict \<Rightarrow> search_result option" where
  "read_result pd d =
     bindO (required (pd_uuid pd) d ''scholarship_id'') (\<lambda>sid.
     bindO (required (pd_uuid pd) d ''cycle_id'') (\<lambda>cid.
     bindO (required str_field d ''name'') (\<lambda>name.
     bindO (required str_field d ''provider'') (\<lambda>prov.
     bindO (required str_field d ''award_type'') (\<lambda>award.
     bindO (required str_field d ''status'') (\<lambda>status.
     bindO (required str_field d ''status_detail'') (\<lambda>detail.
     bindO (required (literal_field [''confirmed'', ''possible'']) d ''fit'') (\<lambda>fit.
     bindO (required str_field d ''official_url'') (\<lambda>url.
     bindO (nullable (pd_datetime pd) d ''last_verified_at'') (\<lambda>verified.
     bindO (nullable str_field d ''eligibility_note'') (\<lambda>note.
     bindO (list_field d ''field_names'') (\<lambda>fnames.
     bindO (list_field d ''fields'') (\<lambda>flds.
     bindO (list_field d ''programme_names'') (\<lambda>progs.
     bindO (list_field d ''destinations'') (\<lambda>dests.
     bindO (nullable (pd_datetime pd) d ''deadline_at'') (\<lambda>dl.
     bindO (nullable (literal_field [''date'', ''datetime'']) d ''deadline_precision'') (\<lambda>prec.
     bindO (list_field d ''degree_levels'') (\<lambda>levels.
     bindO (nullable (month_field pd) d ''expected_reopen_month'') (\<lambda>month.
     bindO (nullable str_field d ''funding_type'') (\<lambda>funding.
     bindO (nullable str_field d ''provider_country'') (\<lambda>ctry.
     bindO (list_field d ''caveats'') (\<lambda>cavs.
     Some \<lparr>re_scholarship_id = sid, re_cycle_id = cid, re_name = name, re_provider = prov,
           re_award_type = award, re_status = status, re_status_detail = detail, re_fit = fit,
           re_official_url = url, re_last_verified_at = verified, re_eligibility_note = note,
           re_field_names = fnames, re_fields = flds, re_programme_names = progs,
           re_destinations = dests, re_deadline_at = dl, re_deadline_precision = prec,
           re_degree_levels = levels, re_expected_reopen_month = month, re_funding_type = funding,
           re_provider_country = ctry, re_caveats = cavs\<rparr>))))))))))))))))))))))"

fun counts_field :: "pydlib \<Rightarrow> json \<Rightarrow> (string \<times> int) list option" where
  "counts_field pd (JObj kvs) = all_some (map (\<lambda>(k, v). map_option (\<lambda>n. (k, n)) (pd_int pd v)) kvs)"
| "counts_field pd _ = None"

section \<open>The replay\<close>

record search_replay =
  rp_data :: "search_result list"
  rp_next_cursor :: "string option"
  rp_search_id :: uuid
  rp_response_id :: uuid
  rp_evaluated_at :: instant
  rp_match_policy_version :: string
  rp_taxonomy_version :: string
  rp_confirmed_counts :: "(string \<times> int) list option"
  rp_possible_match_count :: "int option"
  rp_warnings :: "string list"
  rp_filters :: dict

text \<open>\<open>for item in value\<close> over a decoded value, and \<open>uuid.UUID(value)\<close>.\<close>

definition iterate :: "json \<Rightarrow> json list result" where
  "iterate v =
     (case v of
        JList xs \<Rightarrow> Inr xs
      | JObj kvs \<Rightarrow> Inr (map (\<lambda>kv. JStr (fst kv)) kvs)
      | JStr s \<Rightarrow> Inr (map (\<lambda>c. JStr [c]) s)
      | _ \<Rightarrow> Inl TypeError)"

definition parse_uuid_value :: "json \<Rightarrow> uuid result" where
  "parse_uuid_value v =
     (case v of JStr s \<Rightarrow> uuid_parse s | JNull \<Rightarrow> Inl TypeError | _ \<Rightarrow> Inl AttributeError)"

text \<open>A member of a set must be hashable: a list or a dict raises.\<close>

fun hashable :: "json \<Rightarrow> bool" where
  "hashable (JList _) = False"
| "hashable (JObj _) = False"
| "hashable _ = True"

definition named_ids :: "json list \<Rightarrow> json list result" where
  "named_ids items =
     mapE (\<lambda>i. bindE (item i ''scholarship_id'') (\<lambda>v. bindE (guardE (hashable v) TypeError) (\<lambda>_. Inr v))) items"

definition still_published :: "db \<Rightarrow> uuid \<Rightarrow> bool" where
  "still_published d sid =
     (\<exists>s \<in> set (scholarships d). sch_id s = sid \<and> sch_lifecycle_state s = Published)"

definition kept_items :: "db \<Rightarrow> uuid list \<Rightarrow> (json \<times> json) list \<Rightarrow> json list" where
  "kept_items d ids items =
     map fst (filter (\<lambda>(i, v). v \<in> (\<lambda>u. JStr (uuid_str u)) ` {u \<in> set ids. still_published d u}) items)"

text \<open>The document handed to pydantic, and the validated response.\<close>

definition object_field :: "json \<Rightarrow> dict option" where
  "object_field v = (case v of JObj d \<Rightarrow> Some d | _ \<Rightarrow> None)"

definition validate_replay ::
  "pydlib \<Rightarrow> search_row \<Rightarrow> json list \<Rightarrow> string option \<Rightarrow> json \<Rightarrow> json \<Rightarrow> json \<Rightarrow> search_replay option" where
  "validate_replay pd stored data next_cursor counts possible warns =
     bindO (all_some (map (\<lambda>i. bindO (object_field i) (read_result pd)) data)) (\<lambda>rs.
     bindO (if counts = JNull then Some None else map_option Some (counts_field pd counts)) (\<lambda>cc.
     bindO (if possible = JNull then Some None else map_option Some (pd_int pd possible)) (\<lambda>pm.
     bindO (str_list_field warns) (\<lambda>ws.
     Some \<lparr>rp_data = rs, rp_next_cursor = next_cursor, rp_search_id = sr_search_id stored,
           rp_response_id = sr_id stored, rp_evaluated_at = sr_evaluated_at stored,
           rp_match_policy_version = sr_match_policy_version stored,
           rp_taxonomy_version = sr_taxonomy_version stored, rp_confirmed_counts = cc,
           rp_possible_match_count = pm, rp_warnings = ws, rp_filters = sr_filters stored\<rparr>))))"

text \<open>\<open>value.get(key)\<close> of a decoded value: only a dict has the method.\<close>

definition get_method :: "json \<Rightarrow> string \<Rightarrow> json result" where
  "get_method v k = (case v of JObj d \<Rightarrow> Inr (dget d k) | _ \<Rightarrow> Inl AttributeError)"

definition replay_search ::
  "pydlib \<Rightarrow> codec \<Rightarrow> settings \<Rightarrow> db \<Rightarrow> search_row \<Rightarrow> search_replay option result" where
  "replay_search pd cx st d stored =
     (let snapshot = JObj (sr_result_snapshot stored)
      in bindE (bindE (item snapshot ''data'') iterate) (\<lambda>items.
         bindE (named_ids items) (\<lambda>named.
         bindE (mapE parse_uuid_value named) (\<lambda>ids.
         bindE (bindE (item snapshot ''pagination'') (\<lambda>p. item p ''has_next_page'')) (\<lambda>more.
         let next_cursor = (if truthy more
               then Some (encode_cursor cx (sr_requested_limit stored) (sr_filter_digest stored)
                            (sr_search_id stored) (sr_requested_limit stored) (cursor_secret st))
               else None)
         in bindE (item snapshot ''meta'') (\<lambda>meta.
            bindE (get_method meta ''confirmed_counts'') (\<lambda>counts.
            bindE (get_method meta ''possible_match_count'') (\<lambda>possible.
            bindE (item meta ''warnings'') (\<lambda>warns.
            Inr (validate_replay pd stored (kept_items d ids (zip items named)) next_cursor
                   counts possible warns))))))))))"

section \<open>The route\<close>

definition not_found :: http_error where
  "not_found = http_raise 404 ''Search not found''"

definition stored_first_page :: "instant \<Rightarrow> uuid \<Rightarrow> uuid \<Rightarrow> db \<Rightarrow> search_row option" where
  "stored_first_page now search_id session_id d =
     find (\<lambda>r. sr_search_id r = search_id \<and> sr_session_id r = Some session_id \<and> sr_page_number r = 1
              \<and> (case sr_expires_at r of None \<Rightarrow> False | Some t \<Rightarrow> t > now)) (searches d)"

text \<open>The \<open>except\<close> clause around the replay: a row that cannot be read is a missing one.\<close>

definition unusable_is_missing :: "exn \<Rightarrow> http_error" where
  "unusable_is_missing e = (case e of KeyError \<Rightarrow> not_found | TypeError \<Rightarrow> not_found | _ \<Rightarrow> Unhandled e)"

definition replay_admitted ::
  "pydlib \<Rightarrow> codec \<Rightarrow> settings \<Rightarrow> instant \<Rightarrow> string option \<Rightarrow> uuid \<Rightarrow> db \<Rightarrow> search_replay response" where
  "replay_admitted pd cx st now cookie search_id d =
     (case get_existing_session now cookie d of
        None \<Rightarrow> Inl not_found
      | Some session \<Rightarrow>
          (case stored_first_page now search_id (se_id session) d of
             None \<Rightarrow> Inl not_found
           | Some stored \<Rightarrow>
               bindH (try_call unusable_is_missing (replay_search pd cx st d stored)) (\<lambda>r.
               case r of None \<Rightarrow> Inl not_found | Some replay \<Rightarrow> Inr replay)))"

definition get_search_route ::
  "pydlib \<Rightarrow> codec \<Rightarrow> settings \<Rightarrow> visit \<Rightarrow> request \<Rightarrow> uuid \<Rightarrow> limiter \<Rightarrow> db
   \<Rightarrow> search_replay response \<times> limiter" where
  "get_search_route pd cx st vi rq search_id lm d =
     (let (admitted, lm') = admit_call (vi_clock vi) (client_key rq) (api_rate_limit_per_minute st)
                              ''Search replay rate limit exceeded'' lm
      in (bindH admitted (\<lambda>_. replay_admitted pd cx st (vi_now vi) (rq_cookie rq) search_id d), lm'))"

section \<open>Lemmas: storing and reading back\<close>

text \<open>The documented behaviour of the scalar parsers on what the service itself rendered.\<close>

definition pyd_laws :: "stdlib \<Rightarrow> pydlib \<Rightarrow> bool" where
  "pyd_laws std pd \<longleftrightarrow>
     (\<forall>t. pd_datetime pd (JStr (std_isoformat std t)) = Some t)
     \<and> (\<forall>u. u < 16 ^ 32 \<longrightarrow> pd_uuid pd (JStr (uuid_str u)) = Some u)
     \<and> (\<forall>n. pd_int pd (JInt n) = Some n)"

definition valid_result :: "search_result \<Rightarrow> bool" where
  "valid_result r \<longleftrightarrow>
     re_scholarship_id r < 16 ^ 32 \<and> re_cycle_id r < 16 ^ 32
     \<and> re_fit r \<in> {''confirmed'', ''possible''}
     \<and> (\<forall>x. re_deadline_precision r = Some x \<longrightarrow> x \<in> {''date'', ''datetime''})
     \<and> (\<forall>m. re_expected_reopen_month r = Some m \<longrightarrow> 1 \<le> m \<and> m \<le> 12)"

lemma stored_dump:
  "stored_result std (model_dump r) = map (\<lambda>kv. (fst kv, plain std (snd kv))) (model_dump r)"
proof -
  have "map fst (model_dump r) = ALLOWED_RESULT_KEYS
      \<or> set (map fst (model_dump r)) \<subseteq> set ALLOWED_RESULT_KEYS"
    by (simp add: model_dump_def ALLOWED_RESULT_KEYS_def)
  then have "\<forall>kv \<in> set (model_dump r). fst kv \<in> set ALLOWED_RESULT_KEYS"
    by (metis (no_types, lifting) image_eqI list.set_map subset_iff)
  then show ?thesis by (simp add: stored_result_def)
qed

lemma dump_get:
  "map_of (stored_result std (model_dump r)) ''scholarship_id'' = Some (JStr (uuid_str (re_scholarship_id r)))"
  "map_of (stored_result std (model_dump r)) ''cycle_id'' = Some (JStr (uuid_str (re_cycle_id r)))"
  "map_of (stored_result std (model_dump r)) ''name'' = Some (JStr (re_name r))"
  "map_of (stored_result std (model_dump r)) ''provider'' = Some (JStr (re_provider r))"
  "map_of (stored_result std (model_dump r)) ''award_type'' = Some (JStr (re_award_type r))"
  "map_of (stored_result std (model_dump r)) ''status'' = Some (JStr (re_status r))"
  "map_of (stored_result std (model_dump r)) ''status_detail'' = Some (JStr (re_status_detail r))"
  "map_of (stored_result std (model_dump r)) ''fit'' = Some (JStr (re_fit r))"
  "map_of (stored_result std (model_dump r)) ''official_url'' = Some (JStr (re_official_url r))"
  "map_of (stored_result std (model_dump r)) ''last_verified_at''
     = Some (jopt (\<lambda>t. JStr (std_isoformat std t)) (re_last_verified_at r))"
  "map_of (stored_result std (model_dump r)) ''eligibility_note'' = Some (jopt JStr (re_eligibility_note r))"
  "map_of (stored_result std (model_dump r)) ''field_names'' = Some (jstrs (re_field_names r))"
  "map_of (stored_result std (model_dump r)) ''fields'' = Some (jstrs (re_fields r))"
  "map_of (stored_result std (model_dump r)) ''programme_names'' = Some (jstrs (re_programme_names r))"
  "map_of (stored_result std (model_dump r)) ''destinations'' = Some (jstrs (re_destinations r))"
  "map_of (stored_result std (model_dump r)) ''deadline_at''
     = Some (jopt (\<lambda>t. JStr (std_isoformat std t)) (re_deadline_at r))"
  "map_of (stored_result std (model_dump r)) ''deadline_precision'' = Some (jopt JStr (re_deadline_precision r))"
  "map_of (stored_result std (model_dump r)) ''degree_levels'' = Some (jstrs (re_degree_levels r))"
  "map_of (stored_result std (model_dump r)) ''expected_reopen_month'' = Some (jopt JInt (re_expected_reopen_month r))"
  "map_of (stored_result std (model_dump r)) ''funding_type'' = Some (jopt JStr (re_funding_type r))"
  "map_of (stored_result std (model_dump r)) ''provider_country'' = Some (jopt JStr (re_provider_country r))"
  "map_of (stored_result std (model_dump r)) ''caveats'' = Some (jstrs (re_caveats r))"
  unfolding stored_dump
  by (simp_all add: model_dump_def jopt_def jstrs_def split: option.split)

lemma all_some_map: "(\<And>x. x \<in> set xs \<Longrightarrow> f x = Some (g x)) \<Longrightarrow> all_some (map f xs) = Some (map g xs)"
  by (induction xs) auto

lemma str_list_jstrs [simp]: "str_list_field (jstrs xs) = Some xs"
  using all_some_map [of xs "str_field \<circ> JStr" id] by (simp add: jstrs_def)

lemma nullable_jopt:
  "map_of d k = Some (jopt f x) \<Longrightarrow> (\<And>y. x = Some y \<Longrightarrow> f y \<noteq> JNull \<and> parse (f y) = Some y) \<Longrightarrow>
     nullable parse d k = Some x"
  by (cases x) (auto simp: nullable_def)

lemma read_model_dump:
  assumes "pyd_laws std pd" and "valid_result r"
  shows "read_result pd (stored_result std (model_dump r)) = Some r"
proof -
  let ?d = "stored_result std (model_dump r)"
  have "nullable (pd_datetime pd) ?d ''last_verified_at'' = Some (re_last_verified_at r)"
    "nullable str_field ?d ''eligibility_note'' = Some (re_eligibility_note r)"
    "nullable (pd_datetime pd) ?d ''deadline_at'' = Some (re_deadline_at r)"
    "nullable (literal_field [''date'', ''datetime'']) ?d ''deadline_precision'' = Some (re_deadline_precision r)"
    "nullable (month_field pd) ?d ''expected_reopen_month'' = Some (re_expected_reopen_month r)"
    "nullable str_field ?d ''funding_type'' = Some (re_funding_type r)"
    "nullable str_field ?d ''provider_country'' = Some (re_provider_country r)"
    using assms
    by - (rule nullable_jopt, rule dump_get, auto simp: pyd_laws_def valid_result_def literal_field_def month_field_def)+
  moreover have "pd_uuid pd (JStr (uuid_str (re_scholarship_id r))) = Some (re_scholarship_id r)"
    "pd_uuid pd (JStr (uuid_str (re_cycle_id r))) = Some (re_cycle_id r)"
    using assms by (auto simp: pyd_laws_def valid_result_def)
  moreover have "literal_field [''confirmed'', ''possible''] (JStr (re_fit r)) = Some (re_fit r)"
    using assms(2) by (auto simp: literal_field_def valid_result_def)
  ultimately show ?thesis
    by (simp add: read_result_def required_def list_field_def dump_get)
qed

lemma counts_field_json [simp]:
  "pyd_laws std pd \<Longrightarrow> counts_field pd (counts_json cs) = Some cs"
  using all_some_map [of cs "(\<lambda>(k, v). map_option (\<lambda>n. (k, n)) (pd_int pd v)) \<circ> (\<lambda>(k, n). (k, JInt n))" id]
  by (auto simp: counts_json_def pyd_laws_def)

text \<open>Every result a search shows can be read back.\<close>

definition ids_bounded :: "db \<Rightarrow> bool" where
  "ids_bounded d \<longleftrightarrow>
     (\<forall>row \<in> set (cycles d). cy_id row < 16 ^ 32 \<and> cy_scholarship_id row < 16 ^ 32)"

lemma derived_literals:
  "public_deadline_precision (derive_facts std f) = Some x \<Longrightarrow> x \<in> {''date'', ''datetime''}"
  "df_expected_reopen_month (derive_facts std f) = Some m \<Longrightarrow> 1 \<le> m \<and> m \<le> 12"
  by (auto simp: public_deadline_precision_def derive_sel clamp_literal_def reopen_month_def
      split: option.split_asm json.split_asm if_split_asm)

lemma ranked_valid:
  assumes "ranked_matches std p now d = Inr rs" and "ids_bounded d" and "r \<in> set rs"
  shows "valid_result r"
proof -
  from assms(1,3) obtain row dec where row: "row \<in> set (scanned_rows d)"
    and r: "search_result_of std d row dec now = Inr (Some r)"
    by (auto simp: ranked_set)
  from r obtain status s q where
    eq: "r = result_of (derive_facts std (cy_facts row)) row s q dec status (re_status r)"
    by (rule search_result_Some)
  have "re_scholarship_id r = cy_scholarship_id row" "re_cycle_id r = cy_id row"
    "re_deadline_precision r = public_deadline_precision (derive_facts std (cy_facts row))"
    "re_expected_reopen_month r = df_expected_reopen_month (derive_facts std (cy_facts row))"
    by (subst eq, simp add: result_of_def)+
  then show ?thesis
    using scanned_published [OF row] assms(2) matched_fit [OF assms(1,3)] derived_literals [of std "cy_facts row"]
    by (auto simp: valid_result_def ids_bounded_def)
qed

lemma named_dumps:
  "named_ids (map (JObj \<circ> stored_result std) (map model_dump rs))
     = Inr (map (\<lambda>r. JStr (uuid_str (re_scholarship_id r))) rs)"
  unfolding named_ids_def map_map
  by (induction rs) (simp_all add: item_def dump_get guardE_def)

lemma parsed_ids:
  "\<forall>r \<in> set rs. valid_result r \<Longrightarrow>
     mapE parse_uuid_value (map (\<lambda>r. JStr (uuid_str (re_scholarship_id r))) rs) = Inr (map re_scholarship_id rs)"
  by (induction rs) (simp_all add: parse_uuid_value_def uuid_roundtrip valid_result_def)

lemma uuid_member:
  assumes "u < 16 ^ 32" and "\<forall>v \<in> V. v < 16 ^ 32"
  shows "JStr (uuid_str u) \<in> (\<lambda>v. JStr (uuid_str v)) ` V \<longleftrightarrow> u \<in> V"
  using assms uuid_str_inj [OF assms(1)] by auto

lemma kept_dumps:
  assumes "\<forall>r \<in> set rs. valid_result r"
  shows "kept_items d (map re_scholarship_id rs)
      (zip (map (JObj \<circ> stored_result std) (map model_dump rs)) (map (\<lambda>r. JStr (uuid_str (re_scholarship_id r))) rs))
     = map (JObj \<circ> stored_result std \<circ> model_dump) (filter (\<lambda>r. still_published d (re_scholarship_id r)) rs)"
proof -
  let ?V = "{u \<in> set (map re_scholarship_id rs). still_published d u}"
  have "JStr (uuid_str (re_scholarship_id r)) \<in> (\<lambda>u. JStr (uuid_str u)) ` ?V
      \<longleftrightarrow> still_published d (re_scholarship_id r)" if "r \<in> set rs" for r
    using that assms by (subst uuid_member) (auto simp: valid_result_def)
  then show ?thesis
    by (auto simp: kept_items_def zip_map1 zip_map2 filter_map o_def zip_same_conv_map cong: filter_cong)
qed

lemma read_kept:
  assumes "pyd_laws std pd" and "\<forall>r \<in> set rs. valid_result r"
  shows "all_some (map (\<lambda>i. bindO (object_field i) (read_result pd)) (map (JObj \<circ> stored_result std \<circ> model_dump) rs))
     = Some rs"
  using all_some_map [of rs "(\<lambda>i. bindO (object_field i) (read_result pd)) \<circ> (JObj \<circ> stored_result std \<circ> model_dump)" id]
    assms by (simp add: object_field_def read_model_dump o_def)

text \<open>A stored page, replayed against a later catalogue.\<close>

lemma replay_stored:
  assumes pd: "pyd_laws std pd" and v: "\<forall>r \<in> set rs. valid_result r"
    and snap: "sr_result_snapshot row = build_result_snapshot std (map model_dump rs) t mp tv pn rl tm nxt ws
        (Some counts) (Some possible)"
  shows "replay_search pd cx st d row = Inr (Some
     \<lparr>rp_data = filter (\<lambda>r. still_published d (re_scholarship_id r)) rs,
      rp_next_cursor = (if nxt then Some (encode_cursor cx (sr_requested_limit row) (sr_filter_digest row)
          (sr_search_id row) (sr_requested_limit row) (cursor_secret st)) else None),
      rp_search_id = sr_search_id row, rp_response_id = sr_id row, rp_evaluated_at = sr_evaluated_at row,
      rp_match_policy_version = sr_match_policy_version row, rp_taxonomy_version = sr_taxonomy_version row,
      rp_confirmed_counts = Some counts, rp_possible_match_count = Some possible, rp_warnings = ws,
      rp_filters = sr_filters row\<rparr>)"
proof -
  let ?items = "map (JObj \<circ> stored_result std) (map model_dump rs)"
  let ?kept = "filter (\<lambda>r. still_published d (re_scholarship_id r)) rs"
  have data: "bindE (item (JObj (sr_result_snapshot row)) ''data'') iterate = Inr ?items"
    and nxt: "bindE (item (JObj (sr_result_snapshot row)) ''pagination'') (\<lambda>p. item p ''has_next_page'')
      = Inr (JBool nxt)"
    and meta: "item (JObj (sr_result_snapshot row)) ''meta''
      = Inr (JObj (snapshot_meta std (map model_dump rs) t mp tv tm ws (Some counts) (Some possible)))"
    by (simp_all add: snap build_result_snapshot_def item_def iterate_def)
  let ?meta = "JObj (snapshot_meta std (map model_dump rs) t mp tv tm ws (Some counts) (Some possible))"
  have fields: "get_method ?meta ''confirmed_counts'' = Inr (counts_json counts)"
    "get_method ?meta ''possible_match_count'' = Inr (JInt possible)" "item ?meta ''warnings'' = Inr (jstrs ws)"
    by (simp_all add: get_method_def snapshot_meta_def item_def)
  have "all_some (map (\<lambda>i. bindO (object_field i) (read_result pd)) (map (JObj \<circ> stored_result std \<circ> model_dump) ?kept))
      = Some ?kept"
    using v by (intro read_kept [OF pd]) auto
  moreover have "counts_json counts \<noteq> JNull" by (simp add: counts_json_def)
  moreover have "pd_int pd (JInt possible) = Some possible" using pd by (simp add: pyd_laws_def)
  ultimately show ?thesis
    unfolding replay_search_def Let_def data nxt meta
    by (simp add: named_dumps parsed_ids [OF v] kept_dumps [OF v] fields validate_replay_def
        counts_field_json [OF pd] del: map_map)
qed

text \<open>The row behind a first page, and the response it was returned with.\<close>

lemma ask_stores:
  assumes ok: "searches_ok d" and l: "1 \<le> sq_limit p"
    and ask_page: "ask_page std cx st vi p None cookie d = Inr (r, d1)"
  obtains f session d0 matched row ws where
    "ranked_matches std (profile_of f) (vi_now vi) d = Inr matched"
    "get_or_create_session (vi_now vi) (vi_token vi) cookie d = Inr (session, rs_set_cookie r, d0)"
    "sessions d1 = sessions d0" "searches_ok d1"
    "filter (page_row (rs_search_id r) 1) (searches d1) = [row]"
    "rs_data r = page_of 0 (sq_limit p) matched"
    "rs_next_cursor r = (if sq_limit p < int (length matched) then Some (encode_cursor cx (sq_limit p)
       (sr_filter_digest row) (rs_search_id r) (sq_limit p) (cursor_secret st)) else None)"
    "sr_id row = rs_response_id r" "sr_search_id row = rs_search_id r" "sr_page_number row = 1"
    "sr_session_id row = Some (se_id session)" "sr_requested_limit row = sq_limit p"
    "sr_expires_at row = Some (vi_now vi + SEARCH_RETENTION)"
    "sr_result_snapshot row = build_result_snapshot std (map model_dump (rs_data r)) (vi_now vi)
       MATCH_POLICY_VERSION (tx_version TAXONOMY) 1 (sq_limit p) (int (length matched))
       (sq_limit p < int (length matched)) ws (Some (rs_confirmed_counts r)) (Some (rs_possible_match_count r))"
    "rs_warnings r = ws"
proof -
  from ask_page obtain f session ck d0 matched ws where
    s: "get_or_create_session (vi_now vi) (vi_token vi) cookie d = Inr (session, ck, d0)"
    and m0: "ranked_matches std (profile_of f) (vi_now vi) (d0\<lparr>next_id := Suc (next_id d0)\<rparr>) = Inr matched"
    and a: "answer_page std cx st vi (p\<lparr>sq_cursor := None\<rparr>) f ws session ck
        \<lparr>cs_offset = 0, cs_search_id = next_id d0\<rparr> matched (d0\<lparr>next_id := Suc (next_id d0)\<rparr>) = Inr (r, d1)"
    by (auto simp: ask_page_def search_admitted_def search_position_def bindH_eq_Inr try_call_eq new_uuid7_def Let_def)
  let ?d = "d0\<lparr>next_id := Suc (next_id d0)\<rparr>"
  note frame = get_or_create_frame [OF s]
  have same: "same_listing d ?d" using frame by (simp add: same_listing_def)
  have okd: "searches_ok ?d" using ok frame by (auto simp: searches_ok_def)
  from a obtain stored d2 where w: "record_search_response std
       \<lparr>pp_session_id = Some (se_id session), pp_search_id = next_id d0, pp_filters = filters_json f,
        pp_filter_digest = filter_digest cx (filters_json f),
        pp_snapshot = build_result_snapshot std (map model_dump (page_of 0 (sq_limit p) matched)) (vi_now vi)
          MATCH_POLICY_VERSION (tx_version TAXONOMY) 1 (sq_limit p) (int (length matched))
          (sq_limit p < int (length matched)) ws (Some (confirmed_counts matched []))
          (Some (possible_match_count matched)),
        pp_evaluated_at = vi_now vi, pp_page_number = 1, pp_requested_limit = sq_limit p,
        pp_returned_count = int (length (page_of 0 (sq_limit p) matched)),
        pp_total_match_count = int (length matched), pp_duration_ms = vi_duration_ms vi\<rparr> ?d = Inr (stored, d2)"
      (is "record_search_response std ?p ?d = _")
    and r: "rs_data r = page_of 0 (sq_limit p) matched" "rs_set_cookie r = ck" "rs_warnings r = ws"
      "rs_search_id r = next_id d0" "rs_response_id r = sr_id stored"
      "rs_confirmed_counts r = confirmed_counts matched []" "rs_possible_match_count r = possible_match_count matched"
      "rs_next_cursor r = (if sq_limit p < int (length matched) then Some (encode_cursor cx (sq_limit p)
       (filter_digest cx (filters_json f)) (next_id d0) (sq_limit p) (cursor_secret st)) else None)"
    and d1: "searches d1 = searches d2" "sessions d1 = sessions d2" "next_id d2 \<le> next_id d1"
    using l by (auto simp: answer_page_def Let_def bindE_eq_Inr frame_simps enqueue_analytics_event_def new_uuid7_def)
  obtain mp tv where row: "stored = written_row std ?p mp tv (sr_id stored)"
    using w by (cases rule: record_cases) auto
  have cols: "sr_search_id stored = next_id d0" "sr_page_number stored = 1"
    "sr_session_id stored = Some (se_id session)" "sr_requested_limit stored = sq_limit p"
    "sr_filter_digest stored = filter_digest cx (filters_json f)"
    "sr_expires_at stored = Some (vi_now vi + SEARCH_RETENTION)" "sr_result_snapshot stored = pp_snapshot ?p"
    by (subst row, simp add: written_row_def)+
  show thesis
  proof (rule that)
    show "ranked_matches std (profile_of f) (vi_now vi) d = Inr matched" using m0 ranked_cong [OF same] by simp
    show "get_or_create_session (vi_now vi) (vi_token vi) cookie d = Inr (session, rs_set_cookie r, d0)"
      using s r by simp
    show "sessions d1 = sessions d0" using d1 record_frame [OF w] by simp
    show "searches_ok d1" using record_page(1) [OF okd w] d1 by (auto simp: searches_ok_def)
    show "filter (page_row (rs_search_id r) 1) (searches d1) = [stored]"
      using record_page(2) [OF okd w] d1 r by simp
  qed (use r cols in simp_all)
qed

definition sessions_ok :: "db \<Rightarrow> bool" where
  "sessions_ok d \<longleftrightarrow> distinct (map se_pseudonymous_id (sessions d))"

lemma get_or_create_sessions_ok:
  "get_or_create_session now token cookie d = Inr (s, ck, d') \<Longrightarrow> sessions_ok d \<Longrightarrow>
     sessions_ok d' \<and> s \<in> set (sessions d')
     \<and> Some (se_pseudonymous_id s) = (case ck of None \<Rightarrow> cookie | Some t \<Rightarrow> Some t)"
  by (auto simp: get_or_create_session_def new_uuid7_def Let_def sessions_ok_def new_session_def
      split: option.split_asm if_split_asm dest: get_existing_session_live)

lemma find_unique: "filter P xs = [x] \<Longrightarrow> Q x \<Longrightarrow> (\<And>y. Q y \<Longrightarrow> P y) \<Longrightarrow> find Q xs = Some x"
proof (cases "find Q xs")
  case None
  moreover assume "filter P xs = [x]" "Q x"
  moreover from this(1) have "x \<in> set xs" using filter_is_subset [of P xs] by simp
  ultimately show ?thesis by (auto simp: find_None_iff)
next
  case (Some y)
  assume "filter P xs = [x]" "\<And>y. Q y \<Longrightarrow> P y"
  moreover from this(2) Some have "y \<in> set (filter P xs)" by (auto simp: find_Some_iff)
  ultimately show ?thesis using Some by simp
qed

text \<open>The cookie a visitor holds after a response.\<close>

definition held_cookie :: "string option \<Rightarrow> search_response \<Rightarrow> string option" where
  "held_cookie cookie r = (case rs_set_cookie r of None \<Rightarrow> cookie | Some t \<Rightarrow> Some t)"

lemma page_of_subset: "set (page_of n l xs) \<subseteq> set xs"
  by (auto simp: page_of_def dest: in_set_takeD in_set_dropD)

lemma read_result_id:
  "read_result pd o' = Some x \<Longrightarrow> \<exists>v. map_of o' ''scholarship_id'' = Some v \<and> pd_uuid pd v = Some (re_scholarship_id x)"
  unfolding read_result_def bindO_def required_def bind_eq_Some_conv by auto

lemma all_some_set: "all_some (map f xs) = Some ys \<Longrightarrow> y \<in> set ys \<Longrightarrow> \<exists>x \<in> set xs. f x = Some y"
  by (induction xs arbitrary: ys) (auto split: option.split_asm)

lemma named_items:
  "named_ids items = Inr vs \<Longrightarrow> (i, v) \<in> set (zip items vs) \<Longrightarrow> item i ''scholarship_id'' = Inr v"
  unfolding named_ids_def
  by (induction items arbitrary: vs) (auto simp: bindE_eq_Inr)

lemma replayed_published:
  assumes "pyd_laws std pd" and "\<forall>s \<in> set (scholarships d). sch_id s < 16 ^ 32"
    and "replay_search pd cx st d row = Inr (Some replay)" and "x \<in> set (rp_data replay)"
  shows "still_published d (re_scholarship_id x)"
proof -
  from assms(3) obtain items vs ids n c w ws where vs: "named_ids items = Inr vs"
    and v: "validate_replay pd row (kept_items d ids (zip items vs)) n c w ws = Some replay"
    unfolding replay_search_def Let_def bindE_eq_Inr by blast
  from v have "all_some (map (\<lambda>i. bindO (object_field i) (read_result pd)) (kept_items d ids (zip items vs)))
      = Some (rp_data replay)"
    by (auto simp: validate_replay_def bindO_def bind_eq_Some_conv)
  from all_some_set [OF this assms(4)] obtain i where i: "i \<in> set (kept_items d ids (zip items vs))"
    "bindO (object_field i) (read_result pd) = Some x"
    by blast
  then obtain o' where o': "i = JObj o'" "read_result pd o' = Some x"
    by (auto simp: bindO_def bind_eq_Some_conv object_field_def split: json.split_asm)
  from i obtain v u where "(i, v) \<in> set (zip items vs)" "v = JStr (uuid_str u)" "still_published d u"
    by (auto simp: kept_items_def)
  moreover from this(3) assms(1,2) have "pd_uuid pd (JStr (uuid_str u)) = Some u"
    by (auto simp: still_published_def pyd_laws_def)
  ultimately show ?thesis
    using named_items [OF vs] read_result_id [OF o'(2)] o'(1) by (fastforce simp: item_def)
qed

lemma first_page_replays:
  assumes "pyd_laws std pd" and "searches_ok d" and "sessions_ok d" and "ids_bounded d" and "1 \<le> sq_limit p"
    and "ask_page std cx st vi p None cookie d = Inr (r, d1)"
    and "searches d2 = searches d1" and "sessions d2 = sessions d1"
    and "now < vi_now vi + SEARCH_RETENTION"
    and "get_existing_session now (held_cookie cookie r) d2 \<noteq> None"
  shows "\<exists>replay. replay_admitted pd cx st now (held_cookie cookie r) (rs_search_id r) d2 = Inr replay
     \<and> rp_data replay = filter (\<lambda>x. still_published d2 (re_scholarship_id x)) (rs_data r)
     \<and> rp_next_cursor replay = rs_next_cursor r \<and> rp_response_id replay = rs_response_id r
     \<and> rp_confirmed_counts replay = Some (rs_confirmed_counts r)
     \<and> rp_possible_match_count replay = Some (rs_possible_match_count r)
     \<and> rp_warnings replay = rs_warnings r"
  using assms(2,5,6)
proof (rule ask_stores)
  fix f session d0 matched row ws
  assume m: "ranked_matches std (profile_of f) (vi_now vi) d = Inr matched"
    and s: "get_or_create_session (vi_now vi) (vi_token vi) cookie d = Inr (session, rs_set_cookie r, d0)"
    and d1: "sessions d1 = sessions d0" "filter (page_row (rs_search_id r) 1) (searches d1) = [row]"
    and r: "rs_data r = page_of 0 (sq_limit p) matched" "rs_warnings r = ws"
      "rs_next_cursor r = (if sq_limit p < int (length matched) then Some (encode_cursor cx (sq_limit p)
         (sr_filter_digest row) (rs_search_id r) (sq_limit p) (cursor_secret st)) else None)"
    and row: "sr_id row = rs_response_id r" "sr_search_id row = rs_search_id r" "sr_page_number row = 1"
      "sr_session_id row = Some (se_id session)" "sr_requested_limit row = sq_limit p"
      "sr_expires_at row = Some (vi_now vi + SEARCH_RETENTION)"
    and snap: "sr_result_snapshot row = build_result_snapshot std (map model_dump (rs_data r)) (vi_now vi)
       MATCH_POLICY_VERSION (tx_version TAXONOMY) 1 (sq_limit p) (int (length matched))
       (sq_limit p < int (length matched)) ws (Some (rs_confirmed_counts r)) (Some (rs_possible_match_count r))"
  note ses = get_or_create_sessions_ok [OF s assms(3)]
  from assms(10) obtain s' where s': "get_existing_session now (held_cookie cookie r) d2 = Some s'" by blast
  have "s' = session"
    using get_existing_session_live [OF s'] ses assms(8) d1(1)
    by (auto simp: sessions_ok_def held_cookie_def distinct_map dest: inj_onD)
  moreover have "stored_first_page now (rs_search_id r) (se_id session) d2 = Some row"
    unfolding stored_first_page_def assms(7)
    by (rule find_unique [OF d1(2)]) (use row assms(9) in \<open>auto simp: page_row_def\<close>)
  moreover have "\<forall>x \<in> set (rs_data r). valid_result x"
    using ranked_valid [OF m assms(4)] page_of_subset [of 0 "sq_limit p" matched] r(1) by auto
  note replay_stored [OF assms(1) this snap, of cx st d2]
  ultimately show ?thesis by (simp add: replay_admitted_def s' row r)
qed

section \<open>Properties\<close>

text \<open>C33.
  A search can be reopened as it was: as long as its visitor's session lives and the page is retained,
  the replay of its first page returns the stored results in their order, those of scholarships no
  longer published left out, with the same next cursor, counts and warnings, whatever has happened to
  the catalogue since.
\<close>

theorem replay_shows_the_stored_page:
  assumes "pyd_laws std pd" and "searches_ok d" and "sessions_ok d" and "ids_bounded d" and "1 \<le> sq_limit p"
    and "ask_page std cx st vi p None cookie d = Inr (r, d1)"
    and "searches d2 = searches d1" and "sessions d2 = sessions d1"
    and "now < vi_now vi + SEARCH_RETENTION"
    and "get_existing_session now (held_cookie cookie r) d2 \<noteq> None"
  shows "\<exists>replay. replay_admitted pd cx st now (held_cookie cookie r) (rs_search_id r) d2 = Inr replay
     \<and> rp_data replay = filter (\<lambda>x. still_published d2 (re_scholarship_id x)) (rs_data r)
     \<and> rp_next_cursor replay = rs_next_cursor r \<and> rp_response_id replay = rs_response_id r
     \<and> rp_confirmed_counts replay = Some (rs_confirmed_counts r)
     \<and> rp_possible_match_count replay = Some (rs_possible_match_count r)
     \<and> rp_warnings replay = rs_warnings r"
  using assms by (rule first_page_replays)

text \<open>C32.
  A replay is private and never shows a withdrawn scholarship: it answers only the live session that
  ran the search, from its retained first page, and every result it shows is published now.
\<close>

theorem replay_is_owned_and_published:
  assumes "pyd_laws std pd" and "\<forall>s \<in> set (scholarships d). sch_id s < 16 ^ 32"
    and "replay_admitted pd cx st now cookie search_id d = Inr replay"
  shows "\<exists>s row. get_existing_session now cookie d = Some s \<and> row \<in> set (searches d)
     \<and> sr_search_id row = search_id \<and> sr_session_id row = Some (se_id s)
     \<and> (\<exists>t. sr_expires_at row = Some t \<and> now < t)
     \<and> (\<forall>x \<in> set (rp_data replay). still_published d (re_scholarship_id x))"
proof -
  from assms(3) obtain s row where s: "get_existing_session now cookie d = Some s"
    and row: "stored_first_page now search_id (se_id s) d = Some row"
    and r: "replay_search pd cx st d row = Inr (Some replay)"
    by (auto simp: replay_admitted_def bindH_eq_Inr try_call_eq split: option.split_asm)
  from row have "row \<in> set (searches d)" "sr_search_id row = search_id" "sr_session_id row = Some (se_id s)"
    "\<exists>t. sr_expires_at row = Some t \<and> now < t"
    by (auto simp: stored_first_page_def find_Some_iff split: option.split_asm)
  with s replayed_published [OF assms(1,2) r] show ?thesis by blast
qed

text \<open>C37.
  A stored row whose scholarship id is no UUID is not treated as missing: the \<open>ValueError\<close> of
  \<open>uuid.UUID\<close> is none of the classes the route catches, so the request fails with it.
\<close>

theorem malformed_stored_id_escapes:
  assumes "get_existing_session now cookie d = Some s"
    and "stored_first_page now search_id (se_id s) d = Some row"
    and "dget (sr_result_snapshot row) ''data'' = JList [JObj [(''scholarship_id'', JStr i)]]"
    and "uuid_parse i = Inl e"
  shows "replay_admitted pd cx st now cookie search_id d = Inl (Unhandled e) \<and> (\<exists>m. e = ValueError m)"
proof -
  from assms(3) have "map_of (sr_result_snapshot row) ''data'' = Some (JList [JObj [(''scholarship_id'', JStr i)]])"
    by (simp add: dget_def split: option.split_asm)
  then have "replay_search pd cx st d row = Inl e"
    by (simp add: replay_search_def Let_def item_def iterate_def named_ids_def guardE_def parse_uuid_value_def assms(4))
  moreover obtain m where "e = ValueError m"
    using assms(4) by (auto simp: uuid_parse_def Let_def split: if_split_asm option.split_asm)
  ultimately show ?thesis by (simp add: replay_admitted_def assms(1,2) unusable_is_missing_def)
qed

section \<open>A concrete replay\<close>

definition demo_pydantic :: pydlib where
  "demo_pydantic =
     \<lparr>pd_datetime = (\<lambda>v. case v of JStr s \<Rightarrow> demo_fromisoformat s | _ \<Rightarrow> None),
      pd_uuid = (\<lambda>v. case v of JStr s \<Rightarrow> (case uuid_parse s of Inl _ \<Rightarrow> None | Inr u \<Rightarrow> Some u) | _ \<Rightarrow> None),
      pd_int = (\<lambda>v. case v of JInt n \<Rightarrow> Some n | _ \<Rightarrow> None)\<rparr>"

lemma demo_pydantic_laws: "pyd_laws demo_std demo_pydantic"
  using demo_std_roundtrip
  by (simp add: pyd_laws_def demo_pydantic_def iso_roundtrip_def uuid_roundtrip) (simp add: demo_std_def)

lemma demo_search_ok: "searches_ok demo_search_db" "sessions_ok demo_search_db" "ids_bounded demo_search_db"
  "1 \<le> sq_limit demo_request"
  by (simp_all add: searches_ok_def sessions_ok_def ids_bounded_def demo_search_db_def empty_db_def demo_request_def)

lemma demo_live_session:
  "sessions d = [new_session 0 ''t'' 4] \<Longrightarrow> get_existing_session 5 (Some ''t'') d \<noteq> None"
  using get_existing_session_finds [of "new_session 0 ''t'' 4" d 5]
  by (simp add: new_session_def SESSION_TTL_def duration_defs)

theorem replay_shows_the_stored_page_witness:
  "\<exists>r d1 replay. ask_page demo_std demo_codec demo_live demo_visit demo_request None None demo_search_db = Inr (r, d1)
     \<and> replay_admitted demo_pydantic demo_codec demo_live 5 (Some ''t'') (rs_search_id r) d1 = Inr replay
     \<and> rp_next_cursor replay = rs_next_cursor r"
proof -
  obtain r d1 where a: "ask_page demo_std demo_codec demo_live demo_visit demo_request None None demo_search_db = Inr (r, d1)"
    "rs_set_cookie r = Some ''t''" "sessions d1 = [new_session 0 ''t'' 4]"
    by (rule demo_ask)
  have "5 < vi_now demo_visit + SEARCH_RETENTION" by (simp add: demo_visit_def SEARCH_RETENTION_def duration_defs)
  from replay_shows_the_stored_page [OF demo_pydantic_laws demo_search_ok a(1) refl refl this]
  show ?thesis using demo_live_session [OF a(3)] a by (fastforce simp: held_cookie_def)
qed

theorem replay_is_owned_and_published_witness:
  "\<exists>d1 row sid. row \<in> set (searches d1) \<and> sr_session_id row = Some sid
     \<and> get_existing_session 5 (Some ''t'') d1 \<noteq> None"
proof -
  obtain r d1 where a: "ask_page demo_std demo_codec demo_live demo_visit demo_request None None demo_search_db = Inr (r, d1)"
    "rs_set_cookie r = Some ''t''" "sessions d1 = [new_session 0 ''t'' 4]" "same_listing demo_search_db d1"
    by (rule demo_ask)
  have "5 < vi_now demo_visit + SEARCH_RETENTION" by (simp add: demo_visit_def SEARCH_RETENTION_def duration_defs)
  from first_page_replays [OF demo_pydantic_laws demo_search_ok a(1) refl refl this]
  obtain replay where "replay_admitted demo_pydantic demo_codec demo_live 5 (Some ''t'') (rs_search_id r) d1
      = Inr replay"
    using demo_live_session [OF a(3)] a(2) by (auto simp: held_cookie_def)
  from replay_is_owned_and_published [OF demo_pydantic_laws _ this] a(4) show ?thesis
    by (auto simp: same_listing_def demo_search_db_def)
qed

definition demo_broken :: db where
  "demo_broken = empty_db
     \<lparr>sessions := [new_session 0 ''t'' 4],
      searches := [written_row demo_std (demo_response\<lparr>pp_session_id := Some 4,
        pp_snapshot := [(''data'', JList [JObj [(''scholarship_id'', JStr ''x'')]])]\<rparr>) ''m'' ''v'' 5]\<rparr>"

theorem malformed_stored_id_escapes_witness:
  "replay_admitted demo_pydantic demo_codec demo_live 5 (Some ''t'') 2 demo_broken
     = Inl (Unhandled (ValueError ''badly formed hexadecimal UUID string''))"
proof -
  have "get_existing_session 5 (Some ''t'') demo_broken = Some (new_session 0 ''t'' 4)"
    by (simp add: get_existing_session_def demo_broken_def new_session_def SESSION_TTL_def duration_defs)
  moreover obtain row where "stored_first_page 5 2 (se_id (new_session 0 ''t'' 4)) demo_broken = Some row"
    "dget (sr_result_snapshot row) ''data'' = JList [JObj [(''scholarship_id'', JStr ''x'')]]"
    by (simp add: stored_first_page_def demo_broken_def written_row_def demo_response_def new_session_def
        SEARCH_RETENTION_def duration_defs)
  moreover have "uuid_parse ''x'' = Inl (ValueError ''badly formed hexadecimal UUID string'')"
    by (simp add: uuid_parse_def)
  ultimately show ?thesis by (rule malformed_stored_id_escapes [THEN conjunct1])
qed

end
