(* ===== verification/Text.thy ===== *)
theory Text
  imports Urls
begin

text \<open>
  What the program reads out of a lead's prose: the identity key of a title
  (\<open>src/src/app/domain/normalization.py\<close>) and the provisional facts of a text
  (\<open>src/src/app/domain/extraction.py\<close>), with the windowing of a fetched page
  (\<open>src/src/app/infra/candidate_extraction.py\<close>).

  The two regular expressions of the extractor are terms of a small datatype, run by a matcher that
  lists the ends of a match in the order in which Python's backtracking engine tries them; the first
  one is the match.
\<close>

section \<open>Regular expressions\<close>

type_synonym text_pos = "char option \<times> string"  \<comment> \<open>the character before, and what follows\<close>

datatype rx =
    Eps
  | Lit string
  | LitI string
  | Rep "char \<Rightarrow> bool" nat "nat option"
  | Seq rx rx
  | Alt rx rx
  | Opt rx
  | Bound

definition word_char :: "char \<Rightarrow> bool" where
  "word_char c =
     (let n = (of_char c :: nat)
      in 48 \<le> n \<and> n \<le> 57 \<or> 65 \<le> n \<and> n \<le> 90 \<or> n = 95 \<or> 97 \<le> n \<and> n \<le> 122
         \<or> n \<in> {131, 136, 138, 140, 142, 154, 156, 158, 159, 170, 178, 179, 181, 185, 186, 188, 189, 190}
         \<or> 192 \<le> n \<and> n \<noteq> 215 \<and> n \<noteq> 247)"

definition word_at :: "text_pos \<Rightarrow> bool \<times> bool" where
  "word_at x = ((case fst x of None \<Rightarrow> False | Some c \<Rightarrow> word_char c),
                (case snd x of [] \<Rightarrow> False | c # _ \<Rightarrow> word_char c))"

definition advance :: "nat \<Rightarrow> text_pos \<Rightarrow> text_pos" where
  "advance k x = ((if k = 0 then fst x else Some (snd x ! (k - 1))), drop k (snd x))"

fun rx_run :: "rx \<Rightarrow> text_pos \<Rightarrow> text_pos list" where
  "rx_run Eps x = [x]"
| "rx_run (Lit s) x = (if starts_with s (snd x) then [advance (length s) x] else [])"
| "rx_run (LitI s) x =
     (if starts_with (lower s) (lower (snd x)) then [advance (length s) x] else [])"
| "rx_run (Rep P lo hi) x =
     (let n = length (takeWhile P (snd x));
          n' = (case hi of None \<Rightarrow> n | Some h \<Rightarrow> min h n)
      in map (\<lambda>k. advance k x) (rev [lo..<Suc n']))"
| "rx_run (Seq a b) x = concat (map (rx_run b) (rx_run a x))"
| "rx_run (Alt a b) x = rx_run a x @ rx_run b x"
| "rx_run (Opt a) x = rx_run a x @ [x]"
| "rx_run Bound x = (if fst (word_at x) \<noteq> snd (word_at x) then [x] else [])"

text \<open>
  \<open>finditer\<close>: the spans of the matches, left to right and disjoint. No pattern of the program
  matches the empty string; a match that would is passed over.
\<close>

function find_spans :: "rx \<Rightarrow> nat \<Rightarrow> char option \<Rightarrow> string \<Rightarrow> (nat \<times> nat) list" where
  "find_spans r i p s =
     (case rx_run r (p, s) of
        (q, s') # _ \<Rightarrow>
          if length s' < length s
          then (i, i + (length s - length s')) # find_spans r (i + (length s - length s')) q s'
          else (case s of [] \<Rightarrow> [] | c # cs \<Rightarrow> find_spans r (Suc i) (Some c) cs)
      | [] \<Rightarrow> (case s of [] \<Rightarrow> [] | c # cs \<Rightarrow> find_spans r (Suc i) (Some c) cs))"
  by pat_completeness auto
termination by (relation "measure (\<lambda>(r, i, p, s). length s)") auto

declare find_spans.simps [simp del]

definition slice :: "string \<Rightarrow> nat \<times> nat \<Rightarrow> string" where
  "slice s ab = take (snd ab - fst ab) (drop (fst ab) s)"

definition findall :: "rx \<Rightarrow> string \<Rightarrow> string list" where
  "findall r s = map (slice s) (find_spans r 0 None s)"

fun seq :: "rx list \<Rightarrow> rx" where
  "seq [] = Eps"
| "seq [r] = r"
| "seq (r # rs) = Seq r (seq rs)"

fun alts :: "rx list \<Rightarrow> rx" where
  "alts [] = Rep (\<lambda>_. False) 1 None"
| "alts [r] = r"
| "alts (r # rs) = Alt r (alts rs)"

section \<open>The patterns of the extractor\<close>

definition CURRENCY_CODES :: "string list" where
  "CURRENCY_CODES =
     [''GBP'', ''USD'', ''EUR'', ''CAD'', ''AUD'', ''NZD'', ''CHF'', ''JPY'', ''CNY'', ''INR'', ''ZAR'',
      ''SEK'', ''NOK'', ''DKK'', ''SGD'', ''HKD'', ''NGN'', ''KES'', ''GHS'', ''TRY'', ''BRL'', ''MXN'',
      ''PLN'', ''CZK'', ''HUF'', ''RON'', ''AED'', ''SAR'']"

definition currency_symbol :: "char \<Rightarrow> bool" where
  "currency_symbol c = (c \<in> {CHR ''$'', CHR 0xA3, CHR 0x80})"

definition amount_rx :: rx where
  "amount_rx =
     seq [Rep is_digit 1 (Some 1), Rep (\<lambda>c. is_digit c \<or> c = CHR '','') 0 None,
          Opt (seq [Lit ''.'', Rep is_digit 1 None])]"

definition CURRENCY_AMOUNT_PATTERN :: rx where
  "CURRENCY_AMOUNT_PATTERN =
     alts [seq [Rep currency_symbol 1 (Some 1), Rep is_space 0 (Some 1), amount_rx],
           seq [Bound, alts (map Lit CURRENCY_CODES), Rep is_space 0 (Some 1), amount_rx],
           seq [Bound, amount_rx, Rep is_space 0 (Some 1), alts (map Lit CURRENCY_CODES), Bound]]"

definition month_rx :: "string \<times> string \<Rightarrow> rx" where
  "month_rx m = (if snd m = [] then LitI (fst m) else Seq (LitI (fst m)) (Opt (LitI (snd m))))"

definition MONTHS :: rx where
  "MONTHS =
     alts (map month_rx
       [(''Jan'', ''uary''), (''Feb'', ''ruary''), (''Mar'', ''ch''), (''Apr'', ''il''), (''May'', []),
        (''Jun'', ''e''), (''Jul'', ''y''), (''Aug'', ''ust''), (''Sep'', ''tember''), (''Oct'', ''ober''),
        (''Nov'', ''ember''), (''Dec'', ''ember'')])"

definition ordinal_rx :: rx where
  "ordinal_rx = Opt (alts (map LitI [''st'', ''nd'', ''rd'', ''th'']))"

definition digits_rx :: "nat \<Rightarrow> nat \<Rightarrow> rx" where
  "digits_rx lo hi = Rep is_digit lo (Some hi)"

definition comma_rx :: rx where
  "comma_rx = Rep (\<lambda>c. c = CHR '','') 0 (Some 1)"

definition MONTH_NAME_DATE_PATTERN :: rx where
  "MONTH_NAME_DATE_PATTERN =
     seq [Bound,
          alts [seq [MONTHS, Rep is_space 1 None, digits_rx 1 2, ordinal_rx, comma_rx,
                     Rep is_space 1 None, digits_rx 4 4],
                seq [digits_rx 1 2, ordinal_rx, Rep is_space 1 None, MONTHS, comma_rx,
                     Rep is_space 1 None, digits_rx 4 4],
                seq [digits_rx 4 4, Lit ''-'', digits_rx 2 2, Lit ''-'', digits_rx 2 2]],
          Bound]"

section \<open>extract_candidate_facts\<close>

definition EXTRACTION_VERSION :: string where
  "EXTRACTION_VERSION = ''extract-v1''"

definition LEVEL_KEYWORDS :: "(string \<times> string list) list" where
  "LEVEL_KEYWORDS =
     [(''doctorate'', [''phd'', ''doctoral'', ''doctorate'']),
      (''masters'', [''master'' @ [CHR 0x27] @ ''s'', ''masters'', ''msc'', ''ma '', ''mba'']),
      (''bachelors'', [''bachelor'' @ [CHR 0x27] @ ''s'', ''bachelors'', ''undergraduate'', ''bsc''])]"

definition ELIGIBILITY_PHRASES :: "string list" where
  "ELIGIBILITY_PHRASES =
     [''all countries'', ''all nationalities'', ''international students'', ''citizens of'',
      ''residents of'', ''open to'']"

definition text_parts :: "string option \<Rightarrow> string option \<Rightarrow> string" where
  "text_parts title excerpt =
     join_with '' '' (filter (\<lambda>s. s \<noteq> []) (map or_empty [title, excerpt]))"

definition level_mentions :: "string \<Rightarrow> string list" where
  "level_mentions lowered =
     sort (map fst (filter (\<lambda>lk. \<exists>k \<in> set (snd lk). contains k lowered) LEVEL_KEYWORDS))"

definition extract_candidate_facts :: "string option \<Rightarrow> string option \<Rightarrow> dict" where
  "extract_candidate_facts raw_title raw_excerpt =
     (let text = text_parts raw_title raw_excerpt; lowered = lower text
      in [(''extraction_version'', JStr EXTRACTION_VERSION),
          (''needs_human_review'', JBool True),
          (''funding_mentions'', jstrs (findall CURRENCY_AMOUNT_PATTERN text)),
          (''deadline_mentions'', jstrs (findall MONTH_NAME_DATE_PATTERN text)),
          (''level_mentions'', jstrs (level_mentions lowered)),
          (''eligibility_phrase'',
             jopt JStr (find (\<lambda>p. contains p lowered) ELIGIBILITY_PHRASES))])"

section \<open>Windowing a page\<close>

text \<open>\<open>encode()\<close> to UTF-8, cut, \<open>decode(errors="ignore")\<close>: whole characters within the byte cap.\<close>

definition utf8_size :: "char \<Rightarrow> nat" where
  "utf8_size c =
     (let n = (of_char c :: nat)
      in if n < 128 then 1
         else if n \<ge> 160 \<or> n \<in> {129, 131, 136, 138, 140, 141, 142, 143, 144, 152, 154, 156, 157, 158, 159}
         then 2 else 3)"

definition byte_length :: "string \<Rightarrow> nat" where
  "byte_length s = sum_list (map utf8_size s)"

fun truncate_bytes :: "nat \<Rightarrow> string \<Rightarrow> string" where
  "truncate_bytes n [] = []"
| "truncate_bytes n (c # cs) =
     (if utf8_size c \<le> n then c # truncate_bytes (n - utf8_size c) cs else [])"

definition WINDOW_CONTEXT_CHARS :: nat where
  "WINDOW_CONTEXT_CHARS = 150"

definition AI_ROUTER_SOURCE_DATA_MAX_BYTES :: nat where
  "AI_ROUTER_SOURCE_DATA_MAX_BYTES = 16 * 1024"

definition AI_ROUTER_PAGE_DATA_MAX_BYTES :: nat where
  "AI_ROUTER_PAGE_DATA_MAX_BYTES = 16 * 1024"

text \<open>The loop over the sorted matches; the accumulator is the list of windows, last one first.\<close>

definition push_window :: "nat \<Rightarrow> nat \<times> nat \<Rightarrow> (nat \<times> nat) list \<Rightarrow> (nat \<times> nat) list" where
  "push_window len m acc =
     (let window_start = fst m - WINDOW_CONTEXT_CHARS;
          window_end = min len (snd m + WINDOW_CONTEXT_CHARS)
      in case acc of
           [] \<Rightarrow> [(window_start, window_end)]
         | w # rest \<Rightarrow>
             if window_start \<le> snd w then (fst w, max (snd w) window_end) # rest
             else (window_start, window_end) # w # rest)"

definition windows :: "nat \<Rightarrow> (nat \<times> nat) list \<Rightarrow> (nat \<times> nat) list" where
  "windows len ms = rev (fold (push_window len) ms [])"

definition page_matches :: "string \<Rightarrow> (nat \<times> nat) list" where
  "page_matches t =
     sort_key fst (sort_key snd
       (find_spans CURRENCY_AMOUNT_PATTERN 0 None t @ find_spans MONTH_NAME_DATE_PATTERN 0 None t))"

definition window_page_text :: "string \<Rightarrow> nat \<Rightarrow> string" where
  "window_page_text t max_bytes =
     (let ms = page_matches t
      in if ms = [] then truncate_bytes max_bytes t
         else truncate_bytes max_bytes (join_with '' ... '' (map (slice t) (windows (length t) ms))))"

section \<open>Identity keys\<close>

text \<open>
  \<open>fold\<close> on the repertoire of the model: the soft hyphen goes, the indivisible letters are spelled
  out, and every other character is replaced by its compatibility decomposition without combining
  marks. The fraction slash of a decomposed vulgar fraction is not in the repertoire; a solidus
  stands for it (both separate tokens).
\<close>

definition fold_char :: "char \<Rightarrow> string" where
  "fold_char c =
     (let n = (of_char c :: nat)
      in if n < 128 then [c]
         else if n = 173 then []
         else if n = 133 then ''...''
         else if n \<in> {152, 160, 168, 175, 180, 184} then '' ''
         else if n = 138 then ''S'' else if n = 154 then ''s''
         else if n = 142 then ''Z'' else if n = 158 then ''z''
         else if n = 140 then ''OE'' else if n = 156 then ''oe''
         else if n = 153 then ''TM''
         else if n = 170 then ''a'' else if n = 186 then ''o''
         else if n = 178 then ''2'' else if n = 179 then ''3'' else if n = 185 then ''1''
         else if n = 188 then ''1/4'' else if n = 189 then ''1/2'' else if n = 190 then ''3/4''
         else if 192 \<le> n \<and> n \<le> 197 then ''A'' else if n = 198 then ''AE''
         else if n = 199 then ''C'' else if 200 \<le> n \<and> n \<le> 203 then ''E''
         else if 204 \<le> n \<and> n \<le> 207 then ''I'' else if n = 208 then ''D'' else if n = 209 then ''N''
         else if 210 \<le> n \<and> n \<le> 214 \<or> n = 216 then ''O''
         else if 217 \<le> n \<and> n \<le> 220 then ''U'' else if n = 221 \<or> n = 159 then ''Y''
         else if n = 222 then ''TH'' else if n = 223 then ''ss''
         else if 224 \<le> n \<and> n \<le> 229 then ''a'' else if n = 230 then ''ae''
         else if n = 231 then ''c'' else if 232 \<le> n \<and> n \<le> 235 then ''e''
         else if 236 \<le> n \<and> n \<le> 239 then ''i'' else if n = 240 then ''d'' else if n = 241 then ''n''
         else if 242 \<le> n \<and> n \<le> 246 \<or> n = 248 then ''o''
         else if 249 \<le> n \<and> n \<le> 252 then ''u'' else if n = 253 \<or> n = 255 then ''y''
         else if n = 254 then ''th'' else [c])"

definition fold_text :: "string \<Rightarrow> string" where
  "fold_text s = concat (map fold_char s)"

text \<open>\<open>re.sub(r"\s+", " ", s)\<close>.\<close>

fun collapse :: "bool \<Rightarrow> string \<Rightarrow> string" where
  "collapse after_space [] = []"
| "collapse after_space (c # cs) =
     (if is_space c then (if after_space then [] else '' '') @ collapse True cs
      else c # collapse False cs)"

text \<open>\<open>casefold\<close>: on a folded text it is \<open>lower\<close>.\<close>

definition clean :: "string \<Rightarrow> string" where
  "clean s = lower (collapse False (strip (fold_text s)))"

text \<open>\<open>re.findall\<close> of a class repeated at least once: the maximal runs.\<close>

function runs :: "(char \<Rightarrow> bool) \<Rightarrow> string \<Rightarrow> string list" where
  "runs P [] = []"
| "runs P (c # cs) =
     (if P c then takeWhile P (c # cs) # runs P (dropWhile P (c # cs)) else runs P cs)"
  by pat_completeness auto
termination by (relation "measure (\<lambda>(P, s). length s)") (auto simp: le_imp_less_Suc length_dropWhile_le)

definition token_char :: "char \<Rightarrow> bool" where
  "token_char c =
     (let n = (of_char c :: nat) in 97 \<le> n \<and> n \<le> 122 \<or> 48 \<le> n \<and> n \<le> 57)"

record normalized_discovery =
  nd_title :: string
  nd_identity_key :: string
  nd_tokens :: "string list"

definition normalize_discovery :: "string \<Rightarrow> string option \<Rightarrow> normalized_discovery" where
  "normalize_discovery title provider =
     (let clean_title = clean title; clean_provider = clean (or_empty provider);
          tokens = sorted_set (runs token_char (clean_provider @ '' '' @ clean_title))
      in \<lparr>nd_title = clean_title, nd_identity_key = join_with ''|'' tokens, nd_tokens = tokens\<rparr>)"

section \<open>Lemmas: matches are pieces of the text\<close>

definition suffix_of :: "string \<Rightarrow> string \<Rightarrow> bool" where
  "suffix_of s' s = (\<exists>u. s = u @ s')"

lemma suffix_of_refl [simp]: "suffix_of s s"
  by (simp add: suffix_of_def)

lemma suffix_of_trans: "suffix_of a b \<Longrightarrow> suffix_of b c \<Longrightarrow> suffix_of a c"
  by (auto simp: suffix_of_def)

lemma suffix_of_advance: "suffix_of (snd (advance k x)) (snd x)"
  unfolding suffix_of_def advance_def by (metis append_take_drop_id snd_conv)

lemma suffix_of_drop: "suffix_of s' s \<Longrightarrow> s' = drop (length s - length s') s \<and> length s' \<le> length s"
  by (auto simp: suffix_of_def)

lemma rx_run_suffix: "y \<in> set (rx_run r x) \<Longrightarrow> suffix_of (snd y) (snd x)"
proof (induction r arbitrary: x y)
  case (Rep P lo hi)
  then obtain k where "y = advance k x" by (auto simp: Let_def)
  then show ?case by (simp add: suffix_of_advance)
next
  case (Seq a b)
  then obtain z where "z \<in> set (rx_run a x)" "y \<in> set (rx_run b z)" by auto
  with Seq.IH show ?case by (blast intro: suffix_of_trans)
qed (auto simp: suffix_of_advance split: if_splits)

text \<open>A step of the scan: a match, a skipped character, or the end.\<close>

lemma find_spans_step:
  obtains
    (hit) n q where "0 < n" "n \<le> length s"
      "find_spans r i p s = (i, i + n) # find_spans r (i + n) q (drop n s)"
  | (skip) c cs where "s = c # cs" "find_spans r i p s = find_spans r (Suc i) (Some c) cs"
  | (stop) "find_spans r i p s = []"
proof (cases "\<exists>q s' zs. rx_run r (p, s) = (q, s') # zs \<and> length s' < length s")
  case True
  then obtain q s' zs where run: "rx_run r (p, s) = (q, s') # zs" and less: "length s' < length s"
    by blast
  then have "suffix_of s' s"
    using rx_run_suffix [of "(q, s')" r "(p, s)"] by simp
  then have "s' = drop (length s - length s') s" by (simp add: suffix_of_drop)
  with run less hit [of "length s - length s'" q] show thesis
    by (simp add: find_spans.simps [of r i p s])
next
  case False
  then have "find_spans r i p s = (case s of [] \<Rightarrow> [] | c # cs \<Rightarrow> find_spans r (Suc i) (Some c) cs)"
    by (subst find_spans.simps) (auto split: list.split prod.split)
  with skip stop show thesis by (cases s) auto
qed

lemma find_spans_bounds: "(a, b) \<in> set (find_spans r i p s) \<Longrightarrow> i \<le> a \<and> a < b \<and> b \<le> i + length s"
proof (induction s arbitrary: i p rule: length_induct)
  case (1 s)
  show ?case
  proof (cases rule: find_spans_step [where r = r and i = i and p = p and s = s, case_names hit skip stop])
    case (hit n q)
    have "(a, b) = (i, i + n) \<or> i + n \<le> a \<and> a < b \<and> b \<le> i + n + length (drop n s)"
      using "1.IH" [rule_format, of "drop n s" "i + n" q] "1.prems" hit by (cases s) auto
    then show ?thesis using hit(1,2) by auto
  next
    case (skip c cs)
    have "length cs < length s" using skip by simp
    then have "Suc i \<le> a \<and> a < b \<and> b \<le> Suc i + length cs"
      using "1.IH" [rule_format, of cs "Suc i" "Some c"] "1.prems" skip by auto
    then show ?thesis using skip(1) by auto
  qed (use "1.prems" in simp)
qed

lemma find_spans_disjoint: "sorted_wrt (\<lambda>x y. snd x \<le> fst y) (find_spans r i p s)"
proof (induction s arbitrary: i p rule: length_induct)
  case (1 s)
  show ?case
  proof (cases rule: find_spans_step [where r = r and i = i and p = p and s = s, case_names hit skip stop])
    case (hit n q)
    then have "sorted_wrt (\<lambda>x y. snd x \<le> fst y) (find_spans r (i + n) q (drop n s))"
      using "1.IH" by simp
    with hit show ?thesis by (auto dest: find_spans_bounds)
  next
    case (skip c cs)
    with "1.IH" show ?thesis by simp
  qed simp
qed

lemma contains_iff: "contains p s \<longleftrightarrow> (\<exists>a r. s = a @ p @ r)"
proof (induction p s rule: contains.induct)
  case (2 p c cs)
  then show ?case by (auto simp: starts_with_iff Cons_eq_append_conv)
qed simp

lemma slice_split: "a \<le> b \<Longrightarrow> b \<le> length s \<Longrightarrow> s = take a s @ slice s (a, b) @ drop b s"
  by (simp add: slice_def)
    (metis append_assoc append_take_drop_id le_add_diff_inverse take_add)

lemma length_slice: "a \<le> b \<Longrightarrow> b \<le> length s \<Longrightarrow> length (slice s (a, b)) = b - a"
  by (simp add: slice_def)

lemma slice_inside:
  assumes "a < b" and "b \<le> length s"
  shows "contains (slice s (a, b)) s \<and> slice s (a, b) \<noteq> []"
proof
  show "contains (slice s (a, b)) s"
    unfolding contains_iff using slice_split [of a b s] assms by (metis less_imp_le)
  show "slice s (a, b) \<noteq> []"
    using length_slice [of a b s] assms by auto
qed

lemma findall_literal: "m \<in> set (findall r s) \<Longrightarrow> m \<noteq> [] \<and> contains m s"
  using slice_inside by (fastforce simp: findall_def dest: find_spans_bounds)

section \<open>Lemmas: windows\<close>

lemma byte_length_truncate: "byte_length (truncate_bytes n s) \<le> n"
  by (induction n s rule: truncate_bytes.induct) (auto simp: byte_length_def)

lemma truncate_prefix: "\<exists>r. s = truncate_bytes n s @ r"
  by (induction n s rule: truncate_bytes.induct) auto

lemma truncate_whole: "byte_length s \<le> n \<Longrightarrow> truncate_bytes n s = s"
  by (induction n s rule: truncate_bytes.induct) (auto simp: byte_length_def)

definition inside :: "nat \<times> nat \<Rightarrow> nat \<times> nat \<Rightarrow> bool" where
  "inside x w = (fst w \<le> fst x \<and> snd x \<le> snd w)"

definition context_of :: "nat \<Rightarrow> nat \<times> nat \<Rightarrow> nat \<times> nat" where
  "context_of len m = (fst m - WINDOW_CONTEXT_CHARS, min len (snd m + WINDOW_CONTEXT_CHARS))"

lemma push_keep: "inside x w \<Longrightarrow> w \<in> set acc \<Longrightarrow> \<exists>v \<in> set (push_window len m acc). inside x v"
  by (cases acc) (fastforce simp: push_window_def Let_def inside_def)+

lemma push_cover:
  assumes "\<forall>w \<in> set (take 1 acc). fst w \<le> fst m - WINDOW_CONTEXT_CHARS"
  shows "\<exists>v \<in> set (push_window len m acc). inside (context_of len m) v"
  using assms by (cases acc) (auto simp: push_window_def Let_def inside_def context_of_def)

lemma push_start:
  assumes "\<forall>w \<in> set (take 1 acc). fst w \<le> fst m - WINDOW_CONTEXT_CHARS"
  shows "\<forall>w \<in> set (take 1 (push_window len m acc)). fst w \<le> fst m - WINDOW_CONTEXT_CHARS"
  using assms by (cases acc) (auto simp: push_window_def Let_def)

lemma fold_push_keep:
  "inside x w \<Longrightarrow> w \<in> set acc \<Longrightarrow> \<exists>v \<in> set (fold (push_window len) ms acc). inside x v"
proof (induction ms arbitrary: acc w)
  case (Cons m ms)
  from push_keep [OF Cons.prems] Cons.IH show ?case by fastforce
qed auto

lemma fold_push_cover:
  assumes "sorted_wrt (\<lambda>x y. fst x \<le> fst y) ms" and "x \<in> set ms"
    and "\<forall>w \<in> set (take 1 acc). \<forall>m \<in> set ms. fst w \<le> fst m - WINDOW_CONTEXT_CHARS"
  shows "\<exists>v \<in> set (fold (push_window len) ms acc). inside (context_of len x) v"
  using assms
proof (induction ms arbitrary: acc)
  case (Cons m ms)
  have here: "\<forall>w \<in> set (take 1 acc). fst w \<le> fst m - WINDOW_CONTEXT_CHARS"
    using Cons.prems(3) by auto
  show ?case
  proof (cases "x = m")
    case True
    with push_cover [OF here] fold_push_keep show ?thesis by fastforce
  next
    case False
    have "\<forall>w \<in> set (take 1 (push_window len m acc)). \<forall>y \<in> set ms. fst w \<le> fst y - WINDOW_CONTEXT_CHARS"
    proof (intro ballI)
      fix w y assume w: "w \<in> set (take 1 (push_window len m acc))" and y: "y \<in> set ms"
      have "fst w \<le> fst m - WINDOW_CONTEXT_CHARS" using push_start [OF here, of len] w by blast
      also have "\<dots> \<le> fst y - WINDOW_CONTEXT_CHARS" using Cons.prems(1) y by (simp add: diff_le_mono)
      finally show "fst w \<le> fst y - WINDOW_CONTEXT_CHARS" .
    qed
    with False Cons.prems Cons.IH show ?thesis by simp
  qed
qed simp

text \<open>The windows are in order and apart, so no piece of the page is shown twice.\<close>

definition apart :: "nat \<Rightarrow> (nat \<times> nat) list \<Rightarrow> bool" where
  "apart len acc = (sorted_wrt (\<lambda>x y. snd y < fst x) acc \<and> (\<forall>w \<in> set acc. fst w \<le> snd w \<and> snd w \<le> len))"

lemma push_apart:
  assumes "apart len acc" and "fst m < snd m" and "snd m \<le> len"
  shows "apart len (push_window len m acc)"
proof (cases acc)
  case Nil
  then show ?thesis using assms by (simp add: apart_def push_window_def Let_def) linarith
next
  case (Cons w rest)
  have w: "fst w \<le> snd w" "snd w \<le> len" "\<forall>y \<in> set rest. snd y < fst w" "apart len rest"
    using assms(1) Cons by (simp_all add: apart_def)
  show ?thesis
  proof (cases "fst m - WINDOW_CONTEXT_CHARS \<le> snd w")
    case True
    then have "push_window len m acc = (fst w, max (snd w) (min len (snd m + WINDOW_CONTEXT_CHARS))) # rest"
      using Cons by (simp add: push_window_def Let_def)
    with w show ?thesis by (simp add: apart_def le_max_iff_disj)
  next
    case False
    then have "push_window len m acc =
        (fst m - WINDOW_CONTEXT_CHARS, min len (snd m + WINDOW_CONTEXT_CHARS)) # w # rest"
      using Cons by (simp add: push_window_def Let_def)
    moreover have "\<forall>y \<in> set rest. snd y < fst m - WINDOW_CONTEXT_CHARS"
    proof
      fix y assume "y \<in> set rest"
      then have "snd y < fst w" using w(3) by blast
      with w(1) False show "snd y < fst m - WINDOW_CONTEXT_CHARS" by linarith
    qed
    ultimately show ?thesis using w False assms(2,3) by (simp add: apart_def) linarith
  qed
qed

lemma fold_push_apart:
  "apart len acc \<Longrightarrow> \<forall>m \<in> set ms. fst m < snd m \<and> snd m \<le> len \<Longrightarrow> apart len (fold (push_window len) ms acc)"
  by (induction ms arbitrary: acc) (simp_all add: push_apart)

lemma page_matches_sorted: "sorted_wrt (\<lambda>x y. fst x \<le> fst y) (page_matches t)"
  using sorted_sort_key [of fst] by (simp add: page_matches_def sorted_map)

lemma page_matches_bounds: "m \<in> set (page_matches t) \<Longrightarrow> fst m < snd m \<and> snd m \<le> length t"
  by (cases m) (auto simp: page_matches_def dest: find_spans_bounds)

section \<open>Lemmas: identity keys\<close>

declare runs.simps [simp del]

lemma runs_Nil [simp]: "runs P [] = []"
  by (simp add: runs.simps)

lemma runs_skip: "\<not> P c \<Longrightarrow> runs P (c # s) = runs P s"
  by (simp add: runs.simps)

lemma runs_take: "P c \<Longrightarrow> runs P (c # cs) = takeWhile P (c # cs) # runs P (dropWhile P (c # cs))"
  by (subst runs.simps) simp

lemma runs_tokens: "t \<in> set (runs P s) \<Longrightarrow> t \<noteq> [] \<and> list_all P t"
proof (induction P s rule: runs.induct)
  case (2 P c cs)
  show ?case
  proof (cases "P c")
    case True
    then have "t = c # takeWhile P cs \<or> t \<in> set (runs P (dropWhile P (c # cs)))"
      using "2.prems" by (simp add: runs_take)
    with True "2.IH"(1) show ?thesis by (auto simp: list_all_iff dest: set_takeWhileD)
  next
    case False
    with 2 show ?thesis by (simp add: runs_skip)
  qed
qed simp

lemma runs_step:
  assumes "list_all P t" and "t \<noteq> []" and "\<not> P c"
  shows "runs P (t @ c # s) = t # runs P s"
proof -
  obtain x xs where t: "t = x # xs" using assms(2) by (cases t) auto
  have "takeWhile P (t @ c # s) = t" "dropWhile P (t @ c # s) = c # s"
    using assms(1,3) by (simp_all add: takeWhile_append dropWhile_append list_all_iff)
  with t assms(1,3) runs_take [of P x "xs @ c # s"] show ?thesis by (simp add: runs_skip)
qed

lemma runs_single: "list_all P t \<Longrightarrow> t \<noteq> [] \<Longrightarrow> runs P t = [t]"
proof (cases t)
  case (Cons x xs)
  assume "list_all P t"
  then have "takeWhile P t = t" "dropWhile P t = []"
    by (simp_all add: list_all_iff takeWhile_eq_all_conv dropWhile_eq_Nil_conv)
  with Cons \<open>list_all P t\<close> show ?thesis by (metis list.pred_inject(2) runs_Nil runs_take)
qed simp

text \<open>Joining with a separator and taking the runs again gives the parts back.\<close>

lemma runs_join:
  assumes "\<not> P c" and "\<forall>t \<in> set ts. t \<noteq> [] \<and> list_all P t"
  shows "runs P (join_with [c] ts) = ts"
  using assms(2)
proof (induction "[c]" ts rule: join_with.induct)
  case (2 s)
  then show ?case by (simp add: runs_single)
next
  case (3 s s' ss)
  then show ?case using runs_step [of P s c] assms(1) by simp
qed simp

lemma join_inj:
  assumes "\<not> P c" and "\<forall>t \<in> set ts. t \<noteq> [] \<and> list_all P t" and "\<forall>t \<in> set us. t \<noteq> [] \<and> list_all P t"
  shows "join_with [c] ts = join_with [c] us \<longleftrightarrow> ts = us"
  by (metis assms runs_join)

lemma token_char_plain: "token_char c \<Longrightarrow> fold_char c = [c] \<and> \<not> is_space c \<and> lower_char c = c"
proof -
  assume t: "token_char c"
  then have "of_char c < (128::nat)" by (auto simp: token_char_def Let_def)
  then have "fold_char c = [c]" by (simp add: fold_char_def)
  moreover have "\<not> is_space c" using t by (auto simp: is_space_def token_char_def Let_def)
  moreover have "lower_char c = c" using t by (auto simp: lower_char_def token_char_def Let_def)
  ultimately show ?thesis by simp
qed

lemma token_space [simp]: "\<not> token_char (CHR '' '')" "\<not> token_char (CHR ''|'')"
  by (simp_all add: token_char_def)

lemma fold_char_space: "fold_char (CHR '' '') = '' ''"
  by (simp add: fold_char_def)

lemma space_space [simp]: "is_space (CHR '' '')" "lower_char (CHR '' '') = CHR '' ''"
  by (simp_all add: is_space_def lower_char_def)

definition tidy :: "string \<Rightarrow> bool" where
  "tidy s = list_all (\<lambda>c. token_char c \<or> c = CHR '' '') s"

lemma fold_text_tidy: "tidy s \<Longrightarrow> fold_text s = s"
  by (induction s) (auto simp: tidy_def fold_text_def token_char_plain fold_char_space)

lemma lower_tidy: "tidy s \<Longrightarrow> lower s = s"
  by (induction s) (auto simp: tidy_def lower_def token_char_plain)

lemma collapse_token: "list_all token_char t \<Longrightarrow> collapse b (t @ r) = t @ collapse (b \<and> t = []) r"
  by (induction t arbitrary: b) (auto simp: token_char_plain)

definition tokens_ok :: "string list \<Rightarrow> bool" where
  "tokens_ok ts = (\<forall>t \<in> set ts. t \<noteq> [] \<and> list_all token_char t)"

lemma tokens_ok_sorted_set: "tokens_ok (sorted_set (runs token_char s))"
  by (auto simp: tokens_ok_def dest: runs_tokens)

lemma tidy_join: "tokens_ok ts \<Longrightarrow> tidy (join_with '' '' ts)"
  by (induction "'' ''" ts rule: join_with.induct) (auto simp: tokens_ok_def tidy_def list_all_iff)

lemma collapse_join: "tokens_ok ts \<Longrightarrow> collapse False (join_with '' '' ts) = join_with '' '' ts"
proof (induction "'' ''" ts rule: join_with.induct)
  case (2 s)
  then show ?case using collapse_token [of s False "[]"] by (simp add: tokens_ok_def)
next
  case (3 s s' ss)
  have "s' \<noteq> []" "list_all token_char s'" using 3(2) by (auto simp: tokens_ok_def)
  then obtain x xs where s': "s' = x # xs" "\<not> is_space x"
    by (cases s') (auto simp: token_char_plain)
  then have hd: "\<exists>y ys. join_with '' '' (s' # ss) = y # ys \<and> \<not> is_space y"
    by (cases ss) auto
  then have "collapse True (join_with '' '' (s' # ss)) = collapse False (join_with '' '' (s' # ss))"
    by auto
  moreover have "collapse False (join_with '' '' (s' # ss)) = join_with '' '' (s' # ss)"
    using 3 by (simp add: tokens_ok_def)
  ultimately show ?case
    using 3(2) collapse_token [of s False "'' '' @ join_with '' '' (s' # ss)"]
    by (simp add: tokens_ok_def)
qed simp

lemma join_ends:
  assumes "tokens_ok ts" and "ts \<noteq> []"
  shows "join_with '' '' ts \<noteq> [] \<and> token_char (hd (join_with '' '' ts)) \<and> token_char (last (join_with '' '' ts))"
  using assms
proof (induction "'' ''" ts rule: join_with.induct)
  case (2 s)
  then show ?case by (auto simp: tokens_ok_def list_all_iff)
next
  case (3 s s' ss)
  then show ?case by (auto simp: tokens_ok_def list_all_iff)
qed simp

lemma strip_join: "tokens_ok ts \<Longrightarrow> strip (join_with '' '' ts) = join_with '' '' ts"
proof (cases "ts = []")
  case False
  assume ok: "tokens_ok ts"
  let ?s = "join_with '' '' ts"
  have e: "?s \<noteq> []" "\<not> is_space (hd ?s)" "\<not> is_space (last ?s)"
    using join_ends [OF ok False] token_char_plain by blast+
  then have "dropWhile is_space ?s = ?s" by (cases ?s) auto
  moreover have "dropWhile is_space (rev ?s) = rev ?s"
    using e by (cases "rev ?s") (auto simp: hd_rev [symmetric])
  ultimately show ?thesis by (simp add: strip_def)
qed (simp add: strip_def)

lemma clean_join: "tokens_ok ts \<Longrightarrow> clean (join_with '' '' ts) = join_with '' '' ts"
  by (simp add: clean_def fold_text_tidy tidy_join strip_join collapse_join lower_tidy)

lemma clean_Nil [simp]: "clean [] = []"
  by (simp add: clean_def fold_text_def strip_def lower_def)

section \<open>Properties\<close>

text \<open>
  The identity key is exactly the set of words: two titles get the same key if and only if
  they are made of the same set of folded words, whatever their order, repetition, case, accents or
  punctuation; and the words of a key, written out as a title, get that key again.
\<close>

theorem identity_key_is_word_set:
  "(nd_identity_key (normalize_discovery t p) = nd_identity_key (normalize_discovery t' p')
      \<longleftrightarrow> set (nd_tokens (normalize_discovery t p)) = set (nd_tokens (normalize_discovery t' p')))
   \<and> nd_identity_key (normalize_discovery (join_with '' '' (nd_tokens (normalize_discovery t p))) None)
      = nd_identity_key (normalize_discovery t p)"
proof
  let ?ts = "nd_tokens (normalize_discovery t p)" and ?us = "nd_tokens (normalize_discovery t' p')"
  have ok: "tokens_ok (nd_tokens (normalize_discovery x y))" for x y
    by (simp add: normalize_discovery_def Let_def tokens_ok_sorted_set)
  have key: "nd_identity_key (normalize_discovery x y) = join_with ''|'' (nd_tokens (normalize_discovery x y))" for x y
    by (simp add: normalize_discovery_def Let_def)
  have "(join_with ''|'' ?ts = join_with ''|'' ?us) = (?ts = ?us)"
    using join_inj [of token_char "CHR ''|''" ?ts ?us] ok unfolding tokens_ok_def by simp
  moreover have "sorted ?ts" "distinct ?ts" "sorted ?us" "distinct ?us"
    by (simp_all add: normalize_discovery_def Let_def)
  ultimately show "nd_identity_key (normalize_discovery t p) = nd_identity_key (normalize_discovery t' p')
      \<longleftrightarrow> set ?ts = set ?us"
    by (metis key sorted_distinct_set_unique)
  have "runs token_char ('' '' @ clean (join_with '' '' ?ts)) = ?ts"
    using runs_join [of token_char "CHR '' ''" ?ts] ok [of t p] unfolding tokens_ok_def
    by (simp add: clean_join ok runs_skip)
  then have "nd_tokens (normalize_discovery (join_with '' '' ?ts) None) = sorted_set ?ts"
    by (simp add: normalize_discovery_def Let_def or_empty_def)
  also have "\<dots> = ?ts" by (simp add: normalize_discovery_def Let_def)
  finally show "nd_identity_key (normalize_discovery (join_with '' '' ?ts) None)
      = nd_identity_key (normalize_discovery t p)"
    by (simp only: key)
qed

text \<open>
  The extractor quotes, it does not invent: every funding figure and every date it reports is a
  non-empty piece of the title and excerpt as they stand, the reported pieces of one kind are disjoint
  and in reading order, a level is reported only for one of its keywords in the text, and the result
  is always marked for human review.
\<close>

theorem extracted_facts_are_quoted:
  assumes "text = text_parts title excerpt" and "facts = extract_candidate_facts title excerpt"
  shows "(\<forall>m \<in> set (string_list (dget facts ''funding_mentions''))
                 \<union> set (string_list (dget facts ''deadline_mentions'')). m \<noteq> [] \<and> contains m text)
    \<and> (\<forall>r \<in> {CURRENCY_AMOUNT_PATTERN, MONTH_NAME_DATE_PATTERN}.
         sorted_wrt (\<lambda>x y. snd x \<le> fst y) (find_spans r 0 None text))
    \<and> (\<forall>l \<in> set (string_list (dget facts ''level_mentions'')).
         \<exists>ks. (l, ks) \<in> set LEVEL_KEYWORDS \<and> (\<exists>k \<in> set ks. contains k (lower text)))
    \<and> dget facts ''needs_human_review'' = JBool True"
proof -
  have "set (level_mentions s) \<subseteq> {l. \<exists>ks. (l, ks) \<in> set LEVEL_KEYWORDS \<and> (\<exists>k \<in> set ks. contains k s)}" for s
    by (force simp: level_mentions_def)
  then show ?thesis
    unfolding assms extract_candidate_facts_def Let_def
    by (auto simp: find_spans_disjoint dest: findall_literal)
qed

theorem extracted_facts_are_quoted_witness:
  "sorted_wrt (\<lambda>x y. snd x \<le> fst y) (find_spans CURRENCY_AMOUNT_PATTERN 0 None ''PhD $5'')
   \<and> dget (extract_candidate_facts (Some ''PhD'') (Some ''$5'')) ''needs_human_review'' = JBool True"
  using extracted_facts_are_quoted [of "''PhD $5''" "Some ''PhD''" "Some ''$5''", OF _ refl]
  by (simp add: text_parts_def or_empty_def)

text \<open>
  What is sent of a fetched page fits the router's cap and loses no figure before the cut: the
  excerpt is within the byte limit, it is a beginning of the page where nothing matches, every match
  lies with its context inside one window, and the windows are disjoint and in page order.
\<close>

theorem page_window_is_bounded_and_complete:
  "byte_length (window_page_text t n) \<le> n
   \<and> (page_matches t = [] \<longrightarrow> (\<exists>r. t = window_page_text t n @ r))
   \<and> (\<forall>m \<in> set (page_matches t). \<exists>w \<in> set (windows (length t) (page_matches t)).
        fst w \<le> fst m - WINDOW_CONTEXT_CHARS \<and> min (length t) (snd m + WINDOW_CONTEXT_CHARS) \<le> snd w)
   \<and> sorted_wrt (\<lambda>x y. snd x < fst y) (windows (length t) (page_matches t))"
proof (intro conjI impI ballI)
  show "byte_length (window_page_text t n) \<le> n"
    by (simp add: window_page_text_def Let_def byte_length_truncate)
  show "\<exists>r. t = window_page_text t n @ r" if "page_matches t = []"
    using that truncate_prefix by (simp add: window_page_text_def)
  show "\<exists>w \<in> set (windows (length t) (page_matches t)). fst w \<le> fst m - WINDOW_CONTEXT_CHARS
          \<and> min (length t) (snd m + WINDOW_CONTEXT_CHARS) \<le> snd w"
    if "m \<in> set (page_matches t)" for m
    using fold_push_cover [OF page_matches_sorted that, of "[]" "length t"]
    by (auto simp: windows_def inside_def context_of_def)
  have "apart (length t) (fold (push_window (length t)) (page_matches t) [])"
    by (rule fold_push_apart) (simp add: apart_def, blast dest: page_matches_bounds)
  then show "sorted_wrt (\<lambda>x y. snd x < fst y) (windows (length t) (page_matches t))"
    by (simp add: apart_def windows_def sorted_wrt_rev)
qed

lemma demo_page_matches: "page_matches ''$5'' = [(0, 2)]"
  by code_simp

theorem page_window_is_bounded_and_complete_witness:
  "byte_length (window_page_text ''$5'' 1) \<le> 1 \<and> (\<exists>w \<in> set (windows 2 [(0, 2)]). fst w = 0 \<and> snd w = 2)"
proof
  note all = page_window_is_bounded_and_complete [of "''$5''" 1]
  show "byte_length (window_page_text ''$5'' 1) \<le> 1" using all by blast
  have two: "length ''$5'' = 2" by simp
  have m: "(0, 2) \<in> set (page_matches ''$5'')" by (simp add: demo_page_matches)
  note bspec [OF all [THEN conjunct2, THEN conjunct2, THEN conjunct1] m]
  then show "\<exists>w \<in> set (windows 2 [(0, 2)]). fst w = 0 \<and> snd w = 2"
    unfolding demo_page_matches two
    by (simp add: windows_def push_window_def WINDOW_CONTEXT_CHARS_def)
qed

end
