(* ===== verification/Vendors.thy ===== *)
theory Vendors
  imports Text Sources
begin

text \<open>
  The two platform services the program talks to: the AI router
  (\<open>src/src/app/domain/ai_router.py\<close>, \<open>src/src/app/infra/ai_router_client.py\<close>) with the extraction
  passes built on it (\<open>src/src/app/infra/candidate_extraction.py\<close>), and the job queue that delivers
  signed callbacks (\<open>src/src/app/infra/qstash.py\<close>). The HTTP exchange, the signing library and the
  base64 decoder are parameters.
\<close>

section \<open>The AI router\<close>

datatype ai_task = Scholarship_extraction | Match_explanation

fun task_value :: "ai_task \<Rightarrow> string" where
  "task_value Scholarship_extraction = ''scholarship_extraction''"
| "task_value Match_explanation = ''match_explanation''"

datatype ai_outcome = Ai_completed | Ai_review | Ai_budget_exhausted | Ai_provider_unavailable

definition outcome_of :: "json \<Rightarrow> ai_outcome result" where
  "outcome_of v =
     (if v = JStr ''completed'' then Inr Ai_completed
      else if v = JStr ''review'' then Inr Ai_review
      else if v = JStr ''budget_exhausted'' then Inr Ai_budget_exhausted
      else if v = JStr ''provider_unavailable'' then Inr Ai_provider_unavailable
      else Inl (ValueError ''not a valid AIRouterOutcome''))"

record ai_request =
  aq_task :: ai_task
  aq_task_version :: string
  aq_schema_version :: int
  aq_product_id :: string
  aq_feature_id :: string
  aq_correlation_id :: string
  aq_idempotency_key :: string
  aq_source_data :: dict
  aq_journey_id :: "string option"
  aq_session_id :: "string option"
  aq_handoff_id :: "string option"

record ai_response =
  as_request_id :: json
  as_outcome :: ai_outcome
  as_output :: "dict option"
  as_model_policy_version :: json
  as_trace_reference :: json

text \<open>
  What the router answers: a JSON body, a transport failure or an error status, or a body that is no
  JSON (a \<open>ValueError\<close> of the decoder).
\<close>

datatype router_reply = RouterBody json | RouterHTTPError string | RouterBadBody string

record jwt_claims =
  jc_iss :: string
  jc_sub :: string
  jc_aud :: string
  jc_iat :: instant
  jc_nbf :: instant
  jc_exp :: instant
  jc_jti :: string
  jc_scope :: string

record routerlib =
  rl_uuid4 :: string
  rl_sign :: "jwt_claims \<Rightarrow> string \<Rightarrow> string \<Rightarrow> string result"
  rl_post :: "string \<Rightarrow> (string \<times> string) list \<Rightarrow> dict \<Rightarrow> router_reply"

definition SUBJECT :: string where "SUBJECT = ''scholarship-finder-worker''"
definition ISSUER :: string where "ISSUER = ''scholarship-finder''"
definition AUDIENCE :: string where "AUDIENCE = ''edufurther-ai-router''"
definition SCOPE :: string where "SCOPE = ''ai:execute''"

definition TOKEN_LIFETIME_SECONDS :: int where
  "TOKEN_LIFETIME_SECONDS = 120"

definition jwt_claims_at :: "routerlib \<Rightarrow> instant \<Rightarrow> jwt_claims" where
  "jwt_claims_at rl now =
     \<lparr>jc_iss = ISSUER, jc_sub = SUBJECT, jc_aud = AUDIENCE, jc_iat = now, jc_nbf = now,
      jc_exp = now + seconds TOKEN_LIFETIME_SECONDS, jc_jti = rl_uuid4 rl, jc_scope = SCOPE\<rparr>"

definition sign_jwt :: "routerlib \<Rightarrow> instant \<Rightarrow> string \<Rightarrow> string \<Rightarrow> string result" where
  "sign_jwt rl now pem kid = rl_sign rl (jwt_claims_at rl now) pem kid"

definition router_payload :: "ai_request \<Rightarrow> dict" where
  "router_payload rq =
     [(''product_id'', JStr (aq_product_id rq)), (''feature_id'', JStr (aq_feature_id rq)),
      (''task'', JStr (task_value (aq_task rq))), (''correlation_id'', JStr (aq_correlation_id rq)),
      (''idempotency_key'', JStr (aq_idempotency_key rq)), (''source_data'', JObj (aq_source_data rq)),
      (''journey_id'', jopt JStr (aq_journey_id rq)), (''session_id'', jopt JStr (aq_session_id rq)),
      (''handoff_id'', jopt JStr (aq_handoff_id rq))]"

text \<open>
  The router's contract makes \<open>output\<close> an object or null; \<open>body["request_id"]\<close> and \<open>body["status"]\<close>
  raise \<open>KeyError\<close> where the body lacks them.
\<close>

definition read_response :: "json \<Rightarrow> ai_response result" where
  "read_response body =
     (case body of
        JObj d \<Rightarrow>
          (case map_of d ''request_id'' of
             None \<Rightarrow> Inl KeyError
           | Some rid \<Rightarrow>
               (case map_of d ''status'' of
                  None \<Rightarrow> Inl KeyError
                | Some st \<Rightarrow>
                    bindE (outcome_of st) (\<lambda>oc.
                      Inr \<lparr>as_request_id = rid, as_outcome = oc,
                           as_output = (case dget d ''output'' of JObj x \<Rightarrow> Some x | _ \<Rightarrow> None),
                           as_model_policy_version = dget d ''model_policy_version'',
                           as_trace_reference = dget d ''trace_reference''\<rparr>)))
      | _ \<Rightarrow> Inl (ValueError ''AI Router response must be an object''))"

definition execute_request ::
  "routerlib \<Rightarrow> string \<Rightarrow> string \<Rightarrow> string \<Rightarrow> instant \<Rightarrow> ai_request \<Rightarrow> ai_response result" where
  "execute_request rl base_url pem kid now rq =
     bindE (sign_jwt rl now pem kid) (\<lambda>token.
       case rl_post rl (rstrip_char (CHR ''/'') base_url @ ''/api/v1/internal/ai/execute'')
              [(''Authorization'', ''Bearer '' @ token), (''Idempotency-Key'', aq_idempotency_key rq)]
              (router_payload rq) of
         RouterHTTPError e \<Rightarrow> Inl (HTTPError e)
       | RouterBadBody e \<Rightarrow> Inl (ValueError e)
       | RouterBody body \<Rightarrow> read_response body)"

section \<open>The extraction passes\<close>

definition router_configured :: "settings \<Rightarrow> bool" where
  "router_configured st =
     (is_set (ai_router_base_url st) \<and> is_set (ai_router_private_key_pem st) \<and> is_set (ai_router_key_id st))"

text \<open>
  One best-effort pass: an HTTP failure or a \<open>ValueError\<close> means no facts, and so does every outcome
  but \<open>completed\<close>. Any other exception leaves the function.
\<close>

definition try_router :: "routerlib \<Rightarrow> settings \<Rightarrow> instant \<Rightarrow> ai_request \<Rightarrow> dict option result" where
  "try_router rl st now rq =
     (if \<not> router_configured st then Inr None
      else case execute_request rl (the (ai_router_base_url st)) (the (ai_router_private_key_pem st))
                  (the (ai_router_key_id st)) now rq of
             Inl (HTTPError e) \<Rightarrow> Inr None
           | Inl (ValueError e) \<Rightarrow> Inr None
           | Inl e \<Rightarrow> Inl e
           | Inr r \<Rightarrow> Inr (if as_outcome r = Ai_completed then as_output r else None))"

definition finder_request :: "string \<Rightarrow> discovery \<Rightarrow> dict \<Rightarrow> ai_request" where
  "finder_request feature r source_data =
     \<lparr>aq_task = Scholarship_extraction, aq_task_version = ''v1'', aq_schema_version = 1,
      aq_product_id = ''scholarship_finder'', aq_feature_id = feature,
      aq_correlation_id = uuid_str (di_id r), aq_idempotency_key = feature @ '':'' @ uuid_str (di_id r),
      aq_source_data = source_data, aq_journey_id = None, aq_session_id = None, aq_handoff_id = None\<rparr>"

definition bounded_excerpt :: "discovery \<Rightarrow> string" where
  "bounded_excerpt r =
     (let excerpt = or_empty (di_raw_excerpt r)
      in if byte_length excerpt > AI_ROUTER_SOURCE_DATA_MAX_BYTES
         then truncate_bytes AI_ROUTER_SOURCE_DATA_MAX_BYTES excerpt else excerpt)"

definition try_ai_extraction :: "routerlib \<Rightarrow> settings \<Rightarrow> instant \<Rightarrow> discovery \<Rightarrow> dict option result" where
  "try_ai_extraction rl st now r =
     try_router rl st now (finder_request ''extract_candidate'' r
       [(''raw_title'', jopt JStr (di_raw_title r)), (''raw_excerpt'', JStr (bounded_excerpt r))])"

definition try_ai_page_extraction ::
  "routerlib \<Rightarrow> settings \<Rightarrow> instant \<Rightarrow> discovery \<Rightarrow> string \<Rightarrow> dict option result" where
  "try_ai_page_extraction rl st now r page_text =
     try_router rl st now (finder_request ''verify_candidate'' r
       [(''raw_title'', jopt JStr (di_raw_title r)),
        (''page_text'', JStr (window_page_text page_text AI_ROUTER_PAGE_DATA_MAX_BYTES))])"

text \<open>
  \<open>extract_and_store_facts\<close> writes the deterministic facts into the row first; when the router pass
  raises, the row keeps them, and the second component says so.
\<close>

definition extract_and_store_facts ::
  "routerlib \<Rightarrow> settings \<Rightarrow> instant \<Rightarrow> bool \<Rightarrow> discovery \<Rightarrow> unit result \<times> discovery" where
  "extract_and_store_facts rl st now include_ai r =
     (let r1 = r\<lparr>di_extracted_facts := Some (extract_candidate_facts (di_raw_title r) (di_raw_excerpt r))\<rparr>
      in case (if include_ai then try_ai_extraction rl st now r1 else Inr None) of
           Inl e \<Rightarrow> (Inl e, r1)
         | Inr ai \<Rightarrow> (Inr (), r1\<lparr>di_ai_extracted_facts := ai\<rparr>))"

section \<open>Signed callbacks\<close>

datatype jwt_reply =
    Claims dict
  | ExpiredSignatureError
  | ImmatureSignatureError
  | MissingRequiredClaimError
  | OtherJWTError

record verifierlib =
  vf_decode :: "string \<Rightarrow> string \<Rightarrow> jwt_reply"  \<comment> \<open>of a signature under a key\<close>
  vf_b64 :: "string \<Rightarrow> string option"
  vf_digest :: "string \<Rightarrow> string"

record verification_result =
  vr_ok :: bool
  vr_reason :: string
  vr_signed_destination :: "string option"

definition decode_body_claim :: "verifierlib \<Rightarrow> string \<Rightarrow> string option" where
  "decode_body_claim vf v =
     (case vf_b64 vf (v @ replicate ((4 - length v mod 4) mod 4) (CHR ''='')) of
        None \<Rightarrow> None
      | Some digest \<Rightarrow> if length digest = 32 then Some digest else None)"

fun try_signing_keys ::
  "stdlib \<Rightarrow> verifierlib \<Rightarrow> string \<Rightarrow> string \<Rightarrow> string \<Rightarrow> string list \<Rightarrow> string \<Rightarrow> string option \<Rightarrow> verification_result"
where
  "try_signing_keys std vf dest raw_body signature [] reason signed =
     \<lparr>vr_ok = False, vr_reason = reason, vr_signed_destination = signed\<rparr>"
| "try_signing_keys std vf dest raw_body signature (key # keys) reason signed =
     (case vf_decode vf key signature of
        ExpiredSignatureError \<Rightarrow> try_signing_keys std vf dest raw_body signature keys ''signature_expired'' signed
      | ImmatureSignatureError \<Rightarrow>
          try_signing_keys std vf dest raw_body signature keys ''signature_not_yet_valid'' signed
      | MissingRequiredClaimError \<Rightarrow>
          try_signing_keys std vf dest raw_body signature keys ''signature_missing_required_claim'' signed
      | OtherJWTError \<Rightarrow> try_signing_keys std vf dest raw_body signature keys reason signed
      | Claims c \<Rightarrow>
          if dget c ''iss'' \<noteq> JStr ''Upstash''
          then try_signing_keys std vf dest raw_body signature keys ''unexpected_issuer'' signed
          else if dget c ''sub'' \<noteq> JStr dest
          then try_signing_keys std vf dest raw_body signature keys ''destination_mismatch''
                 (Some (py_str std (dget c ''sub'')))
          else if decode_body_claim vf (py_str std (dget_or c ''body'' (JStr []))) \<noteq> Some (vf_digest vf raw_body)
          then try_signing_keys std vf dest raw_body signature keys ''body_hash_mismatch'' signed
          else \<lparr>vr_ok = True, vr_reason = ''verified'', vr_signed_destination = None\<rparr>)"

definition verify_delivery ::
  "stdlib \<Rightarrow> verifierlib \<Rightarrow> settings \<Rightarrow> string \<Rightarrow> string option \<Rightarrow> verification_result" where
  "verify_delivery std vf st raw_body signature =
     (let refuse = (\<lambda>why. \<lparr>vr_ok = False, vr_reason = why, vr_signed_destination = None\<rparr>);
          dest = qstash_expected_destination st
      in if \<not> (is_set (qstash_current_signing_key st) \<and> is_set (qstash_next_signing_key st))
         then refuse ''signing_keys_not_configured''
         else if dest = [] then refuse ''expected_destination_not_configured''
         else if \<not> is_set signature then refuse ''missing_upstash_signature_header''
         else if raw_body = [] then refuse ''empty_request_body''
         else try_signing_keys std vf dest raw_body (the signature)
                [the (qstash_current_signing_key st), the (qstash_next_signing_key st)]
                ''signature_not_issued_by_a_configured_signing_key'' None)"

record qstash_message =
  qm_url :: string
  qm_headers :: "(string \<times> string) list"
  qm_body :: dict

definition publish_url :: "string \<Rightarrow> string" where
  "publish_url url = rstrip_char (CHR ''/'') url @ ''/v2/publish''"

definition publish_message :: "settings \<Rightarrow> string \<Rightarrow> dict \<Rightarrow> string option \<Rightarrow> qstash_message" where
  "publish_message st dest body dedup =
     \<lparr>qm_url = publish_url (qstash_url st) @ ''/'' @ dest,
      qm_headers = [(''Authorization'', ''Bearer '' @ or_empty (qstash_token st)),
                    (''Content-Type'', ''application/json'')]
                   @ (if is_set dedup then [(''Upstash-Deduplication-Id'', the dedup)] else []),
      qm_body = body\<rparr>"

definition ALLOWED_JOB_KINDS :: "string set" where
  "ALLOWED_JOB_KINDS =
     {''import_feed'', ''fetch_source_page'', ''normalize_discovery'', ''link_canonical'',
      ''extract_candidate'', ''prepare_review'', ''refresh_status'', ''reverify_due'',
      ''dispatch_outbox'', ''reconcile_stuck_jobs'', ''sync_countries'', ''harvest_parsebot'',
      ''harvest_tavily'', ''sweep_due_jobs'', ''auto_approve_sweep''}"

section \<open>Properties\<close>

lemma try_signing_keys_ok:
  "vr_ok (try_signing_keys std vf dest raw_body signature keys reason signed) \<longleftrightarrow>
     (\<exists>key \<in> set keys. \<exists>c. vf_decode vf key signature = Claims c \<and> dget c ''iss'' = JStr ''Upstash''
        \<and> dget c ''sub'' = JStr dest
        \<and> decode_body_claim vf (py_str std (dget_or c ''body'' (JStr []))) = Some (vf_digest vf raw_body))"
  by (induction keys arbitrary: reason signed) (auto split: jwt_reply.splits)

text \<open>
  A callback is accepted exactly when it is authentic: both signing keys and the destination are
  configured, the body and the signature are there, and one of the two keys verifies a token that was
  issued by the queue, for this destination, over this very body. Everything else is refused, so an
  unconfigured process accepts nothing.
\<close>

theorem delivery_accepted_exactly:
  "vr_ok (verify_delivery std vf st raw_body signature) \<longleftrightarrow>
     is_set (qstash_current_signing_key st) \<and> is_set (qstash_next_signing_key st)
     \<and> qstash_expected_destination st \<noteq> [] \<and> is_set signature \<and> raw_body \<noteq> []
     \<and> (\<exists>key \<in> {the (qstash_current_signing_key st), the (qstash_next_signing_key st)}.
          \<exists>c. vf_decode vf key (the signature) = Claims c \<and> dget c ''iss'' = JStr ''Upstash''
            \<and> dget c ''sub'' = JStr (qstash_expected_destination st)
            \<and> decode_body_claim vf (py_str std (dget_or c ''body'' (JStr []))) = Some (vf_digest vf raw_body))"
  unfolding verify_delivery_def Let_def by (auto simp: try_signing_keys_ok simp del: try_signing_keys.simps)

text \<open>
  The router pass is not quite best effort: whatever the configured router answers, the only
  thing that can leave the pass besides facts or nothing is what signing raises, or the \<open>KeyError\<close> of a
  reply without a request id or status; and such a reply does make the extraction raise, with the
  deterministic facts already in the row.
\<close>

theorem router_reply_without_status_escapes:
  assumes "router_configured st"
    and "rl_sign rl (jwt_claims_at rl now) (the (ai_router_private_key_pem st)) (the (ai_router_key_id st))
         = Inr token"
    and "\<And>url hs p. rl_post rl url hs p = RouterBody (JObj reply)"
  shows "(fst (extract_and_store_facts rl st now True r) = Inl KeyError
            \<longleftrightarrow> map_of reply ''request_id'' = None \<or> map_of reply ''status'' = None)
    \<and> (fst (extract_and_store_facts rl st now True r) \<noteq> Inl KeyError
         \<longrightarrow> fst (extract_and_store_facts rl st now True r) = Inr ())
    \<and> di_extracted_facts (snd (extract_and_store_facts rl st now True r))
        = Some (extract_candidate_facts (di_raw_title r) (di_raw_excerpt r))"
proof -
  have run: "try_router rl st now rq =
      (case read_response (JObj reply) of
         Inl (HTTPError e) \<Rightarrow> Inr None | Inl (ValueError e) \<Rightarrow> Inr None | Inl e \<Rightarrow> Inl e
       | Inr a \<Rightarrow> Inr (if as_outcome a = Ai_completed then as_output a else None))" for rq
    using assms by (simp add: try_router_def execute_request_def sign_jwt_def)
  show ?thesis
    by (auto simp: extract_and_store_facts_def try_ai_extraction_def run read_response_def outcome_of_def
        Let_def split: option.split)
qed

definition demo_settings :: settings where
  "demo_settings = default_settings\<lparr>ai_router_base_url := Some ''https://r'', ai_router_private_key_pem := Some ''k'',
     ai_router_key_id := Some ''1''\<rparr>"

definition demo_router :: "dict \<Rightarrow> routerlib" where
  "demo_router reply =
     \<lparr>rl_uuid4 = ''u'', rl_sign = (\<lambda>_ _ _. Inr ''t''), rl_post = (\<lambda>_ _ _. RouterBody (JObj reply))\<rparr>"

definition demo_discovery :: discovery where
  "demo_discovery =
     \<lparr>di_id = 7, di_source_page_id = 3, di_crawl_run_id = None, di_content_hash = ''h'',
      di_raw_title = Some ''A'', di_raw_excerpt = None, di_source_posted_at = None,
      di_feed_created_at = None, di_processing_state = ''normalized'',
      di_normalized_identity_key = Some ''a'', di_canonical_scholarship_id = None,
      di_extracted_facts = None, di_ai_extracted_facts = None, di_supersedes_discovery_id = None,
      di_duplicate_of_discovery_id = None, di_split_from_discovery_id = None,
      di_rejection_reason = None, di_auto_review_evaluated_at = None, di_created_at = 0\<rparr>"

theorem router_reply_without_status_escapes_witness:
  "fst (extract_and_store_facts (demo_router [(''status'', JStr ''completed'')]) demo_settings 5 True demo_discovery)
     = Inl KeyError"
  using router_reply_without_status_escapes
      [of demo_settings "demo_router [(''status'', JStr ''completed'')]" 5 "''t''" "[(''status'', JStr ''completed'')]"
        demo_discovery]
  by (simp add: demo_router_def router_configured_def demo_settings_def)

end
