(* ===== verification/Detail.thy ===== *)
theory Detail
  imports Search Vendors
begin

text \<open>
  One scholarship's page and the vocabularies of the search form (\<open>_detail\<close>,
  \<open>_fetch_published_cycle_row\<close>, \<open>scholarship_detail\<close>, \<open>scholarship_detail_with_explanation\<close> and
  \<open>taxonomies\<close> of \<open>src/src/app/api/routes.py\<close>), and the cached explanation of a match
  (\<open>src/src/app/infra/match_explanations.py\<close>). The query behind a page has no order, so which of
  several cycles it finds is the database's choice; the model takes the first of the table.
\<close>

section \<open>The page\<close>

record scholarship_page =
  dt_scholarship_id :: uuid
  dt_cycle_id :: uuid
  dt_name :: string
  dt_provider :: string
  dt_award_type :: string
  dt_status :: string
  dt_status_detail :: string
  dt_status_valid_until :: "instant option"
  dt_official_url :: string
  dt_facts :: dict
  dt_last_verified_at :: "datetime option"
  dt_eligibility_note :: "string option"
  dt_field_names :: "string list"
  dt_fields :: "string list"
  dt_programme_names :: "string list"
  dt_destinations :: "string list"
  dt_deadline_at :: "datetime option"
  dt_deadline_precision :: "string option"
  dt_degree_levels :: "string list"
  dt_expected_reopen_month :: "int option"
  dt_funding_type :: "string option"
  dt_provider_country :: "string option"
  dt_caveats :: "string list"
  dt_match_explanation :: "string option"

definition detail_of :: "stdlib \<Rightarrow> db \<Rightarrow> cycle \<Rightarrow> instant \<Rightarrow> scholarship_page result" where
  "detail_of std d row now =
     (let derived = derive_facts std (cy_facts row)
      in bindE (status_on_read std row derived now) (\<lambda>(status, detail).
         bindE (loaded_parent d row) (\<lambda>(s, p).
         Inr \<lparr>dt_scholarship_id = cy_scholarship_id row, dt_cycle_id = cy_id row, dt_name = sch_name s,
              dt_provider = pv_name p, dt_award_type = sch_award_type s, dt_status = detail,
              dt_status_detail = detail, dt_status_valid_until = cy_status_valid_until row,
              dt_official_url = cy_official_cycle_url row, dt_facts = sanitized_dict std derived,
              dt_last_verified_at = map_option (\<lambda>t. Aware t 0) (cy_last_verified_at row),
              dt_eligibility_note = df_eligibility_note derived,
              dt_field_names = df_field_names derived, dt_fields = df_fields derived,
              dt_programme_names = df_programme_names derived,
              dt_destinations = df_destinations derived, dt_deadline_at = df_deadline_at derived,
              dt_deadline_precision = public_deadline_precision derived,
              dt_degree_levels = df_degree_levels derived,
              dt_expected_reopen_month = df_expected_reopen_month derived,
              dt_funding_type = df_funding_type derived, dt_provider_country = pv_country p,
              dt_caveats = read_caveats row status, dt_match_explanation = None\<rparr>)))"

text \<open>By id when the identifier reads as a UUID, by slug otherwise.\<close>

definition fetch_published_cycle_row :: "string \<Rightarrow> db \<Rightarrow> cycle option" where
  "fetch_published_cycle_row identifier d =
     find (\<lambda>row. publicly_listed d row
            \<and> (case uuid_parse identifier of
                 Inr i \<Rightarrow> cy_scholarship_id row = i
               | Inl _ \<Rightarrow> (case tget sch_id (cy_scholarship_id row) (scholarships d) of
                            None \<Rightarrow> False | Some s \<Rightarrow> sch_slug s = identifier)))
       (cycles d)"

definition page_not_found :: http_error where
  "page_not_found = http_raise 404 ''Scholarship not found''"

definition scholarship_detail :: "stdlib \<Rightarrow> instant \<Rightarrow> string \<Rightarrow> db \<Rightarrow> scholarship_page response" where
  "scholarship_detail std now identifier d =
     (case fetch_published_cycle_row identifier d of
        None \<Rightarrow> Inl page_not_found
      | Some row \<Rightarrow> plain_call (detail_of std d row now))"

section \<open>The explanation of a match\<close>

definition explains :: "uuid \<Rightarrow> string \<Rightarrow> explanation_row \<Rightarrow> bool" where
  "explains cycle_id profile_digest r = (me_cycle_id r = cycle_id \<and> me_profile_digest r = profile_digest)"

definition cached_explanation :: "uuid \<Rightarrow> string \<Rightarrow> string \<Rightarrow> db \<Rightarrow> string option" where
  "cached_explanation cycle_id profile_digest facts_digest d =
     (case find (explains cycle_id profile_digest) (explanations d) of
        None \<Rightarrow> None
      | Some r \<Rightarrow> if me_facts_digest r \<noteq> facts_digest then None else Some (me_explanation r))"

text \<open>Insert, or update on the unique pair of cycle and profile.\<close>

definition revise :: "string \<Rightarrow> string \<Rightarrow> explanation_row \<Rightarrow> explanation_row" where
  "revise facts_digest explanation r = r\<lparr>me_facts_digest := facts_digest, me_explanation := explanation\<rparr>"

definition store_explanation :: "uuid \<Rightarrow> string \<Rightarrow> string \<Rightarrow> string \<Rightarrow> db \<Rightarrow> db" where
  "store_explanation cycle_id profile_digest facts_digest explanation d =
     (let (i, d1) = new_uuid7 d
      in if \<exists>r \<in> set (explanations d1). explains cycle_id profile_digest r
         then d1\<lparr>explanations := map (\<lambda>r. if explains cycle_id profile_digest r
                then revise facts_digest explanation r else r) (explanations d1)\<rparr>
         else d1\<lparr>explanations := explanations d1 @
              [\<lparr>me_id = i, me_cycle_id = cycle_id, me_profile_digest = profile_digest,
                me_facts_digest = facts_digest, me_explanation = explanation\<rparr>]\<rparr>)"

definition profile_payload :: "string \<Rightarrow> string list \<Rightarrow> string option \<Rightarrow> dict" where
  "profile_payload origin_country program_levels fld =
     [(''origin_country'', JStr origin_country), (''program_levels'', jstrs program_levels),
      (''field'', jopt JStr fld)]"

definition explanation_request ::
  "uuid \<Rightarrow> string \<Rightarrow> string \<Rightarrow> string \<Rightarrow> dict \<Rightarrow> dict \<Rightarrow> match_decision \<Rightarrow> ai_request" where
  "explanation_request cycle_id profile_digest name provider_name facts profile decision =
     \<lparr>aq_task = Match_explanation, aq_task_version = ''v1'', aq_schema_version = 1,
      aq_product_id = ''scholarship_finder'', aq_feature_id = ''scholarship_detail'',
      aq_correlation_id = uuid_str cycle_id,
      aq_idempotency_key = ''match_explanation:'' @ uuid_str cycle_id @ '':'' @ profile_digest,
      aq_source_data =
        [(''scholarship_name'', JStr name), (''provider_name'', JStr provider_name),
         (''facts'', JObj facts), (''profile'', JObj profile),
         (''match_decision'', JObj
           [(''fit'', JStr (md_fit decision)), (''reason_codes'', jstrs (md_reason_codes decision)),
            (''caveats'', jstrs (md_caveats decision))])],
      aq_journey_id = None, aq_session_id = None, aq_handoff_id = None\<rparr>"

text \<open>What a router response offers as an explanation: a completed outcome with a non-blank text.\<close>

definition explanation_text :: "ai_response \<Rightarrow> string option" where
  "explanation_text r =
     (if as_outcome r \<noteq> Ai_completed then None
      else case as_output r of
             None \<Rightarrow> None
           | Some out \<Rightarrow> (case dget out ''explanation'' of
                            JStr s \<Rightarrow> if strip s = [] then None else Some s
                          | _ \<Rightarrow> None))"

definition parent_names :: "db \<Rightarrow> cycle \<Rightarrow> string \<times> string" where
  "parent_names d row =
     (case tget sch_id (cy_scholarship_id row) (scholarships d) of
        None \<Rightarrow> ([], [])
      | Some s \<Rightarrow> (sch_name s, case tget pv_id (sch_provider_id s) (providers d) of
                                None \<Rightarrow> [] | Some p \<Rightarrow> pv_name p))"

definition get_match_explanation ::
  "codec \<Rightarrow> routerlib \<Rightarrow> settings \<Rightarrow> instant \<Rightarrow> cycle \<Rightarrow> dict \<Rightarrow> string \<Rightarrow> string list \<Rightarrow> string option
   \<Rightarrow> match_decision \<Rightarrow> db \<Rightarrow> (string option \<times> db) result" where
  "get_match_explanation cx rl st now row facts origin_country program_levels fld decision d =
     (let profile = profile_payload origin_country program_levels fld;
          profile_digest = filter_digest cx profile;
          facts_digest = filter_digest cx facts
      in case cached_explanation (cy_id row) profile_digest facts_digest d of
           Some x \<Rightarrow> Inr (Some x, d)
         | None \<Rightarrow>
             if \<not> (match_explanation_enabled st \<and> router_configured st) then Inr (None, d)
             else let (name, provider_name) = parent_names d row
             in case execute_request rl (the (ai_router_base_url st)) (the (ai_router_private_key_pem st))
                      (the (ai_router_key_id st)) now
                      (explanation_request (cy_id row) profile_digest name provider_name facts profile
                         decision) of
                  Inl (HTTPError _) \<Rightarrow> Inr (None, d)
                | Inl (ValueError _) \<Rightarrow> Inr (None, d)
                | Inl e \<Rightarrow> Inl e
                | Inr r \<Rightarrow>
                    (case explanation_text r of
                       None \<Rightarrow> Inr (None, d)
                     | Some x \<Rightarrow>
                         Inr (Some x, store_explanation (cy_id row) profile_digest facts_digest x d)))"

record profile_request =
  fq_origin_country :: string
  fq_program_levels :: "string list"
  fq_field :: "string option"

text \<open>The profile of the request, read against the page it asks about.\<close>

definition read_profile ::
  "country_vocabulary \<Rightarrow> profile_request \<Rightarrow> scholarship_page \<Rightarrow> (search_profile \<times> string \<times> string list) result"
where
  "read_profile vocab payload detail =
     bindE (origin vocab (fq_origin_country payload)) (\<lambda>org.
     bindE (mapE tax_degree (fq_program_levels payload)) (\<lambda>degrees.
     bindE (case fq_field payload of
              None \<Rightarrow> Inr None
            | Some f \<Rightarrow> if f = [] then Inr None else bindE (tax_field f) (\<lambda>c. Inr (Some {c})))
       (\<lambda>accepted.
     Inr (\<lparr>pr_origin_country = org, pr_target_countries = set (dt_destinations detail),
           pr_program_levels = set degrees, pr_fields = accepted\<rparr>, org, sorted_set degrees))))"

definition explain_admitted ::
  "stdlib \<Rightarrow> codec \<Rightarrow> routerlib \<Rightarrow> settings \<Rightarrow> instant \<Rightarrow> string \<Rightarrow> profile_request \<Rightarrow> db
   \<Rightarrow> (scholarship_page \<times> db) response" where
  "explain_admitted std cx rl st now identifier payload d =
     (case fetch_published_cycle_row identifier d of
        None \<Rightarrow> Inl page_not_found
      | Some row \<Rightarrow>
          bindH (plain_call (detail_of std d row now)) (\<lambda>detail.
          bindH (try_call answer_422 (read_profile (load_vocabulary d) payload detail)) (\<lambda>(profile, org, degrees).
          case evaluate_match std profile (dt_facts detail) of
            None \<Rightarrow> Inr (detail, d)
          | Some decision \<Rightarrow>
              bindH (plain_call (get_match_explanation cx rl st now row (dt_facts detail) org degrees
                                   (fq_field payload) decision d)) (\<lambda>(x, d1).
              Inr (detail\<lparr>dt_match_explanation := x\<rparr>, d1)))))"

definition MATCH_EXPLANATION_PER_MINUTE :: nat where
  "MATCH_EXPLANATION_PER_MINUTE = 10"

definition explain_route ::
  "stdlib \<Rightarrow> codec \<Rightarrow> routerlib \<Rightarrow> settings \<Rightarrow> visit \<Rightarrow> request \<Rightarrow> string \<Rightarrow> profile_request \<Rightarrow> limiter \<Rightarrow> db
   \<Rightarrow> (scholarship_page \<times> db) response \<times> limiter" where
  "explain_route std cx rl st vi rq identifier payload lm d =
     (let (admitted, lm') = admit_call (vi_clock vi) (client_key rq) MATCH_EXPLANATION_PER_MINUTE
                              ''Match-explanation rate limit exceeded'' lm
      in (bindH admitted (\<lambda>_. explain_admitted std cx rl st (vi_now vi) identifier payload d), lm'))"

section \<open>The vocabularies of the form\<close>

record taxonomies_response =
  tr_version :: string
  tr_countries :: "(string \<times> string) list"
  tr_destinations :: "(string \<times> string) list"
  tr_degrees :: "(string \<times> string) list"
  tr_fields :: "(string \<times> string) list"
  tr_award_types :: "(string \<times> string) list"
  tr_funding_types :: "(string \<times> string) list"

definition TAXONOMY_TYPES :: "string list" where
  "TAXONOMY_TYPES =
     [''countries'', ''destinations'', ''degrees'', ''fields'', ''award_types'', ''funding_types'']"

definition taxonomy_items :: "(string \<times> string) list \<Rightarrow> string \<Rightarrow> string set \<Rightarrow> (string \<times> string) list" where
  "taxonomy_items mapping key wanted = (if key \<notin> wanted then [] else mapping)"

definition wanted_types :: "string list \<Rightarrow> string list \<Rightarrow> string set" where
  "wanted_types types bracketed =
     (let wanted = {v \<in> set types \<union> set bracketed. v \<noteq> []}
      in if wanted = {} then set TAXONOMY_TYPES else wanted)"

definition taxonomies :: "string list \<Rightarrow> string list \<Rightarrow> db \<Rightarrow> taxonomies_response response" where
  "taxonomies types bracketed d =
     (let wanted = wanted_types types bracketed;
          unknown = wanted - set TAXONOMY_TYPES;
          vocabulary = load_vocabulary d;
          loaded = (wanted \<inter> {''countries'', ''destinations''} \<noteq> {});
          country_names = (if loaded then names vocabulary else []);
          destination_codes = (if loaded then destinations vocabulary else {})
      in if unknown \<noteq> {}
         then Inl (http_raise 422 (''Unknown taxonomy type(s): '' @ join_with '', '' (sorted_list_of_set unknown)))
         else Inr
           \<lparr>tr_version = tx_version TAXONOMY,
            tr_countries = (if ''countries'' \<in> wanted then sort country_names else []),
            tr_destinations =
              (if ''destinations'' \<in> wanted
               then List.map_filter (\<lambda>code. map_option (\<lambda>l. (code, l)) (map_of country_names code))
                      (sorted_list_of_set destination_codes)
               else []),
            tr_degrees = taxonomy_items (tx_degrees TAXONOMY) ''degrees'' wanted,
            tr_fields = taxonomy_items (tx_fields TAXONOMY) ''fields'' wanted,
            tr_award_types = taxonomy_items (tx_award_types TAXONOMY) ''award_types'' wanted,
            tr_funding_types = taxonomy_items (tx_funding_types TAXONOMY) ''funding_types'' wanted\<rparr>)"

section \<open>Lemmas\<close>

lemma find_map_if:
  "(\<And>r. P (g r) = P r) \<Longrightarrow> find P (map (\<lambda>r. if P r then g r else r) rs) = map_option g (find P rs)"
  by (induction rs) auto

lemma revise_key [simp]:
  "explains c p (revise f x r) = explains c p r"
  "me_cycle_id (revise f x r) = me_cycle_id r" "me_profile_digest (revise f x r) = me_profile_digest r"
  "me_facts_digest (revise f x r) = f" "me_explanation (revise f x r) = x"
  by (simp_all add: revise_def explains_def)

lemma cached_after_store: "cached_explanation c p f (store_explanation c p f' x d)
    = (if f = f' then Some x else None)"
proof (cases "find (explains c p) (explanations d)")
  case None
  then have "\<not> (\<exists>r \<in> set (explanations d). explains c p r)" by (simp add: find_None_iff)
  with None show ?thesis
    by (simp add: cached_explanation_def store_explanation_def new_uuid7_def Let_def find_append_one)
      (simp add: explains_def)
next
  case (Some r)
  then have "\<exists>r \<in> set (explanations d). explains c p r" by (auto simp: find_Some_iff)
  with Some show ?thesis
    by (simp add: cached_explanation_def store_explanation_def new_uuid7_def Let_def find_map_if)
qed

text \<open>The cache holds at most one row for a cycle and a profile.\<close>

definition explanations_ok :: "db \<Rightarrow> bool" where
  "explanations_ok d \<longleftrightarrow> distinct (map (\<lambda>r. (me_cycle_id r, me_profile_digest r)) (explanations d))"

lemma store_explanations_ok: "explanations_ok d \<Longrightarrow> explanations_ok (store_explanation c p f x d)"
proof -
  assume ok: "explanations_ok d"
  let ?key = "\<lambda>r. (me_cycle_id r, me_profile_digest r)"
  have "map ?key (map (\<lambda>r. if explains c p r then revise f x r else r) rs) = map ?key rs" for rs
    by (induction rs) simp_all
  with ok show ?thesis
    by (auto simp: explanations_ok_def store_explanation_def new_uuid7_def Let_def explains_def
        simp del: map_map)
qed

lemma explanation_Some:
  assumes "get_match_explanation cx rl st now row facts org levels fld dec d = Inr (Some x, d')"
  shows "cached_explanation (cy_id row) (filter_digest cx (profile_payload org levels fld))
           (filter_digest cx facts) d' = Some x"
    and "explanations_ok d \<Longrightarrow> explanations_ok d'"
proof -
  let ?p = "filter_digest cx (profile_payload org levels fld)" and ?f = "filter_digest cx facts"
  from assms have "d' = store_explanation (cy_id row) ?p ?f x d
      \<or> d' = d \<and> cached_explanation (cy_id row) ?p ?f d = Some x"
    by (auto simp: get_match_explanation_def Let_def split: option.split_asm if_split_asm sum.split_asm
        exn.split_asm prod.split_asm)
  then show "cached_explanation (cy_id row) ?p ?f d' = Some x" "explanations_ok d \<Longrightarrow> explanations_ok d'"
    by (auto simp: cached_after_store intro: store_explanations_ok)
qed

lemma explanation_cached:
  "cached_explanation (cy_id row) (filter_digest cx (profile_payload org levels fld)) (filter_digest cx facts) d
     = Some x \<Longrightarrow>
   get_match_explanation cx rl st now row facts org levels fld dec d = Inr (Some x, d)"
  by (simp add: get_match_explanation_def Let_def)

text \<open>A router that answers a key it has seen with the answer it gave.\<close>

definition answers_by_key :: "routerlib \<Rightarrow> bool" where
  "answers_by_key rl \<longleftrightarrow>
     (\<forall>u h p h' p'. map_of h ''Idempotency-Key'' = map_of h' ''Idempotency-Key'' \<longrightarrow>
        rl_post rl u h p = rl_post rl u h' p')"

lemma execute_by_key:
  assumes "answers_by_key rl" and "aq_idempotency_key rq = aq_idempotency_key rq'"
  shows "execute_request rl b pem kid now rq = execute_request rl b pem kid now rq'"
proof -
  have "rl_post rl u [(''Authorization'', a), (''Idempotency-Key'', k)] (router_payload rq)
      = rl_post rl u [(''Authorization'', a), (''Idempotency-Key'', k)] (router_payload rq')" for u a k
    using assms(1) unfolding answers_by_key_def by blast
  then show ?thesis by (simp only: execute_request_def assms(2))
qed

lemma explanation_key:
  "aq_idempotency_key (explanation_request c p n pn fs pr dc)
     = ''match_explanation:'' @ uuid_str c @ '':'' @ p"
  by (simp add: explanation_request_def)

section \<open>Properties\<close>

text \<open>C32.
  Search and detail never disagree: for the same cycle read at the same instant, the page shows the
  status, deadline, fields and links the search result shows.
\<close>

theorem detail_agrees_with_search:
  assumes "search_result_of std d row dec now = Inr (Some r)"
  shows "\<exists>page. detail_of std d row now = Inr page
     \<and> dt_status page = re_status r \<and> dt_cycle_id page = re_cycle_id r
     \<and> dt_scholarship_id page = re_scholarship_id r \<and> dt_name page = re_name r
     \<and> dt_deadline_at page = re_deadline_at r \<and> dt_deadline_precision page = re_deadline_precision r
     \<and> dt_destinations page = re_destinations r \<and> dt_fields page = re_fields r
     \<and> dt_official_url page = re_official_url r
     \<and> re_caveats r = md_caveats dec @ dt_caveats page"
  using assms
proof (rule search_result_Some)
  fix status s p
  assume "status_on_read std row (derive_facts std (cy_facts row)) now = Inr (status, re_status r)"
    and "loaded_parent d row = Inr (s, p)"
    and r: "r = result_of (derive_facts std (cy_facts row)) row s p dec status (re_status r)"
  then have "\<exists>page. detail_of std d row now = Inr page
     \<and> dt_status page = re_status r \<and> dt_cycle_id page = cy_id row
     \<and> dt_scholarship_id page = cy_scholarship_id row \<and> dt_name page = sch_name s
     \<and> dt_deadline_at page = df_deadline_at (derive_facts std (cy_facts row))
     \<and> dt_deadline_precision page = public_deadline_precision (derive_facts std (cy_facts row))
     \<and> dt_destinations page = df_destinations (derive_facts std (cy_facts row))
     \<and> dt_fields page = df_fields (derive_facts std (cy_facts row))
     \<and> dt_official_url page = cy_official_cycle_url row \<and> dt_caveats page = read_caveats row status"
    by (simp add: detail_of_def Let_def)
  moreover have "re_cycle_id r = cy_id row" "re_scholarship_id r = cy_scholarship_id row"
    "re_name r = sch_name s" "re_deadline_at r = df_deadline_at (derive_facts std (cy_facts row))"
    "re_deadline_precision r = public_deadline_precision (derive_facts std (cy_facts row))"
    "re_destinations r = df_destinations (derive_facts std (cy_facts row))"
    "re_fields r = df_fields (derive_facts std (cy_facts row))"
    "re_official_url r = cy_official_cycle_url row" "re_caveats r = md_caveats dec @ read_caveats row status"
    by (subst r, simp add: result_of_def)+
  ultimately show ?thesis by auto
qed

text \<open>C35.
  An explanation, once given, is served from the cache: asked again for the same cycle, facts and
  profile, it is the same text whatever the router would now say, nothing is written, and the cache
  keeps one row per cycle and profile.
\<close>

theorem explanation_is_asked_for_once:
  assumes "get_match_explanation cx rl st now row facts org levels fld dec d = Inr (Some x, d')"
  shows "get_match_explanation cx rl' st' now' row facts org levels fld dec' d' = Inr (Some x, d')
     \<and> (explanations_ok d \<longrightarrow> explanations_ok d')"
  using explanation_Some [OF assms] explanation_cached by blast

text \<open>C36.
  The request's idempotency key ignores the facts it explains. So with a router that answers a key it
  has seen with the answer it gave, a change of the facts is a cache miss that stores the explanation of
  the old facts under the digest of the new ones, and serves it from then on.
\<close>

theorem stale_explanation_is_stored_as_fresh:
  assumes "answers_by_key rl"
    and "get_match_explanation cx rl st now row facts org levels fld dec d = Inr (Some x, d')"
    and "cached_explanation (cy_id row) (filter_digest cx (profile_payload org levels fld))
           (filter_digest cx facts) d = None"
    and "filter_digest cx facts' \<noteq> filter_digest cx facts"
  shows "\<exists>d''. get_match_explanation cx rl st now row facts' org levels fld dec' d' = Inr (Some x, d'')
     \<and> cached_explanation (cy_id row) (filter_digest cx (profile_payload org levels fld))
           (filter_digest cx facts') d'' = Some x"
proof -
  let ?p = "filter_digest cx (profile_payload org levels fld)" and ?f = "filter_digest cx facts"
  let ?ask_page = "\<lambda>n pn facts dec. execute_request rl (the (ai_router_base_url st)) (the (ai_router_private_key_pem st))
     (the (ai_router_key_id st)) now
     (explanation_request (cy_id row) ?p n pn facts (profile_payload org levels fld) dec)"
  have same: "?ask_page n pn fs dc = ?ask_page n' pn' fs' dc'" for n pn fs dc n' pn' fs' dc'
    by (rule execute_by_key [OF assms(1)]) (simp only: explanation_key)
  from assms(2,3) obtain r n pn where on: "match_explanation_enabled st" "router_configured st"
    and r: "?ask_page n pn facts dec = Inr r" "explanation_text r = Some x"
    and d': "d' = store_explanation (cy_id row) ?p ?f x d"
    by (auto simp: get_match_explanation_def Let_def split: option.split_asm if_split_asm sum.split_asm
        exn.split_asm prod.split_asm)
  have "cached_explanation (cy_id row) ?p (filter_digest cx facts') d' = None"
    using assms(4) by (simp add: d' cached_after_store)
  moreover have "?ask_page n' pn' facts' dec' = Inr r" for n' pn'
    by (subst same [of _ _ _ _ n pn facts dec]) (rule r(1))
  ultimately have "get_match_explanation cx rl st now row facts' org levels fld dec' d'
      = Inr (Some x, store_explanation (cy_id row) ?p (filter_digest cx facts') x d')"
    using on r(2) by (simp add: get_match_explanation_def Let_def split: prod.split)
  then show ?thesis by (simp add: cached_after_store)
qed

lemma in_sorted_list_of_set: "x \<in> set (sorted_list_of_set A) \<Longrightarrow> x \<in> A"
  by (cases "finite A") simp_all

text \<open>C4.
  A destination the form offers is a country it offers, with the same label, and every collection that
  was not asked for comes back empty.
\<close>

theorem offered_destinations_are_countries:
  assumes "taxonomies types bracketed d = Inr t"
    and "distinct (map fst (names (load_vocabulary d)))"
    and "wanted_types types bracketed \<supseteq> {''countries'', ''destinations''}"
  shows "set (tr_destinations t) \<subseteq> set (tr_countries t)
     \<and> fst ` set (tr_destinations t) \<subseteq> destinations (load_vocabulary d)"
proof -
  let ?v = "load_vocabulary d"
  from assms(1,3) have t: "tr_countries t = sort (names ?v)"
    "tr_destinations t = List.map_filter (\<lambda>code. map_option (Pair code) (map_of (names ?v) code))
       (sorted_list_of_set (destinations ?v))"
    by (auto simp: taxonomies_def Let_def split: if_split_asm)
  show ?thesis
    using in_sorted_list_of_set [of _ "destinations ?v"]
    by (auto simp: t map_filter_def dest: map_of_SomeD)
qed

section \<open>Concrete pages and explanations\<close>

theorem detail_agrees_with_search_witness:
  "\<exists>row page. row \<in> set (cycles demo_search_db) \<and> detail_of demo_std demo_search_db row 0 = Inr page"
proof -
  obtain r where r: "ranked_matches demo_std demo_profile 0 demo_search_db = Inr [r]" by (rule demo_ranked)
  have "r \<in> set [r]" by simp
  with ranked_set [OF r] obtain row dec where row: "row \<in> set (scanned_rows demo_search_db)"
    "search_result_of demo_std demo_search_db row dec 0 = Inr (Some r)"
    by blast
  from detail_agrees_with_search [OF row(2)] scanned_published [OF row(1)] show ?thesis by blast
qed

definition demo_explainer :: routerlib where
  "demo_explainer = demo_router
     [(''request_id'', JStr ''r''), (''status'', JStr ''completed''),
      (''output'', JObj [(''explanation'', JStr ''fits'')])]"

definition demo_explaining :: settings where
  "demo_explaining = demo_settings\<lparr>match_explanation_enabled := True\<rparr>"

definition demo_explained :: cycle where
  "demo_explained = hd (cycles demo_search_db)"

definition demo_decision :: match_decision where
  "demo_decision = \<lparr>md_fit = ''possible'', md_score = 0, md_reason_codes = [], md_caveats = []\<rparr>"

lemma demo_explained:
  "get_match_explanation demo_codec demo_explainer demo_explaining 0 demo_explained [(''offset'', JInt 1)]
     ''NG'' [''doctorate''] None demo_decision demo_search_db
   = Inr (Some ''fits'', store_explanation 3 (filter_digest demo_codec (profile_payload ''NG'' [''doctorate''] None))
            (filter_digest demo_codec [(''offset'', JInt 1)]) ''fits'' demo_search_db)"
proof -
  have "router_configured demo_explaining" "match_explanation_enabled demo_explaining"
    by (simp_all add: demo_explaining_def demo_settings_def router_configured_def)
  moreover have "cy_id demo_explained = 3" "explanations demo_search_db = []"
    by (simp_all add: demo_explained_def demo_search_db_def empty_db_def)
  moreover have "execute_request demo_explainer b pem kid 0 rq
      = Inr \<lparr>as_request_id = JStr ''r'', as_outcome = Ai_completed,
             as_output = Some [(''explanation'', JStr ''fits'')], as_model_policy_version = JNull,
             as_trace_reference = JNull\<rparr>" for b pem kid rq
    by (simp add: execute_request_def demo_explainer_def demo_router_def sign_jwt_def read_response_def outcome_of_def)
  ultimately show ?thesis
    by (simp add: get_match_explanation_def cached_explanation_def explanation_text_def string_eval Let_def
        split: prod.split)
qed

theorem explanation_is_asked_for_once_witness:
  "\<exists>d'. get_match_explanation demo_codec demo_explainer default_settings 9 demo_explained [(''offset'', JInt 1)]
     ''NG'' [''doctorate''] None demo_decision d' = Inr (Some ''fits'', d')"
  using explanation_is_asked_for_once [OF demo_explained] by blast

theorem stale_explanation_is_stored_as_fresh_witness:
  "\<exists>d' d''. get_match_explanation demo_codec demo_explainer demo_explaining 0 demo_explained [(''offset'', JInt 2)]
     ''NG'' [''doctorate''] None demo_decision d' = Inr (Some ''fits'', d'')"
proof -
  have "answers_by_key demo_explainer" by (simp add: answers_by_key_def demo_explainer_def demo_router_def)
  moreover have "cached_explanation (cy_id demo_explained) p f demo_search_db = None" for p f
    by (simp add: cached_explanation_def demo_search_db_def empty_db_def)
  moreover have "filter_digest demo_codec [(''offset'', JInt 2)] \<noteq> filter_digest demo_codec [(''offset'', JInt 1)]"
    by (simp add: filter_digest_def demo_codec_def demo_dumps_def demo_unary_def numeral_2_eq_2)
  ultimately show ?thesis
    using stale_explanation_is_stored_as_fresh [OF _ demo_explained] by blast
qed

theorem offered_destinations_are_countries_witness:
  "\<exists>t. taxonomies [] [] empty_db = Inr t \<and> set (tr_destinations t) \<subseteq> set (tr_countries t)"
proof -
  have w: "wanted_types [] [] = set TAXONOMY_TYPES" by (simp add: wanted_types_def)
  obtain t where t: "taxonomies [] [] empty_db = Inr t"
    by (simp add: taxonomies_def w Let_def)
  have "load_vocabulary empty_db = default_vocabulary" by (simp add: load_vocabulary_def empty_db_def)
  then have "distinct (map fst (names (load_vocabulary empty_db)))"
    by (simp add: default_vocabulary_def SEED_COUNTRIES_def)
  from offered_destinations_are_countries [OF t this] t show ?thesis by (auto simp: w TAXONOMY_TYPES_def)
qed

end
