(* ===== verification/Refresh.thy ===== *)
theory Refresh
  imports Sources
begin

text \<open>
  The two freshness jobs (\<open>src/src/app/infra/freshness.py\<close>): \<open>refresh_status\<close> recomputes the status of
  published cycles from stored facts, \<open>reverify_due\<close> fetches the official page of each due cycle and
  compares its digest. An exception inside one cycle of a sweep is caught: the first job keeps that
  cycle's row, the second rolls back to what the fetch had already committed.
\<close>

section \<open>Shared parts\<close>

definition OFFICIAL_SOURCE_NAME :: string where
  "OFFICIAL_SOURCE_NAME = ''Official Cycle Pages''"

definition PUBLISHED_CYCLE_SCAN_LIMIT :: nat where
  "PUBLISHED_CYCLE_SCAN_LIMIT = 5000"

definition evidence_deadline :: "cycle \<Rightarrow> freshness_bucket \<Rightarrow> freshness_config \<Rightarrow> instant" where
  "evidence_deadline c bucket cfg =
     (case cy_last_verified_at c of Some t \<Rightarrow> t | None \<Rightarrow> cy_created_at c) + max_evidence_age bucket cfg"

definition is_published :: "db \<Rightarrow> cycle \<Rightarrow> bool" where
  "is_published d c = (lifecycle_of d (cy_scholarship_id c) = Some Published)"

definition published_cycles :: "(uuid \<Rightarrow> bool) \<Rightarrow> nat \<Rightarrow> db \<Rightarrow> cycle list" where
  "published_cycles locked limit d =
     take limit (sort_key cy_id (filter (\<lambda>c. is_published d c \<and> \<not> locked (cy_id c)) (cycles d)))"

definition cycle_bucket ::
  "stdlib \<Rightarrow> freshness_config \<Rightarrow> instant \<Rightarrow> cycle \<Rightarrow> freshness_bucket result" where
  "cycle_bucket std cfg now c =
     (let df = derive_facts std (cy_facts c)
      in classify_bucket (std_tz std) (cy_public_status c) (df_deadline_at df) (df_deadline_precision df)
           (df_deadline_timezone df) (df_expected_reopen_month df) now cfg)"

definition fact_cutoff :: "stdlib \<Rightarrow> derived_facts \<Rightarrow> instant option result" where
  "fact_cutoff std df =
     (case df_deadline_at df of
        None \<Rightarrow> Inr None
      | Some dl \<Rightarrow>
          bindE (deadline_cutoff (std_tz std) dl (df_deadline_precision df) (df_deadline_timezone df))
            (\<lambda>t. Inr (Some t)))"

section \<open>refresh_status\<close>

definition refresh_one_status ::
  "stdlib \<Rightarrow> freshness_config \<Rightarrow> instant \<Rightarrow> cycle \<Rightarrow> (bool \<times> cycle) result" where
  "refresh_one_status std cfg now c =
     (let df = derive_facts std (cy_facts c)
      in bindE (cycle_bucket std cfg now c) (\<lambda>bucket.
         bindE (evaluate_public_status (std_tz std) (cy_public_status c) (df_deadline_at df)
                  (cy_status_valid_until c) (df_deadline_precision df) (df_deadline_timezone df) now)
           (\<lambda>evaluated.
         let stale = (evidence_deadline c bucket cfg \<le> now);
             for_staleness = (evaluated \<noteq> Status_unknown \<and> cy_public_status c = Open_verified \<and> stale);
             target = (if evaluated = Status_unknown \<or> for_staleness then Status_unknown
                       else cy_public_status c)
         in bindE (if cy_public_status c = Open_verified
                   then bindE (fact_cutoff std df) (\<lambda>cutoff.
                          Inr (Some (case cutoff of
                                       None \<Rightarrow> evidence_deadline c bucket cfg
                                     | Some t \<Rightarrow> min (evidence_deadline c bucket cfg) t)))
                   else Inr (cy_status_valid_until c)) (\<lambda>valid_until.
              let c1 = c\<lparr>cy_status_valid_until := valid_until\<rparr>
              in if target \<noteq> cy_public_status c
                 then Inr (True, c1\<lparr>cy_public_status := target,
                                    cy_auto_downgraded := (if for_staleness then True else cy_auto_downgraded c)\<rparr>)
                 else Inr (False, c1)))))"

definition refreshed :: "stdlib \<Rightarrow> freshness_config \<Rightarrow> instant \<Rightarrow> cycle \<Rightarrow> cycle" where
  "refreshed std cfg now c =
     (case refresh_one_status std cfg now c of Inr (_, c') \<Rightarrow> c' | Inl _ \<Rightarrow> c)"

record refresh_report =
  rr_checked :: nat
  rr_downgraded :: nat

definition refresh_due_statuses ::
  "stdlib \<Rightarrow> settings \<Rightarrow> instant \<Rightarrow> (uuid \<Rightarrow> bool) \<Rightarrow> nat option \<Rightarrow> db \<Rightarrow> refresh_report \<times> db" where
  "refresh_due_statuses std st now locked limit d =
     (let cfg = freshness st;
          batch_limit = (case limit of Some n \<Rightarrow> n | None \<Rightarrow> refresh_status_batch_limit st);
          cs = published_cycles locked batch_limit d
      in (\<lparr>rr_checked = length cs,
           rr_downgraded = length (filter (\<lambda>c. case refresh_one_status std cfg now c of
                                               Inr (b, _) \<Rightarrow> b | Inl _ \<Rightarrow> False) cs)\<rparr>,
          d\<lparr>cycles := tmods cy_id (map cy_id cs) (refreshed std cfg now) (cycles d)\<rparr>))"

section \<open>Review tasks and pages of a cycle\<close>

definition live_task :: "review_task \<Rightarrow> bool" where
  "live_task t = (rt_state t = ''open'' \<and> rt_resolution t = None)"

definition open_cycle_review_task :: "instant \<Rightarrow> cycle \<Rightarrow> string \<Rightarrow> dict \<Rightarrow> db \<Rightarrow> bool \<times> db" where
  "open_cycle_review_task now c reason draft d =
     (if \<exists>t \<in> set (review_tasks d). live_task t \<and> rt_cycle_id t = Some (cy_id c) then (False, d)
      else let (i, d1) = new_uuid7 d
           in (True, d1\<lparr>review_tasks := review_tasks d1 @
                [\<lparr>rt_id = i, rt_revision_id = None, rt_discovery_id = None, rt_cycle_id = Some (cy_id c),
                  rt_reason = take 255 reason, rt_priority = 100, rt_state = ''open'',
                  rt_resolution = None, rt_draft_recommendation = Some draft, rt_created_at = now\<rparr>]\<rparr>))"

definition new_page :: "uuid \<Rightarrow> uuid \<Rightarrow> string \<Rightarrow> source_page" where
  "new_page i sid url =
     \<lparr>pg_id = i, pg_source_id = sid, pg_normalized_url = url, pg_normalized_content_hash = None,
      pg_last_attempted_at = None, pg_last_successful_fetch_at = None, pg_last_seen_at = None,
      pg_http_status = None, pg_final_url = None\<rparr>"

definition find_page :: "uuid \<Rightarrow> string \<Rightarrow> db \<Rightarrow> source_page option" where
  "find_page sid url d = find (\<lambda>p. pg_source_id p = sid \<and> pg_normalized_url p = url) (pages d)"

definition set_cycle_page :: "uuid \<Rightarrow> cycle \<Rightarrow> cycle" where
  "set_cycle_page pid c = c\<lparr>cy_source_page_id := Some pid\<rparr>"

definition link_cycle_page :: "uuid \<Rightarrow> source_page \<Rightarrow> db \<Rightarrow> db" where
  "link_cycle_page cid page d =
     d\<lparr>cycles := tmod cy_id cid (set_cycle_page (pg_id page)) (cycles d)\<rparr>"

definition get_or_create_source_page ::
  "netlib \<Rightarrow> uuid \<Rightarrow> cycle \<Rightarrow> db \<Rightarrow> (source_page \<times> db) result" where
  "get_or_create_source_page nl sid c d =
     (case (case cy_source_page_id c of None \<Rightarrow> None | Some pid \<Rightarrow> tget pg_id pid (pages d)) of
        Some page \<Rightarrow> Inr (page, d)
      | None \<Rightarrow>
          bindE (canonicalize_url nl (cy_official_cycle_url c)) (\<lambda>url.
            case find_page sid url d of
              Some page \<Rightarrow> Inr (page, link_cycle_page (cy_id c) page d)
            | None \<Rightarrow>
                let (i, d1) = new_uuid7 d; page = new_page i sid url
                in Inr (page, link_cycle_page (cy_id c) page (d1\<lparr>pages := pages d1 @ [page]\<rparr>))))"

section \<open>reverify_due\<close>

datatype reverify_outcome = Renewed | Flagged | Deferred

definition cycle_draft :: "cycle \<Rightarrow> dict" where
  "cycle_draft c =
     [(''cycle_id'', JStr (uuid_str (cy_id c))), (''official_cycle_url'', JStr (cy_official_cycle_url c))]"

definition defer_or_flag ::
  "stdlib \<Rightarrow> freshness_config \<Rightarrow> instant \<Rightarrow> cycle \<Rightarrow> string \<Rightarrow> db \<Rightarrow> (reverify_outcome \<times> db) result" where
  "defer_or_flag std cfg now c reason d =
     bindE (cycle_bucket std cfg now c) (\<lambda>bucket.
       if evidence_deadline c bucket cfg > now then Inr (Deferred, d)
       else Inr (Flagged, snd (open_cycle_review_task now c reason (cycle_draft c) d)))"

text \<open>
  \<open>reserve_call\<close> commits the session it runs in: a fetch that reached the fallback has committed what
  the cycle wrote before it, whatever comes after.
\<close>

definition jina_attempted :: "fetchlib \<Rightarrow> settings \<Rightarrow> string \<Rightarrow> string list \<Rightarrow> bool" where
  "jina_attempted fl st url domains =
     (is_set (jina_api_key st) \<and>
      (case fetch_source fl url domains of
         Inl (HTTPError _) \<Rightarrow> True
       | Inl _ \<Rightarrow> False
       | Inr f \<Rightarrow> fs_status_code f \<ge> 400))"

definition fetch_cycle_page ::
  "fetchlib \<Rightarrow> settings \<Rightarrow> instant \<Rightarrow> uuid \<Rightarrow> cycle \<Rightarrow> db
   \<Rightarrow> (source_page \<times> string option) option \<times> db \<times> db" where
  "fetch_cycle_page fl st now sid c d =
     (case get_or_create_source_page (fl_net fl) sid c d of
        Inl _ \<Rightarrow> (None, d, d)
      | Inr (page, d1) \<Rightarrow>
          (case urlsplit (fl_net fl) (pg_normalized_url page) of
             Inl _ \<Rightarrow> (None, d1, d)
           | Inr parts \<Rightarrow>
               let hostname = or_empty (us_hostname parts)
               in case fetch_and_persist_page fl st now (pg_id page) (Some [hostname]) d1 of
                    (Inl _, d2) \<Rightarrow>
                      (None, d2, if jina_attempted fl st (pg_normalized_url page) [hostname] then d2 else d)
                  | (Inr _, d2) \<Rightarrow>
                      (case tget pg_id (pg_id page) (pages d2) of
                         None \<Rightarrow> (None, d2, d2)
                       | Some page' \<Rightarrow> (Some (page', pg_normalized_content_hash page), d2, d2))))"

definition renew_row :: "instant \<Rightarrow> cycle \<Rightarrow> cycle" where
  "renew_row now c =
     (if cy_public_status c = Status_unknown \<and> cy_auto_downgraded c
      then c\<lparr>cy_last_verified_at := Some now, cy_public_status := Open_verified, cy_auto_downgraded := False\<rparr>
      else c\<lparr>cy_last_verified_at := Some now\<rparr>)"

definition hash_draft :: "cycle \<Rightarrow> string option \<Rightarrow> string option \<Rightarrow> dict" where
  "hash_draft c previous new =
     cycle_draft c @ [(''previous_content_hash'', jopt JStr previous), (''new_content_hash'', jopt JStr new)]"

definition judge_recheck ::
  "stdlib \<Rightarrow> freshness_config \<Rightarrow> instant \<Rightarrow> cycle \<Rightarrow> source_page \<Rightarrow> string option \<Rightarrow> db
   \<Rightarrow> (reverify_outcome \<times> db) result" where
  "judge_recheck std cfg now c page previous_hash d =
     (let new_hash = pg_normalized_content_hash page;
          fetch_ok = (new_hash \<noteq> None \<and>
            (case pg_http_status page of None \<Rightarrow> False | Some s \<Rightarrow> 200 \<le> s \<and> s < 400))
      in if previous_hash = None \<or> \<not> fetch_ok
         then defer_or_flag std cfg now c
                (if \<not> fetch_ok then ''reverify_link_unreachable'' else ''reverify_first_observation'') d
         else bindE (fact_cutoff std (derive_facts std (cy_facts c))) (\<lambda>cutoff.
           let deadline_still_valid = (case cutoff of None \<Rightarrow> True | Some t \<Rightarrow> t > now)
           in if is_unchanged_recheck previous_hash (the new_hash) (the (pg_http_status page)) deadline_still_valid
              then Inr (Renewed, d\<lparr>cycles := tmod cy_id (cy_id c) (renew_row now) (cycles d)\<rparr>)
              else if previous_hash \<noteq> new_hash
              then Inr (Flagged, snd (open_cycle_review_task now c ''reverify_content_changed''
                                        (hash_draft c previous_hash new_hash) d))
              else Inr (Deferred, d)))"

text \<open>One cycle: the outcome with the database, or the exception with what was committed before it.\<close>

definition reverify_one_cycle ::
  "stdlib \<Rightarrow> fetchlib \<Rightarrow> settings \<Rightarrow> instant \<Rightarrow> uuid \<Rightarrow> cycle \<Rightarrow> db \<Rightarrow> reverify_outcome result \<times> db" where
  "reverify_one_cycle std fl st now sid c d =
     (case fetch_cycle_page fl st now sid c d of
        (fetched, d1, committed) \<Rightarrow>
          (case (case fetched of
                   None \<Rightarrow> defer_or_flag std (freshness st) now c ''reverify_fetch_failed'' d1
                 | Some (page, previous_hash) \<Rightarrow>
                     judge_recheck std (freshness st) now c page previous_hash d1) of
             Inl e \<Rightarrow> (Inl e, committed)
           | Inr (outcome, d2) \<Rightarrow> (Inr outcome, d2)))"

record reverify_report =
  rv_checked :: nat
  rv_renewed :: nat
  rv_flagged :: nat
  rv_deferred :: nat

definition count_outcome :: "reverify_outcome \<Rightarrow> reverify_report \<Rightarrow> reverify_report" where
  "count_outcome oc r =
     (case oc of
        Renewed \<Rightarrow> r\<lparr>rv_renewed := rv_renewed r + 1\<rparr>
      | Flagged \<Rightarrow> r\<lparr>rv_flagged := rv_flagged r + 1\<rparr>
      | Deferred \<Rightarrow> r\<lparr>rv_deferred := rv_deferred r + 1\<rparr>)"

text \<open>The unlocked scan: due ids in order, up to the batch limit.\<close>

fun scan_due ::
  "stdlib \<Rightarrow> freshness_config \<Rightarrow> instant \<Rightarrow> nat \<Rightarrow> cycle list \<Rightarrow> uuid list \<Rightarrow> uuid list result" where
  "scan_due std cfg now batch_limit [] acc = Inr acc"
| "scan_due std cfg now batch_limit (c # cs) acc =
     bindE (cycle_bucket std cfg now c) (\<lambda>bucket.
       let acc' = (if is_reverify_due bucket (cy_last_verified_at c) now cfg then acc @ [cy_id c] else acc)
       in if length acc' \<ge> batch_limit then Inr acc' else scan_due std cfg now batch_limit cs acc')"

fun reverify_all ::
  "stdlib \<Rightarrow> fetchlib \<Rightarrow> settings \<Rightarrow> instant \<Rightarrow> uuid \<Rightarrow> uuid list \<Rightarrow> reverify_report \<times> db
   \<Rightarrow> reverify_report \<times> db" where
  "reverify_all std fl st now sid [] (r, d) = (r, d)"
| "reverify_all std fl st now sid (i # is) (r, d) =
     (case find (\<lambda>c. cy_id c = i \<and> is_published d c) (cycles d) of
        None \<Rightarrow> reverify_all std fl st now sid is (r, d)
      | Some c \<Rightarrow>
          (let r1 = r\<lparr>rv_checked := rv_checked r + 1\<rparr>
           in case reverify_one_cycle std fl st now sid c d of
                (Inl _, d1) \<Rightarrow> reverify_all std fl st now sid is (r1, d1)
              | (Inr oc, d1) \<Rightarrow> reverify_all std fl st now sid is (count_outcome oc r1, d1)))"

definition reverify_due_cycles ::
  "stdlib \<Rightarrow> fetchlib \<Rightarrow> settings \<Rightarrow> instant \<Rightarrow> nat option \<Rightarrow> db \<Rightarrow> (reverify_report \<times> db) result" where
  "reverify_due_cycles std fl st now limit d =
     (let nothing = \<lparr>rv_checked = 0, rv_renewed = 0, rv_flagged = 0, rv_deferred = 0\<rparr>;
          batch_limit = (case limit of Some n \<Rightarrow> n | None \<Rightarrow> reverify_due_batch_limit st)
      in case find (\<lambda>s. so_name s = OFFICIAL_SOURCE_NAME) (sources d) of
           None \<Rightarrow> Inr (nothing, d)
         | Some source \<Rightarrow>
             if \<not> so_active source then Inr (nothing, d)
             else bindE (scan_due std (freshness st) now batch_limit
                           (published_cycles (\<lambda>_. False) PUBLISHED_CYCLE_SCAN_LIMIT d) []) (\<lambda>ids.
                    Inr (reverify_all std fl st now (so_id source) ids (nothing, d))))"

section \<open>What the jobs leave alone\<close>

lemma reserve_call_frame:
  "reserve_call p l now d = (ok, d') \<Longrightarrow>
     cycles d' = cycles d \<and> scholarships d' = scholarships d \<and> review_tasks d' = review_tasks d
     \<and> pages d' = pages d \<and> sources d' = sources d \<and> next_id d' = next_id d"
  by (auto simp: reserve_call_def Let_def split: option.splits if_splits)

lemma try_jina_frame:
  "try_jina_fallback fl st now url d = (r, d') \<Longrightarrow>
     cycles d' = cycles d \<and> scholarships d' = scholarships d \<and> review_tasks d' = review_tasks d
     \<and> pages d' = pages d \<and> sources d' = sources d \<and> next_id d' = next_id d"
  by (auto simp: try_jina_fallback_def split: if_splits prod.splits bool.splits option.splits
      dest: reserve_call_frame)

lemma fetch_fallback_frame:
  "fetch_with_jina_fallback fl st now url ds d = (r, d') \<Longrightarrow>
     cycles d' = cycles d \<and> scholarships d' = scholarships d \<and> review_tasks d' = review_tasks d
     \<and> pages d' = pages d \<and> sources d' = sources d \<and> next_id d' = next_id d"
  by (auto simp: fetch_with_jina_fallback_def split: sum.splits exn.splits option.splits prod.splits if_splits
      dest: try_jina_frame)

lemma fetch_persist_frame:
  "fetch_and_persist_page fl st now pid ov d = (r, d') \<Longrightarrow>
     cycles d' = cycles d \<and> scholarships d' = scholarships d \<and> review_tasks d' = review_tasks d
     \<and> next_id d \<le> next_id d'"
  by (auto simp: fetch_and_persist_page_def new_uuid7_def Let_def
      split: option.splits if_splits prod.splits sum.splits dest: fetch_fallback_frame)

lemma open_task_frame:
  "open_cycle_review_task now c reason draft d = (r, d') \<Longrightarrow>
     cycles d' = cycles d \<and> scholarships d' = scholarships d \<and> pages d' = pages d \<and> next_id d \<le> next_id d'"
  by (auto simp: open_cycle_review_task_def new_uuid7_def split: if_splits)

lemma cycle_rows [simp]:
  "cy_id (set_cycle_page p c) = cy_id c" "cy_scholarship_id (set_cycle_page p c) = cy_scholarship_id c"
  "identity_of (set_cycle_page p c) = identity_of c" "cy_public_status (set_cycle_page p c) = cy_public_status c"
  "cy_auto_downgraded (set_cycle_page p c) = cy_auto_downgraded c" "cy_facts (set_cycle_page p c) = cy_facts c"
  "cy_last_verified_at (set_cycle_page p c) = cy_last_verified_at c"
  "cy_status_valid_until (set_cycle_page p c) = cy_status_valid_until c"
  "cy_id (renew_row now c) = cy_id c" "cy_scholarship_id (renew_row now c) = cy_scholarship_id c"
  "identity_of (renew_row now c) = identity_of c" "cy_facts (renew_row now c) = cy_facts c"
  "cy_last_verified_at (renew_row now c) = Some now"
  "cy_status_valid_until (renew_row now c) = cy_status_valid_until c"
  by (simp_all add: set_cycle_page_def renew_row_def identity_of_def)

lemma get_page_frame:
  assumes "get_or_create_source_page nl sid c d = Inr (page, d')"
  shows "(cycles d' = cycles d \<or> cycles d' = tmod cy_id (cy_id c) (set_cycle_page (pg_id page)) (cycles d))
     \<and> scholarships d' = scholarships d \<and> review_tasks d' = review_tasks d \<and> next_id d \<le> next_id d'"
  using assms
  by (auto simp: get_or_create_source_page_def link_cycle_page_def new_uuid7_def bindE_eq_Inr Let_def
      split: option.splits)

lemma fetch_cycle_frame:
  assumes "fetch_cycle_page fl st now sid c d = (f, d', dc)" and "x = d' \<or> x = dc"
  shows "(cycles x = cycles d \<or> (\<exists>p. cycles x = tmod cy_id (cy_id c) (set_cycle_page p) (cycles d)))
     \<and> scholarships x = scholarships d \<and> review_tasks x = review_tasks d \<and> next_id d \<le> next_id x"
proof (cases "get_or_create_source_page (fl_net fl) sid c d")
  case (Inl e)
  then show ?thesis using assms by (auto simp: fetch_cycle_page_def)
next
  case (Inr q)
  obtain page d1 where q: "q = (page, d1)" by fastforce
  from get_page_frame [OF Inr [unfolded q]] have 1:
    "cycles d1 = cycles d \<or> (\<exists>p. cycles d1 = tmod cy_id (cy_id c) (set_cycle_page p) (cycles d))"
    "scholarships d1 = scholarships d" "review_tasks d1 = review_tasks d" "next_id d \<le> next_id d1" by auto
  show ?thesis
  proof (cases "urlsplit (fl_net fl) (pg_normalized_url page)")
    case (Inl e)
    then show ?thesis using assms Inr q 1 by (auto simp: fetch_cycle_page_def)
  next
    case (Inr parts)
    obtain r d2 where f: "fetch_and_persist_page fl st now (pg_id page) (Some [or_empty (us_hostname parts)]) d1 = (r, d2)"
      by fastforce
    from fetch_persist_frame [OF f] 1 have 2:
      "cycles d2 = cycles d \<or> (\<exists>p. cycles d2 = tmod cy_id (cy_id c) (set_cycle_page p) (cycles d))"
      "scholarships d2 = scholarships d" "review_tasks d2 = review_tasks d" "next_id d \<le> next_id d2" by auto
    have "x = d \<or> x = d2"
      using assms f Inr \<open>get_or_create_source_page (fl_net fl) sid c d = Inr q\<close> q
      by (auto simp: fetch_cycle_page_def split: sum.splits option.splits if_splits)
    with 2 show ?thesis by auto
  qed
qed

text \<open>The effect of one recheck on the cycles: at most the row of the cycle itself.\<close>

lemma reverify_writes:
  assumes "reverify_one_cycle std fl st now sid c d = (r, d')"
  obtains g where "cycles d' = map (\<lambda>x. if cy_id x = cy_id c then g x else x) (cycles d)"
    "scholarships d' = scholarships d" "next_id d \<le> next_id d'"
    "(\<exists>p. g = set_cycle_page p) \<or> g = id
     \<or> (r = Inr Renewed \<and> ((\<exists>p. g = renew_row now \<circ> set_cycle_page p) \<or> g = renew_row now))"
proof -
  obtain f d1 dc where f: "fetch_cycle_page fl st now sid c d = (f, d1, dc)" by (metis prod_cases3)
  let ?j = "case f of None \<Rightarrow> defer_or_flag std (freshness st) now c ''reverify_fetch_failed'' d1
    | Some (page, previous_hash) \<Rightarrow> judge_recheck std (freshness st) now c page previous_hash d1"
  have fr: "(\<exists>h. (h = id \<or> (\<exists>p. h = set_cycle_page p))
      \<and> cycles x = map (\<lambda>y. if cy_id y = cy_id c then h y else y) (cycles d))
      \<and> scholarships x = scholarships d \<and> next_id d \<le> next_id x" if "x = d1 \<or> x = dc" for x
  proof -
    have "cycles d = map (\<lambda>y. if cy_id y = cy_id c then id y else y) (cycles d)" by (simp add: map_idI)
    then show ?thesis using fetch_cycle_frame [OF f that] unfolding tmod_def by metis
  qed
  have j: "(cycles d2 = cycles d1 \<or> oc = Renewed \<and> cycles d2 = tmod cy_id (cy_id c) (renew_row now) (cycles d1))
      \<and> scholarships d2 = scholarships d1 \<and> next_id d1 \<le> next_id d2" if "?j = Inr (oc, d2)" for oc d2
  proof -
    have dfr: "cycles d2 = cycles d1 \<and> scholarships d2 = scholarships d1 \<and> next_id d1 \<le> next_id d2"
      if "defer_or_flag std cfg now c reason d1 = Inr (oc, d2)" for cfg reason oc d2
      using that open_task_frame [of now c reason "cycle_draft c" d1]
      by (cases "open_cycle_review_task now c reason (cycle_draft c) d1")
        (auto simp: defer_or_flag_def bindE_eq_Inr split: if_splits)
    show ?thesis
    proof (cases f)
      case None
      with that dfr show ?thesis by simp
    next
      case (Some q)
      obtain page ph where q: "q = (page, ph)" by fastforce
      with Some that have "judge_recheck std (freshness st) now c page ph d1 = Inr (oc, d2)" by simp
      then show ?thesis
        using open_task_frame [of now c "''reverify_content_changed''" "hash_draft c ph (pg_normalized_content_hash page)" d1]
        by (cases "open_cycle_review_task now c ''reverify_content_changed'' (hash_draft c ph (pg_normalized_content_hash page)) d1")
          (auto simp: judge_recheck_def Let_def bindE_eq_Inr split: if_splits dest!: dfr)
    qed
  qed
  show thesis
  proof (cases ?j)
    case (Inl e)
    then have "r = Inl e" "d' = dc" using assms f by (auto simp: reverify_one_cycle_def)
    with fr [of dc] that show thesis by blast
  next
    case (Inr q)
    obtain oc d2 where q: "q = (oc, d2)" by fastforce
    then have r: "r = Inr oc" "d' = d2" using assms f Inr by (auto simp: reverify_one_cycle_def)
    obtain h where h: "h = id \<or> (\<exists>p. h = set_cycle_page p)"
      "cycles d1 = map (\<lambda>y. if cy_id y = cy_id c then h y else y) (cycles d)"
      "scholarships d1 = scholarships d" "next_id d \<le> next_id d1" using fr [of d1] by blast
    note jj = j [OF Inr [unfolded q]]
    show thesis
    proof (cases "cycles d2 = cycles d1")
      case True
      with h r jj that [of h] show thesis by auto
    next
      case False
      with jj have oc: "oc = Renewed" "cycles d2 = tmod cy_id (cy_id c) (renew_row now) (cycles d1)" by auto
      have hid: "cy_id (h y) = cy_id y" for y using h(1) by auto
      have "cycles d2 = map (\<lambda>y. if cy_id y = cy_id c then (renew_row now \<circ> h) y else y) (cycles d)"
        unfolding oc(2) h(2) tmod_def using hid by simp
      then show thesis
        using h r oc jj by (intro that [of "renew_row now \<circ> h"]) auto
    qed
  qed
qed

section \<open>Properties\<close>

lemma bucket_raises_with_cutoff:
  "cy_public_status c = Open_verified \<Longrightarrow> fact_cutoff std (derive_facts std (cy_facts c)) = Inl e \<Longrightarrow>
   cycle_bucket std cfg now c = Inl e"
  by (auto simp: fact_cutoff_def cycle_bucket_def classify_bucket_def Let_def bindE_eq_Inl split: option.splits)

lemma evaluate_open_result:
  "evaluate_public_status tz Open_verified dl u pr z now = Inr ev \<Longrightarrow> ev = Open_verified \<or> ev = Status_unknown"
  by (auto simp: evaluate_public_status_def bindE_eq_Inr split: if_splits option.splits)

lemma evaluate_past_validity:
  "is_ok (evaluate_public_status tz Open_verified dl u pr z now) \<Longrightarrow> v \<le> t \<Longrightarrow>
   evaluate_public_status tz Open_verified dl (Some v) pr z t = Inr Status_unknown"
  by (auto simp: evaluate_public_status_def is_ok_iff bindE_eq_Inr split: option.splits)

lemma refresh_one_Inr:
  assumes "refresh_one_status std cfg now c = Inr (changed, c')"
  obtains b ev v where "cycle_bucket std cfg now c = Inr b"
    "evaluate_public_status (std_tz std) (cy_public_status c) (df_deadline_at (derive_facts std (cy_facts c)))
       (cy_status_valid_until c) (df_deadline_precision (derive_facts std (cy_facts c)))
       (df_deadline_timezone (derive_facts std (cy_facts c))) now = Inr ev"
    "changed = (ev = Status_unknown \<and> cy_public_status c \<noteq> Status_unknown
       \<or> cy_public_status c = Open_verified \<and> evidence_deadline c b cfg \<le> now)"
    "c' = c\<lparr>cy_status_valid_until := v,
            cy_public_status := (if changed then Status_unknown else cy_public_status c),
            cy_auto_downgraded := (cy_auto_downgraded c
              \<or> cy_public_status c = Open_verified \<and> ev \<noteq> Status_unknown \<and> evidence_deadline c b cfg \<le> now)\<rparr>"
    "cy_public_status c = Open_verified \<Longrightarrow> \<exists>u. v = Some u \<and> u \<le> evidence_deadline c b cfg"
    "cy_public_status c \<noteq> Open_verified \<Longrightarrow> v = cy_status_valid_until c"
proof -
  let ?df = "derive_facts std (cy_facts c)"
  obtain b ev where b: "cycle_bucket std cfg now c = Inr b"
    and ev: "evaluate_public_status (std_tz std) (cy_public_status c) (df_deadline_at ?df)
       (cy_status_valid_until c) (df_deadline_precision ?df) (df_deadline_timezone ?df) now = Inr ev"
    using assms by (auto simp: refresh_one_status_def Let_def bindE_eq_Inr)
  show thesis
  proof (cases "cy_public_status c = Open_verified")
    case True
    then have evo: "ev = Open_verified \<or> ev = Status_unknown" using ev evaluate_open_result by simp
    obtain cut where "fact_cutoff std ?df = Inr cut"
      using assms True by (auto simp: refresh_one_status_def Let_def b ev bindE_eq_Inr)
    note cut = this
    let ?e = "evidence_deadline c b cfg"
    let ?v = "case cut of None \<Rightarrow> ?e | Some t \<Rightarrow> min ?e t"
    have "refresh_one_status std cfg now c =
        (if ev = Status_unknown \<or> ?e \<le> now
         then Inr (True, c\<lparr>cy_status_valid_until := Some ?v, cy_public_status := Status_unknown,
                           cy_auto_downgraded := (ev \<noteq> Status_unknown \<and> ?e \<le> now \<or> cy_auto_downgraded c)\<rparr>)
         else Inr (False, c\<lparr>cy_status_valid_until := Some ?v\<rparr>))"
      unfolding refresh_one_status_def Let_def b bindE_Inr ev cut
      using True evo by (cases "ev = Status_unknown") simp_all
    with assms have r: "changed = (ev = Status_unknown \<or> ?e \<le> now)"
      "c' = (if changed then c\<lparr>cy_status_valid_until := Some ?v, cy_public_status := Status_unknown,
                           cy_auto_downgraded := (ev \<noteq> Status_unknown \<and> ?e \<le> now \<or> cy_auto_downgraded c)\<rparr>
             else c\<lparr>cy_status_valid_until := Some ?v\<rparr>)"
      by (simp_all split: if_splits)
    have "?v \<le> ?e" by (simp split: option.split)
    with r True evo show thesis
      by (intro that [OF b ev, of "Some ?v"]) (cases c, auto)
  next
    case False
    then have "ev = cy_public_status c" using ev by (simp add: evaluate_public_status_def)
    with assms ev False have "changed = False \<and> c' = c"
      unfolding refresh_one_status_def Let_def b bindE_Inr ev by (simp split: if_splits)
    with False \<open>ev = _\<close> show thesis
      by (intro that [OF b ev, of "cy_status_valid_until c"]) (cases c, auto)
  qed
qed

text \<open>
  C23. A refresh only ever takes openness away, and exactly when it must: a cycle that was open becomes
  \<open>status_unknown\<close> iff a read would already show so or its evidence has gone stale, any other cycle
  keeps its status, the downgrade is marked restorable iff staleness alone caused it, and a cycle left
  open stops reading as open by itself once its evidence goes stale.
\<close>

theorem refresh_downgrades_exactly:
  assumes "refresh_one_status std cfg now c = Inr (changed, c')" and "cycle_bucket std cfg now c = Inr b"
    and "evaluate_public_status (std_tz std) (cy_public_status c) (df_deadline_at (derive_facts std (cy_facts c)))
       (cy_status_valid_until c) (df_deadline_precision (derive_facts std (cy_facts c)))
       (df_deadline_timezone (derive_facts std (cy_facts c))) now = Inr ev"
  shows "cy_public_status c' =
       (if cy_public_status c = Open_verified \<and> (ev \<noteq> Open_verified \<or> evidence_deadline c b cfg \<le> now)
        then Status_unknown else cy_public_status c)
     \<and> (cy_auto_downgraded c' \<longleftrightarrow> cy_auto_downgraded c
          \<or> cy_public_status c = Open_verified \<and> ev = Open_verified \<and> evidence_deadline c b cfg \<le> now)
     \<and> cy_last_verified_at c' = cy_last_verified_at c \<and> cy_facts c' = cy_facts c
     \<and> (cy_public_status c' = Open_verified \<longrightarrow>
          (\<forall>t \<ge> evidence_deadline c b cfg.
             evaluate_public_status (std_tz std) Open_verified (df_deadline_at (derive_facts std (cy_facts c)))
               (cy_status_valid_until c') (df_deadline_precision (derive_facts std (cy_facts c)))
               (df_deadline_timezone (derive_facts std (cy_facts c))) t = Inr Status_unknown))"
  using assms(1)
proof (cases rule: refresh_one_Inr)
  case (1 b' ev' v)
  then have eq: "b' = b" "ev' = ev" using assms(2,3) by auto
  show ?thesis
  proof (cases "cy_public_status c = Open_verified")
    case True
    then have evo: "ev = Open_verified \<or> ev = Status_unknown" using assms(3) evaluate_open_result by simp
    obtain u where "v = Some u" "u \<le> evidence_deadline c b cfg" using 1(5) True eq by auto
    with True evo 1 eq show ?thesis
      by (auto simp: is_ok_iff intro!: evaluate_past_validity)
  next
    case False
    then have "ev = cy_public_status c" using assms(3) by (simp add: evaluate_public_status_def)
    with False 1 eq show ?thesis by auto
  qed
qed

definition demo_cycle :: cycle where
  "demo_cycle = (new_cycle 0 4 2 demo_content)"

lemma demo_cycle_sel [simp]:
  "cy_public_status demo_cycle = Open_verified" "cy_facts demo_cycle = []" "cy_status_valid_until demo_cycle = None"
  "cy_last_verified_at demo_cycle = Some 0" "cy_auto_downgraded demo_cycle = False" "cy_id demo_cycle = 4"
  "cy_scholarship_id demo_cycle = 2" "cy_source_page_id demo_cycle = None"
  "cy_official_cycle_url demo_cycle = ''https://demo.org/apply''"
  by (simp_all add: demo_cycle_def new_cycle_def demo_content_def)

lemma derive_empty [simp]: "df_deadline_at (derive_facts std []) = None"
  by (simp add: derive_facts_def safe_deadline_at_def Let_def)

lemma demo_bucket: "cycle_bucket std cfg now demo_cycle = Inr Rolling_open"
  by (simp add: cycle_bucket_def classify_bucket_def Let_def)

lemma demo_refresh:
  "refresh_one_status demo_std default_freshness_config (hours 48) demo_cycle =
     Inr (True, demo_cycle\<lparr>cy_status_valid_until := Some (hours 48), cy_public_status := Status_unknown,
                           cy_auto_downgraded := True\<rparr>)"
  by (simp add: refresh_one_status_def demo_bucket evaluate_public_status_def Let_def fact_cutoff_def
      evidence_deadline_def max_evidence_age_def default_freshness_config_def duration_defs)

theorem refresh_downgrades_exactly_witness:
  "cy_public_status (demo_cycle\<lparr>cy_status_valid_until := Some (hours 48), cy_public_status := Status_unknown,
                           cy_auto_downgraded := True\<rparr>) = Status_unknown
   \<and> evidence_deadline demo_cycle Rolling_open default_freshness_config \<le> hours 48"
proof -
  have ev: "evaluate_public_status (std_tz demo_std) (cy_public_status demo_cycle)
       (df_deadline_at (derive_facts demo_std (cy_facts demo_cycle))) (cy_status_valid_until demo_cycle)
       (df_deadline_precision (derive_facts demo_std (cy_facts demo_cycle)))
       (df_deadline_timezone (derive_facts demo_std (cy_facts demo_cycle))) (hours 48) = Inr Open_verified"
    by (simp add: evaluate_public_status_def)
  have d: "evidence_deadline demo_cycle Rolling_open default_freshness_config \<le> hours 48"
    by (simp add: evidence_deadline_def max_evidence_age_def default_freshness_config_def duration_defs)
  show ?thesis
    using refresh_downgrades_exactly [OF demo_refresh demo_bucket ev] d by simp
qed

section \<open>The sweeps and the catalogue\<close>

lemma refreshed_facts:
  "cy_id (refreshed std cfg now c) = cy_id c" "cy_scholarship_id (refreshed std cfg now c) = cy_scholarship_id c"
  "identity_of (refreshed std cfg now c) = identity_of c" "cy_facts (refreshed std cfg now c) = cy_facts c"
  "cy_public_status (refreshed std cfg now c) = cy_public_status c
     \<or> cy_public_status (refreshed std cfg now c) = Status_unknown"
  by (auto simp: refreshed_def identity_of_def split: sum.splits if_splits elim!: refresh_one_Inr)

lemma published_cycles_in:
  "c \<in> set (published_cycles locked limit d) \<Longrightarrow> c \<in> set (cycles d) \<and> is_published d c \<and> \<not> locked (cy_id c)"
  by (auto simp: published_cycles_def dest: in_set_takeD)

lemma distinct_published_cycles:
  "distinct (map cy_id (cycles d)) \<Longrightarrow> distinct (map cy_id (published_cycles locked limit d))"
  by (simp add: published_cycles_def flip: take_map)
    (rule distinct_take, auto simp: distinct_map inj_on_def)

lemma refresh_cycles:
  assumes "distinct (map cy_id (cycles d))"
  shows "cycles (snd (refresh_due_statuses std st now locked limit d)) =
     map (\<lambda>c. if c \<in> set (published_cycles locked (case limit of Some n \<Rightarrow> n | None \<Rightarrow> refresh_status_batch_limit st) d)
              then refreshed std (freshness st) now c else c) (cycles d)"
proof -
  let ?cs = "published_cycles locked (case limit of Some n \<Rightarrow> n | None \<Rightarrow> refresh_status_batch_limit st) d"
  have "cy_id c \<in> set (map cy_id ?cs) \<longleftrightarrow> c \<in> set ?cs" if "c \<in> set (cycles d)" for c
  proof -
    have "set ?cs \<subseteq> set (cycles d)" by (auto dest: published_cycles_in)
    then show ?thesis using that assms by (auto simp: distinct_map dest: inj_onD)
  qed
  then show ?thesis
    using cycle_table.mods_map [of "refreshed std (freshness st) now" "map cy_id ?cs" "cycles d"]
      distinct_published_cycles [OF assms]
    by (simp add: refresh_due_statuses_def Let_def refreshed_facts cong: map_cong)
qed

lemma refresh_frame:
  "scholarships (snd (refresh_due_statuses std st now locked limit d)) = scholarships d"
  "next_id (snd (refresh_due_statuses std st now locked limit d)) = next_id d"
  "review_tasks (snd (refresh_due_statuses std st now locked limit d)) = review_tasks d"
  by (simp_all add: refresh_due_statuses_def Let_def)

lemma refresh_keeps:
  assumes ok: "catalogue_ok d"
  shows "catalogue_ok (snd (refresh_due_statuses std st now locked limit d))"
    and "withdrawn_record d v \<Longrightarrow> withdrawn_record (snd (refresh_due_statuses std st now locked limit d)) v"
proof -
  let ?d = "snd (refresh_due_statuses std st now locked limit d)"
  let ?g = "\<lambda>c. if c \<in> set (published_cycles locked (case limit of Some n \<Rightarrow> n | None \<Rightarrow> refresh_status_batch_limit st) d)
              then refreshed std (freshness st) now c else c"
  note cyc = refresh_cycles [OF catalogue_okD(3) [OF ok], of std st now locked limit]
  have keep: "?g c = c" if "lifecycle_of d (cy_scholarship_id c) = Some Withdrawn" for c
    using that published_cycles_in [of c] by (auto simp: is_published_def)
  have ident: "identity_of (?g c) = identity_of c" for c by (simp add: refreshed_facts)
  have "map identity_of (map ?g (cycles d)) = map identity_of (cycles d)"
    by (simp only: map_map comp_def ident)
  then have dist: "distinct (map identity_of (cycles ?d))"
    using catalogue_okD(4) [OF ok] by (simp only: cyc)
  show "catalogue_ok ?d"
    by (rule catalogue_ok_rewrite [OF ok _ _ cyc _ dist])
      (simp_all add: refresh_frame refreshed_facts keep)
  show "withdrawn_record ?d v" if "withdrawn_record d v"
    by (rule final_rewrite [OF that _ cyc]) (simp_all add: refresh_frame refreshed_facts keep)
qed

lemma reverify_row:
  assumes "g = id \<or> (\<exists>p. g = set_cycle_page p) \<or> (\<exists>p. g = renew_row now \<circ> set_cycle_page p) \<or> g = renew_row now"
  shows "cy_id (g c) = cy_id c" "cy_scholarship_id (g c) = cy_scholarship_id c" "identity_of (g c) = identity_of c"
    "cy_facts (g c) = cy_facts c"
  using assms by auto

lemma reverify_keeps:
  assumes ok: "catalogue_ok d" and c: "c \<in> set (cycles d)" "is_published d c"
    and r: "reverify_one_cycle std fl st now sid c d = (r, d')"
  shows "catalogue_ok d'" and "withdrawn_record d v \<Longrightarrow> withdrawn_record d' v"
proof -
  obtain g where g: "cycles d' = map (\<lambda>x. if cy_id x = cy_id c then g x else x) (cycles d)"
      "scholarships d' = scholarships d" "next_id d \<le> next_id d'"
    and row: "g = id \<or> (\<exists>p. g = set_cycle_page p) \<or> (\<exists>p. g = renew_row now \<circ> set_cycle_page p) \<or> g = renew_row now"
    using r by (rule reverify_writes) blast
  let ?g = "\<lambda>x. if cy_id x = cy_id c then g x else x"
  have same: "x = c" if "x \<in> set (cycles d)" "cy_id x = cy_id c" for x
    using that c catalogue_okD(3) [OF ok] by (auto simp: distinct_map dest: inj_onD)
  have keep: "?g x = x" if "x \<in> set (cycles d)" "lifecycle_of d (cy_scholarship_id x) = Some Withdrawn" for x
    using that same [of x] c by (auto simp: is_published_def)
  have ident: "identity_of (?g x) = identity_of x" for x using reverify_row [OF row] by simp
  have "map identity_of (map ?g (cycles d)) = map identity_of (cycles d)"
    by (simp only: map_map comp_def ident)
  then have dist: "distinct (map identity_of (cycles d'))"
    using catalogue_okD(4) [OF ok] by (simp only: g(1))
  show "catalogue_ok d'"
    by (rule catalogue_ok_rewrite [OF ok g(2,3,1) _ dist]) (use reverify_row [OF row] keep in simp_all)
  show "withdrawn_record d' v" if "withdrawn_record d v"
    by (rule final_rewrite [OF that g(2,1)]) (use reverify_row [OF row] keep in simp_all)
qed

lemma judge_renewed:
  assumes "judge_recheck std cfg now c page ph d = Inr (Renewed, d')"
  shows "ph \<noteq> None \<and> pg_normalized_content_hash page = ph
     \<and> (\<exists>s. pg_http_status page = Some s \<and> 200 \<le> s \<and> s < 400)
     \<and> (\<exists>cut. fact_cutoff std (derive_facts std (cy_facts c)) = Inr cut \<and> (\<forall>t. cut = Some t \<longrightarrow> now < t))"
proof -
  have "defer_or_flag std cfg now c reason d \<noteq> Inr (Renewed, d')" for reason
    by (auto simp: defer_or_flag_def bindE_eq_Inr)
  then show ?thesis
    using assms
    by (cases ph; cases "pg_normalized_content_hash page"; cases "pg_http_status page")
      (auto simp: judge_recheck_def Let_def is_unchanged_recheck_def bindE_eq_Inr split: if_splits option.splits)
qed


text \<open>A published cycle, downgraded by the pipeline, whose page answers as it did before.\<close>

definition demo_down :: cycle where
  "demo_down = demo_cycle\<lparr>cy_public_status := Status_unknown, cy_auto_downgraded := True,
                          cy_source_page_id := Some 6\<rparr>"

definition demo_page :: source_page where
  "demo_page = (new_page 6 5 ''https://demo.org/apply'')\<lparr>pg_normalized_content_hash := Some ''page''\<rparr>"

definition demo_official :: source where
  "demo_official =
     \<lparr>so_id = 5, so_name = OFFICIAL_SOURCE_NAME, so_source_type = ''official'', so_authority_grade = ''A'',
      so_approved_domains = [], so_active = True, so_consecutive_harvest_failures = 0,
      so_last_harvest_failure_at = None\<rparr>"

definition demo_published :: "cycle \<Rightarrow> db" where
  "demo_published c = demo_catalogue\<lparr>
     scholarships := [set_lifecycle Published demo_scholarship], cycles := [c],
     sources := [demo_official], pages := [demo_page], next_id := 7\<rparr>"

lemma demo_published_ok: "cy_id c = 4 \<Longrightarrow> cy_scholarship_id c = 2 \<Longrightarrow> catalogue_ok (demo_published c)"
  by (simp add: catalogue_ok_def demo_published_def demo_catalogue_def empty_db_def demo_scholarship_def
      set_lifecycle_def lifecycle_of_def)

lemma demo_url_parts:
  "urlsplit demo_net ''https://demo.org/apply'' =
     Inr \<lparr>us_scheme = ''https'', us_netloc = ''demo.org'', us_path = ''/apply'', us_query = [], us_fragment = []\<rparr>"
  by (simp add: urlsplit_def split_scheme_def Let_def scheme_char_def is_alpha_def lower_def
      netloc_delim_def dropped_char_def)

lemma demo_hostname:
  "us_hostname \<lparr>us_scheme = ''https'', us_netloc = ''demo.org'', us_path = p, us_query = q, us_fragment = f\<rparr>
     = Some ''demo.org''"
  by (simp add: us_hostname_def hostinfo_def rpartition_at_def Let_def lower_def)

lemma demo_canonical_apply: "canonicalize_url demo_net ''https://demo.org/apply'' = Inr ''https://demo.org/apply''"
  by (simp add: canonicalize_url_def strip_def demo_url_parts demo_hostname us_port_def hostinfo_def rpartition_at_def
      Let_def lower_def canonical_netloc_def canonical_path_def rstrip_char_def parse_qsl_def urlencode_def
      urlunsplit_def)

lemma demo_public: "is_public_host demo_net h = Inr True"
  by (simp add: is_public_host_def is_public_address_def demo_net_def in_carrier_grade_nat_def)

lemma demo_validate: "validate_source_url demo_net ''https://demo.org/apply'' [''demo.org''] = Inr ''https://demo.org/apply''"
  unfolding validate_source_url_def demo_canonical_apply bindE_Inr demo_url_parts demo_public
  by (simp add: demo_hostname domain_allowed_def lstrip_char_def lower_def guardE_def)

lemma demo_fetch_apply:
  "fetch_source demo_fetch ''https://demo.org/apply'' [''demo.org''] =
     Inr \<lparr>fs_url = ''https://demo.org/apply'', fs_status_code = 200, fs_content = ''page'', fs_content_type = ''text/html''\<rparr>"
  by (simp add: fetch_source_def demo_fetch_def demo_validate finish_fetch_def MAX_BYTES_def)

lemma demo_recheck:
  "\<exists>d'. reverify_one_cycle demo_std demo_fetch default_settings 9 5 demo_down (demo_published demo_down) = (Inr Renewed, d')"
proof -
  have net: "fl_net demo_fetch = demo_net" by (simp add: demo_fetch_def)
  have page: "get_or_create_source_page demo_net 5 demo_down (demo_published demo_down)
      = Inr (demo_page, demo_published demo_down)"
    by (simp add: get_or_create_source_page_def demo_down_def demo_published_def demo_page_def new_page_def)
  have url: "pg_normalized_url demo_page = ''https://demo.org/apply''" by (simp add: demo_page_def new_page_def)
  let ?f = "\<lparr>fs_url = ''https://demo.org/apply'', fs_status_code = 200, fs_content = ''page'', fs_content_type = ''text/html''\<rparr>"
  have sel: "pages (demo_published demo_down) = [demo_page]" "sources (demo_published demo_down) = [demo_official]"
    "pg_id demo_page = 6" "pg_source_id demo_page = 5" "so_id demo_official = 5" "so_active demo_official"
    "pg_normalized_content_hash demo_page = Some ''page''"
    by (simp_all add: demo_published_def demo_page_def new_page_def demo_official_def)
  have sha: "fl_sha256 demo_fetch s = s" for s by (simp add: demo_fetch_def)
  have "\<exists>d1. fetch_and_persist_page demo_fetch default_settings 9 6 (Some [''demo.org'']) (demo_published demo_down) = (Inr 7, d1)
      \<and> pages d1 = [record_fetch 9 ''page'' ?f demo_page]"
    unfolding fetch_and_persist_page_def sel
    by (simp add: sel url fetch_with_jina_fallback_def demo_fetch_apply new_uuid7_def sha)
      (simp add: demo_published_def Let_def)
  then obtain d1 where fp: "fetch_and_persist_page demo_fetch default_settings 9 6 (Some [''demo.org'']) (demo_published demo_down) = (Inr 7, d1)"
      "pages d1 = [record_fetch 9 ''page'' ?f demo_page]" by blast
  have "fetch_cycle_page demo_fetch default_settings 9 5 demo_down (demo_published demo_down)
      = (Some (record_fetch 9 ''page'' ?f demo_page, Some ''page''), d1, d1)"
    unfolding fetch_cycle_page_def net page sum.case prod.case url demo_url_parts demo_hostname Let_def
    by (simp add: or_empty_def sel fp) (simp add: record_fetch_def sel)
  moreover have "pg_normalized_content_hash (record_fetch 9 ''page'' ?f demo_page) = Some ''page''"
      "pg_http_status (record_fetch 9 ''page'' ?f demo_page) = Some 200"
    by (simp_all add: record_fetch_def)
  ultimately show ?thesis
    by (auto simp: reverify_one_cycle_def judge_recheck_def is_unchanged_recheck_def fact_cutoff_def demo_down_def)
qed


text \<open>
  A reviewer's choice is not final: correcting a cycle that the pipeline had downgraded, with
  \<open>status_unknown\<close> as the chosen status, leaves the mark of the downgrade, and the next unchanged
  recheck publishes the cycle as \<open>open_verified\<close> again.
\<close>

theorem reviewer_choice_is_overridden:
  assumes "catalogue_ok d" and "load_cycle_for_update sid cid d = Inr c" and "cy_auto_downgraded c"
    and "cc_status cc = Status_unknown" and "update_cycle c cc changed actor d = Inr (c', d')"
    and "pg_normalized_content_hash page = Some h" and "pg_http_status page = Some 200"
    and "fact_cutoff std (derive_facts std (cc_facts cc)) = Inr None"
  shows "cy_public_status c' = Status_unknown
     \<and> (\<exists>d''. judge_recheck std cfg now c' page (Some h) d' = Inr (Renewed, d'')
          \<and> map_option cy_public_status (tget cy_id cid (cycles d'')) = Some Open_verified)"
proof -
  from assms(5) have u: "cycles d' = tmod cy_id (cy_id c) (write_content cc) (cycles d)" "c' = write_content cc c"
    by (auto elim!: update_cases)
  note l = load_cases [OF assms(2)]
  have get: "tget cy_id cid (cycles d) = Some c"
    using l tget_in_set [OF catalogue_okD(3) [OF assms(1)]] by auto
  have c': "cy_public_status c' = Status_unknown" "cy_auto_downgraded c'" "cy_id c' = cid" "cy_facts c' = cc_facts cc"
    using u(2) assms(3,4) l by (simp_all add: write_content_def)
  have "judge_recheck std cfg now c' page (Some h) d'
      = Inr (Renewed, d'\<lparr>cycles := tmod cy_id cid (renew_row now) (cycles d')\<rparr>)"
    using assms(6-8) c' by (simp add: judge_recheck_def is_unchanged_recheck_def)
  moreover have "tget cy_id cid (tmod cy_id cid (renew_row now) (cycles d')) = Some (renew_row now c')"
    using u get l by (simp add: cycle_table.get_mod_same)
  ultimately show ?thesis using c' by (simp add: renew_row_def)
qed

definition demo_choice :: cycle_content where
  "demo_choice = demo_content\<lparr>cc_status := Status_unknown\<rparr>"

theorem reviewer_choice_is_overridden_witness:
  "\<exists>d1 d2. update_cycle demo_down demo_choice [''public_status''] ''reviewer'' (demo_published demo_down)
        = Inr (write_content demo_choice demo_down, d1)
     \<and> judge_recheck demo_std default_freshness_config 9 (write_content demo_choice demo_down)
          (demo_page\<lparr>pg_http_status := Some 200\<rparr>) (Some ''page'') d1 = Inr (Renewed, d2)
     \<and> map_option cy_public_status (tget cy_id 4 (cycles d2)) = Some Open_verified"
proof -
  have ok: "catalogue_ok (demo_published demo_down)" by (rule demo_published_ok) (simp_all add: demo_down_def)
  have l: "load_cycle_for_update 2 4 (demo_published demo_down) = Inr demo_down"
    by (simp add: load_cycle_for_update_def demo_published_def demo_scholarship_def set_lifecycle_def demo_down_def)
  have ad: "cy_auto_downgraded demo_down" by (simp add: demo_down_def)
  have st: "cc_status demo_choice = Status_unknown" by (simp add: demo_choice_def)
  obtain d1 where u: "update_cycle demo_down demo_choice [''public_status''] ''reviewer'' (demo_published demo_down)
      = Inr (write_content demo_choice demo_down, d1)"
    by (simp add: update_cycle_def demo_choice_def demo_content_def demo_down_def demo_cycle_def new_cycle_def Let_def)
  have h: "pg_normalized_content_hash (demo_page\<lparr>pg_http_status := Some 200\<rparr>) = Some ''page''"
    "pg_http_status (demo_page\<lparr>pg_http_status := Some 200\<rparr>) = Some 200"
    by (simp_all add: demo_page_def)
  have f: "fact_cutoff demo_std (derive_facts demo_std (cc_facts demo_choice)) = Inr None"
    by (simp add: fact_cutoff_def demo_choice_def demo_content_def)
  from reviewer_choice_is_overridden [OF ok l ad st u h f] u show ?thesis by blast
qed

text \<open>
  A transient outage looks like a changed page: a recheck that fails with an error response stores
  the digest of the error page, so the next successful fetch of the very same content is flagged for
  review as changed, although the content equals what was last verified.
\<close>

theorem outage_flags_unchanged_page:
  assumes "pg_normalized_content_hash page = Some h" and "h' \<noteq> h"
    and "fs_status_code down \<ge> 400" and "fs_status_code up = 200"
    and "fact_cutoff std (derive_facts std (cy_facts c)) = Inr cu"
    and "\<forall>t \<in> set (review_tasks d). \<not> (live_task t \<and> rt_cycle_id t = Some (cy_id c))"
  shows "\<exists>d' t. judge_recheck std cfg now c (record_fetch t2 h up (record_fetch t1 h' down page))
             (pg_normalized_content_hash (record_fetch t1 h' down page)) d = Inr (Flagged, d')
     \<and> review_tasks d' = review_tasks d @ [t] \<and> rt_reason t = ''reverify_content_changed''
     \<and> pg_normalized_content_hash (record_fetch t2 h up (record_fetch t1 h' down page))
         = pg_normalized_content_hash page"
  using assms
  by (auto simp: judge_recheck_def record_fetch_def is_unchanged_recheck_def open_cycle_review_task_def
      new_uuid7_def Let_def)

theorem outage_flags_unchanged_page_witness:
  "\<exists>d'. judge_recheck demo_std default_freshness_config 9 demo_down
        (record_fetch 8 ''page'' \<lparr>fs_url = [], fs_status_code = 200, fs_content = ''page'', fs_content_type = []\<rparr>
          (record_fetch 7 ''502'' \<lparr>fs_url = [], fs_status_code = 502, fs_content = ''502'', fs_content_type = []\<rparr> demo_page))
        (Some ''502'') (demo_published demo_down) = Inr (Flagged, d')"
proof -
  have h: "pg_normalized_content_hash demo_page = Some ''page''" by (simp add: demo_page_def)
  have f: "fact_cutoff demo_std (derive_facts demo_std (cy_facts demo_down)) = Inr None"
    by (simp add: fact_cutoff_def demo_down_def)
  have t: "\<forall>t \<in> set (review_tasks (demo_published demo_down)). \<not> (live_task t \<and> rt_cycle_id t = Some (cy_id demo_down))"
    by (simp add: demo_published_def demo_catalogue_def demo_task_def demo_down_def)
  from outage_flags_unchanged_page [OF h _ _ _ f t, of "''502''"
      "\<lparr>fs_url = [], fs_status_code = 502, fs_content = ''502'', fs_content_type = []\<rparr>"
      "\<lparr>fs_url = [], fs_status_code = 200, fs_content = ''page'', fs_content_type = []\<rparr>"
      default_freshness_config 9 8 7]
  moreover have "pg_normalized_content_hash (record_fetch t h f p) = Some h" for t h f p
    by (simp add: record_fetch_def)
  ultimately show ?thesis by auto
qed

text \<open>
  One malformed zone key stops every recheck: if an open published cycle in the scan stores a
  deadline zone that \<open>ZoneInfo\<close> refuses, and the batch has room, the job raises before it checks a
  single cycle, while the status refresh, which catches per cycle, still completes.
\<close>

theorem malformed_cycle_stops_reverify:
  assumes "find (\<lambda>s. so_name s = OFFICIAL_SOURCE_NAME) (sources d) = Some src" and "so_active src"
    and "c \<in> set (published_cycles (\<lambda>_. False) PUBLISHED_CYCLE_SCAN_LIMIT d)"
    and "cy_public_status c = Open_verified"
    and "fact_cutoff std (derive_facts std (cy_facts c)) = Inl e"
    and "length (published_cycles (\<lambda>_. False) PUBLISHED_CYCLE_SCAN_LIMIT d) < limit"
  shows "\<exists>e'. reverify_due_cycles std fl st now (Some limit) d = Inl e'"
proof -
  have "\<exists>e'. scan_due std cfg now limit cs acc = Inl e'"
    if "c \<in> set cs" "length acc + length cs < limit" for cs acc cfg
    using that
  proof (induction cs arbitrary: acc)
    case (Cons x xs)
    show ?case
    proof (cases "cycle_bucket std cfg now x")
      case (Inr b)
      then have "c \<in> set xs"
        using Cons.prems(1) bucket_raises_with_cutoff [OF assms(4,5)] by auto
      with Inr Cons show ?thesis by (auto simp: Let_def)
    qed simp
  qed simp
  from this [OF assms(3), of "[]" "freshness st"] assms(6) obtain e' where
    "scan_due std (freshness st) now limit (published_cycles (\<lambda>_. False) PUBLISHED_CYCLE_SCAN_LIMIT d) [] = Inl e'"
    by auto
  with assms(1,2) show ?thesis by (simp add: reverify_due_cycles_def)
qed

definition demo_bad_zone :: cycle where
  "demo_bad_zone = demo_cycle\<lparr>cy_facts :=
     [(''deadline_at'', JStr ''N+''), (''deadline_timezone'', JStr ''/etc/localtime'')]\<rparr>"

lemma demo_bad_cutoff: "fact_cutoff demo_std (derive_facts demo_std (cy_facts demo_bad_zone)) = Inl bad_zone_key"
proof -
  have "derived_facts.df_deadline_at (derive_facts demo_std (cy_facts demo_bad_zone)) = Some (Naive 0)"
    by (simp add: derive_facts_def Let_def demo_bad_zone_def safe_deadline_at_def demo_std_def
        demo_fromisoformat_def demo_sign_def)
  moreover have "df_deadline_timezone (derive_facts demo_std (cy_facts demo_bad_zone)) = Some ''/etc/localtime''"
    by (simp add: derive_facts_def Let_def demo_bad_zone_def)
  moreover have "std_tz demo_std ''/etc/localtime'' = ZoneBadKey" by (simp add: demo_std_def demo_tz_def)
  ultimately show ?thesis
    by (simp add: fact_cutoff_def deadline_cutoff_def Let_def)
qed

theorem malformed_cycle_stops_reverify_witness:
  "\<exists>e. reverify_due_cycles demo_std demo_fetch default_settings 9 (Some 100) (demo_published demo_bad_zone) = Inl e"
proof (rule malformed_cycle_stops_reverify [OF _ _ _ _ demo_bad_cutoff])
  have "is_published (demo_published demo_bad_zone) demo_bad_zone"
    by (simp add: demo_published_def is_published_def lifecycle_of_def demo_bad_zone_def demo_scholarship_def
        set_lifecycle_def)
  then have p: "published_cycles (\<lambda>_. False) PUBLISHED_CYCLE_SCAN_LIMIT (demo_published demo_bad_zone) = [demo_bad_zone]"
    by (simp add: published_cycles_def demo_published_def PUBLISHED_CYCLE_SCAN_LIMIT_def)
  show "demo_bad_zone \<in> set (published_cycles (\<lambda>_. False) PUBLISHED_CYCLE_SCAN_LIMIT (demo_published demo_bad_zone))"
    "length (published_cycles (\<lambda>_. False) PUBLISHED_CYCLE_SCAN_LIMIT (demo_published demo_bad_zone)) < 100"
    by (simp_all add: p)
  show "find (\<lambda>s. so_name s = OFFICIAL_SOURCE_NAME) (sources (demo_published demo_bad_zone)) = Some demo_official"
    by (simp add: demo_published_def demo_official_def)
qed (simp_all add: demo_official_def demo_bad_zone_def)

end
