(* ===== verification/Ingestion.thy ===== *)
theory Ingestion
  imports Vendors Refresh
begin

text \<open>
  From a feed row to a review task: the import of a batch (\<open>src/src/app/domain/ingestion.py\<close>,
  \<open>src/src/app/infra/ingestion.py\<close>), the linking of a discovery (\<open>src/src/app/domain/linking.py\<close>,
  \<open>src/src/app/infra/linking.py\<close>) and the priority of its task
  (\<open>src/src/app/domain/review_priority.py\<close>).

  A batch is one transaction: \<open>now\<close> is its timestamp, and an exception of the database rolls all of it
  back. Linking returns the database beside its result, because the worker commits what a raising
  \<open>link_discovery\<close> has already written.
\<close>

section \<open>Importing a batch\<close>

record discovery_candidate =
  cn_normalized_url :: string
  cn_content_hash :: string
  cn_title :: string
  cn_excerpt :: "string option"

definition prepare_candidate ::
  "fetchlib \<Rightarrow> string \<Rightarrow> string \<Rightarrow> string option \<Rightarrow> discovery_candidate result" where
  "prepare_candidate fl url title excerpt =
     bindE (canonicalize_url (fl_net fl) url) (\<lambda>normalized_url.
       let material = join_with [CHR 0x0A] [normalized_url, strip title, strip (or_empty excerpt)]
       in Inr \<lparr>cn_normalized_url = normalized_url,
               cn_content_hash = fl_sha256 fl (fl_encode fl material), cn_title = strip title,
               cn_excerpt = (if is_set excerpt then Some (strip (the excerpt)) else None)\<rparr>)"

record feed_record =
  fd_source_id :: uuid
  fd_url :: string
  fd_title :: string
  fd_excerpt :: "string option"
  fd_source_posted_at :: "datetime option"
  fd_feed_created_at :: "datetime option"

datatype bucket = Imported | Repeated | Changed | Rejected

record pending_job =
  pn_kind :: string
  pn_dedupe_key :: string
  pn_payload :: dict

definition quarantine_record ::
  "instant \<Rightarrow> uuid \<Rightarrow> feed_record \<Rightarrow> string option \<Rightarrow> string \<Rightarrow> db \<Rightarrow> db" where
  "quarantine_record now run rec raw_url reason d =
     (let (i, d1) = new_uuid7 d
      in d1\<lparr>quarantine := quarantine d1 @
           [\<lparr>qr_id = i, qr_crawl_run_id = run, qr_source_id = Some (fd_source_id rec), qr_raw_url = raw_url,
             qr_raw_title = Some (fd_title rec), qr_raw_excerpt = fd_excerpt rec, qr_reason = reason,
             qr_created_at = now\<rparr>]\<rparr>)"

definition active_source :: "uuid \<Rightarrow> db \<Rightarrow> source option" where
  "active_source sid d = find (\<lambda>s. so_id s = sid \<and> so_active s) (sources d)"

definition see_page :: "instant \<Rightarrow> source_page \<Rightarrow> source_page" where
  "see_page now p = p\<lparr>pg_last_seen_at := Some now\<rparr>"

definition seen_page :: "instant \<Rightarrow> uuid \<Rightarrow> string \<Rightarrow> db \<Rightarrow> uuid \<times> db" where
  "seen_page now sid url d =
     (case find_page sid url d of
        Some p \<Rightarrow> (pg_id p, d\<lparr>pages := tmod pg_id (pg_id p) (see_page now) (pages d)\<rparr>)
      | None \<Rightarrow> (let (i, d1) = new_uuid7 d
                in (i, d1\<lparr>pages := pages d1 @ [see_page now (new_page i sid url)]\<rparr>)))"

definition known_content :: "uuid \<Rightarrow> string \<Rightarrow> discovery \<Rightarrow> bool" where
  "known_content pid h r = (di_source_page_id r = pid \<and> di_content_hash r = h)"

text \<open>The newest page discovery; rows of one instant count in table order.\<close>

definition head_discovery :: "uuid \<Rightarrow> db \<Rightarrow> discovery option" where
  "head_discovery pid d =
     (case sort_key (\<lambda>r. - di_created_at r)
             (filter (\<lambda>r. di_source_page_id r = pid \<and> di_split_from_discovery_id r = None) (discoveries d)) of
        [] \<Rightarrow> None | r # _ \<Rightarrow> Some r)"

definition KEY_LENGTH :: nat where
  "KEY_LENGTH = 500"

definition insert_job :: "string \<Rightarrow> string \<Rightarrow> dict \<Rightarrow> uuid \<Rightarrow> db \<Rightarrow> db result" where
  "insert_job kind key payload run d =
     (if job_by_dedupe key (jobs d) \<noteq> None then Inl IntegrityError
      else let (i, d1) = new_uuid7 d
           in Inr (d1\<lparr>jobs := jobs d1 @ [new_job i kind key payload (Some (uuid_str run))]\<rparr>))"

definition new_discovery ::
  "instant \<Rightarrow> uuid \<Rightarrow> uuid \<Rightarrow> uuid \<Rightarrow> discovery_candidate \<Rightarrow> feed_record \<Rightarrow> string \<Rightarrow> uuid option \<Rightarrow> discovery"
where
  "new_discovery now i pid run cand rec key supersedes =
     \<lparr>di_id = i, di_source_page_id = pid, di_crawl_run_id = Some run,
      di_content_hash = cn_content_hash cand, di_raw_title = Some (cn_title cand),
      di_raw_excerpt = cn_excerpt cand, di_source_posted_at = fd_source_posted_at rec,
      di_feed_created_at = fd_feed_created_at rec, di_processing_state = ''normalized'',
      di_normalized_identity_key = Some key, di_canonical_scholarship_id = None,
      di_extracted_facts = None, di_ai_extracted_facts = None,
      di_supersedes_discovery_id = supersedes, di_duplicate_of_discovery_id = None,
      di_split_from_discovery_id = None, di_rejection_reason = None,
      di_auto_review_evaluated_at = None, di_created_at = now\<rparr>"

definition discovery_jobs :: "uuid \<Rightarrow> string \<Rightarrow> pending_job list" where
  "discovery_jobs i key =
     (let payload = [(''discovery_id'', JStr (uuid_str i))]
      in [\<lparr>pn_kind = ''normalize_discovery'', pn_dedupe_key = ''normalize:'' @ uuid_str i @ '':'' @ key,
           pn_payload = payload\<rparr>,
          \<lparr>pn_kind = ''link_canonical'', pn_dedupe_key = ''link:'' @ uuid_str i, pn_payload = payload\<rparr>])"

fun insert_jobs :: "uuid \<Rightarrow> pending_job list \<Rightarrow> db \<Rightarrow> db result" where
  "insert_jobs run [] d = Inr d"
| "insert_jobs run (p # ps) d =
     bindE (insert_job (pn_kind p) (pn_dedupe_key p) (pn_payload p) run d) (insert_jobs run ps)"

definition add_discovery ::
  "instant \<Rightarrow> uuid \<Rightarrow> uuid \<Rightarrow> discovery_candidate \<Rightarrow> feed_record \<Rightarrow> db
   \<Rightarrow> (bucket \<times> pending_job list \<times> db) result" where
  "add_discovery now run pid cand rec d =
     (let head = head_discovery pid d;
          key = nd_identity_key (normalize_discovery (cn_title cand) None)
      in if length key > KEY_LENGTH then Inl DataError
         else let (i, d1) = new_uuid7 d;
                  d2 = d1\<lparr>discoveries := discoveries d1 @
                         [new_discovery now i pid run cand rec key (map_option di_id head)]\<rparr>;
                  ps = discovery_jobs i key
              in bindE (insert_jobs run ps d2) (\<lambda>d3.
                   Inr (if head \<noteq> None then Changed else Imported, ps, d3)))"

definition import_record ::
  "fetchlib \<Rightarrow> instant \<Rightarrow> uuid \<Rightarrow> feed_record \<Rightarrow> db \<Rightarrow> (bucket \<times> pending_job list \<times> db) result" where
  "import_record fl now run rec d =
     (case prepare_candidate fl (fd_url rec) (fd_title rec) (fd_excerpt rec) of
        Inl _ \<Rightarrow> Inr (Rejected, [], quarantine_record now run rec (Some (fd_url rec)) ''invalid_url'' d)
      | Inr cand \<Rightarrow>
          (case active_source (fd_source_id rec) d of
             None \<Rightarrow>
               Inr (Rejected, [], quarantine_record now run rec (Some (cn_normalized_url cand))
                                    ''unknown_or_inactive_source'' d)
           | Some s \<Rightarrow>
               (case seen_page now (so_id s) (cn_normalized_url cand) d of
                  (pid, d1) \<Rightarrow>
                    if \<exists>r \<in> set (discoveries d1). known_content pid (cn_content_hash cand) r
                    then Inr (Repeated, [], d1)
                    else add_discovery now run pid cand rec d1)))"

fun import_records ::
  "fetchlib \<Rightarrow> instant \<Rightarrow> uuid \<Rightarrow> feed_record list \<Rightarrow> db \<Rightarrow> (bucket list \<times> pending_job list \<times> db) result"
where
  "import_records fl now run [] d = Inr ([], [], d)"
| "import_records fl now run (r # rs) d =
     bindE (import_record fl now run r d) (\<lambda>(b, ps, d1).
     bindE (import_records fl now run rs d1) (\<lambda>(bs, ps', d2). Inr (b # bs, ps @ ps', d2)))"

record import_outcome =
  io_crawl_run_id :: uuid
  io_imported :: nat
  io_repeated :: nat
  io_changed :: nat
  io_rejected :: nat

definition start_run :: "instant \<Rightarrow> feed_record list \<Rightarrow> db \<Rightarrow> uuid \<times> db" where
  "start_run now records d =
     (let (i, d1) = new_uuid7 d
      in (i, d1\<lparr>crawl_runs := crawl_runs d1 @
           [\<lparr>cr_id = i, cr_kind = ''import_feed'',
             cr_scope = [(''record_count'', JInt (int (length records))),
                         (''source_ids'', jstrs (sorted_set (map (\<lambda>r. uuid_str (fd_source_id r)) records)))],
             cr_state = ''running'', cr_started_at = now, cr_finished_at = None, cr_imported_count = 0,
             cr_repeated_count = 0, cr_changed_count = 0, cr_rejected_count = 0, cr_last_error = None\<rparr>]\<rparr>))"

definition finish_run :: "instant \<Rightarrow> import_outcome \<Rightarrow> crawl_run \<Rightarrow> crawl_run" where
  "finish_run now oc r =
     r\<lparr>cr_state := ''completed'', cr_finished_at := Some now,
       cr_imported_count := int (io_imported oc), cr_repeated_count := int (io_repeated oc),
       cr_changed_count := int (io_changed oc), cr_rejected_count := int (io_rejected oc)\<rparr>"

text \<open>The messages handed to the queue once the batch has committed; a failing one is only logged.\<close>

definition dispatch_pending_jobs :: "settings \<Rightarrow> pending_job list \<Rightarrow> qstash_message list" where
  "dispatch_pending_jobs st pending =
     (if \<not> is_set (qstash_token st) \<or> qstash_expected_destination st = [] then []
      else map (\<lambda>p. publish_message st (qstash_expected_destination st)
                  [(''kind'', JStr (pn_kind p)), (''dedupe_key'', JStr (pn_dedupe_key p)),
                   (''payload'', JObj (pn_payload p))] (Some (pn_dedupe_key p))) pending)"

definition import_feed_records ::
  "fetchlib \<Rightarrow> settings \<Rightarrow> instant \<Rightarrow> feed_record list \<Rightarrow> db
   \<Rightarrow> (import_outcome \<times> qstash_message list \<times> db) result" where
  "import_feed_records fl st now records d =
     (case start_run now records d of
        (run, d1) \<Rightarrow>
          bindE (import_records fl now run records d1) (\<lambda>(bs, pending, d2).
            let oc = \<lparr>io_crawl_run_id = run, io_imported = count_list bs Imported,
                      io_repeated = count_list bs Repeated, io_changed = count_list bs Changed,
                      io_rejected = count_list bs Rejected\<rparr>
            in Inr (oc, dispatch_pending_jobs st pending,
                    d2\<lparr>crawl_runs := tmod cr_id run (finish_run now oc) (crawl_runs d2)\<rparr>)))"

section \<open>Review priority\<close>

definition NEEDS_REVIEW_BASE :: int where "NEEDS_REVIEW_BASE = 50"
definition NEW_CANDIDATE_BASE :: int where "NEW_CANDIDATE_BASE = 100"
definition MIN_PRIORITY :: int where "MIN_PRIORITY = 1"

definition listed :: "dict option \<Rightarrow> string \<Rightarrow> bool" where
  "listed facts key = truthy (dget (case facts of None \<Rightarrow> [] | Some f \<Rightarrow> f) key)"

definition has_evidence :: "dict option \<Rightarrow> bool" where
  "has_evidence ai =
     (case dget (case ai of None \<Rightarrow> [] | Some f \<Rightarrow> f) ''evidence'' of JList xs \<Rightarrow> xs \<noteq> [] | _ \<Rightarrow> False)"

definition compute_review_priority :: "bool \<Rightarrow> dict option \<Rightarrow> dict option \<Rightarrow> string option \<Rightarrow> int" where
  "compute_review_priority needs_review facts ai grade =
     (let score = (if needs_review then NEEDS_REVIEW_BASE else NEW_CANDIDATE_BASE);
          score = score - (if grade \<in> {Some ''A'', Some ''B''} then 20 else 0);
          score = score - (if listed facts ''funding_mentions'' then 10 else 0);
          score = score - (if listed facts ''deadline_mentions'' then 10 else 0);
          score = score - (if listed facts ''level_mentions'' then 5 else 0);
          score = score - (if has_evidence ai then 10 else 0)
      in max score MIN_PRIORITY)"

section \<open>Linking\<close>

datatype link_outcome = Linked | New_candidate | Needs_review_link | Duplicate_pending

fun link_value :: "link_outcome \<Rightarrow> string" where
  "link_value Linked = ''linked''"
| "link_value New_candidate = ''new_candidate''"
| "link_value Needs_review_link = ''needs_review''"
| "link_value Duplicate_pending = ''duplicate_pending''"

record link_decision =
  ld_outcome :: link_outcome
  ld_scholarship_id :: "uuid option"
  ld_reason :: string

definition decide_link :: "uuid list \<Rightarrow> link_decision" where
  "decide_link candidate_ids =
     (case candidate_ids of
        [sid] \<Rightarrow> \<lparr>ld_outcome = Linked, ld_scholarship_id = Some sid, ld_reason = ''single_identity_candidate''\<rparr>
      | [] \<Rightarrow> \<lparr>ld_outcome = New_candidate, ld_scholarship_id = None, ld_reason = ''no_identity_candidate''\<rparr>
      | _ \<Rightarrow> \<lparr>ld_outcome = Needs_review_link, ld_scholarship_id = None,
              ld_reason = ''ambiguous_identity_candidates''\<rparr>)"

text \<open>
  SQL's \<open>LIKE\<close>: the per cent sign matches any text, the underscore any one character, the backslash
  quotes the next pattern character. The database raises where the match reaches a pattern that ends
  in the backslash. \<open>ILIKE\<close> compares in lower case.
\<close>

function like :: "string \<Rightarrow> string \<Rightarrow> bool result" where
  "like [] s = Inr (s = [])"
| "like (p # ps) s =
     (if p = CHR ''%''
      then bindE (like ps s) (\<lambda>here.
             if here then Inr True
             else case s of [] \<Rightarrow> Inr False | _ # cs \<Rightarrow> like (p # ps) cs)
      else case s of
             [] \<Rightarrow> Inr False
           | c # cs \<Rightarrow>
               if p = CHR ''_'' then like ps cs
               else if p = CHR 0x5C
               then (case ps of [] \<Rightarrow> Inl DataError | q # qs \<Rightarrow> if c = q then like qs cs else Inr False)
               else if c = p then like ps cs else Inr False)"
  by pat_completeness auto
termination by (relation "measure (\<lambda>(p, s). length p + length s)") auto

definition ilike :: "string \<Rightarrow> string \<Rightarrow> bool result" where
  "ilike s pattern = like (lower pattern) (lower s)"

fun matching_scholarships :: "string \<Rightarrow> scholarship list \<Rightarrow> uuid list result" where
  "matching_scholarships pattern [] = Inr []"
| "matching_scholarships pattern (s # ss) =
     bindE (ilike (sch_name s) pattern) (\<lambda>hit.
     bindE (matching_scholarships pattern ss) (\<lambda>ids. Inr (if hit then sch_id s # ids else ids)))"

definition earlier_original :: "discovery \<Rightarrow> discovery \<Rightarrow> bool" where
  "earlier_original r x =
     (di_normalized_identity_key x = di_normalized_identity_key r
      \<and> di_source_page_id x \<noteq> di_source_page_id r
      \<and> di_duplicate_of_discovery_id x = None \<and> di_id x < di_id r)"

definition original_of :: "discovery \<Rightarrow> db \<Rightarrow> uuid option" where
  "original_of r d =
     (case sort (map di_id (filter (earlier_original r) (discoveries d))) of [] \<Rightarrow> None | i # _ \<Rightarrow> Some i)"

definition put_discovery :: "discovery \<Rightarrow> db \<Rightarrow> db" where
  "put_discovery r d = d\<lparr>discoveries := tmod di_id (di_id r) (\<lambda>_. r) (discoveries d)\<rparr>"

definition authority_of :: "discovery \<Rightarrow> db \<Rightarrow> string option" where
  "authority_of r d =
     (case tget pg_id (di_source_page_id r) (pages d) of
        None \<Rightarrow> None
      | Some p \<Rightarrow> map_option so_authority_grade (tget so_id (pg_source_id p) (sources d)))"

definition add_review_task_once :: "instant \<Rightarrow> uuid \<Rightarrow> string \<Rightarrow> int \<Rightarrow> db \<Rightarrow> db result" where
  "add_review_task_once now did reason priority d =
     (if \<exists>t \<in> set (review_tasks d). live_task t \<and> rt_discovery_id t = Some did then Inr d
      else let (i, d1) = new_uuid7 d;
               d2 = d1\<lparr>review_tasks := review_tasks d1 @
                      [\<lparr>rt_id = i, rt_revision_id = None, rt_discovery_id = Some did, rt_cycle_id = None,
                        rt_reason = reason, rt_priority = priority, rt_state = ''open'',
                        rt_resolution = None, rt_draft_recommendation = None, rt_created_at = now\<rparr>]\<rparr>
           in map_sum id snd
                (enqueue_job ''prepare_review'' (''prepare_review:'' @ uuid_str i)
                   [(''review_task_id'', JStr (uuid_str i))] d2))"

definition mark_duplicate :: "uuid \<Rightarrow> discovery \<Rightarrow> discovery" where
  "mark_duplicate original r =
     r\<lparr>di_duplicate_of_discovery_id := Some original, di_processing_state := link_value Duplicate_pending\<rparr>"

definition queue_for_review ::
  "routerlib \<Rightarrow> settings \<Rightarrow> instant \<Rightarrow> link_decision \<Rightarrow> discovery \<Rightarrow> db \<Rightarrow> link_outcome result \<times> db" where
  "queue_for_review rl st now decision r d =
     (case extract_and_store_facts rl st now True r of
        (Inl e, r1) \<Rightarrow> (Inl e, put_discovery r1 d)
      | (Inr _, r1) \<Rightarrow>
          let needs_review = (ld_outcome decision = Needs_review_link);
              priority = compute_review_priority needs_review (di_extracted_facts r1)
                           (di_ai_extracted_facts r1) (authority_of r1 d);
              r2 = r1\<lparr>di_processing_state :=
                       link_value (if needs_review then Needs_review_link else New_candidate)\<rparr>
          in case add_review_task_once now (di_id r) (ld_reason decision) priority (put_discovery r2 d) of
               Inl e \<Rightarrow> (Inl e, put_discovery r2 d)
             | Inr d1 \<Rightarrow> (Inr (ld_outcome decision), d1))"

definition link_discovery ::
  "routerlib \<Rightarrow> settings \<Rightarrow> instant \<Rightarrow> uuid \<Rightarrow> db \<Rightarrow> link_outcome result \<times> db" where
  "link_discovery rl st now did d =
     (case tget di_id did (discoveries d) of
        None \<Rightarrow> (Inl (LookupError ''Discovery not found''), d)
      | Some r \<Rightarrow>
          (case (if is_set (di_normalized_identity_key r) then original_of r d else None) of
             Some original \<Rightarrow>
               (Inr Duplicate_pending,
                put_discovery (snd (extract_and_store_facts rl st now False (mark_duplicate original r))) d)
           | None \<Rightarrow>
               (case matching_scholarships (or_empty (di_raw_title r)) (scholarships d) of
                  Inl e \<Rightarrow> (Inl e, d)
                | Inr ids \<Rightarrow>
                    let decision = decide_link ids
                    in if ld_outcome decision = Linked
                       then (Inr Linked,
                             put_discovery (r\<lparr>di_canonical_scholarship_id := ld_scholarship_id decision,
                                              di_processing_state := link_value Linked\<rparr>) d)
                       else queue_for_review rl st now decision r d)))"

section \<open>Lemmas: what one record adds\<close>

lemma insert_jobs_adds:
  "insert_jobs run ps d = Inr d' \<Longrightarrow>
   \<exists>js. jobs d' = jobs d @ js \<and> map pj_dedupe_key js = map pn_dedupe_key ps
      \<and> discoveries d' = discoveries d \<and> quarantine d' = quarantine d \<and> sources d' = sources d
      \<and> pages d' = pages d \<and> crawl_runs d' = crawl_runs d"
proof (induction ps arbitrary: d)
  case (Cons p ps)
  then obtain d1 where one: "insert_job (pn_kind p) (pn_dedupe_key p) (pn_payload p) run d = Inr d1"
    and rest: "insert_jobs run ps d1 = Inr d'"
    by (auto simp: bindE_eq_Inr)
  have "\<exists>j. jobs d1 = jobs d @ [j] \<and> pj_dedupe_key j = pn_dedupe_key p \<and> discoveries d1 = discoveries d
      \<and> quarantine d1 = quarantine d \<and> sources d1 = sources d \<and> pages d1 = pages d \<and> crawl_runs d1 = crawl_runs d"
    using one by (auto simp: insert_job_def new_uuid7_def new_job_def split: if_splits)
  with Cons.IH [OF rest] show ?case by force
qed simp

lemma seen_page_frame:
  "seen_page now sid url d = (pid, d1) \<Longrightarrow>
     jobs d1 = jobs d \<and> discoveries d1 = discoveries d \<and> quarantine d1 = quarantine d
     \<and> sources d1 = sources d \<and> crawl_runs d1 = crawl_runs d"
  by (auto simp: seen_page_def new_uuid7_def split: option.splits)

lemma add_discovery_adds:
  assumes "add_discovery now run pid cand rec d = Inr (b, ps, d')"
  shows "\<exists>r js. discoveries d' = discoveries d @ [r] \<and> jobs d' = jobs d @ js \<and> length ps = 2
     \<and> map pj_dedupe_key js = map pn_dedupe_key ps \<and> quarantine d' = quarantine d \<and> sources d' = sources d
     \<and> pages d' = pages d \<and> crawl_runs d' = crawl_runs d \<and> b \<in> {Imported, Changed}
     \<and> known_content pid (cn_content_hash cand) r \<and> di_crawl_run_id r = Some run"
  using assms
  by (fastforce simp: add_discovery_def Let_def new_uuid7_def bindE_eq_Inr discovery_jobs_def known_content_def
      new_discovery_def simp del: insert_jobs.simps split: if_splits dest: insert_jobs_adds)

definition record_delta :: "bucket \<Rightarrow> pending_job list \<Rightarrow> uuid \<Rightarrow> db \<Rightarrow> db \<Rightarrow> bool" where
  "record_delta b ps run d d' =
     (\<exists>qs rs js. quarantine d' = quarantine d @ qs \<and> discoveries d' = discoveries d @ rs \<and> jobs d' = jobs d @ js
        \<and> length qs = count_list [b] Rejected
        \<and> length rs = count_list [b] Imported + count_list [b] Changed \<and> length ps = 2 * length rs
        \<and> map pj_dedupe_key js = map pn_dedupe_key ps
        \<and> (\<forall>q \<in> set qs. qr_crawl_run_id q = run) \<and> (\<forall>r \<in> set rs. di_crawl_run_id r = Some run)
        \<and> sources d' = sources d \<and> crawl_runs d' = crawl_runs d)"

lemma import_record_cases:
  assumes "import_record fl now run rec d = Inr (b, ps, d')"
  obtains
    (invalid) raw reason where "b = Rejected" "ps = []" "d' = quarantine_record now run rec raw reason d"
      "(\<exists>e. prepare_candidate fl (fd_url rec) (fd_title rec) (fd_excerpt rec) = Inl e)
        \<or> active_source (fd_source_id rec) d = None"
  | (repeated) cand s pid where
      "prepare_candidate fl (fd_url rec) (fd_title rec) (fd_excerpt rec) = Inr cand"
      "active_source (fd_source_id rec) d = Some s" "seen_page now (so_id s) (cn_normalized_url cand) d = (pid, d')"
      "\<exists>r \<in> set (discoveries d'). known_content pid (cn_content_hash cand) r" "b = Repeated" "ps = []"
  | (fresh) cand s pid d1 where
      "prepare_candidate fl (fd_url rec) (fd_title rec) (fd_excerpt rec) = Inr cand"
      "active_source (fd_source_id rec) d = Some s" "seen_page now (so_id s) (cn_normalized_url cand) d = (pid, d1)"
      "add_discovery now run pid cand rec d1 = Inr (b, ps, d')"
  using assms unfolding import_record_def
  by (auto split: sum.splits option.splits prod.splits if_splits)

lemma quarantine_record_frame:
  "discoveries (quarantine_record now run rec raw reason d) = discoveries d"
  "jobs (quarantine_record now run rec raw reason d) = jobs d"
  "sources (quarantine_record now run rec raw reason d) = sources d"
  "pages (quarantine_record now run rec raw reason d) = pages d"
  "crawl_runs (quarantine_record now run rec raw reason d) = crawl_runs d"
  "\<exists>q. quarantine (quarantine_record now run rec raw reason d) = quarantine d @ [q] \<and> qr_crawl_run_id q = run"
  by (simp_all add: quarantine_record_def new_uuid7_def)

lemma import_record_delta:
  assumes "import_record fl now run rec d = Inr (b, ps, d')"
  shows "record_delta b ps run d d'"
  using assms
proof (cases rule: import_record_cases)
  case (invalid raw reason)
  then show ?thesis
    using quarantine_record_frame [of now run rec raw reason d] by (auto simp: record_delta_def)
next
  case (repeated cand s pid)
  then show ?thesis using seen_page_frame [OF repeated(3)] by (simp add: record_delta_def)
next
  case (fresh cand s pid d1)
  from seen_page_frame [OF fresh(3)] add_discovery_adds [OF fresh(4)]
  show ?thesis unfolding record_delta_def by (elim exE conjE) (rule exI [of _ "[]"], force)
qed

definition batch_delta :: "bucket list \<Rightarrow> pending_job list \<Rightarrow> uuid \<Rightarrow> db \<Rightarrow> db \<Rightarrow> bool" where
  "batch_delta bs ps run d d' =
     (\<exists>qs rs js. quarantine d' = quarantine d @ qs \<and> discoveries d' = discoveries d @ rs \<and> jobs d' = jobs d @ js
        \<and> length qs = count_list bs Rejected
        \<and> length rs = count_list bs Imported + count_list bs Changed \<and> length ps = 2 * length rs
        \<and> map pj_dedupe_key js = map pn_dedupe_key ps
        \<and> (\<forall>q \<in> set qs. qr_crawl_run_id q = run) \<and> (\<forall>r \<in> set rs. di_crawl_run_id r = Some run)
        \<and> sources d' = sources d \<and> crawl_runs d' = crawl_runs d)"

lemma batch_delta_Nil: "batch_delta [] [] run d d"
  by (simp add: batch_delta_def)

lemma batch_delta_Cons:
  assumes "record_delta b ps run d d1" and "batch_delta bs ps' run d1 d'"
  shows "batch_delta (b # bs) (ps @ ps') run d d'"
proof -
  from assms(1) obtain qs rs js where 1:
    "quarantine d1 = quarantine d @ qs" "discoveries d1 = discoveries d @ rs" "jobs d1 = jobs d @ js"
    "length qs = count_list [b] Rejected" "length rs = count_list [b] Imported + count_list [b] Changed"
    "length ps = 2 * length rs" "map pj_dedupe_key js = map pn_dedupe_key ps"
    "\<forall>q \<in> set qs. qr_crawl_run_id q = run" "\<forall>r \<in> set rs. di_crawl_run_id r = Some run"
    "sources d1 = sources d" "crawl_runs d1 = crawl_runs d"
    unfolding record_delta_def by blast
  from assms(2) obtain qs' rs' js' where 2:
    "quarantine d' = quarantine d1 @ qs'" "discoveries d' = discoveries d1 @ rs'" "jobs d' = jobs d1 @ js'"
    "length qs' = count_list bs Rejected" "length rs' = count_list bs Imported + count_list bs Changed"
    "length ps' = 2 * length rs'" "map pj_dedupe_key js' = map pn_dedupe_key ps'"
    "\<forall>q \<in> set qs'. qr_crawl_run_id q = run" "\<forall>r \<in> set rs'. di_crawl_run_id r = Some run"
    "sources d' = sources d1" "crawl_runs d' = crawl_runs d1"
    unfolding batch_delta_def by blast
  show ?thesis
    unfolding batch_delta_def
    by (rule exI [of _ "qs @ qs'"], rule exI [of _ "rs @ rs'"], rule exI [of _ "js @ js'"]) (use 1 2 in auto)
qed

lemma import_records_delta:
  "import_records fl now run rs d = Inr (bs, ps, d') \<Longrightarrow> batch_delta bs ps run d d' \<and> length bs = length rs"
proof (induction rs arbitrary: d bs ps)
  case (Cons r rs)
  then obtain b p1 d1 bs' p2 where "import_record fl now run r d = Inr (b, p1, d1)"
    "import_records fl now run rs d1 = Inr (bs', p2, d')" "bs = b # bs'" "ps = p1 @ p2"
    by (auto simp: bindE_eq_Inr)
  with Cons.IH show ?case by (auto intro: batch_delta_Cons dest: import_record_delta)
qed (simp add: batch_delta_Nil)

lemma bucket_total:
  "count_list bs Imported + count_list bs Repeated + count_list bs Changed + count_list bs Rejected = length bs"
proof (induction bs)
  case (Cons b bs)
  then show ?case by (cases b) auto
qed simp

section \<open>Lemmas: a record that is settled\<close>

definition page_key :: "uuid \<Rightarrow> string \<Rightarrow> source_page list \<Rightarrow> uuid option" where
  "page_key sid url ps =
     map_option pg_id (find (\<lambda>p. pg_source_id p = sid \<and> pg_normalized_url p = url) ps)"

lemma page_key_see: "page_key sid url (tmod pg_id k (see_page now) ps) = page_key sid url ps"
  by (induction ps) (auto simp: page_key_def see_page_def)

lemma page_key_append: "page_key sid url ps = Some k \<Longrightarrow> page_key sid url (ps @ qs) = Some k"
  by (induction ps) (auto simp: page_key_def)

lemma page_key_new:
  "page_key sid url ps = None \<Longrightarrow> pg_source_id p = sid \<Longrightarrow> pg_normalized_url p = url \<Longrightarrow>
   page_key sid url (ps @ [p]) = Some (pg_id p)"
  by (induction ps) (auto simp: page_key_def split: if_splits)

lemma seen_page_key:
  assumes "seen_page now sid url d = (pid, d1)"
  shows "page_key sid url (pages d1) = Some pid
    \<and> (\<forall>s u k. page_key s u (pages d) = Some k \<longrightarrow> page_key s u (pages d1) = Some k)"
proof (cases "find_page sid url d")
  case None
  then have "page_key sid url (pages d) = None" by (simp add: page_key_def find_page_def)
  with None assms show ?thesis
    using page_key_new [of sid url "pages d" "see_page now (new_page (next_id d) sid url)"]
    by (auto simp: seen_page_def new_uuid7_def page_key_append) (simp_all add: see_page_def new_page_def)
next
  case (Some p)
  with assms show ?thesis
    by (auto simp: seen_page_def page_key_see) (simp add: page_key_def find_page_def)
qed

text \<open>A record is settled when importing it again has nothing to add.\<close>

definition settled :: "fetchlib \<Rightarrow> feed_record \<Rightarrow> db \<Rightarrow> bool" where
  "settled fl rec d =
     (case prepare_candidate fl (fd_url rec) (fd_title rec) (fd_excerpt rec) of
        Inl _ \<Rightarrow> True
      | Inr cand \<Rightarrow>
          (case active_source (fd_source_id rec) d of
             None \<Rightarrow> True
           | Some s \<Rightarrow>
               \<exists>pid. page_key (so_id s) (cn_normalized_url cand) (pages d) = Some pid
                 \<and> (\<exists>r \<in> set (discoveries d). known_content pid (cn_content_hash cand) r)))"

definition grows :: "db \<Rightarrow> db \<Rightarrow> bool" where
  "grows d d' =
     (sources d' = sources d \<and> set (discoveries d) \<subseteq> set (discoveries d')
      \<and> (\<forall>s u k. page_key s u (pages d) = Some k \<longrightarrow> page_key s u (pages d') = Some k))"

lemma settled_grows: "settled fl rec d \<Longrightarrow> grows d d' \<Longrightarrow> settled fl rec d'"
  unfolding settled_def grows_def active_source_def by (fastforce split: sum.splits option.splits)

lemma import_record_settles:
  assumes "import_record fl now run rec d = Inr (b, ps, d')"
  shows "grows d d' \<and> settled fl rec d'"
  using assms
proof (cases rule: import_record_cases)
  case (invalid raw reason)
  then show ?thesis
    by (auto simp: grows_def settled_def quarantine_record_frame active_source_def split: sum.split)
next
  case (repeated cand s pid)
  then show ?thesis
    using seen_page_frame [OF repeated(3)] seen_page_key [OF repeated(3)]
    by (auto simp: grows_def settled_def active_source_def)
next
  case (fresh cand s pid d1)
  then show ?thesis
    using seen_page_frame [OF fresh(3)] seen_page_key [OF fresh(3)] add_discovery_adds [OF fresh(4)]
    by (auto simp: grows_def settled_def active_source_def)
qed

lemma grows_trans: "grows a b \<Longrightarrow> grows b c \<Longrightarrow> grows a c"
  by (auto simp: grows_def)

lemma import_records_settle:
  "import_records fl now run rs d = Inr (bs, ps, d') \<Longrightarrow> grows d d' \<and> (\<forall>r \<in> set rs. settled fl r d')"
proof (induction rs arbitrary: d bs ps)
  case (Cons r rs)
  then obtain b p1 d1 bs' p2 where 1: "import_record fl now run r d = Inr (b, p1, d1)"
    and 2: "import_records fl now run rs d1 = Inr (bs', p2, d')"
    by (auto simp: bindE_eq_Inr)
  from import_record_settles [OF 1] Cons.IH [OF 2] show ?case
    by (auto intro: grows_trans settled_grows)
qed (simp add: grows_def)

definition refused :: "fetchlib \<Rightarrow> feed_record \<Rightarrow> source list \<Rightarrow> bool" where
  "refused fl rec ss =
     (\<not> is_ok (prepare_candidate fl (fd_url rec) (fd_title rec) (fd_excerpt rec))
      \<or> find (\<lambda>s. so_id s = fd_source_id rec \<and> so_active s) ss = None)"

lemma import_record_refused:
  assumes "import_record fl now run rec d = Inr (b, ps, d')"
  shows "b = Rejected \<longleftrightarrow> refused fl rec (sources d)"
  using assms
  by (cases rule: import_record_cases) (auto simp: refused_def is_ok_def active_source_def dest!: add_discovery_adds)

lemma settled_again:
  assumes "settled fl rec d"
  shows "\<exists>b d'. import_record fl now run rec d = Inr (b, [], d') \<and> b \<in> {Repeated, Rejected}
     \<and> discoveries d' = discoveries d \<and> jobs d' = jobs d"
proof (cases "prepare_candidate fl (fd_url rec) (fd_title rec) (fd_excerpt rec)")
  case (Inl e)
  then show ?thesis by (simp add: import_record_def quarantine_record_frame)
next
  case (Inr cand)
  show ?thesis
  proof (cases "active_source (fd_source_id rec) d")
    case None
    with Inr show ?thesis by (simp add: import_record_def quarantine_record_frame)
  next
    case (Some s)
    obtain pid d1 where page: "seen_page now (so_id s) (cn_normalized_url cand) d = (pid, d1)" by fastforce
    from assms Inr Some obtain k where "page_key (so_id s) (cn_normalized_url cand) (pages d) = Some k"
      "\<exists>r \<in> set (discoveries d). known_content k (cn_content_hash cand) r"
      by (auto simp: settled_def)
    with seen_page_key [OF page] seen_page_frame [OF page]
    have "\<exists>r \<in> set (discoveries d1). known_content pid (cn_content_hash cand) r" by fastforce
    with Inr Some page seen_page_frame [OF page] show ?thesis by (simp add: import_record_def)
  qed
qed

lemma settled_batch_again:
  assumes "\<forall>r \<in> set rs. settled fl r d"
  shows "\<exists>bs d'. import_records fl now run rs d = Inr (bs, [], d') \<and> set bs \<subseteq> {Repeated, Rejected}
     \<and> count_list bs Rejected = length (filter (\<lambda>r. refused fl r (sources d)) rs)
     \<and> discoveries d' = discoveries d \<and> jobs d' = jobs d"
  using assms
proof (induction rs arbitrary: d)
  case (Cons r rs)
  from settled_again [of fl r d now run] Cons.prems obtain b d1 where
    1: "import_record fl now run r d = Inr (b, [], d1)" and b: "b \<in> {Repeated, Rejected}"
    and d1: "discoveries d1 = discoveries d" "jobs d1 = jobs d" by auto
  have g: "grows d d1" using import_record_settles [OF 1] by blast
  with Cons.prems have "\<forall>r \<in> set rs. settled fl r d1" by (auto intro: settled_grows)
  from Cons.IH [OF this] obtain bs d' where
    2: "import_records fl now run rs d1 = Inr (bs, [], d')" "set bs \<subseteq> {Repeated, Rejected}"
    "count_list bs Rejected = length (filter (\<lambda>r. refused fl r (sources d1)) rs)"
    "discoveries d' = discoveries d1" "jobs d' = jobs d1" by blast
  have "sources d1 = sources d" using g by (simp add: grows_def)
  moreover have "b = Rejected \<longleftrightarrow> refused fl r (sources d)" by (rule import_record_refused [OF 1])
  ultimately show ?case using 1 2 b d1 by auto
qed simp

lemma first_batch_refused:
  "import_records fl now run rs d = Inr (bs, ps, d') \<Longrightarrow>
   count_list bs Rejected = length (filter (\<lambda>r. refused fl r (sources d)) rs)"
proof (induction rs arbitrary: d bs ps)
  case (Cons r rs)
  then obtain b p1 d1 bs' p2 where 1: "import_record fl now run r d = Inr (b, p1, d1)"
    and 2: "import_records fl now run rs d1 = Inr (bs', p2, d')" and bs: "bs = b # bs'"
    by (auto simp: bindE_eq_Inr)
  have "sources d1 = sources d" using import_record_settles [OF 1] by (simp add: grows_def)
  with Cons.IH [OF 2] bs import_record_refused [OF 1] show ?case by auto
qed simp

lemma start_run_frame:
  "start_run now rs d = (run, d1) \<Longrightarrow> jobs d1 = jobs d \<and> discoveries d1 = discoveries d
     \<and> quarantine d1 = quarantine d \<and> sources d1 = sources d \<and> pages d1 = pages d"
  by (auto simp: start_run_def new_uuid7_def)

lemma import_feed_cases:
  assumes "import_feed_records fl st now rs d = Inr (oc, msgs, d')"
  obtains run d1 bs pending d2 where "start_run now rs d = (run, d1)"
    "import_records fl now run rs d1 = Inr (bs, pending, d2)"
    "oc = \<lparr>io_crawl_run_id = run, io_imported = count_list bs Imported,
           io_repeated = count_list bs Repeated, io_changed = count_list bs Changed,
           io_rejected = count_list bs Rejected\<rparr>"
    "msgs = dispatch_pending_jobs st pending"
    "d' = d2\<lparr>crawl_runs := tmod cr_id run (finish_run now oc) (crawl_runs d2)\<rparr>"
  using assms by (auto simp: import_feed_records_def bindE_eq_Inr Let_def split: prod.splits)

section \<open>Properties of the import\<close>



definition demo_record :: feed_record where
  "demo_record = \<lparr>fd_source_id = 9, fd_url = ''x'', fd_title = ''A'', fd_excerpt = None,
     fd_source_posted_at = None, fd_feed_created_at = None\<rparr>"

lemma demo_url_refused: "canonicalize_url demo_net ''x'' = Inl (ValueError ''Only absolute HTTP(S) URLs are allowed'')"
  by (simp add: canonicalize_url_def strip_def urlsplit_def split_scheme_def Let_def dropped_char_def
      netloc_delim_def lower_def)

lemma demo_import:
  "\<exists>oc d'. import_feed_records demo_fetch default_settings 5 [demo_record] empty_db = Inr (oc, [], d')
     \<and> io_rejected oc = 1"
  by (simp add: import_feed_records_def start_run_def new_uuid7_def import_record_def prepare_candidate_def
      demo_record_def demo_fetch_def demo_url_refused dispatch_pending_jobs_def default_settings_def Let_def)



section \<open>Lemmas: linking\<close>

lemma extract_frame:
  "extract_and_store_facts rl st now ai r = (x, r') \<Longrightarrow>
     di_id r' = di_id r \<and> di_source_page_id r' = di_source_page_id r
     \<and> di_normalized_identity_key r' = di_normalized_identity_key r
     \<and> di_duplicate_of_discovery_id r' = di_duplicate_of_discovery_id r
     \<and> di_processing_state r' = di_processing_state r
     \<and> di_canonical_scholarship_id r' = di_canonical_scholarship_id r"
  by (auto simp: extract_and_store_facts_def Let_def split: sum.splits)

lemma put_discovery_frame:
  "review_tasks (put_discovery r d) = review_tasks d" "jobs (put_discovery r d) = jobs d"
  "scholarships (put_discovery r d) = scholarships d" "pages (put_discovery r d) = pages d"
  "sources (put_discovery r d) = sources d" "cycles (put_discovery r d) = cycles d"
  by (simp_all add: put_discovery_def)

lemma put_discovery_get:
  assumes "tget di_id (di_id r) (discoveries d) = Some r0"
  shows "tget di_id i (discoveries (put_discovery r d)) = (if i = di_id r then Some r else tget di_id i (discoveries d))"
proof -
  have "tget di_id i (tmod di_id (di_id r) (\<lambda>_. r) rows)
      = (if i = di_id r then map_option (\<lambda>_. r) (tget di_id i rows) else tget di_id i rows)" for rows
    by (induction rows) auto
  with assms show ?thesis by (simp add: put_discovery_def)
qed

lemma put_discovery_own:
  "tget di_id did (discoveries d) = Some r0 \<Longrightarrow> di_id r = did \<Longrightarrow>
   tget di_id did (discoveries (put_discovery r d)) = Some r"
  using put_discovery_get [of r d r0 did] by simp

lemma decide_link_outcome:
  "ld_outcome (decide_link ids) = (if length ids = 1 then Linked else if ids = [] then New_candidate else Needs_review_link)"
  "length ids = 1 \<Longrightarrow> ld_scholarship_id (decide_link ids) = Some (hd ids)"
  by (auto simp: decide_link_def split: list.splits)

definition live_for :: "uuid \<Rightarrow> db \<Rightarrow> review_task list" where
  "live_for did d = filter (\<lambda>t. live_task t \<and> rt_discovery_id t = Some did) (review_tasks d)"

lemma enqueue_frame:
  "enqueue_job k key p d = Inr (x, d') \<Longrightarrow> review_tasks d' = review_tasks d \<and> discoveries d' = discoveries d
     \<and> cycles d' = cycles d \<and> scholarships d' = scholarships d"
  by (auto simp: enqueue_job_def new_uuid7_def Let_def split: option.splits if_splits)

lemma add_review_task_once_live:
  assumes "add_review_task_once now did reason pr d = Inr d'" and "length (live_for did d) \<le> 1"
  shows "length (live_for did d') = 1 \<and> (\<forall>x. x \<noteq> did \<longrightarrow> live_for x d' = live_for x d)
     \<and> discoveries d' = discoveries d"
proof (cases "\<exists>t \<in> set (review_tasks d). live_task t \<and> rt_discovery_id t = Some did")
  case True
  then have "live_for did d \<noteq> []" by (auto simp: live_for_def filter_empty_conv)
  with True assms show ?thesis
    by (cases "live_for did d") (auto simp: add_review_task_once_def)
next
  case False
  then have none: "live_for did d = []" by (auto simp: live_for_def filter_empty_conv)
  define t where "t = \<lparr>rt_id = next_id d, rt_revision_id = None, rt_discovery_id = Some did, rt_cycle_id = None,
      rt_reason = reason, rt_priority = pr, rt_state = ''open'', rt_resolution = None,
      rt_draft_recommendation = None, rt_created_at = now\<rparr>"
  define e where "e = d\<lparr>next_id := Suc (next_id d), review_tasks := review_tasks d @ [t]\<rparr>"
  have "add_review_task_once now did reason pr d = map_sum id snd
      (enqueue_job ''prepare_review'' (''prepare_review:'' @ uuid_str (next_id d))
         [(''review_task_id'', JStr (uuid_str (next_id d)))] e)"
    unfolding add_review_task_once_def if_not_P [OF False] by (simp add: new_uuid7_def Let_def t_def e_def)
  with assms(1) obtain x where q: "enqueue_job ''prepare_review'' (''prepare_review:'' @ uuid_str (next_id d))
       [(''review_task_id'', JStr (uuid_str (next_id d)))] e = Inr (x, d')"
    by (cases "enqueue_job ''prepare_review'' (''prepare_review:'' @ uuid_str (next_id d))
       [(''review_task_id'', JStr (uuid_str (next_id d)))] e") auto
  have "live_task t" "rt_discovery_id t = Some did" by (simp_all add: t_def live_task_def)
  with enqueue_frame [OF q] none show ?thesis by (simp add: live_for_def e_def)
qed

lemma original_of_earlier:
  assumes "original_of r d = Some i"
  shows "\<exists>x \<in> set (discoveries d). earlier_original r x \<and> di_id x = i"
proof -
  obtain rest where "sort (map di_id (filter (earlier_original r) (discoveries d))) = i # rest"
    using assms by (auto simp: original_of_def split: list.splits)
  then have "i \<in> set (map di_id (filter (earlier_original r) (discoveries d)))"
    by (metis list.set_intros(1) set_sort)
  then show ?thesis by auto
qed

text \<open>
  Linking ends in exactly one of four ways, and a reviewer sees every lead once. The row carries
  the outcome. A duplicate points to an earlier discovery of another page with the same identity key
  that is itself no duplicate, and gets no task. A linked lead names the only scholarship its title
  matches and gets no task. Every other lead has exactly one live review task, and no discovery ever
  has two.
\<close>

theorem linking_reaches_one_reviewer:
  assumes "link_discovery rl st now did d = (Inr oc, d')" and "distinct (map di_id (discoveries d))"
    and "\<forall>x. length (live_for x d) \<le> 1"
  shows "\<exists>r'. tget di_id did (discoveries d') = Some r' \<and> di_processing_state r' = link_value oc
    \<and> (oc = Duplicate_pending \<longrightarrow> live_for did d' = live_for did d
         \<and> (\<exists>i x. di_duplicate_of_discovery_id r' = Some i \<and> i < did
              \<and> tget di_id i (discoveries d') = Some x \<and> di_duplicate_of_discovery_id x = None
              \<and> di_normalized_identity_key x = di_normalized_identity_key r'
              \<and> di_source_page_id x \<noteq> di_source_page_id r'))
    \<and> (oc = Linked \<longrightarrow> live_for did d' = live_for did d
         \<and> (\<exists>i. di_canonical_scholarship_id r' = Some i
              \<and> matching_scholarships (or_empty (di_raw_title r')) (scholarships d) = Inr [i]))
    \<and> (oc = New_candidate \<or> oc = Needs_review_link \<longrightarrow> length (live_for did d') = 1)
    \<and> (\<forall>x. length (live_for x d') \<le> 1)"
proof -
  obtain r where r: "tget di_id did (discoveries d) = Some r"
    using assms(1) by (auto simp: link_discovery_def split: option.splits)
  then have id: "di_id r = did" by (auto dest: tget_SomeD)
  consider
    (dup) i where "original_of r d = Some i" "oc = Duplicate_pending"
      "d' = put_discovery (snd (extract_and_store_facts rl st now False (mark_duplicate i r))) d"
  | (linked) ids where "matching_scholarships (or_empty (di_raw_title r)) (scholarships d) = Inr ids"
      "ld_outcome (decide_link ids) = Linked" "oc = Linked"
      "d' = put_discovery (r\<lparr>di_canonical_scholarship_id := ld_scholarship_id (decide_link ids),
                             di_processing_state := link_value Linked\<rparr>) d"
  | (queued) ids where "ld_outcome (decide_link ids) \<noteq> Linked"
      "queue_for_review rl st now (decide_link ids) r d = (Inr oc, d')"
    using assms(1) r
    by (auto simp: link_discovery_def Let_def split: option.splits sum.splits if_splits)
  then show ?thesis
  proof cases
    case dup
    obtain y r1 where e: "extract_and_store_facts rl st now False (mark_duplicate i r) = (y, r1)" by fastforce
    have r1: "di_id r1 = did" "di_duplicate_of_discovery_id r1 = Some i"
      "di_processing_state r1 = link_value Duplicate_pending"
      "di_normalized_identity_key r1 = di_normalized_identity_key r" "di_source_page_id r1 = di_source_page_id r"
      using extract_frame [OF e] id by (simp_all add: mark_duplicate_def)
    from original_of_earlier [OF dup(1)] obtain x where x: "x \<in> set (discoveries d)" "earlier_original r x" "di_id x = i"
      by blast
    have "tget di_id i (discoveries d) = Some x" using tget_in_set [OF assms(2) x(1)] x(3) by simp
    with x r1 r id dup e assms(3) show ?thesis
      by (simp add: put_discovery_get [of r1 d r] earlier_original_def live_for_def put_discovery_frame)
  next
    case linked
    let ?r = "r\<lparr>di_canonical_scholarship_id := ld_scholarship_id (decide_link ids),
                di_processing_state := link_value Linked\<rparr>"
    obtain i where ids: "ids = [i]"
      using linked(2) by (auto simp: decide_link_outcome length_Suc_conv split: if_splits)
    have "tget di_id did (discoveries d') = Some ?r"
      using put_discovery_own [OF r, of ?r] id linked(4) by simp
    moreover have "live_for x d' = live_for x d" for x
      by (simp add: linked(4) live_for_def put_discovery_frame)
    ultimately show ?thesis using assms(3) linked(1,3) ids by (simp add: decide_link_def)
  next
    case queued
    obtain y r1 where e: "extract_and_store_facts rl st now True r = (y, r1)" by fastforce
    let ?nr = "ld_outcome (decide_link ids) = Needs_review_link"
    let ?r = "r1\<lparr>di_processing_state := link_value (if ?nr then Needs_review_link else New_candidate)\<rparr>"
    from queued(2) e obtain pr where
      oc: "oc = ld_outcome (decide_link ids)" and
      add: "add_review_task_once now did (ld_reason (decide_link ids)) pr (put_discovery ?r d) = Inr d'"
      using id by (auto simp: queue_for_review_def Let_def split: sum.splits)
    have "live_for x (put_discovery ?r d) = live_for x d" for x
      by (simp add: live_for_def put_discovery_frame)
    with add_review_task_once_live [OF add] assms(3)
    have live: "length (live_for did d') = 1" "\<forall>x. x \<noteq> did \<longrightarrow> live_for x d' = live_for x d"
      "discoveries d' = discoveries (put_discovery ?r d)" by simp_all
    then have "\<forall>x. length (live_for x d') \<le> 1" using assms(3) by (metis le_refl)
    moreover have "tget di_id did (discoveries d') = Some ?r"
      using live(3) put_discovery_get [of ?r d r did] extract_frame [OF e] r id by simp
    moreover have "oc = (if ?nr then Needs_review_link else New_candidate)"
      using oc queued(1) by (simp add: decide_link_outcome split: if_splits)
    ultimately show ?thesis using live(1) queued(1) oc by auto
  qed
qed

text \<open>Facts on the pattern matcher.\<close>

declare like.simps(2) [simp del]

lemma like_end [simp]: "like (p # ps) [] = (if p = CHR ''%'' then bindE (like ps []) Inr else Inr False)"
  by (auto simp: like.simps(2) bindE_def split: sum.split)

lemma like_char [simp]:
  "like (p # ps) (c # cs) =
     (if p = CHR ''%'' then bindE (like ps (c # cs)) (\<lambda>here. if here then Inr True else like (p # ps) cs)
      else if p = CHR ''_'' then like ps cs
      else if p = CHR 0x5C
      then (case ps of [] \<Rightarrow> Inl DataError | q # qs \<Rightarrow> if c = q then like qs cs else Inr False)
      else if c = p then like ps cs else Inr False)"
  by (simp add: like.simps(2) cong: if_cong)

lemma like_plain: "list_all (\<lambda>c. c \<notin> {CHR ''%'', CHR ''_'', CHR 0x5C}) p \<Longrightarrow> like (p @ q) (p @ s) = like q s"
  by (induction p) auto

lemma like_refl: "list_all (\<lambda>c. c \<notin> {CHR ''%'', CHR ''_'', CHR 0x5C}) p \<Longrightarrow> like p p = Inr True"
  using like_plain [of p "[]" "[]"] by simp

lemma like_no_raise: "list_all (\<lambda>c. c \<noteq> CHR 0x5C) p \<Longrightarrow> \<exists>b. like p s = Inr b"
proof (induction p arbitrary: s)
  case (Cons p ps)
  then have ps: "\<exists>b. like ps t = Inr b" for t by simp
  show ?case
  proof (induction s)
    case Nil
    from ps [of "[]"] show ?case by auto
  next
    case (Cons c cs)
    from ps [of "c # cs"] obtain b where "like ps (c # cs) = Inr b" by blast
    with Cons ps \<open>list_all (\<lambda>c. c \<noteq> CHR 0x5C) (p # ps)\<close> show ?case by auto
  qed
qed simp

lemma like_percent:
  assumes "list_all (\<lambda>c. c \<noteq> CHR 0x5C) q" and "like q s = Inr True"
  shows "like (CHR ''%'' # q) (x @ s) = Inr True"
proof (induction x)
  case Nil
  show ?case using assms(2) by (cases s) simp_all
next
  case (Cons c x)
  from like_no_raise [OF assms(1)] obtain b where "like q (c # x @ s) = Inr b" by blast
  with Cons show ?case by simp
qed

text \<open>
  A lead's title is used as a pattern, not as a text: with one scholarship in the catalogue, a
  title whose per cent sign stands for any text links the lead to that scholarship although the names
  differ, and no review task is opened for it.
\<close>

theorem title_wildcard_links_elsewhere:
  assumes "tget di_id did (discoveries d) = Some r" and "original_of r d = None"
    and "di_raw_title r = Some (p @ CHR ''%'' # q)" and "scholarships d = [s]"
    and "lower (sch_name s) = lower p @ x @ lower q"
    and "list_all (\<lambda>c. c \<notin> {CHR ''%'', CHR ''_'', CHR 0x5C}) (lower p)"
    and "list_all (\<lambda>c. c \<notin> {CHR ''%'', CHR ''_'', CHR 0x5C}) (lower q)"
  shows "\<exists>d' r'. link_discovery rl st now did d = (Inr Linked, d')
    \<and> tget di_id did (discoveries d') = Some r' \<and> di_canonical_scholarship_id r' = Some (sch_id s)
    \<and> review_tasks d' = review_tasks d"
proof -
  have "list_all (\<lambda>c. c \<noteq> CHR 0x5C) (lower q)" using assms(7) by (auto simp: list_all_iff)
  from like_percent [OF this like_refl [OF assms(7)], of x]
  have "like (lower (p @ CHR ''%'' # q)) (lower (sch_name s)) = Inr True"
    using like_plain [OF assms(6)] assms(5) by (simp add: lower_def)
  then have "matching_scholarships (or_empty (di_raw_title r)) (scholarships d) = Inr [sch_id s]"
    using assms(3,4) by (simp add: or_empty_def ilike_def)
  moreover have "di_id r = did" using assms(1) by (auto dest: tget_SomeD)
  ultimately show ?thesis
    using assms(1,2)
    by (simp add: link_discovery_def decide_link_def Let_def put_discovery_own put_discovery_frame)
qed

definition demo_leads :: db where
  "demo_leads = empty_db\<lparr>discoveries := [demo_discovery\<lparr>di_raw_title := Some ''5% grant''\<rparr>],
     scholarships := [demo_scholarship\<lparr>sch_name := ''5 year jubilee grant''\<rparr>]\<rparr>"

lemma demo_link: "\<exists>d'. link_discovery (demo_router []) default_settings 3 7 demo_leads = (Inr Linked, d')"
  by (simp add: link_discovery_def demo_leads_def demo_discovery_def original_of_def earlier_original_def
      or_empty_def ilike_def lower_def decide_link_def Let_def)

theorem title_wildcard_links_elsewhere_witness:
  "fst (link_discovery (demo_router []) default_settings 3 7 demo_leads) = Inr Linked
   \<and> lower (sch_name (hd (scholarships demo_leads))) \<noteq> ''5% grant''"
proof
  have "\<exists>d' r'. link_discovery (demo_router []) default_settings 3 7 demo_leads = (Inr Linked, d')
    \<and> tget di_id 7 (discoveries d') = Some r'
    \<and> di_canonical_scholarship_id r' = Some (sch_id (demo_scholarship\<lparr>sch_name := ''5 year jubilee grant''\<rparr>))
    \<and> review_tasks d' = review_tasks demo_leads"
  proof (rule title_wildcard_links_elsewhere [where p = "''5''" and q = "'' grant''" and x = "'' year jubilee''"
        and r = "demo_discovery\<lparr>di_raw_title := Some ''5% grant''\<rparr>"])
    show "original_of (demo_discovery\<lparr>di_raw_title := Some ''5% grant''\<rparr>) demo_leads = None"
      by (simp add: original_of_def demo_leads_def earlier_original_def)
  qed (simp_all add: demo_leads_def demo_discovery_def lower_def)
  then show "fst (link_discovery (demo_router []) default_settings 3 7 demo_leads) = Inr Linked" by auto
  show "lower (sch_name (hd (scholarships demo_leads))) \<noteq> ''5% grant''"
    by (simp add: demo_leads_def lower_def)
qed

theorem linking_reaches_one_reviewer_witness:
  "\<exists>d'. link_discovery (demo_router []) default_settings 3 7 demo_leads = (Inr Linked, d')
     \<and> live_for 7 d' = []"
proof -
  obtain d' where run: "link_discovery (demo_router []) default_settings 3 7 demo_leads = (Inr Linked, d')"
    using demo_link by blast
  have "\<forall>x. length (live_for x demo_leads) \<le> 1" and "distinct (map di_id (discoveries demo_leads))"
    by (simp_all add: live_for_def demo_leads_def empty_db_def)
  from linking_reaches_one_reviewer [OF run this(2,1)] have "live_for 7 d' = live_for 7 demo_leads" by blast
  with run show ?thesis by (simp add: live_for_def demo_leads_def empty_db_def)
qed

definition as_evident :: "dict option \<times> dict option \<times> string option \<Rightarrow> dict option \<times> dict option \<times> string option \<Rightarrow> bool" where
  "as_evident x y =
     ((\<forall>k \<in> {''funding_mentions'', ''deadline_mentions'', ''level_mentions''}.
         listed (fst x) k \<longrightarrow> listed (fst y) k)
      \<and> (has_evidence (fst (snd x)) \<longrightarrow> has_evidence (fst (snd y)))
      \<and> (snd (snd x) \<in> {Some ''A'', Some ''B''} \<longrightarrow> snd (snd y) \<in> {Some ''A'', Some ''B''}))"

definition points :: "int \<Rightarrow> bool \<Rightarrow> int" where
  "points n b = (if b then n else 0)"

lemma points_nonneg: "0 \<le> points (numeral k) b"
  by (simp add: points_def)

lemma points_le: "points (numeral k) b \<le> numeral k"
  by (simp add: points_def)

lemma points_mono: "b \<longrightarrow> b' \<Longrightarrow> 0 \<le> n \<Longrightarrow> points n b \<le> points n b'"
  by (simp add: points_def)

lemma band_upper:
  fixes v w x y z :: int
  assumes "0 \<le> v" "0 \<le> w" "0 \<le> x" "0 \<le> y" "0 \<le> z"
  shows "max (numeral n - v - w - x - y - z) 1 \<le> numeral n"
  using assms by simp

lemma band_lower:
  fixes v w x y z :: int
  assumes "v \<le> 20" "w \<le> 10" "x \<le> 10" "y \<le> 5" "z \<le> 10"
  shows "45 \<le> max (100 - v - w - x - y - z) 1"
  using assms by (intro order_trans [OF _ max.cobounded1]) linarith

lemma priority_points:
  "compute_review_priority nr f a g =
     max ((if nr then NEEDS_REVIEW_BASE else NEW_CANDIDATE_BASE)
          - points 20 (g \<in> {Some ''A'', Some ''B''}) - points 10 (listed f ''funding_mentions'')
          - points 10 (listed f ''deadline_mentions'') - points 5 (listed f ''level_mentions'')
          - points 10 (has_evidence a)) MIN_PRIORITY"
  unfolding compute_review_priority_def Let_def points_def ..

text \<open>
  The priority of a task stays in its band: it is at least 1 and at most the base of its kind, a
  new identity never drops below 45 and an ambiguous one never rises above 50, and more evidence
  (funding, dates, levels, a trusted source, quoted AI evidence) never makes a task less urgent.
\<close>

theorem priority_in_band:
  "1 \<le> compute_review_priority True f a g \<and> compute_review_priority True f a g \<le> 50
   \<and> 45 \<le> compute_review_priority False f a g \<and> compute_review_priority False f a g \<le> 100
   \<and> (as_evident (f, a, g) (f', a', g') \<longrightarrow>
        compute_review_priority nr f' a' g' \<le> compute_review_priority nr f a g)"
proof (intro conjI impI)
  note priority_defs = NEEDS_REVIEW_BASE_def NEW_CANDIDATE_BASE_def MIN_PRIORITY_def
  show "1 \<le> compute_review_priority True f a g"
    unfolding priority_points MIN_PRIORITY_def by (rule max.cobounded2)
  show "compute_review_priority True f a g \<le> 50" "compute_review_priority False f a g \<le> 100"
    "45 \<le> compute_review_priority False f a g"
    unfolding priority_points priority_defs if_True if_False
    by (rule band_upper band_lower; rule points_nonneg points_le)+
  assume e: "as_evident (f, a, g) (f', a', g')"
  from e have mono: "listed f ''funding_mentions'' \<longrightarrow> listed f' ''funding_mentions''"
    "listed f ''deadline_mentions'' \<longrightarrow> listed f' ''deadline_mentions''"
    "listed f ''level_mentions'' \<longrightarrow> listed f' ''level_mentions''" "has_evidence a \<longrightarrow> has_evidence a'"
    "g \<in> {Some ''A'', Some ''B''} \<longrightarrow> g' \<in> {Some ''A'', Some ''B''}"
    unfolding as_evident_def fst_conv snd_conv by blast+
  have "points n b \<le> points n b'" if "b \<longrightarrow> b'" "0 \<le> n" for n b b'
    using that by (rule points_mono)
  note this [OF mono(1), of 10] this [OF mono(2), of 10] this [OF mono(3), of 5] this [OF mono(4), of 10]
    this [OF mono(5), of 20]
  then show "compute_review_priority nr f' a' g' \<le> compute_review_priority nr f a g"
    unfolding priority_points by (intro max.mono) simp_all
qed

theorem priority_in_band_witness:
  "compute_review_priority True None None (Some ''A'') \<le> compute_review_priority True None None None"
proof -
  have "as_evident (None, None, None) (None, None, Some ''A'')" by (simp add: as_evident_def)
  then show ?thesis by (rule priority_in_band [THEN conjunct2, THEN conjunct2, THEN conjunct2, THEN conjunct2, THEN mp])
qed

end
