(* ===== verification/Agents.thy ===== *)
theory Agents
  imports Http Ingestion
begin

text \<open>
  The agent's surface: \<open>src/src/app/infra/agent_integration.py\<close> and
  \<open>src/src/app/api/agent_routes.py\<close>. An agent reads discoveries by keyset pages, submits candidates
  it split out of a list page, attaches evidence, asks for a review and records its outcome. A route
  answers with a problem document as a value; \<open>Inl\<close> of the outer result is an exception that leaves
  it, and then the request's transaction is rolled back.
\<close>

section \<open>Reading\<close>

definition require_agent_service :: "settings \<Rightarrow> string option \<Rightarrow> unit response" where
  "require_agent_service st x_service_token =
     require_token (agent_service_token st) ''Agent service authentication required'' x_service_token"

type_synonym discovery_context = "discovery \<times> source_page \<times> source"

definition with_context :: "db \<Rightarrow> discovery \<Rightarrow> discovery_context option" where
  "with_context d r =
     (case tget pg_id (di_source_page_id r) (pages d) of
        None \<Rightarrow> None
      | Some p \<Rightarrow> map_option (\<lambda>s. (r, p, s)) (tget so_id (pg_source_id p) (sources d)))"

definition load_discovery_context :: "uuid \<Rightarrow> db \<Rightarrow> discovery_context option" where
  "load_discovery_context did d = Option.bind (tget di_id did (discoveries d)) (with_context d)"

definition already_run :: "string \<Rightarrow> db \<Rightarrow> discovery \<Rightarrow> bool" where
  "already_run version d r =
     (\<exists>a \<in> set (agent_runs d). ar_discovery_id a = di_id r \<and> ar_workflow_version a = version)"

definition listed_work :: "uuid option \<Rightarrow> string option \<Rightarrow> bool \<Rightarrow> db \<Rightarrow> discovery \<Rightarrow> bool" where
  "listed_work after version unprocessed_only d r =
     (with_context d r \<noteq> None
      \<and> (case after of None \<Rightarrow> True | Some a \<Rightarrow> di_id r > a)
      \<and> (unprocessed_only \<and> is_set version \<longrightarrow> \<not> already_run (the version) d r))"

definition list_discoveries ::
  "nat \<Rightarrow> uuid option \<Rightarrow> string option \<Rightarrow> bool \<Rightarrow> db \<Rightarrow> discovery_context list" where
  "list_discoveries limit after version unprocessed_only d =
     map (\<lambda>r. the (with_context d r))
       (take limit (sort_key di_id (filter (listed_work after version unprocessed_only d) (discoveries d))))"

type_synonym 'a answer = "(problem_response + 'a) result"

definition read_discoveries ::
  "request \<Rightarrow> nat \<Rightarrow> uuid option \<Rightarrow> string option \<Rightarrow> bool \<Rightarrow> db
   \<Rightarrow> (discovery_context list \<times> uuid option) answer" where
  "read_discoveries rq limit after version unprocessed_only d =
     (if unprocessed_only \<and> \<not> is_set version
      then Inr (Inl (problem rq 422 ''WORKFLOW_VERSION_REQUIRED'' ''Unprocessable Content''
                       ''workflow_version is required when unprocessed_only is true'' None []))
      else let items = list_discoveries limit after version unprocessed_only d
           in Inr (Inr (items, if length items = limit \<and> items \<noteq> [] then Some (di_id (fst (last items)))
                               else None)))"

definition discovery_missing :: "request \<Rightarrow> string \<Rightarrow> problem_response" where
  "discovery_missing rq detail = problem rq 404 ''DISCOVERY_NOT_FOUND'' ''Not Found'' detail None []"

definition read_discovery :: "request \<Rightarrow> uuid \<Rightarrow> db \<Rightarrow> discovery_context answer" where
  "read_discovery rq did d =
     (case load_discovery_context did d of
        None \<Rightarrow> Inr (Inl (discovery_missing rq ''No such discovery''))
      | Some c \<Rightarrow> Inr (Inr c))"

text \<open>What a discovery looks like in either answer; the two routes send \<open>to_read\<close> of the contexts above.\<close>

record discovery_read =
  dr_discovery_id :: uuid
  dr_source_page_id :: uuid
  dr_source_id :: uuid
  dr_source_name :: string
  dr_source_url :: string
  dr_approved_domains :: "string list"
  dr_authority_grade :: string
  dr_raw_title :: "string option"
  dr_raw_excerpt :: "string option"
  dr_processing_state :: string
  dr_normalized_identity_key :: "string option"
  dr_extracted_facts :: "dict option"
  dr_ai_extracted_facts :: "dict option"
  dr_supersedes_discovery_id :: "uuid option"
  dr_duplicate_of_discovery_id :: "uuid option"
  dr_split_from_discovery_id :: "uuid option"
  dr_canonical_scholarship_id :: "uuid option"
  dr_source_posted_at :: "datetime option"
  dr_created_at :: instant

definition to_read :: "discovery_context \<Rightarrow> discovery_read" where
  "to_read ctx =
     (case ctx of (r, p, s) \<Rightarrow>
        \<lparr>dr_discovery_id = di_id r, dr_source_page_id = pg_id p, dr_source_id = so_id s,
         dr_source_name = so_name s,
         dr_source_url = (if is_set (pg_final_url p) then the (pg_final_url p) else pg_normalized_url p),
         dr_approved_domains = so_approved_domains s, dr_authority_grade = so_authority_grade s,
         dr_raw_title = di_raw_title r, dr_raw_excerpt = di_raw_excerpt r,
         dr_processing_state = di_processing_state r,
         dr_normalized_identity_key = di_normalized_identity_key r,
         dr_extracted_facts = di_extracted_facts r, dr_ai_extracted_facts = di_ai_extracted_facts r,
         dr_supersedes_discovery_id = di_supersedes_discovery_id r,
         dr_duplicate_of_discovery_id = di_duplicate_of_discovery_id r,
         dr_split_from_discovery_id = di_split_from_discovery_id r,
         dr_canonical_scholarship_id = di_canonical_scholarship_id r,
         dr_source_posted_at = di_source_posted_at r, dr_created_at = di_created_at r\<rparr>)"

section \<open>Candidates\<close>

record candidate_submission =
  ca_title :: string
  ca_url :: "string option"
  ca_excerpt :: "string option"
  ca_heading :: "string option"

datatype candidate_status = Created | Duplicate | Unusable

record candidate_result =
  cu_title :: string
  cu_discovery_id :: "uuid option"
  cu_status :: candidate_status
  cu_reason :: "string option"

definition headed_excerpt :: "string option \<Rightarrow> string option \<Rightarrow> string option" where
  "headed_excerpt heading excerpt =
     (if is_set heading
      then Some (strip (''['' @ the heading @ '']'' @ [CHR 0x0A] @ or_empty excerpt))
      else excerpt)"

definition split_discovery ::
  "instant \<Rightarrow> uuid \<Rightarrow> uuid \<Rightarrow> uuid \<Rightarrow> discovery_candidate \<Rightarrow> string option \<Rightarrow> string \<Rightarrow> discovery" where
  "split_discovery now i pid parent cand heading key =
     \<lparr>di_id = i, di_source_page_id = pid, di_crawl_run_id = None,
      di_content_hash = cn_content_hash cand, di_raw_title = Some (cn_title cand),
      di_raw_excerpt = headed_excerpt heading (cn_excerpt cand), di_source_posted_at = None,
      di_feed_created_at = None, di_processing_state = ''normalized'',
      di_normalized_identity_key = Some key, di_canonical_scholarship_id = None,
      di_extracted_facts = None, di_ai_extracted_facts = None,
      di_supersedes_discovery_id = None, di_duplicate_of_discovery_id = None,
      di_split_from_discovery_id = Some parent, di_rejection_reason = None,
      di_auto_review_evaluated_at = None, di_created_at = now\<rparr>"

definition split_jobs :: "uuid \<Rightarrow> string \<Rightarrow> pending_job list" where
  "split_jobs i digest =
     (let payload = [(''discovery_id'', JStr (uuid_str i))]
      in [\<lparr>pn_kind = ''normalize_discovery'', pn_dedupe_key = ''normalize:'' @ uuid_str i @ '':'' @ digest,
           pn_payload = payload\<rparr>,
          \<lparr>pn_kind = ''link_canonical'', pn_dedupe_key = ''link:'' @ uuid_str i, pn_payload = payload\<rparr>])"

fun add_jobs :: "pending_job list \<Rightarrow> db \<Rightarrow> db result" where
  "add_jobs [] d = Inr d"
| "add_jobs (p # ps) d =
     (if job_by_dedupe (pn_dedupe_key p) (jobs d) \<noteq> None then Inl IntegrityError
      else let (i, d1) = new_uuid7 d
           in add_jobs ps (d1\<lparr>jobs := jobs d1 @ [new_job i (pn_kind p) (pn_dedupe_key p) (pn_payload p) None]\<rparr>))"

text \<open>A candidate that reached its page: a duplicate of what the page has, or a new sibling.\<close>

definition place_candidate ::
  "fetchlib \<Rightarrow> instant \<Rightarrow> candidate_submission \<Rightarrow> uuid \<Rightarrow> discovery_candidate \<Rightarrow> uuid \<Rightarrow> db
   \<Rightarrow> (candidate_result \<times> pending_job list \<times> db) result" where
  "place_candidate fl now candidate parent cand pid d =
     (case find (known_content pid (cn_content_hash cand)) (discoveries d) of
        Some r \<Rightarrow> Inr (\<lparr>cu_title = ca_title candidate, cu_discovery_id = Some (di_id r),
                        cu_status = Duplicate, cu_reason = None\<rparr>, [], d)
      | None \<Rightarrow>
          let key = nd_identity_key (normalize_discovery (cn_title cand) None)
          in if length key > KEY_LENGTH then Inl DataError
             else let (i, d1) = new_uuid7 d;
                      d2 = d1\<lparr>discoveries := discoveries d1
                             @ [split_discovery now i pid parent cand (ca_heading candidate) key]\<rparr>;
                      ps = split_jobs i (take 32 (fl_sha256 fl (fl_encode fl key)))
                  in bindE (add_jobs ps d2) (\<lambda>d3.
                     Inr (\<lparr>cu_title = ca_title candidate, cu_discovery_id = Some i, cu_status = Created,
                           cu_reason = None\<rparr>, ps, d3)))"

definition submit_one ::
  "fetchlib \<Rightarrow> instant \<Rightarrow> candidate_submission \<Rightarrow> discovery_context \<Rightarrow> db
   \<Rightarrow> (candidate_result \<times> pending_job list \<times> db) result" where
  "submit_one fl now candidate parent d =
     (let (r, p, s) = parent;
          url = (case ca_url candidate of Some u \<Rightarrow> u | None \<Rightarrow> pg_normalized_url p)
      in case prepare_candidate fl url (ca_title candidate) (ca_excerpt candidate) of
           Inl (ValueError m) \<Rightarrow>
             Inr (\<lparr>cu_title = ca_title candidate, cu_discovery_id = None, cu_status = Unusable,
                   cu_reason = Some m\<rparr>, [], d)
         | Inl e \<Rightarrow> Inl e
         | Inr cand \<Rightarrow>
             let (pid, d1) = seen_page now (so_id s) (cn_normalized_url cand) d
             in place_candidate fl now candidate (di_id r) cand pid d1)"

fun submit_all ::
  "fetchlib \<Rightarrow> instant \<Rightarrow> discovery_context \<Rightarrow> candidate_submission list \<Rightarrow> db
   \<Rightarrow> (candidate_result list \<times> pending_job list \<times> db) result" where
  "submit_all fl now parent [] d = Inr ([], [], d)"
| "submit_all fl now parent (c # cs) d =
     bindE (submit_one fl now c parent d) (\<lambda>(r, ps, d1).
     bindE (submit_all fl now parent cs d1) (\<lambda>(rs, qs, d2).
     Inr (r # rs, ps @ qs, d2)))"

record submission_response =
  su_parent :: uuid
  su_created :: nat
  su_duplicates :: nat
  su_rejected :: nat
  su_results :: "candidate_result list"

definition count_status :: "candidate_status \<Rightarrow> candidate_result list \<Rightarrow> nat" where
  "count_status st rs = length (filter (\<lambda>r. cu_status r = st) rs)"

text \<open>The inactive source is the module's own exception; here it is the outer \<open>None\<close>.\<close>

definition submit_candidates ::
  "fetchlib \<Rightarrow> settings \<Rightarrow> instant \<Rightarrow> uuid \<Rightarrow> candidate_submission list \<Rightarrow> db
   \<Rightarrow> ((submission_response \<times> qstash_message list) option option \<times> db) result" where
  "submit_candidates fl st now parent_id candidates d =
     (case load_discovery_context parent_id d of
        None \<Rightarrow> Inr (Some None, d)
      | Some (r, p, s) \<Rightarrow>
          if \<not> so_active s then Inr (None, d)
          else bindE (submit_all fl now (r, p, s) candidates d) (\<lambda>(rs, pending, d1).
            Inr (Some (Some (\<lparr>su_parent = parent_id, su_created = count_status Created rs,
                              su_duplicates = count_status Duplicate rs,
                              su_rejected = count_status Unusable rs, su_results = rs\<rparr>,
                             dispatch_pending_jobs st pending)), d1)))"

definition submit_split_candidates ::
  "fetchlib \<Rightarrow> settings \<Rightarrow> instant \<Rightarrow> request \<Rightarrow> uuid \<Rightarrow> candidate_submission list \<Rightarrow> db
   \<Rightarrow> ((problem_response + (submission_response \<times> qstash_message list)) \<times> db) result" where
  "submit_split_candidates fl st now rq parent_id candidates d =
     bindE (submit_candidates fl st now parent_id candidates d) (\<lambda>(out, d1).
     Inr (case out of
            None \<Rightarrow> Inl (problem rq 409 ''SOURCE_INACTIVE'' ''Conflict''
                          (''The parent discovery'' @ [CHR 0x27] @ ''s source has been deactivated'') None [])
          | Some None \<Rightarrow> Inl (discovery_missing rq ''No such parent discovery'')
          | Some (Some r) \<Rightarrow> Inr r, d1))"

section \<open>Evidence, reviews and runs\<close>

record evidence_item =
  ei_claim_path :: string
  ei_value :: json
  ei_source_url :: string
  ei_source_type :: string
  ei_excerpt :: "string option"
  ei_observed_at :: datetime
  ei_fetch_method :: "string option"
  ei_confidence :: "string option"

record evidence_submission =
  es_workflow_run_id :: string
  es_workflow_version :: string
  es_prompt_version :: "string option"
  es_model :: "string option"
  es_evidence :: "evidence_item list"

definition evidence_of :: "uuid \<Rightarrow> uuid \<Rightarrow> evidence_submission \<Rightarrow> evidence_item \<Rightarrow> evidence_row" where
  "evidence_of i did p e =
     \<lparr>ev_id = i, ev_discovery_id = did, ev_claim_path = ei_claim_path e, ev_value = ei_value e,
      ev_source_url = ei_source_url e, ev_source_type = ei_source_type e, ev_excerpt = ei_excerpt e,
      ev_observed_at = ei_observed_at e, ev_fetch_method = ei_fetch_method e,
      ev_confidence = ei_confidence e, ev_workflow_run_id = es_workflow_run_id p,
      ev_workflow_version = es_workflow_version p, ev_prompt_version = es_prompt_version p,
      ev_model = es_model p\<rparr>"

definition claim_key :: "evidence_row \<Rightarrow> uuid \<times> string \<times> string \<times> string" where
  "claim_key r = (ev_discovery_id r, ev_claim_path r, ev_source_url r, ev_workflow_run_id r)"

text \<open>One row of the insert: skipped when its claim is there, also from earlier in the same insert.\<close>

fun insert_evidence :: "uuid \<Rightarrow> evidence_submission \<Rightarrow> evidence_item list \<Rightarrow> db \<Rightarrow> nat \<times> db" where
  "insert_evidence did p [] d = (0, d)"
| "insert_evidence did p (e # es) d =
     (let (i, d1) = new_uuid7 d; row = evidence_of i did p e
      in if claim_key row \<in> claim_key ` set (evidence d1) then insert_evidence did p es d1
         else let (n, d2) = insert_evidence did p es (d1\<lparr>evidence := evidence d1 @ [row]\<rparr>) in (Suc n, d2))"

definition record_evidence :: "uuid \<Rightarrow> evidence_submission \<Rightarrow> db \<Rightarrow> (nat \<times> nat) \<times> db" where
  "record_evidence did p d =
     (let (recorded, d1) = insert_evidence did p (es_evidence p) d
      in ((recorded, length (es_evidence p) - recorded), d1))"

definition attach_evidence ::
  "request \<Rightarrow> uuid \<Rightarrow> evidence_submission \<Rightarrow> db \<Rightarrow> (problem_response + (nat \<times> nat)) \<times> db" where
  "attach_evidence rq did p d =
     (if load_discovery_context did d = None then (Inl (discovery_missing rq ''No such discovery''), d)
      else let (counts, d1) = record_evidence did p d in (Inr counts, d1))"

definition open_task_for :: "uuid \<Rightarrow> review_task \<Rightarrow> bool" where
  "open_task_for did t = (live_task t \<and> rt_discovery_id t = Some did)"

definition request_review ::
  "settings \<Rightarrow> instant \<Rightarrow> uuid \<Rightarrow> string \<Rightarrow> int \<Rightarrow> db
   \<Rightarrow> ((uuid option \<times> bool) \<times> qstash_message list \<times> db) result" where
  "request_review st now did reason priority d =
     (let (i, d1) = new_uuid7 d
      in case find (open_task_for did) (review_tasks d1) of
           Some t \<Rightarrow> Inr ((Some (rt_id t), False), [], d1)
         | None \<Rightarrow>
             let d2 = d1\<lparr>review_tasks := review_tasks d1 @
                    [\<lparr>rt_id = i, rt_revision_id = None, rt_discovery_id = Some did, rt_cycle_id = None,
                      rt_reason = reason, rt_priority = priority, rt_state = ''open'',
                      rt_resolution = None, rt_draft_recommendation = None, rt_created_at = now\<rparr>]\<rparr>;
                 p = \<lparr>pn_kind = ''prepare_review'', pn_dedupe_key = ''prepare_review:'' @ uuid_str i,
                      pn_payload = [(''review_task_id'', JStr (uuid_str i))]\<rparr>
             in bindE (add_jobs [p] d2) (\<lambda>d3.
                Inr ((Some i, True), dispatch_pending_jobs st [p], d3)))"

definition DEFAULT_REVIEW_PRIORITY :: int where "DEFAULT_REVIEW_PRIORITY = 100"

definition ask_for_review ::
  "settings \<Rightarrow> instant \<Rightarrow> request \<Rightarrow> uuid \<Rightarrow> string \<Rightarrow> int option \<Rightarrow> db
   \<Rightarrow> ((problem_response + (uuid \<times> bool)) \<times> db) result" where
  "ask_for_review st now rq did reason priority d =
     (if load_discovery_context did d = None then Inr (Inl (discovery_missing rq ''No such discovery''), d)
      else bindE (request_review st now did reason
             (case priority of None \<Rightarrow> DEFAULT_REVIEW_PRIORITY | Some n \<Rightarrow> if n = 0 then DEFAULT_REVIEW_PRIORITY else n) d)
        (\<lambda>((task, created), msgs, d1).
         Inr (case task of
                None \<Rightarrow> Inl (problem rq 409 ''REVIEW_ALREADY_RESOLVED'' ''Conflict''
                              ''The review task was resolved concurrently; retry'' None [])
              | Some t \<Rightarrow> Inr (t, created), d1)))"

record run_request =
  rr_discovery_id :: uuid
  rr_workflow_version :: string
  rr_agent_outcome :: string
  rr_prompt_version :: "string option"
  rr_model :: "string option"
  rr_recommendation :: "dict option"
  rr_correlation_id :: "string option"

definition run_of :: "run_request \<Rightarrow> agent_run \<Rightarrow> bool" where
  "run_of p a = (ar_discovery_id a = rr_discovery_id p \<and> ar_workflow_version a = rr_workflow_version p)"

definition rerun :: "run_request \<Rightarrow> agent_run \<Rightarrow> agent_run" where
  "rerun p a =
     a\<lparr>ar_agent_outcome := rr_agent_outcome p, ar_prompt_version := rr_prompt_version p,
       ar_model := rr_model p, ar_recommendation := rr_recommendation p,
       ar_correlation_id := rr_correlation_id p\<rparr>"

definition new_run :: "uuid \<Rightarrow> run_request \<Rightarrow> agent_run" where
  "new_run i p =
     \<lparr>ar_id = i, ar_discovery_id = rr_discovery_id p, ar_workflow_version = rr_workflow_version p,
      ar_agent_outcome = rr_agent_outcome p, ar_prompt_version = rr_prompt_version p,
      ar_model = rr_model p, ar_recommendation = rr_recommendation p,
      ar_correlation_id = rr_correlation_id p\<rparr>"

definition record_run :: "run_request \<Rightarrow> db \<Rightarrow> (agent_run \<times> db) result" where
  "record_run p d =
     (let (i, d1) = new_uuid7 d;
          d2 = (if \<exists>a \<in> set (agent_runs d1). run_of p a
                then d1\<lparr>agent_runs := map (\<lambda>a. if run_of p a then rerun p a else a) (agent_runs d1)\<rparr>
                else d1\<lparr>agent_runs := agent_runs d1 @ [new_run i p]\<rparr>)
      in case find (run_of p) (agent_runs d2) of
           None \<Rightarrow> Inl (RuntimeError ''agent_run disappeared immediately after upsert'')
         | Some a \<Rightarrow> Inr (a, d2))"

definition record_agent_run ::
  "request \<Rightarrow> run_request \<Rightarrow> db \<Rightarrow> ((problem_response + agent_run) \<times> db) result" where
  "record_agent_run rq p d =
     (if load_discovery_context (rr_discovery_id p) d = None
      then Inr (Inl (discovery_missing rq ''No such discovery''), d)
      else map_sum id (\<lambda>(a, d1). (Inr a, d1)) (record_run p d))"

section \<open>Lemmas: what an agent's request leaves alone\<close>

definition job_kinds_of_agent :: "string set" where
  "job_kinds_of_agent = {''normalize_discovery'', ''link_canonical'', ''prepare_review''}"

definition undecided :: "review_task \<Rightarrow> bool" where
  "undecided t = (live_task t \<and> rt_draft_recommendation t = None)"

definition bare_sibling :: "discovery \<Rightarrow> bool" where
  "bare_sibling r =
     (di_split_from_discovery_id r \<noteq> None \<and> di_canonical_scholarship_id r = None
      \<and> di_supersedes_discovery_id r = None \<and> di_processing_state r = ''normalized'')"

definition same_decisions :: "db \<Rightarrow> db \<Rightarrow> bool" where
  "same_decisions d d' =
     (scholarships d' = scholarships d \<and> cycles d' = cycles d \<and> sources d' = sources d
      \<and> providers d' = providers d \<and> auto_audits d' = auto_audits d \<and> audit_log d' = audit_log d
      \<and> verifications d' = verifications d)"

definition only_proposes :: "db \<Rightarrow> db \<Rightarrow> bool" where
  "only_proposes d d' =
     (same_decisions d d'
      \<and> (\<exists>ts. review_tasks d' = review_tasks d @ ts \<and> list_all undecided ts)
      \<and> (\<exists>rs. discoveries d' = discoveries d @ rs \<and> list_all bare_sibling rs)
      \<and> (\<exists>js. jobs d' = jobs d @ js \<and> list_all (\<lambda>j. pj_kind j \<in> job_kinds_of_agent) js))"

lemma only_proposes_refl: "only_proposes d d"
  by (simp add: only_proposes_def same_decisions_def)

lemma only_proposes_trans:
  assumes "only_proposes a b" and "only_proposes b c"
  shows "only_proposes a c"
proof -
  from assms(1) obtain ts rs js where
    1: "same_decisions a b" "review_tasks b = review_tasks a @ ts" "list_all undecided ts"
    "discoveries b = discoveries a @ rs" "list_all bare_sibling rs" "jobs b = jobs a @ js"
    "list_all (\<lambda>j. pj_kind j \<in> job_kinds_of_agent) js" unfolding only_proposes_def by blast
  from assms(2) obtain ts' rs' js' where
    2: "same_decisions b c" "review_tasks c = review_tasks b @ ts'" "list_all undecided ts'"
    "discoveries c = discoveries b @ rs'" "list_all bare_sibling rs'" "jobs c = jobs b @ js'"
    "list_all (\<lambda>j. pj_kind j \<in> job_kinds_of_agent) js'" unfolding only_proposes_def by blast
  have "same_decisions a c" using 1(1) 2(1) by (simp add: same_decisions_def)
  with 1 2 show ?thesis
    unfolding only_proposes_def by (simp add: exI [of _ "ts @ ts'"])
qed

lemma add_jobs_adds:
  "add_jobs ps d = Inr d' \<Longrightarrow>
   \<exists>js. jobs d' = jobs d @ js \<and> map pj_kind js = map pn_kind ps \<and> same_decisions d d'
      \<and> discoveries d' = discoveries d \<and> review_tasks d' = review_tasks d \<and> pages d' = pages d"
proof (induction ps arbitrary: d)
  case (Cons p ps)
  obtain i d1 where i: "new_uuid7 d = (i, d1)" by fastforce
  let ?d2 = "d1\<lparr>jobs := jobs d1 @ [new_job i (pn_kind p) (pn_dedupe_key p) (pn_payload p) None]\<rparr>"
  from Cons.prems i have "add_jobs ps ?d2 = Inr d'" by (simp split: if_splits)
  from Cons.IH [OF this] i show ?case
    by (auto simp: new_uuid7_def new_job_def same_decisions_def)
qed (simp add: same_decisions_def)

lemma kinds_of_split_jobs: "map pn_kind (split_jobs i h) = [''normalize_discovery'', ''link_canonical'']"
  by (simp add: split_jobs_def Let_def)

lemma list_all_kinds: "map pj_kind js = ks \<Longrightarrow> set ks \<subseteq> K \<Longrightarrow> list_all (\<lambda>j. pj_kind j \<in> K) js"
  by (auto simp: list_all_iff)

lemma place_candidate_cases:
  assumes "place_candidate fl now c parent cand pid d = Inr (out, ps, d')"
  obtains
    (known) r where "find (known_content pid (cn_content_hash cand)) (discoveries d) = Some r"
      "cu_discovery_id out = Some (di_id r)" "cu_status out = Duplicate" "ps = []" "d' = d"
  | (fresh) r js where "find (known_content pid (cn_content_hash cand)) (discoveries d) = None"
      "known_content pid (cn_content_hash cand) r" "bare_sibling r" "di_split_from_discovery_id r = Some parent"
      "discoveries d' = discoveries d @ [r]" "jobs d' = jobs d @ js"
      "map pj_kind js = [''normalize_discovery'', ''link_canonical'']"
      "review_tasks d' = review_tasks d" "same_decisions d d'" "pages d' = pages d"
      "cu_discovery_id out = Some (di_id r)" "cu_status out = Created"
proof (cases "find (known_content pid (cn_content_hash cand)) (discoveries d)")
  case (Some r)
  with assms have "cu_discovery_id out = Some (di_id r)" "cu_status out = Duplicate" "ps = []" "d' = d"
    by (auto simp: place_candidate_def)
  with Some show thesis by (rule that(1))
next
  case None
  let ?key = "nd_identity_key (normalize_discovery (cn_title cand) None)"
  obtain i d1 where i: "new_uuid7 d = (i, d1)" by fastforce
  let ?r = "split_discovery now i pid parent cand (ca_heading c) ?key"
  let ?d2 = "d1\<lparr>discoveries := discoveries d1 @ [?r]\<rparr>"
  let ?ps = "split_jobs i (take 32 (fl_sha256 fl (fl_encode fl ?key)))"
  from assms None i have "bindE (add_jobs ?ps ?d2) (\<lambda>d3. Inr (\<lparr>cu_title = ca_title c, cu_discovery_id = Some i,
      cu_status = Created, cu_reason = None\<rparr>, ?ps, d3)) = Inr (out, ps, d')"
    by (simp add: place_candidate_def Let_def del: add_jobs.simps split: if_splits)
  then have jobs: "add_jobs ?ps ?d2 = Inr d'"
    and out: "cu_discovery_id out = Some i" "cu_status out = Created"
    by (auto simp: bindE_eq_Inr simp del: add_jobs.simps)
  have r: "known_content pid (cn_content_hash cand) ?r" "bare_sibling ?r"
    "di_split_from_discovery_id ?r = Some parent" "di_id ?r = i"
    by (simp_all add: known_content_def bare_sibling_def split_discovery_def)
  from add_jobs_adds [OF jobs] obtain js where js: "jobs d' = jobs ?d2 @ js"
    "map pj_kind js = [''normalize_discovery'', ''link_canonical'']" "same_decisions ?d2 d'"
    "discoveries d' = discoveries ?d2" "review_tasks d' = review_tasks ?d2" "pages d' = pages ?d2"
    by (auto simp: kinds_of_split_jobs)
  have d1: "d1 = d\<lparr>next_id := Suc (next_id d)\<rparr>" using i by (auto simp: new_uuid7_def)
  show thesis
    by (rule that(2) [OF None r(1-3), of js]) (use js out r(4) in \<open>simp_all add: d1 same_decisions_def\<close>)
qed

lemma place_candidate_proposes:
  assumes "place_candidate fl now c parent cand pid d = Inr (out, ps, d')"
  shows "only_proposes d d'"
  using assms
proof (cases rule: place_candidate_cases)
  case (fresh r js)
  have "list_all (\<lambda>j. pj_kind j \<in> job_kinds_of_agent) js"
    by (rule list_all_kinds [OF fresh(7)]) (simp add: job_kinds_of_agent_def)
  with fresh show ?thesis by (auto simp: only_proposes_def)
qed (simp add: only_proposes_refl)

lemma seen_page_proposes: "seen_page now sid url d = (pid, d1) \<Longrightarrow> only_proposes d d1"
  by (auto simp: seen_page_def new_uuid7_def only_proposes_def same_decisions_def split: option.splits)

lemma submit_one_cases:
  assumes "submit_one fl now c (r, p, s) d = Inr (out, ps, d')"
  obtains
    (unusable) m where
      "prepare_candidate fl (case ca_url c of Some u \<Rightarrow> u | None \<Rightarrow> pg_normalized_url p) (ca_title c) (ca_excerpt c)
         = Inl (ValueError m)" "cu_status out = Unusable" "cu_discovery_id out = None" "ps = []" "d' = d"
  | (placed) cand pid d1 where
      "prepare_candidate fl (case ca_url c of Some u \<Rightarrow> u | None \<Rightarrow> pg_normalized_url p) (ca_title c) (ca_excerpt c)
         = Inr cand"
      "seen_page now (so_id s) (cn_normalized_url cand) d = (pid, d1)"
      "place_candidate fl now c (di_id r) cand pid d1 = Inr (out, ps, d')"
  using assms unfolding submit_one_def Let_def prod.case
  by (auto split: sum.splits exn.splits prod.splits)

lemma submit_one_proposes:
  assumes "submit_one fl now c ctx d = Inr (out, ps, d')"
  shows "only_proposes d d'"
proof -
  obtain r p s where "ctx = (r, p, s)" by (cases ctx)
  with assms have "submit_one fl now c (r, p, s) d = Inr (out, ps, d')" by simp
  then show ?thesis
    by (cases rule: submit_one_cases)
      (auto intro: only_proposes_refl only_proposes_trans [OF seen_page_proposes place_candidate_proposes])
qed

lemma submit_all_proposes: "submit_all fl now ctx cs d = Inr (outs, ps, d') \<Longrightarrow> only_proposes d d'"
proof (induction cs arbitrary: d outs ps)
  case (Cons c cs)
  then obtain o1 p1 d1 o2 p2 where "submit_one fl now c ctx d = Inr (o1, p1, d1)"
    "submit_all fl now ctx cs d1 = Inr (o2, p2, d')" by (auto simp: bindE_eq_Inr)
  with Cons.IH show ?case by (blast intro: only_proposes_trans submit_one_proposes)
qed (simp add: only_proposes_refl)

lemma insert_evidence_frame:
  "insert_evidence did p es d = (n, d') \<Longrightarrow> only_proposes d d'"
proof (induction es arbitrary: d n)
  case (Cons e es)
  obtain i d1 where i: "new_uuid7 d = (i, d1)" by fastforce
  have 1: "only_proposes d (d1\<lparr>evidence := rows\<rparr>)" and 2: "only_proposes d d1" for rows
    using i by (auto simp: only_proposes_def same_decisions_def new_uuid7_def)
  show ?case
    using Cons.prems i
    by (auto simp: Let_def split: if_splits prod.splits intro: only_proposes_trans [OF 1] only_proposes_trans [OF 2] Cons.IH)
qed (simp add: only_proposes_refl)

lemma request_review_proposes:
  assumes "request_review st now did reason priority d = Inr (out, msgs, d')"
  shows "only_proposes d d'"
proof -
  obtain i d1 where i: "new_uuid7 d = (i, d1)" by fastforce
  then have d1: "d1 = d\<lparr>next_id := Suc (next_id d)\<rparr>" by (auto simp: new_uuid7_def)
  show ?thesis
  proof (cases "find (open_task_for did) (review_tasks d1)")
    case (Some t)
    with assms i have "d' = d1" by (auto simp: request_review_def)
    then show ?thesis by (simp add: d1 only_proposes_def same_decisions_def)
  next
    case None
    let ?t = "\<lparr>rt_id = i, rt_revision_id = None, rt_discovery_id = Some did, rt_cycle_id = None,
      rt_reason = reason, rt_priority = priority, rt_state = ''open'', rt_resolution = None,
      rt_draft_recommendation = None, rt_created_at = now\<rparr>"
    let ?d2 = "d1\<lparr>review_tasks := review_tasks d1 @ [?t]\<rparr>"
    let ?p = "\<lparr>pn_kind = ''prepare_review'', pn_dedupe_key = ''prepare_review:'' @ uuid_str i,
      pn_payload = [(''review_task_id'', JStr (uuid_str i))]\<rparr>"
    from assms i None have "bindE (add_jobs [?p] ?d2) (\<lambda>d3.
        Inr ((Some i, True), dispatch_pending_jobs st [?p], d3)) = Inr (out, msgs, d')"
      by (simp add: request_review_def Let_def del: add_jobs.simps)
    then have jobs: "add_jobs [?p] ?d2 = Inr d'"
      by (auto simp: bindE_eq_Inr simp del: add_jobs.simps)
    from add_jobs_adds [OF jobs] obtain js where js: "jobs d' = jobs ?d2 @ js"
      "map pj_kind js = [''prepare_review'']" "same_decisions ?d2 d'"
      "discoveries d' = discoveries ?d2" "review_tasks d' = review_tasks ?d2" by auto
    have "undecided ?t" by (simp add: undecided_def live_task_def)
    moreover have "list_all (\<lambda>j. pj_kind j \<in> job_kinds_of_agent) js"
      by (rule list_all_kinds [OF js(2)]) (simp add: job_kinds_of_agent_def)
    moreover have "same_decisions d d'" using js(3) by (simp add: d1 same_decisions_def)
    ultimately show ?thesis using js by (simp add: d1 only_proposes_def)
  qed
qed

lemma record_run_proposes: "record_run p d = Inr (a, d') \<Longrightarrow> only_proposes d d'"
  by (auto simp: record_run_def Let_def new_uuid7_def only_proposes_def same_decisions_def
      split: option.splits if_splits)

section \<open>Requests in any order\<close>

datatype agent_request =
    Split_Off uuid "candidate_submission list"
  | Attach_Evidence uuid evidence_submission
  | Ask_Review uuid string "int option"
  | Record_Run run_request

definition committed :: "('a \<times> db) result \<Rightarrow> db \<Rightarrow> db" where
  "committed m d = (case m of Inl _ \<Rightarrow> d | Inr (_, d') \<Rightarrow> d')"

fun serve_agent :: "fetchlib \<Rightarrow> settings \<Rightarrow> request \<Rightarrow> agent_request \<times> instant \<Rightarrow> db \<Rightarrow> db" where
  "serve_agent fl st rq (Split_Off did cs, now) d = committed (submit_split_candidates fl st now rq did cs d) d"
| "serve_agent fl st rq (Attach_Evidence did p, now) d = snd (attach_evidence rq did p d)"
| "serve_agent fl st rq (Ask_Review did reason priority, now) d = committed (ask_for_review st now rq did reason priority d) d"
| "serve_agent fl st rq (Record_Run p, now) d = committed (record_agent_run rq p d) d"

lemma submit_candidates_cases:
  assumes "submit_candidates fl st now parent cs d = Inr (out, d')"
  obtains
    (missing) "load_discovery_context parent d = None" "out = Some None" "d' = d"
  | (inactive) r p s where "load_discovery_context parent d = Some (r, p, s)" "\<not> so_active s" "out = None" "d' = d"
  | (accepted) r p s rs pending where "load_discovery_context parent d = Some (r, p, s)" "so_active s"
      "submit_all fl now (r, p, s) cs d = Inr (rs, pending, d')"
      "out = Some (Some (\<lparr>su_parent = parent, su_created = count_status Created rs,
         su_duplicates = count_status Duplicate rs, su_rejected = count_status Unusable rs, su_results = rs\<rparr>,
         dispatch_pending_jobs st pending))"
  using assms unfolding submit_candidates_def
  by (auto simp: bindE_eq_Inr split: option.splits prod.splits if_splits)

lemma submit_candidates_proposes:
  assumes "submit_candidates fl st now parent cs d = Inr (out, d')"
  shows "only_proposes d d'"
  using assms by (cases rule: submit_candidates_cases) (auto intro: only_proposes_refl submit_all_proposes)

lemma serve_agent_proposes: "only_proposes d (serve_agent fl st rq (q, now) d)"
proof (cases q)
  case (Split_Off did cs)
  then show ?thesis
    by (cases "submit_candidates fl st now did cs d")
      (auto simp: committed_def submit_split_candidates_def only_proposes_refl intro: submit_candidates_proposes)
next
  case (Attach_Evidence did p)
  obtain n d1 where "insert_evidence did p (es_evidence p) d = (n, d1)" by fastforce
  with Attach_Evidence show ?thesis
    using insert_evidence_frame by (auto simp: attach_evidence_def record_evidence_def only_proposes_refl)
next
  case (Ask_Review did reason priority)
  then show ?thesis
    by (auto simp: committed_def ask_for_review_def bindE_def only_proposes_refl
        intro: request_review_proposes split: sum.split option.split)
next
  case (Record_Run p)
  then show ?thesis
    by (cases "record_run p d")
      (auto simp: committed_def record_agent_run_def only_proposes_refl intro: record_run_proposes)
qed

text \<open>
  C5. An agent proposes and never decides: whatever it requests, in whatever order, no scholarship, cycle,
  source, provider, audit entry or page check changes, no existing review task or discovery changes, and
  what it adds is open tasks without a draft, unlinked discoveries split off a parent, and jobs of the three
  pipeline kinds.
\<close>

theorem agent_only_proposes:
  "only_proposes d (fold (serve_agent fl st rq) qs d)"
proof (induction qs arbitrary: d)
  case (Cons q qs)
  have "only_proposes d (serve_agent fl st rq q d)" using serve_agent_proposes by (cases q) auto
  with Cons.IH show ?case by (auto intro: only_proposes_trans)
qed (simp add: only_proposes_refl)

text \<open>One demo leads the witnesses: a discovery with its page and source.\<close>

definition demo_lead :: discovery where
  "demo_lead = (split_discovery 1 3 2 3 \<lparr>cn_normalized_url = [], cn_content_hash = ''h'', cn_title = ''A'',
     cn_excerpt = None\<rparr> None ''a'')\<lparr>di_split_from_discovery_id := None\<rparr>"

definition demo_evidence :: evidence_submission where
  "demo_evidence =
     (let item = \<lparr>ei_claim_path = ''amount'', ei_value = JInt 5, ei_source_url = ''https://a.org/'',
        ei_source_type = ''official_page'', ei_excerpt = None, ei_observed_at = Aware 0 0,
        ei_fetch_method = None, ei_confidence = None\<rparr>
      in \<lparr>es_workflow_run_id = ''r1'', es_workflow_version = ''v1'', es_prompt_version = None, es_model = None,
         es_evidence = [item, item\<lparr>ei_claim_path := ''deadline''\<rparr>, item]\<rparr>)"

section \<open>Lemmas: evidence\<close>

lemma evidence_of_key:
  "claim_key (evidence_of i did p e) = (did, ei_claim_path e, ei_source_url e, es_workflow_run_id p)"
  by (simp add: claim_key_def evidence_of_def)

lemma insert_evidence_known:
  "\<forall>e \<in> set es. (did, ei_claim_path e, ei_source_url e, es_workflow_run_id p) \<in> claim_key ` set (evidence d)
   \<Longrightarrow> \<exists>d'. insert_evidence did p es d = (0, d') \<and> evidence d' = evidence d"
proof (induction es arbitrary: d)
  case (Cons e es)
  obtain i d1 where i: "new_uuid7 d = (i, d1)" by fastforce
  then have same: "evidence d1 = evidence d" by (auto simp: new_uuid7_def)
  with Cons.prems have "insert_evidence did p (e # es) d = insert_evidence did p es d1"
    by (simp add: i evidence_of_key)
  with Cons.IH [of d1] Cons.prems same show ?case by simp
qed simp

lemma insert_evidence_result:
  "insert_evidence did p es d = (n, d') \<Longrightarrow> distinct (map claim_key (evidence d)) \<Longrightarrow>
   \<exists>rows. evidence d' = evidence d @ rows \<and> length rows = n \<and> n \<le> length es
     \<and> distinct (map claim_key (evidence d'))
     \<and> (\<forall>e \<in> set es. (did, ei_claim_path e, ei_source_url e, es_workflow_run_id p) \<in> claim_key ` set (evidence d'))"
proof (induction es arbitrary: d n)
  case (Cons e es)
  let ?k = "(did, ei_claim_path e, ei_source_url e, es_workflow_run_id p)"
  obtain i d1 where i: "new_uuid7 d = (i, d1)" by fastforce
  then have same: "evidence d1 = evidence d" by (auto simp: new_uuid7_def)
  show ?case
  proof (cases "?k \<in> claim_key ` set (evidence d)")
    case True
    with Cons.prems(1) i same have "insert_evidence did p es d1 = (n, d')"
      by (simp add: Let_def evidence_of_key)
    from Cons.IH [OF this] Cons.prems(2) same obtain rows where
      "evidence d' = evidence d @ rows" "length rows = n" "n \<le> length es" "distinct (map claim_key (evidence d'))"
      "\<forall>e \<in> set es. (did, ei_claim_path e, ei_source_url e, es_workflow_run_id p) \<in> claim_key ` set (evidence d')"
      by auto
    with True show ?thesis by auto
  next
    case False
    let ?row = "evidence_of i did p e"
    let ?d2 = "d1\<lparr>evidence := evidence d1 @ [?row]\<rparr>"
    from Cons.prems(1) i same False obtain m where m: "insert_evidence did p es ?d2 = (m, d')" "n = Suc m"
      by (auto simp: Let_def evidence_of_key split: prod.splits)
    have "distinct (map claim_key (evidence ?d2))"
      using Cons.prems(2) same False by (auto simp: evidence_of_key)
    from Cons.IH [OF m(1) this] obtain rows where
      "evidence d' = evidence ?d2 @ rows" "length rows = m" "m \<le> length es" "distinct (map claim_key (evidence d'))"
      "\<forall>e \<in> set es. (did, ei_claim_path e, ei_source_url e, es_workflow_run_id p) \<in> claim_key ` set (evidence d')"
      by blast
    with m(2) same show ?thesis by (auto simp: evidence_of_key)
  qed
qed simp

lemma insert_evidence_discoveries:
  "insert_evidence did p es d = (n, d') \<Longrightarrow>
     discoveries d' = discoveries d \<and> pages d' = pages d \<and> sources d' = sources d"
  by (induction es arbitrary: d n) (fastforce simp: new_uuid7_def Let_def split: if_splits prod.splits)+

lemma context_frame:
  assumes "discoveries d' = discoveries d \<and> pages d' = pages d \<and> sources d' = sources d"
  shows "load_discovery_context did d' = load_discovery_context did d"
proof -
  from assms have "with_context d' = with_context d"
    by (intro ext) (simp add: with_context_def split: option.split)
  with assms show ?thesis by (simp add: load_discovery_context_def)
qed

text \<open>
  Evidence is stored once per claim, source and run, whatever the request repeats: recorded and
  duplicate items add up to those sent, the uniqueness of the table is kept, and the same submission again
  records nothing.
\<close>

theorem evidence_is_recorded_once:
  assumes "distinct (map claim_key (evidence d))"
    and "attach_evidence rq did p d = (Inr (recorded, dups), d')"
  shows "recorded + dups = length (es_evidence p)
     \<and> (\<exists>rows. evidence d' = evidence d @ rows \<and> length rows = recorded)
     \<and> distinct (map claim_key (evidence d'))
     \<and> (\<exists>d''. attach_evidence rq did p d' = (Inr (0, length (es_evidence p)), d'') \<and> evidence d'' = evidence d')"
proof -
  obtain n d1 where ins: "insert_evidence did p (es_evidence p) d = (n, d1)" by fastforce
  from assms(2) ins have eq: "d' = d1" "recorded = n" "dups = length (es_evidence p) - n"
    and ctx: "load_discovery_context did d \<noteq> None"
    by (auto simp: attach_evidence_def record_evidence_def split: if_splits)
  from insert_evidence_result [OF ins assms(1)] obtain rows where
    rows: "evidence d1 = evidence d @ rows" "length rows = n" "n \<le> length (es_evidence p)"
      "distinct (map claim_key (evidence d1))"
    and known: "\<forall>e \<in> set (es_evidence p).
      (did, ei_claim_path e, ei_source_url e, es_workflow_run_id p) \<in> claim_key ` set (evidence d1)"
    by blast
  from insert_evidence_known [OF known] obtain d2 where
    "insert_evidence did p (es_evidence p) d1 = (0, d2)" "evidence d2 = evidence d1" by blast
  moreover have "load_discovery_context did d1 \<noteq> None"
    using ctx context_frame [OF insert_evidence_discoveries [OF ins]] by simp
  ultimately have "attach_evidence rq did p d1 = (Inr (0, length (es_evidence p)), d2)"
    by (simp add: attach_evidence_def record_evidence_def)
  with rows eq \<open>evidence d2 = evidence d1\<close> show ?thesis by simp
qed

section \<open>Lemmas: runs\<close>

definition run_key :: "agent_run \<Rightarrow> uuid \<times> string" where
  "run_key a = (ar_discovery_id a, ar_workflow_version a)"

lemma run_of_key: "run_of p a \<longleftrightarrow> run_key a = (rr_discovery_id p, rr_workflow_version p)"
  by (auto simp: run_of_def run_key_def)

lemma run_key_rerun [simp]: "run_key (rerun p a) = run_key a" "run_of p (rerun p a) = run_of p a"
  by (simp_all add: run_key_def rerun_def run_of_def)

lemma find_map_rerun: "find (run_of p) (map (\<lambda>a. if run_of p a then rerun p a else a) rows)
    = map_option (rerun p) (find (run_of p) rows)"
  by (induction rows) auto

text \<open>
  A workflow's outcome has one row per discovery and version: recording always succeeds and answers
  with what was sent; a first run adds one row, a repeated one rewrites its own row under its id; the
  rows of other discoveries and versions are untouched, and the uniqueness of the table is kept.
\<close>

theorem a_run_has_one_row:
  assumes "distinct (map run_key (agent_runs d))"
  shows "\<exists>a d'. record_run p d = Inr (a, d') \<and> a = rerun p a \<and> run_of p a \<and> a \<in> set (agent_runs d')
     \<and> distinct (map run_key (agent_runs d'))
     \<and> filter (\<lambda>b. \<not> run_of p b) (agent_runs d') = filter (\<lambda>b. \<not> run_of p b) (agent_runs d)
     \<and> (case find (run_of p) (agent_runs d) of
          Some b \<Rightarrow> ar_id a = ar_id b \<and> map ar_id (agent_runs d') = map ar_id (agent_runs d)
        | None \<Rightarrow> agent_runs d' = agent_runs d @ [a] \<and> ar_id a = next_id d)"
proof (cases "find (run_of p) (agent_runs d)")
  case None
  let ?a = "new_run (next_id d) p"
  have none: "\<forall>b \<in> set (agent_runs d). \<not> run_of p b" using None by (simp add: find_None_iff)
  have own: "run_of p ?a" by (simp add: run_of_def new_run_def)
  then have "run_key ?a \<notin> run_key ` set (agent_runs d)" using none by (auto simp: run_of_key)
  moreover have "?a = rerun p ?a" by (simp add: new_run_def rerun_def)
  moreover have "ar_id ?a = next_id d" by (simp add: new_run_def)
  ultimately show ?thesis
    using None none own assms
    by (auto simp: record_run_def new_uuid7_def Let_def find_append_one)
next
  case (Some b)
  then have b: "b \<in> set (agent_runs d)" "run_of p b" by (auto simp: find_Some_iff)
  let ?up = "\<lambda>a. if run_of p a then rerun p a else a"
  let ?d' = "d\<lparr>next_id := Suc (next_id d), agent_runs := map ?up (agent_runs d)\<rparr>"
  have "record_run p d = Inr (rerun p b, ?d')"
    using Some b by (auto simp: record_run_def new_uuid7_def Let_def find_map_rerun)
  moreover have "rerun p b \<in> set (map ?up (agent_runs d))" using b by force
  moreover have keys: "map run_key (map ?up rows) = map run_key rows" "map ar_id (map ?up rows) = map ar_id rows" for rows
    by (simp_all add: rerun_def run_key_def)
  have "distinct (map run_key (map ?up (agent_runs d)))" using assms by (simp only: keys)
  moreover note keys(2) [of "agent_runs d"]
  moreover have "filter (\<lambda>b. \<not> run_of p b) (map ?up rows) = filter (\<lambda>b. \<not> run_of p b) rows" for rows
    by (induction rows) auto
  moreover have "rerun p b = rerun p (rerun p b)" "ar_id (rerun p b) = ar_id b" by (simp_all add: rerun_def)
  ultimately show ?thesis using Some b assms
    by (intro exI [of _ "rerun p b"] exI [of _ ?d']) (simp del: map_map)
qed

section \<open>Lemmas: pages of work\<close>

abbreviation by_id :: "discovery list \<Rightarrow> bool" where
  "by_id \<equiv> sorted_wrt (\<lambda>a b. di_id a < di_id b)"

lemma strictly_sorted_key:
  "distinct (map di_id rows) \<Longrightarrow> by_id (sort_key di_id rows)"
proof -
  assume "distinct (map di_id rows)"
  then have "distinct (map di_id (sort_key di_id rows))"
    by (metis distinct_map distinct_sort set_sort)
  then have "sorted_wrt (<) (map di_id (sort_key di_id rows))"
    by (simp add: strict_sorted_iff)
  then show ?thesis by (simp add: sorted_wrt_map)
qed

lemma by_id_take:
  assumes "by_id rows" and "take n rows \<noteq> []"
  shows "\<forall>r \<in> set (take n rows). di_id r \<le> di_id (last (take n rows))"
    and "\<forall>r \<in> set rows. di_id r \<le> di_id (last (take n rows)) \<longrightarrow> r \<in> set (take n rows)"
proof -
  have split: "by_id (take n rows @ drop n rows)" using assms(1) by simp
  from assms(2) obtain xs x where xs: "take n rows = xs @ [x]" by (metis append_butlast_last_id)
  with split have "\<forall>r \<in> set xs. di_id r < di_id x" "\<forall>r \<in> set (drop n rows). di_id x < di_id r"
    by (auto simp: sorted_wrt_append)
  moreover have "set rows = set (take n rows) \<union> set (drop n rows)"
    by (metis append_take_drop_id set_append)
  ultimately show "\<forall>r \<in> set (take n rows). di_id r \<le> di_id (last (take n rows))"
    and "\<forall>r \<in> set rows. di_id r \<le> di_id (last (take n rows)) \<longrightarrow> r \<in> set (take n rows)"
    using xs by fastforce+
qed

definition work_list :: "uuid option \<Rightarrow> string option \<Rightarrow> bool \<Rightarrow> db \<Rightarrow> discovery list" where
  "work_list after version unprocessed_only d =
     sort_key di_id (filter (listed_work after version unprocessed_only d) (discoveries d))"

lemma with_context_fst: "with_context d r = Some c \<Longrightarrow> fst c = r"
  by (auto simp: with_context_def split: option.splits)

lemma list_discoveries_rows:
  "map fst (list_discoveries limit after v u d) = take limit (work_list after v u d)"
proof -
  have "map fst (list_discoveries limit after v u d)
      = map (\<lambda>r. fst (the (with_context d r))) (take limit (work_list after v u d))"
    by (simp add: list_discoveries_def work_list_def)
  also have "\<dots> = map id (take limit (work_list after v u d))"
  proof (rule map_cong [OF refl])
    fix r assume "r \<in> set (take limit (work_list after v u d))"
    then have "with_context d r \<noteq> None" by (auto simp: work_list_def listed_work_def dest: in_set_takeD)
    then show "fst (the (with_context d r)) = id r" using with_context_fst by fastforce
  qed
  finally show ?thesis by simp
qed

text \<open>One page: the whole rest, or a full page with the id of its last row as the cursor.\<close>

lemma read_discoveries_cases:
  assumes "read_discoveries rq limit after v u d = Inr (Inr (items, c))" and "0 < limit"
  obtains
    (whole) "c = None" "map fst items = work_list after v u d"
  | (full) "map fst items = take limit (work_list after v u d)" "map fst items \<noteq> []"
      "c = Some (di_id (last (map fst items)))"
proof -
  let ?items = "list_discoveries limit after v u d"
  from assms(1) have eq: "items = ?items"
    "c = (if length items = limit \<and> items \<noteq> [] then Some (di_id (fst (last items))) else None)"
    by (auto simp: read_discoveries_def Let_def split: if_splits)
  have rows: "map fst items = take limit (work_list after v u d)" by (simp add: eq(1) list_discoveries_rows)
  show thesis
  proof (cases "length items = limit")
    case True
    with assms(2) have some: "items \<noteq> []" by auto
    then have "c = Some (di_id (last (map fst items)))" using True eq(2) by (simp add: last_map)
    with rows some that(2) show thesis by blast
  next
    case False
    then have "length (take limit (work_list after v u d)) \<noteq> limit" by (metis rows length_map)
    then have "take limit (work_list after v u d) = work_list after v u d" by simp
    with False eq(2) rows that(1) show thesis by simp
  qed
qed

text \<open>An agent reading page after page, each from the database as it is at that moment.\<close>

fun read_on ::
  "request \<Rightarrow> nat \<Rightarrow> string option \<Rightarrow> bool \<Rightarrow> db list \<Rightarrow> uuid option \<Rightarrow> discovery list \<times> bool" where
  "read_on rq limit v u [] after = ([], False)"
| "read_on rq limit v u (d # ds) after =
     (case read_discoveries rq limit after v u d of
        Inr (Inr (items, None)) \<Rightarrow> (map fst items, True)
      | Inr (Inr (items, Some k)) \<Rightarrow>
          (let (rest, finished) = read_on rq limit v u ds (Some k) in (map fst items @ rest, finished))
      | _ \<Rightarrow> ([], False))"

definition listed_in :: "uuid option \<Rightarrow> string option \<Rightarrow> bool \<Rightarrow> uuid \<Rightarrow> db \<Rightarrow> bool" where
  "listed_in after v u i d = (\<exists>r \<in> set (discoveries d). di_id r = i \<and> listed_work after v u d r)"

lemma listed_work_mono:
  "listed_work (Some k) v u d r \<Longrightarrow> (case after of None \<Rightarrow> True | Some a \<Rightarrow> a < k) \<Longrightarrow> listed_work after v u d r"
  by (auto simp: listed_work_def split: option.splits)

lemma listed_work_beyond:
  "listed_work after v u d r \<Longrightarrow> k < di_id r \<Longrightarrow> listed_work (Some k) v u d r"
  by (simp add: listed_work_def)

lemma listed_in_beyond: "listed_in after v u i d \<Longrightarrow> k < i \<Longrightarrow> listed_in (Some k) v u i d"
  unfolding listed_in_def using listed_work_beyond by blast

lemma work_list_set: "r \<in> set (work_list after v u d) \<longleftrightarrow> r \<in> set (discoveries d) \<and> listed_work after v u d r"
  by (auto simp: work_list_def)

lemma work_list_sorted: "distinct (map di_id (discoveries d)) \<Longrightarrow> by_id (work_list after v u d)"
  unfolding work_list_def by (rule strictly_sorted_key) (simp add: distinct_map_filter)

lemma read_on_complete:
  assumes "0 < limit" and "\<forall>d \<in> set ds. distinct (map di_id (discoveries d))"
    and "read_on rq limit v u ds after = (rows, finished)"
  shows "by_id rows
     \<and> (\<forall>r \<in> set rows. \<exists>d \<in> set ds. r \<in> set (discoveries d) \<and> listed_work after v u d r)
     \<and> (finished \<longrightarrow> (\<forall>i. (\<forall>d \<in> set ds. listed_in after v u i d) \<longrightarrow> i \<in> di_id ` set rows))"
  using assms(2,3)
proof (induction ds arbitrary: after rows finished)
  case (Cons d ds)
  show ?case
  proof (cases "read_discoveries rq limit after v u d")
    case (Inl e)
    with Cons.prems show ?thesis by simp
  next
    case (Inr ans)
    show ?thesis
    proof (cases ans)
      case (Inl pb)
      with Inr Cons.prems show ?thesis by simp
    next
      case page: (Inr pr)
      obtain items c where pr: "pr = (items, c)" by (cases pr)
      have srt: "by_id (work_list after v u d)" using Cons.prems(1) by (simp add: work_list_sorted)
      have read: "read_discoveries rq limit after v u d = Inr (Inr (items, c))" using Inr page pr by simp
      then show ?thesis using assms(1)
      proof (cases rule: read_discoveries_cases)
        case whole
        with read Cons.prems(2) have "rows = work_list after v u d" by simp
        with srt show ?thesis by (auto simp: work_list_set listed_in_def)
      next
        case full
        let ?page = "map fst items"
        define k where "k = di_id (last ?page)"
        obtain rest fin where rest: "read_on rq limit v u ds (Some k) = (rest, fin)" by fastforce
        from Cons.prems(2) read full rest have out: "rows = ?page @ rest" "finished = fin"
          by (simp_all add: k_def)
        have IH: "by_id rest"
          "\<forall>r \<in> set rest. \<exists>d \<in> set ds. r \<in> set (discoveries d) \<and> listed_work (Some k) v u d r"
          "fin \<Longrightarrow> \<forall>i. (\<forall>d \<in> set ds. listed_in (Some k) v u i d) \<longrightarrow> i \<in> di_id ` set rest"
          using Cons.IH [OF _ rest] Cons.prems(1) by auto
        from by_id_take [OF srt, of limit] full
        have le: "\<forall>r \<in> set ?page. di_id r \<le> k"
          and below: "\<forall>r \<in> set (work_list after v u d). di_id r \<le> k \<longrightarrow> r \<in> set ?page"
          by (simp_all add: k_def)
        have sub: "\<forall>r \<in> set ?page. r \<in> set (discoveries d) \<and> listed_work after v u d r"
          using full(1) by (metis in_set_takeD work_list_set)
        have "last ?page \<in> set ?page" using full(2) by (rule last_in_set)
        then have ak: "case after of None \<Rightarrow> True | Some a \<Rightarrow> a < k"
          using sub by (auto simp: k_def listed_work_def split: option.splits)
        have "by_id ?page" using srt full(1) by (metis append_take_drop_id sorted_wrt_append)
        moreover have gt: "\<forall>r \<in> set rest. k < di_id r" using IH(2) by (auto simp: listed_work_def)
        ultimately have "by_id rows" using out(1) IH(1) le by (fastforce simp: sorted_wrt_append)
        moreover have "\<forall>r \<in> set rows. \<exists>e \<in> set (d # ds). r \<in> set (discoveries e) \<and> listed_work after v u e r"
          using out(1) sub IH(2) listed_work_mono [OF _ ak] by fastforce
        moreover have "i \<in> di_id ` set rows" if "finished" "\<forall>e \<in> set (d # ds). listed_in after v u i e" for i
        proof (cases "i \<le> k")
          case True
          with that(2) below show ?thesis using out(1) by (force simp: listed_in_def work_list_set)
        next
          case False
          with that(2) have "\<forall>e \<in> set ds. listed_in (Some k) v u i e"
            using False by (auto intro: listed_in_beyond)
          with IH(3) that(1) out show ?thesis by auto
        qed
        ultimately show ?thesis by blast
      qed
    qed
  qed
qed simp

lemma work_list_shrinks:
  assumes "r \<in> set (discoveries d)" "listed_work after v u d r"
  shows "length (work_list (Some (di_id r)) v u d) < length (work_list after v u d)"
proof -
  let ?A = "filter (listed_work after v u d) (discoveries d)"
  let ?B = "filter (listed_work (Some (di_id r)) v u d) (discoveries d)"
  have "case after of None \<Rightarrow> True | Some a \<Rightarrow> a < di_id r"
    using assms(2) by (simp add: listed_work_def split: option.splits)
  then have "listed_work (Some (di_id r)) v u d x = (listed_work (Some (di_id r)) v u d x \<and> listed_work after v u d x)" for x
    using listed_work_mono by blast
  then have "?B = filter (listed_work (Some (di_id r)) v u d) ?A"
    unfolding filter_filter by (metis (no_types, lifting) filter_cong)
  moreover have "r \<in> set ?A" "\<not> listed_work (Some (di_id r)) v u d r"
    using assms by (simp_all add: listed_work_def)
  then have "length (filter (listed_work (Some (di_id r)) v u d) ?A) < length ?A"
    by (rule length_filter_less)
  ultimately show ?thesis by (simp add: work_list_def)
qed

lemma read_on_finishes:
  assumes "0 < limit" and "u \<longrightarrow> is_set v"
  shows "length (work_list after v u d) < n \<Longrightarrow> snd (read_on rq limit v u (replicate n d) after)"
proof (induction n arbitrary: after)
  case (Suc n)
  obtain items c where read: "read_discoveries rq limit after v u d = Inr (Inr (items, c))"
    using assms(2) by (auto simp: read_discoveries_def Let_def)
  then show ?case using assms(1)
  proof (cases rule: read_discoveries_cases)
    case whole
    with read show ?thesis by simp
  next
    case full
    let ?r = "last (map fst items)"
    have "?r \<in> set (work_list after v u d)" using full(1,2) by (metis in_set_takeD last_in_set)
    then have "length (work_list (Some (di_id ?r)) v u d) < length (work_list after v u d)"
      by (intro work_list_shrinks) (simp_all add: work_list_set)
    with Suc.IH [of "Some (di_id ?r)"] Suc.prems read full(3) show ?thesis
      by (simp add: case_prod_beta)
  qed
qed simp

text \<open>
  C36. Reading work page by page skips nothing and repeats nothing while the queue is being written: the rows
  of all pages come in strictly ascending id, each was listed when its page was read, and once a page has no
  cursor every discovery that was listed throughout has been returned. Over a table that stands still, as
  many reads as there are listed rows, and one, are enough to get there.
\<close>

theorem work_pages_skip_nothing:
  assumes "0 < limit" and "\<forall>d \<in> set ds. distinct (map di_id (discoveries d))"
    and "u \<longrightarrow> is_set v" and "read_on rq limit v u ds after = (rows, finished)"
  shows "by_id rows
     \<and> (\<forall>r \<in> set rows. \<exists>d \<in> set ds. r \<in> set (discoveries d) \<and> listed_work after v u d r)
     \<and> (finished \<longrightarrow> (\<forall>i. (\<forall>d \<in> set ds. listed_in after v u i d) \<longrightarrow> i \<in> di_id ` set rows))
     \<and> (\<forall>d n. ds = replicate n d \<and> length (work_list after v u d) < n \<longrightarrow> finished)"
proof -
  have "finished" if "ds = replicate n d" "length (work_list after v u d) < n" for d n
    using read_on_finishes [OF assms(1,3) that(2), of rq] assms(4) that(1) by simp
  with read_on_complete [OF assms(1,2,4)] show ?thesis by blast
qed

section \<open>Lemmas: candidates sent again\<close>

lemma find_grown: "find P xs = Some r \<Longrightarrow> find P (xs @ ys) = Some r"
  by (induction xs) auto

definition page_kept :: "source_page list \<Rightarrow> source_page list \<Rightarrow> bool" where
  "page_kept ps ps' =
     ((\<forall>s url k. page_key s url ps = Some k \<longrightarrow> page_key s url ps' = Some k)
      \<and> (\<forall>i p. tget pg_id i ps = Some p \<longrightarrow>
          (\<exists>p'. tget pg_id i ps' = Some p' \<and> pg_source_id p' = pg_source_id p
             \<and> pg_normalized_url p' = pg_normalized_url p)))"

lemma page_kept_refl: "page_kept ps ps"
  by (simp add: page_kept_def)

lemma page_kept_trans:
  assumes "page_kept a b" and "page_kept b c"
  shows "page_kept a c"
proof -
  have "\<exists>p'. tget pg_id i c = Some p' \<and> pg_source_id p' = pg_source_id p \<and> pg_normalized_url p' = pg_normalized_url p"
    if "tget pg_id i a = Some p" for i p
  proof -
    from assms(1) that obtain q where "tget pg_id i b = Some q" "pg_source_id q = pg_source_id p"
      "pg_normalized_url q = pg_normalized_url p" unfolding page_kept_def by blast
    with assms(2) show ?thesis unfolding page_kept_def by metis
  qed
  with assms show ?thesis by (simp add: page_kept_def)
qed

lemma tget_see:
  "tget pg_id i ps = Some p \<Longrightarrow>
   \<exists>p'. tget pg_id i (tmod pg_id k (see_page now) ps) = Some p' \<and> pg_source_id p' = pg_source_id p
      \<and> pg_normalized_url p' = pg_normalized_url p"
  by (induction ps) (auto simp: see_page_def split: if_splits)

lemma seen_page_keeps:
  assumes "seen_page now sid url d = (pid, d1)"
  shows "page_kept (pages d) (pages d1) \<and> page_key sid url (pages d1) = Some pid"
proof -
  have "\<exists>p'. tget pg_id i (pages d1) = Some p' \<and> pg_source_id p' = pg_source_id p
      \<and> pg_normalized_url p' = pg_normalized_url p" if "tget pg_id i (pages d) = Some p" for i p
    using assms that tget_see [OF that]
    by (auto simp: seen_page_def new_uuid7_def tget_append split: option.splits)
  with seen_page_key [OF assms] show ?thesis by (simp add: page_kept_def)
qed

text \<open>What a later database keeps of an earlier one, and what a placed candidate leaves there.\<close>

definition extends :: "db \<Rightarrow> db \<Rightarrow> bool" where
  "extends d d' =
     (sources d' = sources d \<and> (\<exists>rs. discoveries d' = discoveries d @ rs) \<and> page_kept (pages d) (pages d'))"

lemma extends_refl: "extends d d"
  by (simp add: extends_def page_kept_refl)

lemma extends_trans: "extends a b \<Longrightarrow> extends b c \<Longrightarrow> extends a c"
  unfolding extends_def using page_kept_trans by (metis append_assoc)

definition own_url :: "string \<Rightarrow> candidate_submission \<Rightarrow> string" where
  "own_url parent_url c = (case ca_url c of Some u \<Rightarrow> u | None \<Rightarrow> parent_url)"

definition held :: "fetchlib \<Rightarrow> string \<Rightarrow> uuid \<Rightarrow> db \<Rightarrow> candidate_submission \<Rightarrow> uuid option \<Rightarrow> bool" where
  "held fl parent_url sid d c i =
     (case prepare_candidate fl (own_url parent_url c) (ca_title c) (ca_excerpt c) of
        Inl e \<Rightarrow> (\<exists>m. e = ValueError m) \<and> i = None
      | Inr cand \<Rightarrow>
          (\<exists>pid r. page_key sid (cn_normalized_url cand) (pages d) = Some pid
             \<and> find (known_content pid (cn_content_hash cand)) (discoveries d) = Some r \<and> i = Some (di_id r)))"

lemma held_extends:
  assumes "held fl url sid d c i" and "extends d d'"
  shows "held fl url sid d' c i"
proof (cases "prepare_candidate fl (own_url url c) (ca_title c) (ca_excerpt c)")
  case (Inr cand)
  with assms(1) obtain pid r where "page_key sid (cn_normalized_url cand) (pages d) = Some pid"
    "find (known_content pid (cn_content_hash cand)) (discoveries d) = Some r" "i = Some (di_id r)"
    by (auto simp: held_def)
  moreover from assms(2) obtain rs where "discoveries d' = discoveries d @ rs"
    "page_kept (pages d) (pages d')" by (auto simp: extends_def)
  ultimately have "page_key sid (cn_normalized_url cand) (pages d') = Some pid"
    "find (known_content pid (cn_content_hash cand)) (discoveries d') = Some r"
    by (simp_all add: page_kept_def find_grown)
  with Inr \<open>i = Some (di_id r)\<close> show ?thesis by (simp add: held_def)
qed (use assms(1) in \<open>simp add: held_def\<close>)

lemma submit_one_holds:
  assumes "submit_one fl now c (r, p, s) d = Inr (out, ps, d')"
  shows "extends d d' \<and> held fl (pg_normalized_url p) (so_id s) d' c (cu_discovery_id out)
    \<and> (cu_status out = Unusable \<longleftrightarrow> cu_discovery_id out = None)"
  using assms
proof (cases rule: submit_one_cases)
  case (unusable m)
  then show ?thesis by (simp add: extends_refl held_def own_url_def)
next
  case (placed cand pid d1)
  note sp = seen_page_keeps [OF placed(2)] seen_page_frame [OF placed(2)]
  from placed(3) show ?thesis
  proof (cases rule: place_candidate_cases)
    case (known q)
    with sp placed(1) show ?thesis by (auto simp: extends_def held_def own_url_def)
  next
    case (fresh q js)
    then have "find (known_content pid (cn_content_hash cand)) (discoveries d') = Some q"
      by (simp add: find_append_one)
    moreover have "sources d' = sources d1" using fresh(9) by (simp add: same_decisions_def)
    ultimately show ?thesis
      using fresh sp placed(1) by (auto simp: extends_def held_def own_url_def)
  qed
qed

lemma submit_all_holds:
  "submit_all fl now (r, p, s) cs d = Inr (outs, ps, d') \<Longrightarrow>
     extends d d'
     \<and> list_all2 (\<lambda>c out. held fl (pg_normalized_url p) (so_id s) d' c (cu_discovery_id out)
         \<and> (cu_status out = Unusable \<longleftrightarrow> cu_discovery_id out = None)) cs outs"
proof (induction cs arbitrary: d outs ps)
  case (Cons c cs)
  then obtain o1 p1 d1 o2 p2 where 1: "submit_one fl now c (r, p, s) d = Inr (o1, p1, d1)"
    and 2: "submit_all fl now (r, p, s) cs d1 = Inr (o2, p2, d')" and outs: "outs = o1 # o2"
    by (auto simp: bindE_eq_Inr)
  from submit_one_holds [OF 1] Cons.IH [OF 2] outs show ?case
    by (auto intro: extends_trans held_extends)
qed (simp add: extends_refl)

lemma submit_held_again:
  assumes "held fl (pg_normalized_url p) (so_id s) d c i"
  shows "\<exists>out d'. submit_one fl now c (r, p, s) d = Inr (out, [], d') \<and> cu_discovery_id out = i
     \<and> cu_status out = (if i = None then Unusable else Duplicate)
     \<and> discoveries d' = discoveries d \<and> jobs d' = jobs d \<and> extends d d'"
proof (cases "prepare_candidate fl (own_url (pg_normalized_url p) c) (ca_title c) (ca_excerpt c)")
  case (Inl e)
  with assms show ?thesis
    by (auto simp: held_def submit_one_def own_url_def Let_def extends_refl)
next
  case (Inr cand)
  with assms obtain k q where k: "page_key (so_id s) (cn_normalized_url cand) (pages d) = Some k"
    "find (known_content k (cn_content_hash cand)) (discoveries d) = Some q" "i = Some (di_id q)"
    by (auto simp: held_def)
  obtain pid d1 where page: "seen_page now (so_id s) (cn_normalized_url cand) d = (pid, d1)" by fastforce
  note sp = seen_page_keeps [OF page] seen_page_frame [OF page]
  from sp k(1) have "pid = k" by (auto simp: page_kept_def)
  with k sp have "place_candidate fl now c (di_id r) cand pid d1
      = Inr (\<lparr>cu_title = ca_title c, cu_discovery_id = i, cu_status = Duplicate, cu_reason = None\<rparr>, [], d1)"
    by (simp add: place_candidate_def)
  with Inr page sp k(3) show ?thesis
    by (auto simp: submit_one_def own_url_def Let_def extends_def)
qed

lemma submit_all_held_again:
  "list_all2 (held fl (pg_normalized_url p) (so_id s) d) cs is \<Longrightarrow>
   \<exists>outs d'. submit_all fl now (r, p, s) cs d = Inr (outs, [], d') \<and> map cu_discovery_id outs = is
     \<and> map cu_status outs = map (\<lambda>i. if i = None then Unusable else Duplicate) is
     \<and> discoveries d' = discoveries d \<and> jobs d' = jobs d"
proof (induction cs arbitrary: d "is")
  case (Cons c cs)
  then obtain i js where "is": "is = i # js" and h: "held fl (pg_normalized_url p) (so_id s) d c i"
    and hs: "list_all2 (held fl (pg_normalized_url p) (so_id s) d) cs js"
    by (auto simp: list_all2_Cons1)
  from submit_held_again [OF h, of now r] obtain out d1 where
    1: "submit_one fl now c (r, p, s) d = Inr (out, [], d1)" "cu_discovery_id out = i"
    "cu_status out = (if i = None then Unusable else Duplicate)"
    "discoveries d1 = discoveries d" "jobs d1 = jobs d" "extends d d1" by blast
  have "list_all2 (held fl (pg_normalized_url p) (so_id s) d1) cs js"
    using hs held_extends [OF _ 1(6)] by (rule list_all2_mono)
  from Cons.IH [OF this] obtain outs d' where
    "submit_all fl now (r, p, s) cs d1 = Inr (outs, [], d')" "map cu_discovery_id outs = js"
    "map cu_status outs = map (\<lambda>i. if i = None then Unusable else Duplicate) js"
    "discoveries d' = discoveries d1" "jobs d' = jobs d1" by blast
  with 1 "is" show ?case by simp
qed simp

lemma context_extends:
  assumes "load_discovery_context did d = Some (r, p, s)" and "extends d d'"
  shows "\<exists>p'. load_discovery_context did d' = Some (r, p', s) \<and> pg_normalized_url p' = pg_normalized_url p"
proof -
  from assms(1) have r: "tget di_id did (discoveries d) = Some r"
    and p: "tget pg_id (di_source_page_id r) (pages d) = Some p"
    and s: "tget so_id (pg_source_id p) (sources d) = Some s"
    by (auto simp: load_discovery_context_def with_context_def bind_eq_Some_conv split: option.splits)
  from assms(2) p obtain p' where p': "tget pg_id (di_source_page_id r) (pages d') = Some p'"
    "pg_source_id p' = pg_source_id p" "pg_normalized_url p' = pg_normalized_url p"
    unfolding extends_def page_kept_def by blast
  moreover have "tget di_id did (discoveries d') = Some r"
    using assms(2) r by (auto simp: extends_def tget_append)
  moreover have "sources d' = sources d" using assms(2) by (simp add: extends_def)
  ultimately show ?thesis using s by (simp add: load_discovery_context_def with_context_def)
qed

text \<open>
  C37. Sending the same candidates again is harmless: whatever the first request answered, the same list
  sent later creates no discovery, no job and no message, answers every candidate with the discovery it
  was given the first time, and rejects exactly those that were rejected.
\<close>

theorem resubmitting_creates_nothing:
  assumes "submit_split_candidates fl st now rq parent cs d = Inr (Inr (answer, msgs), d')"
  shows "\<exists>answer' d''. submit_split_candidates fl st now' rq parent cs d' = Inr (Inr (answer', []), d'')
     \<and> map cu_discovery_id (su_results answer') = map cu_discovery_id (su_results answer)
     \<and> su_created answer' = 0 \<and> su_rejected answer' = su_rejected answer
     \<and> discoveries d'' = discoveries d' \<and> jobs d'' = jobs d'"
proof -
  from assms obtain out where "submit_candidates fl st now parent cs d = Inr (out, d')" "out = Some (Some (answer, msgs))"
    by (auto simp: submit_split_candidates_def bindE_eq_Inr split: option.splits)
  then obtain r p s rs pending where ctx: "load_discovery_context parent d = Some (r, p, s)" and act: "so_active s"
    and all: "submit_all fl now (r, p, s) cs d = Inr (rs, pending, d')"
    and answer: "answer = \<lparr>su_parent = parent, su_created = count_status Created rs,
         su_duplicates = count_status Duplicate rs, su_rejected = count_status Unusable rs, su_results = rs\<rparr>"
    by (auto elim: submit_candidates_cases)
  from submit_all_holds [OF all] have ext: "extends d d'"
    and held: "list_all2 (\<lambda>c out. held fl (pg_normalized_url p) (so_id s) d' c (cu_discovery_id out)
       \<and> (cu_status out = Unusable \<longleftrightarrow> cu_discovery_id out = None)) cs rs" by auto
  from context_extends [OF ctx ext] obtain p' where
    ctx': "load_discovery_context parent d' = Some (r, p', s)" "pg_normalized_url p' = pg_normalized_url p" by blast
  have "list_all2 (held fl (pg_normalized_url p') (so_id s) d') cs (map cu_discovery_id rs)"
    using held by (simp add: ctx'(2) list_all2_map2 list_all2_mono)
  from submit_all_held_again [OF this, of now' r] obtain rs' d'' where
    again: "submit_all fl now' (r, p', s) cs d' = Inr (rs', [], d'')"
    "map cu_discovery_id rs' = map cu_discovery_id rs"
    "map cu_status rs' = map (\<lambda>i. if i = None then Unusable else Duplicate) (map cu_discovery_id rs)"
    "discoveries d'' = discoveries d'" "jobs d'' = jobs d'" by blast
  have status: "count_status st xs = length (filter ((=) st) (map cu_status xs))" for st xs
    by (induction xs) (auto simp: count_status_def)
  have "list_all (\<lambda>out. cu_status out = Unusable \<longleftrightarrow> cu_discovery_id out = None) rs"
    using held by (auto simp: list_all_length list_all2_conv_all_nth)
  then have "count_status Unusable rs' = count_status Unusable rs"
    unfolding status again(3) by (induction rs) auto
  moreover have "count_status Created rs' = 0"
    unfolding status again(3) by (auto simp: filter_empty_conv)
  ultimately show ?thesis using again ctx' act answer
    by (simp add: submit_split_candidates_def submit_candidates_def dispatch_pending_jobs_def)
qed

section \<open>Lemmas: a title that outgrows its key\<close>

abbreviation sharp_s :: char where "sharp_s \<equiv> CHR 0xDF"

lemma clean_letters: "clean (replicate n (CHR ''s'')) = replicate n (CHR ''s'')"
proof -
  have "collapse b (replicate n (CHR ''s'')) = replicate n (CHR ''s'')" for b
    by (induction n arbitrary: b) (simp_all add: is_space_def)
  moreover have "dropWhile is_space (replicate n (CHR ''s'')) = replicate n (CHR ''s'')"
    by (cases n) (simp_all add: is_space_def)
  moreover have "fold_text (replicate n (CHR ''s'')) = replicate n (CHR ''s'')"
    by (induction n) (simp_all add: fold_text_def fold_char_def)
  ultimately show ?thesis by (simp add: clean_def strip_def lower_def lower_char_def)
qed

lemma clean_sharps: "clean (replicate n sharp_s) = replicate (2 * n) (CHR ''s'')"
proof -
  have "fold_text (replicate n sharp_s) = replicate (2 * n) (CHR ''s'')"
    by (induction n) (simp_all add: fold_text_def fold_char_def)
  moreover have "fold_text (replicate k (CHR ''s'')) = replicate k (CHR ''s'')" for k
    by (induction k) (simp_all add: fold_text_def fold_char_def)
  ultimately show ?thesis using clean_letters [of "2 * n"] by (simp add: clean_def)
qed

lemma key_of_sharps:
  assumes "0 < n"
  shows "length (nd_identity_key (normalize_discovery (replicate n sharp_s) None)) = 2 * n"
proof -
  let ?t = "replicate (2 * n) (CHR ''s'')"
  have "list_all token_char ?t" by (simp add: list_all_iff token_char_def)
  moreover have "?t \<noteq> []" using assms by simp
  ultimately have "runs token_char ?t = [?t]" by (rule runs_single)
  moreover have "clean [] = []" by (simp add: clean_def fold_text_def strip_def lower_def)
  moreover have "runs token_char ('' '' @ ?t) = runs token_char ?t"
    by (simp add: runs_skip token_char_def del: runs.simps)
  ultimately have "nd_identity_key (normalize_discovery (replicate n sharp_s) None) = ?t"
    by (simp add: normalize_discovery_def clean_sharps or_empty_def Let_def sorted_set_def del: runs.simps)
  then show ?thesis by simp
qed

text \<open>
  One candidate can discard the whole batch: a title of sharp s's passes the 500-character bound of the
  request and folds to an identity key twice as long, which its column refuses; the exception leaves the
  route, and the candidates before it are rolled back with it, though the route means to report unusable
  candidates one by one.
\<close>

theorem one_long_name_discards_the_batch:
  assumes "load_discovery_context parent d = Some (r, p, s)" and "so_active s"
    and "submit_all fl now (r, p, s) before d = Inr (outs, pending, d1)"
    and "ca_title c = replicate n sharp_s" and "250 < n" and "n \<le> 500"
    and "prepare_candidate fl (own_url (pg_normalized_url p) c) (ca_title c) (ca_excerpt c) = Inr cand"
    and "\<forall>q \<in> set (discoveries d1). di_content_hash q \<noteq> cn_content_hash cand"
  shows "submit_split_candidates fl st now rq parent (before @ c # after) d = Inl DataError"
proof -
  from assms(7) have "cn_title cand = strip (ca_title c)" by (auto simp: prepare_candidate_def bindE_eq_Inr Let_def)
  moreover have "dropWhile is_space (replicate n sharp_s) = replicate n sharp_s" by (cases n) (simp_all add: is_space_def)
  then have "strip (replicate n sharp_s) = replicate n sharp_s" by (simp add: strip_def)
  ultimately have key: "length (nd_identity_key (normalize_discovery (cn_title cand) None)) > KEY_LENGTH"
    using assms(4,5) by (simp add: key_of_sharps KEY_LENGTH_def)
  obtain pid d2 where page: "seen_page now (so_id s) (cn_normalized_url cand) d1 = (pid, d2)" by fastforce
  have "find (known_content pid (cn_content_hash cand)) (discoveries d2) = None"
    using assms(8) seen_page_frame [OF page] by (auto simp: find_None_iff known_content_def)
  with key have "place_candidate fl now c (di_id r) cand pid d2 = Inl DataError"
    by (simp add: place_candidate_def Let_def)
  with page assms(7) have one: "submit_one fl now c (r, p, s) d1 = Inl DataError"
    by (simp add: submit_one_def own_url_def Let_def)
  have "submit_all fl now (r, p, s) (bs @ c # after) e = Inl DataError"
    if "submit_all fl now (r, p, s) bs e = Inr (os, qs, d1)" for bs e os qs
    using that one by (induction bs arbitrary: e os qs) (auto simp: bindE_eq_Inr)
  from this [OF assms(3)] show ?thesis
    using assms(1,2) by (simp add: submit_split_candidates_def submit_candidates_def)
qed

section \<open>Witnesses\<close>

definition demo_agent_db :: db where
  "demo_agent_db = empty_db\<lparr>
     sources := [\<lparr>so_id = 1, so_name = ''S'', so_source_type = ''aggregator'', so_authority_grade = ''B'',
       so_approved_domains = [''demo.org''], so_active = True, so_consecutive_harvest_failures = 0,
       so_last_harvest_failure_at = None\<rparr>],
     pages := [new_page 2 1 ''https://demo.org/apply''], discoveries := [demo_lead], next_id := 4\<rparr>"

definition demo_agent_request :: request where
  "demo_agent_request = \<lparr>rq_url = ''/internal/agent'', rq_request_id = None, rq_client_host = None, rq_cookie = None\<rparr>"

definition demo_item :: "string \<Rightarrow> candidate_submission" where
  "demo_item t = \<lparr>ca_title = t, ca_url = None, ca_excerpt = None, ca_heading = Some ''H''\<rparr>"

lemma demo_context:
  "load_discovery_context 3 demo_agent_db =
     Some (demo_lead, new_page 2 1 ''https://demo.org/apply'', hd (sources demo_agent_db))"
  by (simp add: load_discovery_context_def with_context_def demo_agent_db_def demo_lead_def split_discovery_def new_page_def)

lemma demo_prepared:
  "prepare_candidate demo_fetch (own_url ''https://demo.org/apply'' (demo_item t)) t None = Inr
     \<lparr>cn_normalized_url = ''https://demo.org/apply'',
      cn_content_hash = join_with [CHR 0x0A] [''https://demo.org/apply'', strip t, []],
      cn_title = strip t, cn_excerpt = None\<rparr>"
proof -
  have "fl_net demo_fetch = demo_net" "fl_sha256 demo_fetch x = x" "fl_encode demo_fetch x = x" for x
    by (simp_all add: demo_fetch_def)
  then show ?thesis
    by (simp add: prepare_candidate_def own_url_def demo_item_def demo_canonical_apply or_empty_def Let_def strip_def)
qed

theorem evidence_is_recorded_once_witness:
  "\<exists>d'. attach_evidence demo_agent_request 3 demo_evidence demo_agent_db = (Inr (2, 1), d') \<and> length (evidence d') = 2"
proof -
  have none: "evidence demo_agent_db = []" by (simp add: demo_agent_db_def empty_db_def)
  have "fst (attach_evidence demo_agent_request 3 demo_evidence demo_agent_db) = Inr (2, 1)"
    by (simp add: attach_evidence_def demo_context record_evidence_def demo_evidence_def Let_def new_uuid7_def
        none claim_key_def evidence_of_def)
  then obtain d' where run: "attach_evidence demo_agent_request 3 demo_evidence demo_agent_db = (Inr (2, 1), d')"
    by (metis prod.collapse)
  have "distinct (map claim_key (evidence demo_agent_db))" by (simp add: demo_agent_db_def empty_db_def)
  from evidence_is_recorded_once [OF this run] have "length (evidence d') = 2"
    by (auto simp: demo_agent_db_def empty_db_def)
  with run show ?thesis by blast
qed

theorem a_run_has_one_row_witness:
  "\<exists>a d'. record_run \<lparr>rr_discovery_id = 3, rr_workflow_version = ''v'', rr_agent_outcome = ''REVIEW_REQUIRED'',
       rr_prompt_version = None, rr_model = None, rr_recommendation = None, rr_correlation_id = None\<rparr> demo_agent_db
     = Inr (a, d') \<and> ar_id a = 4"
  using a_run_has_one_row [of demo_agent_db "\<lparr>rr_discovery_id = 3, rr_workflow_version = ''v'',
       rr_agent_outcome = ''REVIEW_REQUIRED'', rr_prompt_version = None, rr_model = None,
       rr_recommendation = None, rr_correlation_id = None\<rparr>"]
  by (auto simp: demo_agent_db_def empty_db_def)

theorem work_pages_skip_nothing_witness:
  "\<exists>rows. read_on demo_agent_request 1 (Some ''v'') True (replicate 2 demo_agent_db) None = (rows, True)
     \<and> 3 \<in> di_id ` set rows"
proof -
  obtain rows fin where run: "read_on demo_agent_request 1 (Some ''v'') True (replicate 2 demo_agent_db) None = (rows, fin)"
    by fastforce
  have listed: "listed_work None (Some ''v'') True demo_agent_db demo_lead"
    using demo_context
    by (simp add: listed_work_def load_discovery_context_def already_run_def demo_agent_db_def empty_db_def
        demo_lead_def split_discovery_def)
  have one: "discoveries demo_agent_db = [demo_lead]" by (simp add: demo_agent_db_def)
  have "by_id rows
     \<and> (\<forall>r \<in> set rows. \<exists>d \<in> set (replicate 2 demo_agent_db). r \<in> set (discoveries d) \<and> listed_work None (Some ''v'') True d r)
     \<and> (fin \<longrightarrow> (\<forall>i. (\<forall>d \<in> set (replicate 2 demo_agent_db). listed_in None (Some ''v'') True i d) \<longrightarrow> i \<in> di_id ` set rows))
     \<and> (\<forall>d n. replicate 2 demo_agent_db = replicate n d \<and> length (work_list None (Some ''v'') True d) < n \<longrightarrow> fin)"
    by (rule work_pages_skip_nothing [OF _ _ _ run]) (auto simp: one)
  moreover have "length (work_list None (Some ''v'') True demo_agent_db) < 2"
    by (simp add: work_list_def one)
  moreover have "listed_in None (Some ''v'') True 3 demo_agent_db"
    using listed by (auto simp: listed_in_def one) (simp add: demo_lead_def split_discovery_def)
  ultimately show ?thesis using run by auto
qed

lemma demo_key: "nd_identity_key (normalize_discovery ''A'' None) = ''a''"
proof -
  have "clean ''A'' = ''a''" "clean [] = []"
    by (code_simp, code_simp)
  moreover have "runs token_char '' a'' = [''a'']"
    by (simp add: runs_skip runs_single token_char_def del: runs.simps)
  ultimately show ?thesis by (simp add: normalize_discovery_def or_empty_def Let_def sorted_set_def del: runs.simps)
qed

lemma demo_submission:
  "\<exists>answer msgs d'. submit_split_candidates demo_fetch default_settings 5 demo_agent_request 3 [demo_item ''A'', demo_item ''A'']
     demo_agent_db = Inr (Inr (answer, msgs), d') \<and> su_created answer = 1"
proof -
  let ?ctx = "(demo_lead, new_page 2 1 ''https://demo.org/apply'', hd (sources demo_agent_db))"
  let ?url = "''https://demo.org/apply''"
  let ?d1 = "demo_agent_db\<lparr>pages := tmod pg_id 2 (see_page 5) (pages demo_agent_db)\<rparr>"
  have page: "seen_page 5 1 ?url demo_agent_db = (2, ?d1)"
    by (simp add: seen_page_def find_page_def demo_agent_db_def new_page_def)
  obtain out ps d' where one: "submit_one demo_fetch 5 (demo_item ''A'') ?ctx demo_agent_db = Inr (out, ps, d')"
    and made: "cu_status out = Created"
  proof -
    have new: "find (known_content 2 (join_with [CHR 0x0A] [?url, ''A'', []])) (discoveries ?d1) = None"
      by (simp add: demo_agent_db_def known_content_def demo_lead_def split_discovery_def)
    have "jobs ?d1 = []" by (simp add: demo_agent_db_def empty_db_def)
    with new have "\<exists>out ps d'. place_candidate demo_fetch 5 (demo_item ''A'') 3 \<lparr>cn_normalized_url = ?url,
        cn_content_hash = join_with [CHR 0x0A] [?url, ''A'', []], cn_title = ''A'', cn_excerpt = None\<rparr> 2 ?d1
        = Inr (out, ps, d') \<and> cu_status out = Created"
      by (simp add: place_candidate_def demo_key KEY_LENGTH_def new_uuid7_def split_jobs_def job_by_dedupe_def new_job_def Let_def)
    with page demo_prepared [of "''A''"] that show thesis
      by (auto simp: submit_one_def demo_item_def own_url_def new_page_def demo_agent_db_def demo_lead_def
          split_discovery_def strip_def is_space_def Let_def)
  qed
  from one have "held demo_fetch ?url 1 d' (demo_item ''A'') (cu_discovery_id out)"
    "cu_discovery_id out \<noteq> None"
    using submit_one_holds [OF one] made by (simp_all add: new_page_def demo_agent_db_def)
  then obtain out' d'' where "submit_one demo_fetch 5 (demo_item ''A'') ?ctx d' = Inr (out', [], d'')"
    "cu_status out' = Duplicate"
    using submit_held_again [of demo_fetch "new_page 2 1 ?url" "hd (sources demo_agent_db)" d' "demo_item ''A''"
        "cu_discovery_id out" 5 demo_lead]
    by (auto simp: new_page_def demo_agent_db_def)
  with one made demo_context show ?thesis
    by (simp add: submit_split_candidates_def submit_candidates_def count_status_def) (simp add: demo_agent_db_def)
qed

theorem resubmitting_creates_nothing_witness:
  "\<exists>answer msgs d' answer' d''.
     submit_split_candidates demo_fetch default_settings 5 demo_agent_request 3 [demo_item ''A'', demo_item ''A'']
       demo_agent_db = Inr (Inr (answer, msgs), d') \<and> su_created answer = 1
     \<and> submit_split_candidates demo_fetch default_settings 9 demo_agent_request 3 [demo_item ''A'', demo_item ''A'']
       d' = Inr (Inr (answer', []), d'') \<and> su_created answer' = 0"
proof -
  from demo_submission obtain answer msgs d' where
    run: "submit_split_candidates demo_fetch default_settings 5 demo_agent_request 3 [demo_item ''A'', demo_item ''A'']
       demo_agent_db = Inr (Inr (answer, msgs), d')" and one: "su_created answer = 1" by blast
  from resubmitting_creates_nothing [OF run, of 9] run one show ?thesis by blast
qed

theorem one_long_name_discards_the_batch_witness:
  "submit_split_candidates demo_fetch default_settings 5 demo_agent_request 3
     ([] @ demo_item (replicate 251 sharp_s) # [demo_item ''A'']) demo_agent_db = Inl DataError"
proof (rule one_long_name_discards_the_batch [OF demo_context])
  let ?t = "replicate 251 sharp_s"
  show "so_active (hd (sources demo_agent_db))" by (simp add: demo_agent_db_def)
  show "submit_all demo_fetch 5 (demo_lead, new_page 2 1 ''https://demo.org/apply'', hd (sources demo_agent_db)) []
      demo_agent_db = Inr ([], [], demo_agent_db)" by simp
  show "ca_title (demo_item ?t) = replicate 251 sharp_s" by (simp add: demo_item_def)
  show "prepare_candidate demo_fetch (own_url (pg_normalized_url (new_page 2 1 ''https://demo.org/apply'')) (demo_item ?t))
      (ca_title (demo_item ?t)) (ca_excerpt (demo_item ?t)) = Inr
     \<lparr>cn_normalized_url = ''https://demo.org/apply'',
      cn_content_hash = join_with [CHR 0x0A] [''https://demo.org/apply'', strip ?t, []],
      cn_title = strip ?t, cn_excerpt = None\<rparr>"
    using demo_prepared [of ?t] by (simp add: new_page_def demo_item_def)
  show "\<forall>q \<in> set (discoveries demo_agent_db). di_content_hash q \<noteq> cn_content_hash
     \<lparr>cn_normalized_url = ''https://demo.org/apply'',
      cn_content_hash = join_with [CHR 0x0A] [''https://demo.org/apply'', strip ?t, []],
      cn_title = strip ?t, cn_excerpt = None\<rparr>"
    by (simp add: demo_agent_db_def demo_lead_def split_discovery_def)
qed simp_all

end
