(* ===== verification/Evidence.thy ===== *)
theory Evidence
  imports Ingestion
begin

text \<open>
  How two texts are said to agree: reading amounts and dates (\<open>src/src/app/domain/fact_matching.py\<close>),
  corroboration by other sources (\<open>src/src/app/domain/corroboration.py\<close>,
  \<open>src/src/app/infra/corroboration.py\<close>), the sanity checks and the diagnostic score
  (\<open>src/src/app/domain/sanity_checks.py\<close>, \<open>src/src/app/domain/auto_approval_scoring.py\<close>), the facts
  derived for an automatic approval (\<open>src/src/app/domain/auto_approve_facts.py\<close>) and the drafted
  recommendation (\<open>src/src/app/domain/review_draft.py\<close>).

  A \<open>Decimal\<close> is a rational number, a \<open>date\<close> a day number.
\<close>

section \<open>Amounts\<close>

definition CURRENCY_ALIASES :: "(string \<times> string) list" where
  "CURRENCY_ALIASES = [(''GBP'', [CHR 0xA3]), (''USD'', ''$''), (''EUR'', [CHR 0x80])]"

definition upper_letter :: "char \<Rightarrow> bool" where
  "upper_letter c = (let n = (of_char c :: nat) in 65 \<le> n \<and> n \<le> 90)"

text \<open>\<open>[\d,]+(?:\.\d+)?\<close> over a whole text.\<close>

definition number_text :: "string \<Rightarrow> bool" where
  "number_text s =
     (case partition_at (CHR ''.'') s of
        (a, dot, b) \<Rightarrow>
          a \<noteq> [] \<and> list_all (\<lambda>c. is_digit c \<or> c = CHR '','') a
          \<and> (dot \<longrightarrow> b \<noteq> [] \<and> list_all is_digit b))"

text \<open>\<open>Decimal\<close> of such a text without its commas; a text of commas alone is no number.\<close>

definition decimal_value :: "string \<Rightarrow> rat option" where
  "decimal_value s =
     (case partition_at (CHR ''.'') (filter (\<lambda>c. c \<noteq> CHR '','') s) of
        (a, _, b) \<Rightarrow>
          if a = [] \<and> b = [] then None
          else Some (of_nat (read_decimal a) + of_nat (read_decimal b) / 10 ^ length b))"

definition drop_space :: "string \<Rightarrow> string" where
  "drop_space s = (case s of c # cs \<Rightarrow> if is_space c then cs else s | [] \<Rightarrow> [])"

text \<open>The three alternatives of \<open>_AMOUNT_PATTERN\<close>: the currency and the digits.\<close>

definition split_amount :: "string \<Rightarrow> (string \<times> string) option" where
  "split_amount s =
     (let n = length s; rest = drop_space (drop 3 s); body = take (n - 3) s;
          before = rev (drop_space (rev body))
      in if s \<noteq> [] \<and> currency_symbol (hd s) \<and> number_text (drop_space (tl s))
         then Some ([hd s], drop_space (tl s))
         else if n \<ge> 3 \<and> list_all upper_letter (take 3 s) \<and> number_text rest then Some (take 3 s, rest)
         else if n \<ge> 3 \<and> list_all upper_letter (drop (n - 3) s) \<and> number_text before
         then Some (drop (n - 3) s, before)
         else None)"

definition parse_amount :: "string \<Rightarrow> (string \<times> rat) option" where
  "parse_amount raw =
     (case split_amount (strip raw) of
        None \<Rightarrow> None
      | Some (cur, digits) \<Rightarrow> map_option (Pair (alias_of CURRENCY_ALIASES cur)) (decimal_value digits))"

text \<open>Equality of two readings, where both can be read.\<close>

definition agree :: "'a option \<Rightarrow> 'a option \<Rightarrow> bool option" where
  "agree a b = (case (a, b) of (Some x, Some y) \<Rightarrow> Some (x = y) | _ \<Rightarrow> None)"

definition amounts_match :: "string \<Rightarrow> string \<Rightarrow> bool option" where
  "amounts_match a b = agree (parse_amount a) (parse_amount b)"

section \<open>Dates\<close>

definition ordinal_suffix :: "string \<Rightarrow> bool" where
  "ordinal_suffix s = (lower (take 2 s) \<in> {''st'', ''nd'', ''rd'', ''th''})"

text \<open>\<open>re.sub(r"(\d+)(?:st|nd|rd|th)", r"\1", s)\<close>; the flag says that a digit came just before.\<close>

function strip_ordinals :: "bool \<Rightarrow> string \<Rightarrow> string" where
  "strip_ordinals after_digit [] = []"
| "strip_ordinals after_digit (c # cs) =
     (if after_digit \<and> ordinal_suffix (c # cs) then strip_ordinals False (tl cs)
      else c # strip_ordinals (is_digit c) cs)"
  by pat_completeness auto
termination by (relation "measure (\<lambda>(b, s). length s)") auto

definition MONTH_NAMES :: "string list" where
  "MONTH_NAMES =
     [''january'', ''february'', ''march'', ''april'', ''may'', ''june'', ''july'', ''august'',
      ''september'', ''october'', ''november'', ''december'']"

datatype fmt = FMonth | FAbbrev | FDay | FMonthNumber | FYear | FSpace | FLit char

definition DEADLINE_FORMATS :: "fmt list list" where
  "DEADLINE_FORMATS =
     [[FMonth, FSpace, FDay, FSpace, FYear], [FDay, FSpace, FMonth, FSpace, FYear],
      [FAbbrev, FSpace, FDay, FSpace, FYear], [FDay, FSpace, FAbbrev, FSpace, FYear],
      [FYear, FLit (CHR ''-''), FMonthNumber, FLit (CHR ''-''), FDay],
      [FDay, FLit (CHR ''/''), FMonthNumber, FLit (CHR ''/''), FYear]]"

record ymd =
  yr :: int
  mo :: int
  dy :: int

definition digit_at :: "nat \<Rightarrow> string \<Rightarrow> bool" where
  "digit_at i s = (i < length s \<and> is_digit (s ! i))"

definition take_number :: "nat \<Rightarrow> string \<Rightarrow> (int \<times> string) option" where
  "take_number n s = Some (int (read_decimal (take n s)), drop n s)"

text \<open>
  The number directives, as \<open>strptime\<close>'s regular expressions read them: the first alternative that
  fits, two digits before one. What follows a number in these formats is never a digit.
\<close>

definition read_day :: "string \<Rightarrow> (int \<times> string) option" where
  "read_day s =
     (let v = read_decimal (take 2 s)
      in if digit_at 0 s \<and> digit_at 1 s \<and> 1 \<le> v \<and> v \<le> 31 then take_number 2 s
         else if digit_at 0 s \<and> hd s \<noteq> CHR ''0'' then take_number 1 s
         else if s \<noteq> [] \<and> hd s = CHR '' '' \<and> digit_at 1 s \<and> s ! 1 \<noteq> CHR ''0''
         then take_number 1 (tl s) else None)"

definition read_month_number :: "string \<Rightarrow> (int \<times> string) option" where
  "read_month_number s =
     (let v = read_decimal (take 2 s)
      in if digit_at 0 s \<and> digit_at 1 s \<and> 1 \<le> v \<and> v \<le> 12 then take_number 2 s
         else if digit_at 0 s \<and> hd s \<noteq> CHR ''0'' then take_number 1 s else None)"

definition read_year :: "string \<Rightarrow> (int \<times> string) option" where
  "read_year s = (if length s \<ge> 4 \<and> list_all is_digit (take 4 s) then take_number 4 s else None)"

fun read_name :: "int \<Rightarrow> string list \<Rightarrow> string \<Rightarrow> (int \<times> string) option" where
  "read_name i [] s = None"
| "read_name i (n # ns) s =
     (if lower (take (length n) s) = n then Some (i, drop (length n) s) else read_name (i + 1) ns s)"

fun read_fmt :: "fmt list \<Rightarrow> string \<Rightarrow> ymd \<Rightarrow> ymd option" where
  "read_fmt [] s d = (if s = [] then Some d else None)"
| "read_fmt (FSpace # fs) s d =
     (if s \<noteq> [] \<and> is_space (hd s) then read_fmt fs (dropWhile is_space s) d else None)"
| "read_fmt (FLit c # fs) s d = (if s \<noteq> [] \<and> hd s = c then read_fmt fs (tl s) d else None)"
| "read_fmt (FDay # fs) s d =
     (case read_day s of None \<Rightarrow> None | Some (v, r) \<Rightarrow> read_fmt fs r (d\<lparr>dy := v\<rparr>))"
| "read_fmt (FMonthNumber # fs) s d =
     (case read_month_number s of None \<Rightarrow> None | Some (v, r) \<Rightarrow> read_fmt fs r (d\<lparr>mo := v\<rparr>))"
| "read_fmt (FYear # fs) s d =
     (case read_year s of None \<Rightarrow> None | Some (v, r) \<Rightarrow> read_fmt fs r (d\<lparr>yr := v\<rparr>))"
| "read_fmt (FMonth # fs) s d =
     (case read_name 1 MONTH_NAMES s of None \<Rightarrow> None | Some (v, r) \<Rightarrow> read_fmt fs r (d\<lparr>mo := v\<rparr>))"
| "read_fmt (FAbbrev # fs) s d =
     (case read_name 1 (map (take 3) MONTH_NAMES) s of
        None \<Rightarrow> None | Some (v, r) \<Rightarrow> read_fmt fs r (d\<lparr>mo := v\<rparr>))"

definition valid_date :: "ymd \<Rightarrow> int option" where
  "valid_date d =
     (if 1 \<le> yr d \<and> 1 \<le> mo d \<and> mo d \<le> 12 \<and> 1 \<le> dy d \<and> dy d \<le> days_in_month (yr d) (mo d)
      then Some (days_from_civil (yr d) (mo d) (dy d)) else None)"

definition strptime_date :: "fmt list \<Rightarrow> string \<Rightarrow> int option" where
  "strptime_date f s =
     (case read_fmt f s \<lparr>yr = 1900, mo = 1, dy = 1\<rparr> of None \<Rightarrow> None | Some d \<Rightarrow> valid_date d)"

fun first_format :: "fmt list list \<Rightarrow> string \<Rightarrow> int option" where
  "first_format [] s = None"
| "first_format (f # fs) s = (case strptime_date f s of Some d \<Rightarrow> Some d | None \<Rightarrow> first_format fs s)"

definition parse_deadline :: "string \<Rightarrow> int option" where
  "parse_deadline raw =
     first_format DEADLINE_FORMATS
       (filter (\<lambda>c. c \<noteq> CHR '','') (strip_ordinals False (strip raw)))"

definition deadlines_match :: "string \<Rightarrow> string \<Rightarrow> bool option" where
  "deadlines_match a b = agree (parse_deadline a) (parse_deadline b)"

section \<open>Corroboration\<close>

text \<open>\<open>(facts or {}).get(key) or []\<close>.\<close>

definition mentions :: "dict option \<Rightarrow> string \<Rightarrow> string list" where
  "mentions facts key = string_list (dget (case facts of None \<Rightarrow> [] | Some f \<Rightarrow> f) key)"

definition some_match :: "(string \<Rightarrow> string \<Rightarrow> bool option) \<Rightarrow> string list \<Rightarrow> string list \<Rightarrow> bool" where
  "some_match match as bs = (\<exists>a \<in> set as. \<exists>b \<in> set bs. match a b = Some True)"

type_synonym sibling_fact = "uuid \<times> uuid \<times> dict option"

record corroboration_result =
  cb_independent_source_count :: nat
  cb_amount_corroborated :: "bool option"
  cb_deadline_corroborated :: "bool option"
  cb_corroborating_discovery_ids :: "string list"

definition amount_sibling :: "dict option \<Rightarrow> sibling_fact \<Rightarrow> bool" where
  "amount_sibling own s =
     some_match amounts_match (mentions own ''funding_mentions'') (mentions (snd (snd s)) ''funding_mentions'')"

definition deadline_sibling :: "dict option \<Rightarrow> sibling_fact \<Rightarrow> bool" where
  "deadline_sibling own s =
     some_match deadlines_match (mentions own ''deadline_mentions'') (mentions (snd (snd s)) ''deadline_mentions'')"

definition tri_state :: "string list \<Rightarrow> bool \<Rightarrow> bool option" where
  "tri_state own found = (if own = [] then None else Some found)"

definition evaluate_corroboration :: "uuid \<Rightarrow> dict option \<Rightarrow> sibling_fact list \<Rightarrow> corroboration_result" where
  "evaluate_corroboration own_source own siblings =
     \<lparr>cb_independent_source_count = length (remdups (own_source # map (fst \<circ> snd) siblings)),
      cb_amount_corroborated =
        tri_state (mentions own ''funding_mentions'') (\<exists>s \<in> set siblings. amount_sibling own s),
      cb_deadline_corroborated =
        tri_state (mentions own ''deadline_mentions'') (\<exists>s \<in> set siblings. deadline_sibling own s),
      cb_corroborating_discovery_ids =
        map (uuid_str \<circ> fst) (filter (\<lambda>s. amount_sibling own s \<or> deadline_sibling own s) siblings)\<rparr>"

definition source_of_page :: "uuid \<Rightarrow> db \<Rightarrow> source option" where
  "source_of_page pid d =
     (case tget pg_id pid (pages d) of None \<Rightarrow> None | Some p \<Rightarrow> tget so_id (pg_source_id p) (sources d))"

definition is_sibling :: "discovery \<Rightarrow> discovery \<Rightarrow> bool" where
  "is_sibling r x =
     (di_normalized_identity_key x = di_normalized_identity_key r \<and> di_id x \<noteq> di_id r
      \<and> di_split_from_discovery_id x = None)"

definition load_siblings :: "discovery \<Rightarrow> db \<Rightarrow> sibling_fact list" where
  "load_siblings r d =
     (if \<not> is_set (di_normalized_identity_key r) then []
      else List.map_filter
             (\<lambda>x. if is_sibling r x
                  then map_option (\<lambda>s. (di_id x, so_id s, di_extracted_facts x))
                         (source_of_page (di_source_page_id x) d)
                  else None) (discoveries d))"

definition gather_corroboration :: "discovery \<Rightarrow> db \<Rightarrow> corroboration_result result" where
  "gather_corroboration r d =
     (case source_of_page (di_source_page_id r) d of
        None \<Rightarrow> Inl (LookupError ''Discovery source could not be resolved'')
      | Some s \<Rightarrow> Inr (evaluate_corroboration (so_id s) (di_extracted_facts r) (load_siblings r d)))"

section \<open>Sanity checks and the score\<close>

record sanity_result =
  sc_has_positive_amount :: bool
  sc_amount_evidence_sufficient :: bool
  sc_deadline_is_future_or_absent :: bool

definition sanity_passed :: "sanity_result \<Rightarrow> bool" where
  "sanity_passed s = (sc_amount_evidence_sufficient s \<and> sc_deadline_is_future_or_absent s)"

definition positive_amount :: "string \<Rightarrow> bool" where
  "positive_amount raw = (case parse_amount raw of Some (_, v) \<Rightarrow> v > 0 | None \<Rightarrow> False)"

definition run_sanity_checks ::
  "dict option \<Rightarrow> instant option \<Rightarrow> nat \<Rightarrow> int \<Rightarrow> instant \<Rightarrow> sanity_result" where
  "run_sanity_checks facts deadline_at source_count min_sources now =
     (let amounts = mentions facts ''funding_mentions'';
          positive = (\<exists>a \<in> set amounts. positive_amount a)
      in \<lparr>sc_has_positive_amount = positive,
          sc_amount_evidence_sufficient = (positive \<or> amounts = [] \<and> int source_count \<ge> min_sources),
          sc_deadline_is_future_or_absent = (case deadline_at of None \<Rightarrow> True | Some t \<Rightarrow> t > now)\<rparr>)"

definition compute_auto_approval_score ::
  "nat \<Rightarrow> bool \<Rightarrow> bool option \<Rightarrow> bool \<Rightarrow> string option \<Rightarrow> int" where
  "compute_auto_approval_score source_count amount_ok deadline_ok sanity grade =
     (if source_count \<ge> 2 then 40 + min ((int source_count - 2) * 10) 20 else 0)
     + (if amount_ok then 20 else 0) + (if deadline_ok = Some True then 20 else 0)
     + (if sanity then 10 else 0) - (if grade \<notin> {Some ''A'', Some ''B''} then 30 else 0)"

section \<open>Countries in a text, and the drafted recommendation\<close>

definition whole_word :: "rx \<Rightarrow> string \<Rightarrow> bool" where
  "whole_word r text = (find_spans (seq [Bound, r, Bound]) 0 None text \<noteq> [])"

definition named_codes :: "string \<Rightarrow> (string \<times> string) list \<Rightarrow> string list" where
  "named_codes text country_names =
     map fst (filter (\<lambda>(code, nm). nm \<noteq> [] \<and> whole_word (LitI nm) text) country_names)"

definition mentioned_countries :: "string \<Rightarrow> (string \<times> string) list \<Rightarrow> string list \<times> string list" where
  "mentioned_countries text country_names =
     (let codes = named_codes text country_names
      in (sorted_set (filter (\<lambda>c. c \<in> SUPPORTED_DESTINATIONS) codes),
          sorted_set (filter (\<lambda>c. c \<notin> SUPPORTED_DESTINATIONS) codes)))"

definition DRAFT_VERSION :: string where
  "DRAFT_VERSION = ''prepare_review-v1''"

definition supported_list :: string where
  "supported_list =
     join_with '', '' [''AU'', ''CA'', ''CN'', ''DE'', ''FI'', ''FR'', ''GB'', ''JP'', ''KR'', ''NZ'', ''SA'', ''TR'', ''US'']"

definition draft_review_recommendation ::
  "string option \<Rightarrow> string option \<Rightarrow> dict option \<Rightarrow> (string \<times> string) list \<Rightarrow> dict" where
  "draft_review_recommendation raw_title raw_excerpt facts country_names =
     (let (supported, other) = mentioned_countries (text_parts raw_title raw_excerpt) country_names;
          rejecting = (other \<noteq> [] \<and> supported = []);
          named = join_with '', '' (map (\<lambda>c. or_empty (map_of country_names c)) other);
          note = (if supported \<noteq> []
                  then ''a supported destination is also named ('' @ join_with '', '' supported @ '')''
                  else if other \<noteq> [] then ''an out-of-scope country is named alongside a supported one''
                  else ''no country name was found in the text'');
          reasoning =
            (if rejecting
             then [''Destination screen: text names '' @ named @ '', none of the supported destinations (''
                     @ supported_list @ '').'',
                   ''Fast, objective closure - an institution'' @ [CHR 0x27] @ ''s country is knowable from its own name, not an evidence-quality call - but this is a text match, not a verified fact: confirm the named country actually is the institution'' @ [CHR 0x27] @ ''s before acting on this draft, since a name collision (a US state, a surname, a partial match) is possible.'']
             else [''Destination screen did not find a clear out-of-scope closure ('' @ note @ '').'',
                   ''No automated fetch-and-cross-check has run: full verification against the real official source still requires a human pass per docs/candidate-verification-standard.md.''])
      in [(''draft_version'', JStr DRAFT_VERSION),
          (''verdict'', JStr (if rejecting then ''reject'' else ''ambiguous'')),
          (''reasoning'', jstrs reasoning), (''proposed_award_type'', JNull),
          (''proposed_facts'', JObj (case facts of None \<Rightarrow> [] | Some f \<Rightarrow> f))])"

section \<open>Facts for an automatic approval\<close>

definition FUNDING_TYPE_PHRASES :: "(string \<times> string) list" where
  "FUNDING_TYPE_PHRASES =
     [(''fully funded'', ''fully_funded''), (''fully-funded'', ''fully_funded''),
      (''full funding'', ''fully_funded''), (''tuition waiver'', ''tuition_only''),
      (''tuition only'', ''tuition_only''), (''tuition-only'', ''tuition_only''),
      (''stipend only'', ''stipend_only''), (''stipend-only'', ''stipend_only''),
      (''partial funding'', ''partial_funding''), (''partial scholarship'', ''partial_funding'')]"

definition resolve_funding_type :: "string \<Rightarrow> string option" where
  "resolve_funding_type page_lower =
     map_option snd (find (\<lambda>(phrase, _). contains phrase page_lower) FUNDING_TYPE_PHRASES)"

definition resolve_agreed_award_type :: "string option \<Rightarrow> string option \<Rightarrow> string \<Rightarrow> string option" where
  "resolve_agreed_award_type raw_title raw_excerpt page_text =
     (let aggregator = lower (text_parts raw_title raw_excerpt); page = lower page_text
      in find (\<lambda>k. whole_word (Lit k) aggregator \<and> whole_word (Lit k) page) (map fst (tx_award_types TAXONOMY)))"

fun first_deadline :: "string list \<Rightarrow> int option" where
  "first_deadline [] = None"
| "first_deadline (m # ms) = (case parse_deadline m of Some d \<Rightarrow> Some d | None \<Rightarrow> first_deadline ms)"

definition resolve_deadline :: "string list \<Rightarrow> datetime option" where
  "resolve_deadline ms = map_option (\<lambda>d. Aware (d * days 1) 0) (first_deadline ms)"

record derived_cycle_facts =
  dc_destinations :: "string list"
  dc_levels :: "string list"
  dc_award_type :: string
  dc_funding_type :: "string option"
  dc_deadline_at :: "datetime option"

definition derive_cycle_facts_from_extraction ::
  "string option \<Rightarrow> string option \<Rightarrow> string \<Rightarrow> dict option \<Rightarrow> (string \<times> string) list \<Rightarrow> derived_cycle_facts option"
where
  "derive_cycle_facts_from_extraction raw_title raw_excerpt page_text facts country_names =
     (let combined = join_with '' '' (filter (\<lambda>s. s \<noteq> []) [or_empty raw_title, or_empty raw_excerpt, page_text]);
          (supported, other) = mentioned_countries combined country_names
      in case supported of
           [code] \<Rightarrow>
             if other \<noteq> [] then None
             else let levels = fst (normalize_degrees TAXONOMY (mentions facts ''level_mentions''))
             in if levels = [] then None
                else case resolve_agreed_award_type raw_title raw_excerpt page_text of
                       None \<Rightarrow> None
                     | Some award \<Rightarrow>
                         Some \<lparr>dc_destinations = [code], dc_levels = levels, dc_award_type = award,
                               dc_funding_type = resolve_funding_type (lower page_text),
                               dc_deadline_at = resolve_deadline (mentions facts ''deadline_mentions'')\<rparr>
         | _ \<Rightarrow> None)"

end
