(* ===== verification/AutoApproval.thy ===== *)
theory AutoApproval
  imports Evidence Countries Refresh
begin

text \<open>
  Approval without a reviewer: reading the page a lead names and comparing it with the lead
  (\<open>src/src/app/infra/source_verification.py\<close>), and the attempt to approve and publish one review task
  (\<open>src/src/app/infra/auto_approval.py\<close>). The attempt commits on the way, so an exception leaves what
  was committed: every function returns its result and the database.
\<close>

section \<open>Reading the page\<close>

text \<open>\<open>.one()\<close> raises without a row; the foreign key keeps the page in the table.\<close>

definition resolve_url :: "discovery \<Rightarrow> db \<Rightarrow> string result" where
  "resolve_url r d =
     (case tget pg_id (di_source_page_id r) (pages d) of
        None \<Rightarrow> Inl (RuntimeError ''No row was found when one was required'')
      | Some p \<Rightarrow> Inr (if is_set (pg_final_url p) then or_empty (pg_final_url p) else pg_normalized_url p))"

definition direct_page :: "fetchlib \<Rightarrow> string \<Rightarrow> string list \<Rightarrow> (string \<times> string) result" where
  "direct_page fl url approved_domains =
     bindE (fetch_source fl url approved_domains) (\<lambda>fetched.
       if fs_status_code fetched \<ge> 400 then Inl (HTTPError ''page fetch returned an error status'')
       else Inr (fl_decode fl (fs_content fetched), ''direct''))"

definition fetch_page_text ::
  "fetchlib \<Rightarrow> settings \<Rightarrow> instant \<Rightarrow> string \<Rightarrow> string list \<Rightarrow> db \<Rightarrow> (string \<times> string) result \<times> db" where
  "fetch_page_text fl st now url approved_domains d =
     (let (allowed, d1) = (if is_set (jina_api_key st) then reserve_call ''jina'' (jina_monthly_call_limit st) now d
                           else (False, d))
      in case (if allowed then fl_jina fl url else None) of
           Some text \<Rightarrow> (Inr (text, ''jina''), d1)
         | None \<Rightarrow> (direct_page fl url approved_domains, d1))"

definition some_agreement :: "(string \<Rightarrow> string \<Rightarrow> bool option) \<Rightarrow> string list \<Rightarrow> string list \<Rightarrow> bool option" where
  "some_agreement f own page = tri_state own (some_match f own page)"

definition compare_facts :: "dict option \<Rightarrow> dict \<Rightarrow> dict" where
  "compare_facts own page =
     [(''amount_matches'', jopt JBool (some_agreement amounts_match (mentions own ''funding_mentions'')
         (mentions (Some page) ''funding_mentions''))),
      (''deadline_matches'', jopt JBool (some_agreement deadlines_match (mentions own ''deadline_mentions'')
         (mentions (Some page) ''deadline_mentions'')))]"

definition store_verification :: "discovery_verification \<Rightarrow> db \<Rightarrow> discovery_verification \<times> db" where
  "store_verification v d =
     (let (i, d1) = new_uuid7 d; v' = v\<lparr>dv_id := i\<rparr> in (v', d1\<lparr>verifications := verifications d1 @ [v']\<rparr>))"

definition fetch_and_verify_source ::
  "fetchlib \<Rightarrow> routerlib \<Rightarrow> settings \<Rightarrow> instant \<Rightarrow> discovery \<Rightarrow> source \<Rightarrow> db
   \<Rightarrow> discovery_verification result \<times> db" where
  "fetch_and_verify_source fl rl st now r s d =
     (case bindE (resolve_url r d) (\<lambda>url.
             bindE (validate_source_url (fl_net fl) url (so_approved_domains s)) (\<lambda>_. Inr url)) of
        Inl e \<Rightarrow> (Inl e, d)
      | Inr url \<Rightarrow>
          case fetch_page_text fl st now url (so_approved_domains s) d of
            (Inl e, d1) \<Rightarrow> (Inl e, d1)
          | (Inr (text, fmethod), d1) \<Rightarrow>
              case try_ai_page_extraction rl st now r text of
                Inl e \<Rightarrow> (Inl e, d1)
              | Inr ai \<Rightarrow>
                  let (v, d2) = store_verification
                        \<lparr>dv_id = 0, dv_discovery_id = di_id r, dv_fetched_url = url, dv_fetch_method = fmethod,
                         dv_page_text = text, dv_ai_reextracted_facts = ai,
                         dv_agreement = compare_facts (di_extracted_facts r) (extract_candidate_facts None (Some text))\<rparr> d1
                  in (Inr v, d2))"

section \<open>The slug\<close>

definition slug_base :: "string \<Rightarrow> string" where
  "slug_base nm =
     (let s = join_with ''-'' (runs token_char (lower nm)) in if s = [] then ''scholarship'' else s)"

definition slug_candidate :: "string \<Rightarrow> nat \<Rightarrow> string" where
  "slug_candidate base attempt = (if attempt = 0 then base else base @ ''-'' @ decimal (attempt + 1))"

definition available_slug :: "string \<Rightarrow> db \<Rightarrow> string option" where
  "available_slug nm d =
     find (\<lambda>s. s \<notin> sch_slug ` set (scholarships d)) (map (slug_candidate (slug_base nm)) [0..<5])"

section \<open>The gates\<close>

record auto_outcome =
  ao_approved :: bool
  ao_reason :: string
  ao_scholarship_id :: "uuid option"
  ao_cycle_id :: "uuid option"

definition not_approved :: "string \<Rightarrow> auto_outcome" where
  "not_approved reason =
     \<lparr>ao_approved = False, ao_reason = reason, ao_scholarship_id = None, ao_cycle_id = None\<rparr>"

definition mark_evaluated :: "instant \<Rightarrow> discovery \<Rightarrow> discovery" where
  "mark_evaluated now r = r\<lparr>di_auto_review_evaluated_at := Some now\<rparr>"

definition set_evaluated :: "instant \<Rightarrow> uuid \<Rightarrow> db \<Rightarrow> db" where
  "set_evaluated now did d = d\<lparr>discoveries := tmod di_id did (mark_evaluated now) (discoveries d)\<rparr>"

text \<open>An early return either leaves the candidate to a later sweep or defers it to a reviewer for good.\<close>

datatype stop = Leave string | Defer string

fun stopped :: "instant \<Rightarrow> uuid \<Rightarrow> stop \<Rightarrow> db \<Rightarrow> auto_outcome result \<times> db" where
  "stopped now did (Leave reason) d = (Inr (not_approved reason), d)"
| "stopped now did (Defer reason) d = (Inr (not_approved reason), set_evaluated now did d)"

definition candidate_of :: "uuid \<Rightarrow> db \<Rightarrow> stop + review_task \<times> discovery" where
  "candidate_of tid d =
     (case tget rt_id tid (review_tasks d) of
        None \<Rightarrow> Inl (Leave ''task_not_eligible'')
      | Some t \<Rightarrow>
          if rt_state t \<noteq> ''open'' then Inl (Leave ''task_not_eligible'')
          else case rt_discovery_id t of
                 None \<Rightarrow> Inl (Leave ''task_not_eligible'')
               | Some did \<Rightarrow>
                   case tget di_id did (discoveries d) of
                     None \<Rightarrow> Inl (Leave ''not_eligible'')
                   | Some r \<Rightarrow>
                       if di_auto_review_evaluated_at r \<noteq> None then Inl (Leave ''not_eligible'') else Inr (t, r))"

definition admit :: "settings \<Rightarrow> instant \<Rightarrow> review_task \<Rightarrow> discovery \<Rightarrow> db \<Rightarrow> stop + source" where
  "admit st now t r d =
     (case rt_draft_recommendation t of
        None \<Rightarrow> Inl (Leave ''draft_not_ready'')
      | Some draft \<Rightarrow>
          if dget draft ''verdict'' = JStr ''reject'' then Inl (Defer ''draft_rejected'')
          else if now - di_created_at r < hours (auto_approve_min_age_hours st) then Inl (Leave ''too_young'')
          else case source_of_page (di_source_page_id r) d of
                 None \<Rightarrow> Inl (Defer ''source_missing'')
               | Some s \<Rightarrow> Inr s)"

definition corroborated :: "settings \<Rightarrow> corroboration_result \<Rightarrow> bool" where
  "corroborated st cb =
     (\<not> (int (cb_independent_source_count cb) < auto_approve_min_corroboration_sources st
         \<or> cb_amount_corroborated cb = Some False \<or> cb_deadline_corroborated cb = Some False))"

definition page_disagrees :: "settings \<Rightarrow> discovery_verification \<Rightarrow> bool" where
  "page_disagrees st v =
     (auto_approve_require_real_page_verification st
      \<and> (dget (dv_agreement v) ''amount_matches'' = JBool False
         \<or> dget (dv_agreement v) ''deadline_matches'' = JBool False))"

record approvable =
  av_facts :: derived_cycle_facts
  av_sanity :: sanity_result
  av_provider :: provider
  av_slug :: string

definition assess ::
  "netlib \<Rightarrow> settings \<Rightarrow> instant \<Rightarrow> discovery \<Rightarrow> corroboration_result \<Rightarrow> discovery_verification \<Rightarrow> db
   \<Rightarrow> (stop + approvable) result" where
  "assess nl st now r cb v d =
     (if page_disagrees st v then Inr (Inl (Defer ''page_disagreement''))
      else case derive_cycle_facts_from_extraction (di_raw_title r) (di_raw_excerpt r) (dv_page_text v)
                  (di_extracted_facts r) (names (load_vocabulary d)) of
             None \<Rightarrow> Inr (Inl (Defer ''facts_not_derivable''))
           | Some facts \<Rightarrow>
               if dc_deadline_at facts = None then Inr (Inl (Defer ''no_deadline_evidence''))
               else let sanity = run_sanity_checks (di_extracted_facts r)
                          (map_option instant_of (dc_deadline_at facts)) (cb_independent_source_count cb)
                          (auto_approve_min_corroboration_sources st) now
               in if \<not> sanity_passed sanity then Inr (Inl (Defer ''sanity_check_failed''))
                  else bindE (resolve_provider_from_verified_url nl (dv_fetched_url v) d) (\<lambda>p.
                    case p of
                      None \<Rightarrow> Inr (Inl (Defer ''provider_not_resolved''))
                    | Some provider \<Rightarrow>
                        (case available_slug (or_else (di_raw_title r) ''scholarship'') d of
                           None \<Rightarrow> Inr (Inl (Defer ''slug_unavailable''))
                         | Some slug \<Rightarrow>
                             Inr (Inr \<lparr>av_facts = facts, av_sanity = sanity, av_provider = provider,
                                       av_slug = slug\<rparr>))))"

section \<open>The approval\<close>

definition decision_snapshot ::
  "corroboration_result \<Rightarrow> discovery_verification \<Rightarrow> approvable \<Rightarrow> int \<Rightarrow> string \<Rightarrow> dict" where
  "decision_snapshot cb v a score grade =
     [(''corroboration'', JObj
        [(''independent_source_count'', JInt (int (cb_independent_source_count cb))),
         (''amount_corroborated'', jopt JBool (cb_amount_corroborated cb)),
         (''deadline_corroborated'', jopt JBool (cb_deadline_corroborated cb)),
         (''corroborating_discovery_ids'', jstrs (cb_corroborating_discovery_ids cb))]),
      (''real_page_verification'', JObj
        [(''fetched_url'', JStr (dv_fetched_url v)), (''fetch_method'', JStr (dv_fetch_method v)),
         (''verification_id'', JStr (uuid_str (dv_id v))), (''agreement'', JObj (dv_agreement v))]),
      (''sanity_checks'', JObj
        [(''has_positive_amount'', JBool (sc_has_positive_amount (av_sanity a))),
         (''amount_evidence_sufficient'', JBool (sc_amount_evidence_sufficient (av_sanity a))),
         (''deadline_is_future_or_absent'', JBool (sc_deadline_is_future_or_absent (av_sanity a)))]),
      (''derived_facts'', JObj
        [(''destinations'', jstrs (dc_destinations (av_facts a))), (''levels'', jstrs (dc_levels (av_facts a))),
         (''award_type'', JStr (dc_award_type (av_facts a))),
         (''funding_type'', jopt JStr (dc_funding_type (av_facts a)))]),
      (''score'', JInt score), (''source_authority_grade'', JStr grade)]"

definition integer :: "int \<Rightarrow> string" where
  "integer i = (if i < 0 then ''-'' @ decimal (nat (- i)) else decimal (nat i))"

definition approval_reason :: "corroboration_result \<Rightarrow> discovery_verification \<Rightarrow> int \<Rightarrow> string" where
  "approval_reason cb v score =
     ''Auto-approved: '' @ decimal (cb_independent_source_count cb)
     @ '' independent sources corroborate amount/deadline; real page verified via '' @ dv_fetch_method v
     @ '' fetch; diagnostic score='' @ integer score @ ''.''"

definition approval_score :: "corroboration_result \<Rightarrow> discovery_verification \<Rightarrow> approvable \<Rightarrow> source \<Rightarrow> int" where
  "approval_score cb v a s =
     compute_auto_approval_score (cb_independent_source_count cb)
       (dget (dv_agreement v) ''amount_matches'' = JBool True)
       (case dget (dv_agreement v) ''deadline_matches'' of JBool b \<Rightarrow> Some b | _ \<Rightarrow> None)
       (sanity_passed (av_sanity a)) (Some (so_authority_grade s))"

definition approval_request ::
  "discovery \<Rightarrow> corroboration_result \<Rightarrow> discovery_verification \<Rightarrow> approvable \<Rightarrow> int \<Rightarrow> string \<Rightarrow> review_request" where
  "approval_request r cb v a score home =
     \<lparr>rq_decision = ''approve'', rq_provider_id = Some (pv_id (av_provider a)),
      rq_canonical_name = Some (take 500 (or_else (di_raw_title r) ''Unnamed scholarship'')),
      rq_official_home_url = Some home, rq_slug = Some (av_slug a),
      rq_award_type = Some (dc_award_type (av_facts a)), rq_reason = approval_reason cb v score\<rparr>"

definition approval_inputs :: "derived_cycle_facts \<Rightarrow> cycle_inputs" where
  "approval_inputs f =
     \<lparr>in_destinations = dc_destinations f, in_levels = dc_levels f, in_origin_mode = JStr ''unknown'',
      in_origins = [], in_field_mode = JStr ''unknown'', in_fields = [], in_evidence_fresh = True,
      in_deadline_at = dc_deadline_at f, in_deadline_precision = JStr ''date'', in_deadline_timezone = JNull,
      in_eligibility_note = JNull, in_expected_reopen_month = JNull, in_field_names = None,
      in_programme_names = None, in_funding_type = jopt JStr (dc_funding_type f)\<rparr>"

definition approval_content :: "instant \<Rightarrow> discovery_verification \<Rightarrow> dict \<Rightarrow> cycle_content" where
  "approval_content now v facts =
     \<lparr>cc_key = ''auto-approved'', cc_segment = ''default'', cc_url = dv_fetched_url v, cc_status = Open_verified,
      cc_facts = facts, cc_valid_until = None, cc_verified_at = Some now\<rparr>"

definition publish_approved ::
  "stdlib \<Rightarrow> instant \<Rightarrow> uuid \<Rightarrow> discovery_verification \<Rightarrow> approvable \<Rightarrow> db \<Rightarrow> (cycle \<times> db) result" where
  "publish_approved std now sid v a d =
     bindE (build_cycle_facts std (load_vocabulary d) (approval_inputs (av_facts a))) (\<lambda>facts.
       publish_cycle now sid (approval_content now v facts) ''auto_approve_sweep'' d)"

definition stamp_cycle :: "int \<Rightarrow> cycle \<Rightarrow> cycle" where
  "stamp_cycle score c = c\<lparr>cy_is_auto_approved := True, cy_auto_approval_score := Some score\<rparr>"

definition seal_approval ::
  "settings \<Rightarrow> rat \<Rightarrow> instant \<Rightarrow> uuid \<Rightarrow> uuid \<Rightarrow> uuid \<Rightarrow> int \<Rightarrow> dict \<Rightarrow> db \<Rightarrow> db" where
  "seal_approval st draw now did sid cid score snap d =
     (let d1 = d\<lparr>cycles := tmod cy_id cid (stamp_cycle score) (cycles d)\<rparr>;
          d2 = add_audit ''auto_approve_sweep'' ''scholarship.auto_published'' sid
                 ''Auto-approved via cross-source corroboration and real-page verification.'' (Some snap) d1;
          (i, d3) = new_uuid7 d2;
          sampled = (draw < auto_approve_sample_rate st);
          d4 = d3\<lparr>auto_audits := auto_audits d3 @
                 [\<lparr>aa_id = i, aa_scholarship_id = sid, aa_cycle_id = cid, aa_decision_snapshot = snap,
                   aa_sampled = sampled, aa_outcome = (if sampled then ''pending'' else ''not_sampled''),
                   aa_reviewer_notes = None, aa_resolved_at = None, aa_resolved_by = None\<rparr>]\<rparr>
      in set_evaluated now did d4)"

fun expected_failure :: "exn \<Rightarrow> bool" where
  "expected_failure (LookupError _) = True"
| "expected_failure (ValueError _) = True"
| "expected_failure _ = False"

fun unreadable :: "exn \<Rightarrow> bool" where
  "unreadable (ValueError _) = True"
| "unreadable (HTTPError _) = True"
| "unreadable _ = False"

text \<open>\<open>vl_http_url\<close> is pydantic's \<open>HttpUrl\<close>; the draw is the value of \<open>random.random()\<close>.\<close>

record approvallib =
  vl_std :: stdlib
  vl_fetch :: fetchlib
  vl_router :: routerlib
  vl_http_url :: "string \<Rightarrow> string result"
  vl_draw :: rat

definition approve_candidate ::
  "approvallib \<Rightarrow> settings \<Rightarrow> instant \<Rightarrow> uuid \<Rightarrow> discovery \<Rightarrow> source \<Rightarrow> corroboration_result
   \<Rightarrow> discovery_verification \<Rightarrow> approvable \<Rightarrow> db \<Rightarrow> auto_outcome result \<times> db" where
  "approve_candidate lib st now tid r s cb v a d =
     (let score = approval_score cb v a s; snap = decision_snapshot cb v a score (so_authority_grade s)
      in case vl_http_url lib (dv_fetched_url v) of
           Inl e \<Rightarrow> (Inl e, d)
         | Inr home \<Rightarrow>
             case decide_review tid (approval_request r cb v a score home) d of
               Inl e \<Rightarrow> (if expected_failure e then Inr (not_approved ''approve_failed'') else Inl e, d)
             | Inr (None, d1) \<Rightarrow> (Inl (RuntimeError ''decide_review returned no scholarship_id''), d1)
             | Inr (Some sid, d1) \<Rightarrow>
                 case publish_approved (vl_std lib) now sid v a d1 of
                   Inl e \<Rightarrow>
                     (if expected_failure e
                      then Inr ((not_approved ''publish_failed'')\<lparr>ao_scholarship_id := Some sid\<rparr>) else Inl e, d1)
                 | Inr (c, d2) \<Rightarrow>
                     (Inr \<lparr>ao_approved = True, ao_reason = ''auto_approved'', ao_scholarship_id = Some sid,
                           ao_cycle_id = Some (cy_id c)\<rparr>,
                      seal_approval st (vl_draw lib) now (di_id r) sid (cy_id c) score snap d2))"

definition attempt_auto_approval ::
  "approvallib \<Rightarrow> settings \<Rightarrow> instant \<Rightarrow> uuid \<Rightarrow> db \<Rightarrow> auto_outcome result \<times> db" where
  "attempt_auto_approval lib st now tid d =
     (case candidate_of tid d of
        Inl s \<Rightarrow> stopped now 0 s d
      | Inr (t, r) \<Rightarrow>
          case admit st now t r d of
            Inl s \<Rightarrow> stopped now (di_id r) s d
          | Inr s \<Rightarrow>
              case gather_corroboration r d of
                Inl e \<Rightarrow> (Inl e, d)
              | Inr cb \<Rightarrow>
                  if \<not> corroborated st cb then stopped now (di_id r) (Defer ''insufficient_corroboration'') d
                  else case fetch_and_verify_source (vl_fetch lib) (vl_router lib) st now r s d of
                         (Inl e, d1) \<Rightarrow>
                           if unreadable e then stopped now (di_id r) (Defer ''verification_failed'') d1
                           else (Inl e, d1)
                       | (Inr v, d1) \<Rightarrow>
                           case assess (fl_net (vl_fetch lib)) st now r cb v d1 of
                             Inl e \<Rightarrow> (Inl e, d1)
                           | Inr (Inl s') \<Rightarrow> stopped now (di_id r) s' d1
                           | Inr (Inr a) \<Rightarrow> approve_candidate lib st now tid r s cb v a d1)"

section \<open>What each stage says\<close>

definition same_catalogue :: "db \<Rightarrow> db \<Rightarrow> bool" where
  "same_catalogue d d' \<longleftrightarrow> cycles d' = cycles d \<and> scholarships d' = scholarships d \<and> review_tasks d' = review_tasks d
     \<and> discoveries d' = discoveries d \<and> providers d' = providers d \<and> next_id d \<le> next_id d'"

lemma same_catalogue_ok: "same_catalogue d d' \<Longrightarrow> catalogue_ok d \<Longrightarrow> catalogue_ok d'"
  by (fastforce simp: same_catalogue_def catalogue_ok_def lifecycle_of_def)

lemma set_evaluated_frame [simp]:
  "cycles (set_evaluated now did d) = cycles d" "scholarships (set_evaluated now did d) = scholarships d"
  "review_tasks (set_evaluated now did d) = review_tasks d"
  by (simp_all add: set_evaluated_def)

lemma not_approved_sel [simp]: "\<not> ao_approved (not_approved reason)"
  by (simp add: not_approved_def)

lemma reserve_call_catalogue: "reserve_call p l now d = (ok, d') \<Longrightarrow> same_catalogue d d'"
  by (auto simp: same_catalogue_def reserve_call_def Let_def split: option.splits if_splits)

lemma fetch_page_text_catalogue: "fetch_page_text fl st now url ds d = (r, d') \<Longrightarrow> same_catalogue d d'"
  by (auto simp: fetch_page_text_def same_catalogue_def split: prod.splits if_splits option.splits
      dest: reserve_call_catalogue [unfolded same_catalogue_def])

lemma verify_cases:
  assumes "fetch_and_verify_source fl rl st now r s d = (res, d')"
  shows "same_catalogue d d'
    \<and> (\<forall>v. res = Inr v \<longrightarrow> v \<in> set (verifications d') \<and> dv_discovery_id v = di_id r
         \<and> is_ok (validate_source_url (fl_net fl) (dv_fetched_url v) (so_approved_domains s))
         \<and> dv_agreement v
             = compare_facts (di_extracted_facts r) (extract_candidate_facts None (Some (dv_page_text v))))"
  using assms
  by (auto simp: fetch_and_verify_source_def store_verification_def new_uuid7_def Let_def bindE_eq_Inr is_ok_iff
      same_catalogue_def split: sum.splits prod.splits
      dest!: fetch_page_text_catalogue [unfolded same_catalogue_def])

lemma verify_frame: "fetch_and_verify_source fl rl st now r s d = (res, d') \<Longrightarrow> same_catalogue d d'"
  using verify_cases by blast

lemma candidate_of_Inr:
  "candidate_of tid d = Inr (t, r) \<Longrightarrow>
     tget rt_id tid (review_tasks d) = Some t \<and> rt_state t = ''open'' \<and> rt_discovery_id t = Some (di_id r)
     \<and> tget di_id (di_id r) (discoveries d) = Some r \<and> di_auto_review_evaluated_at r = None"
  by (auto simp: candidate_of_def split: option.splits if_splits dest: tget_SomeD)

lemma admit_Inr:
  "admit st now t r d = Inr s \<Longrightarrow>
     hours (auto_approve_min_age_hours st) \<le> now - di_created_at r
     \<and> source_of_page (di_source_page_id r) d = Some s"
  by (auto simp: admit_def split: option.splits if_splits)

lemma resolve_provider_only:
  "resolve_provider_from_verified_url nl url d = Inr (Some p) \<Longrightarrow>
     \<exists>host. filter (\<lambda>p. domain_allowed host (pv_approved_domains p)) (providers d) = [p]"
  by (auto simp: resolve_provider_from_verified_url_def bindE_eq_Inr Let_def split: if_splits list.splits)

lemma assess_approvable:
  assumes "assess nl st now r cb v d = Inr (Inr a)"
  shows "\<not> page_disagrees st v \<and> sanity_passed (av_sanity a)
    \<and> (\<exists>t. dc_deadline_at (av_facts a) = Some t \<and> now < instant_of t)
    \<and> (\<exists>host. filter (\<lambda>p. domain_allowed host (pv_approved_domains p)) (providers d) = [av_provider a])"
proof -
  let ?derived = "derive_cycle_facts_from_extraction (di_raw_title r) (di_raw_excerpt r) (dv_page_text v)
    (di_extracted_facts r) (names (load_vocabulary d))"
  have agreed: "\<not> page_disagrees st v" using assms by (auto simp: assess_def)
  with assms obtain facts where facts: "?derived = Some facts" by (cases ?derived) (auto simp: assess_def)
  with assms agreed obtain t where t: "dc_deadline_at facts = Some t"
    by (cases "dc_deadline_at facts") (auto simp: assess_def)
  let ?sanity = "run_sanity_checks (di_extracted_facts r) (Some (instant_of t)) (cb_independent_source_count cb)
    (auto_approve_min_corroboration_sources st) now"
  have sane: "sanity_passed ?sanity"
    using assms agreed facts t by (auto simp: assess_def Let_def split: if_split_asm)
  let ?found = "resolve_provider_from_verified_url nl (dv_fetched_url v) d"
  from assms agreed facts t sane obtain p where p: "?found = Inr (Some p)"
    by (cases ?found; cases "projr ?found") (auto simp: assess_def Let_def)
  let ?slug = "available_slug (or_else (di_raw_title r) ''scholarship'') d"
  from assms agreed facts t sane p obtain slug where "?slug = Some slug"
    by (cases ?slug) (auto simp: assess_def Let_def)
  with assms agreed facts t sane p
  have "a = \<lparr>av_facts = facts, av_sanity = ?sanity, av_provider = p, av_slug = slug\<rparr>"
    by (simp add: assess_def Let_def)
  with agreed sane t resolve_provider_only [OF p] show ?thesis
    by (auto simp: sanity_passed_def run_sanity_checks_def Let_def)
qed

lemma stopped_catalogue:
  "stopped now did s d = (res, d') \<Longrightarrow>
     (\<exists>o'. res = Inr o' \<and> \<not> ao_approved o') \<and> cycles d' = cycles d \<and> scholarships d' = scholarships d
     \<and> review_tasks d' = review_tasks d"
  by (cases s) (auto simp: not_approved_def set_evaluated_def)

text \<open>The approval itself: what a run that reaches it leaves behind.\<close>

lemma seal_approval_effect:
  "cycles (seal_approval st q now did sid cid score snap d) = tmod cy_id cid (stamp_cycle score) (cycles d)
   \<and> scholarships (seal_approval st q now did sid cid score snap d) = scholarships d
   \<and> review_tasks (seal_approval st q now did sid cid score snap d) = review_tasks d
   \<and> discoveries (seal_approval st q now did sid cid score snap d)
       = tmod di_id did (mark_evaluated now) (discoveries d)"
  by (simp add: seal_approval_def set_evaluated_def new_uuid7_def Let_def)

lemma tmod_snoc_fresh:
  "pk x = k \<Longrightarrow> k \<notin> pk ` set rows \<Longrightarrow> tmod pk k f (rows @ [x]) = rows @ [f x]"
  by (induction rows) auto

lemma publish_review_tasks: "publish_cycle now sid cc actor d = Inr (c, d') \<Longrightarrow> review_tasks d' = review_tasks d"
  by (auto simp: publish_cycle_def new_uuid7_def Let_def split: option.splits if_splits)

lemma decide_next_id: "decide_review tid rq d = Inr (res, d') \<Longrightarrow> next_id d \<le> next_id d'"
  by (erule decide_cases) auto

lemma approve_unapproved:
  assumes "approve_candidate lib st now tid r s cb v a d = (res, d')"
    and "\<not> (\<exists>o'. res = Inr o' \<and> ao_approved o')"
  shows "cycles d' = cycles d \<and> (scholarships d' = scholarships d
     \<or> (\<exists>x. scholarships d' = scholarships d @ [x] \<and> sch_lifecycle_state x = Needs_review))"
proof -
  have "d' = d \<or> (\<exists>sid rq. decide_review tid rq d = Inr (sid, d'))"
    using assms by (auto simp: approve_candidate_def Let_def split: sum.splits option.splits prod.splits if_splits)
  then show ?thesis
  proof
    assume "\<exists>sid rq. decide_review tid rq d = Inr (sid, d')"
    then obtain sid rq where "decide_review tid rq d = Inr (sid, d')" by blast
    then show ?thesis by (cases rule: decide_cases) auto
  qed simp
qed

lemma approve_approved:
  assumes ok: "catalogue_ok d"
    and run: "approve_candidate lib st now tid r s cb v a d = (Inr o', d')" "ao_approved o'"
  shows "\<exists>x c. scholarships d' = scholarships d @ [x] \<and> cycles d' = cycles d @ [c]
    \<and> ao_scholarship_id o' = Some (sch_id x) \<and> sch_lifecycle_state x = Published
    \<and> ao_cycle_id o' = Some (cy_id c) \<and> cy_scholarship_id c = sch_id x
    \<and> cy_public_status c = Open_verified \<and> cy_is_auto_approved c
    \<and> tget rt_id tid (review_tasks d') \<noteq> None
    \<and> (\<forall>t. tget rt_id tid (review_tasks d') = Some t \<longrightarrow> rt_state t = ''resolved'')
    \<and> (\<forall>r'. tget di_id (di_id r) (discoveries d') = Some r' \<longrightarrow> di_auto_review_evaluated_at r' = Some now)"
proof -
  obtain rq sid d1 c d2 score snap where
    dec: "decide_review tid rq d = Inr (Some sid, d1)" and
    pub: "publish_approved (vl_std lib) now sid v a d1 = Inr (c, d2)" and
    o': "ao_scholarship_id o' = Some sid" "ao_cycle_id o' = Some (cy_id c)" and
    d': "d' = seal_approval st (vl_draw lib) now (di_id r) sid (cy_id c) score snap d2"
    using run by (auto simp: approve_candidate_def Let_def not_approved_def
        split: sum.splits option.splits prod.splits if_splits)
  from dec obtain x where x: "sch_id x = sid" "scholarships d1 = scholarships d @ [x]"
    "cycles d1 = cycles d" "sid = next_id d" and
    task: "tget rt_id tid (review_tasks d) \<noteq> None"
      "review_tasks d1 = tmod rt_id tid (resolve_row (rq_reason rq)) (review_tasks d)"
    by (cases rule: decide_cases) auto
  from pub obtain facts where
    "publish_cycle now sid (approval_content now v facts) ''auto_approve_sweep'' d1 = Inr (c, d2)"
    by (auto simp: publish_approved_def bindE_eq_Inr)
  then have c: "c = new_cycle now (next_id d1) sid (approval_content now v facts)"
    "cycles d2 = cycles d @ [c]" "review_tasks d2 = review_tasks d1"
    "scholarships d2 = tmod sch_id sid (set_lifecycle Published) (scholarships d @ [x])"
    using x by (auto elim!: publish_cases simp: publish_review_tasks)
  have fresh: "sid \<notin> sch_id ` set (scholarships d)" "cy_id c \<notin> cy_id ` set (cycles d)"
    using catalogue_okD(5,7) [OF ok] x(4) c(1) decide_next_id [OF dec] by force+
  have "scholarships d' = scholarships d @ [set_lifecycle Published x]"
    "cycles d' = cycles d @ [stamp_cycle score c]"
    using c(2,4) fresh x(1) by (simp_all add: d' seal_approval_effect tmod_snoc_fresh)
  moreover have "tget rt_id tid (review_tasks d') = map_option (resolve_row (rq_reason rq)) (tget rt_id tid (review_tasks d))"
    by (simp add: d' seal_approval_effect c(3) task(2) task_table.get_mod resolve_row_def)
  moreover have "tget di_id (di_id r) (discoveries d')
      = map_option (mark_evaluated now) (tget di_id (di_id r) (discoveries d2))"
    by (simp add: d' seal_approval_effect discovery_table.get_mod mark_evaluated_def)
  ultimately show ?thesis
    using o' x(1) c(1) task(1)
    by (auto simp: stamp_cycle_def new_cycle_def approval_content_def resolve_row_def mark_evaluated_def)
qed

section \<open>Properties\<close>


text \<open>
  Whatever stops an attempt, nothing becomes public: no cycle is added or changed, and at most one
  scholarship is left behind, waiting for a reviewer.
\<close>

theorem stopped_attempt_publishes_nothing:
  "(let (res, d') = attempt_auto_approval lib st now tid d
    in if \<exists>o'. res = Inr o' \<and> ao_approved o' then True
       else cycles d' = cycles d \<and> (scholarships d' = scholarships d
              \<or> (\<exists>x. scholarships d' = scholarships d @ [x] \<and> sch_lifecycle_state x = Needs_review)))"
proof -
  obtain res d' where run: "attempt_auto_approval lib st now tid d = (res, d')" by force
  have "cycles d' = cycles d \<and> (scholarships d' = scholarships d
              \<or> (\<exists>x. scholarships d' = scholarships d @ [x] \<and> sch_lifecycle_state x = Needs_review))"
    if no: "\<not> (\<exists>o'. res = Inr o' \<and> ao_approved o')"
  proof (cases "\<exists>r s cb v a d1. same_catalogue d d1 \<and> approve_candidate lib st now tid r s cb v a d1 = (res, d')")
    case True
    then obtain r s cb v a d1 where same: "same_catalogue d d1"
      and last: "approve_candidate lib st now tid r s cb v a d1 = (res, d')" by blast
    from approve_unapproved [OF last no] same show ?thesis by (auto simp: same_catalogue_def)
  next
    case False
    with run show ?thesis
      by (auto simp: attempt_auto_approval_def split: sum.splits if_splits prod.splits
          dest!: stopped_catalogue verify_frame simp: same_catalogue_def)
  qed
  with run show ?thesis by auto
qed

section \<open>An approved run\<close>

text \<open>Two sources report a scholarship in Japan with one date; its page on \<open>demo.org\<close> says the same.\<close>

definition demo_day :: string where "demo_day = ''2030-05-01''"

definition demo_text :: string where "demo_text = ''2030-05-01 Japan scholarship''"

definition demo_mentions :: dict where
  "demo_mentions = [(''deadline_mentions'', jstrs [demo_day]), (''level_mentions'', jstrs [''masters''])]"

definition demo_candidate :: discovery where
  "demo_candidate = demo_discovery\<lparr>di_raw_title := Some ''scholarship'', di_extracted_facts := Some demo_mentions\<rparr>"

definition demo_sibling :: discovery where
  "demo_sibling = demo_candidate\<lparr>di_id := 8, di_source_page_id := 4\<rparr>"

definition demo_source :: "uuid \<Rightarrow> source" where
  "demo_source i = demo_official\<lparr>so_id := i, so_approved_domains := [''demo.org'']\<rparr>"

definition demo_ready :: db where
  "demo_ready = empty_db\<lparr>
     providers := [\<lparr>pv_id = 1, pv_name = ''P'', pv_approved_domains = [''demo.org''], pv_country = None\<rparr>],
     sources := [demo_source 5, demo_source 6],
     pages := [new_page 3 5 ''https://demo.org/apply'', new_page 4 6 ''https://demo.org/apply''],
     discoveries := [demo_candidate, demo_sibling],
     review_tasks := [\<lparr>rt_id = 9, rt_revision_id = None, rt_discovery_id = Some 7, rt_cycle_id = None,
        rt_reason = [], rt_priority = 1, rt_state = ''open'', rt_resolution = None,
        rt_draft_recommendation = Some [(''verdict'', JStr ''ambiguous'')], rt_created_at = 0\<rparr>],
     countries := [\<lparr>co_id = 2, co_code = ''JP'', co_display_name = ''Japan'', co_core_id = None,
        co_is_supported_destination = True, co_synced_at = None\<rparr>],
     next_id := 10\<rparr>"

definition demo_approval :: approvallib where
  "demo_approval =
     \<lparr>vl_std = demo_std\<lparr>std_isoformat := (\<lambda>_. demo_day)\<rparr>,
      vl_fetch = demo_fetch\<lparr>fl_get := (\<lambda>_. Response 200 None demo_text ''text/html'')\<rparr>,
      vl_router = demo_router [], vl_http_url = Inr, vl_draw = 1\<rparr>"

lemma demo_agreement: "deadlines_match demo_day demo_day = Some True"
  by code_simp

lemma demo_first_date:
  "rx_run MONTH_NAME_DATE_PATTERN (None, demo_text) = [(Some (CHR ''1''), '' Japan scholarship'')]"
  by code_simp

lemma demo_country: "mentioned_countries ''scholarship 2030-05-01 Japan scholarship'' [(''JP'', ''Japan'')] = ([''JP''], [])"
  by code_simp

lemma demo_deadline: "first_deadline [demo_day] = Some 22035"
  by code_simp

lemma demo_slug: "slug_base ''scholarship'' = ''scholarship''"
  by code_simp

lemma demo_levels: "fst (normalize_degrees TAXONOMY [''masters'']) = [''masters'']"
  by code_simp

lemma demo_award: "whole_word (Lit ''scholarship'') ''scholarship''" "whole_word (Lit ''scholarship'') ''2030-05-01 japan scholarship''"
  by code_simp+

lemma demo_candidate_sel:
  "di_id demo_candidate = 7" "di_source_page_id demo_candidate = 3" "di_raw_title demo_candidate = Some ''scholarship''"
  "di_raw_excerpt demo_candidate = None" "di_extracted_facts demo_candidate = Some demo_mentions"
  "di_created_at demo_candidate = 0" "di_auto_review_evaluated_at demo_candidate = None"
  "di_normalized_identity_key demo_candidate = Some ''a''" "di_split_from_discovery_id demo_candidate = None"
  by (simp_all add: demo_candidate_def demo_discovery_def)

lemma demo_own: "mentions (Some demo_mentions) ''funding_mentions'' = []"
  "mentions (Some demo_mentions) ''deadline_mentions'' = [demo_day]"
  "mentions (Some demo_mentions) ''level_mentions'' = [''masters'']"
  by (simp_all add: mentions_def demo_mentions_def string_list_jstrs demo_day_def)

lemma demo_corroboration:
  "\<exists>cb. gather_corroboration demo_candidate demo_ready = Inr cb \<and> cb_independent_source_count cb = 2
     \<and> cb_amount_corroborated cb = None \<and> cb_deadline_corroborated cb = Some True"
proof -
  have pages: "source_of_page 3 demo_ready = Some (demo_source 5)" "source_of_page 4 demo_ready = Some (demo_source 6)"
    by (simp_all add: source_of_page_def demo_ready_def new_page_def demo_source_def)
  have "load_siblings demo_candidate demo_ready = [(8, 6, Some demo_mentions)]"
    using pages by (simp add: load_siblings_def is_sibling_def demo_ready_def demo_sibling_def demo_candidate_sel
        List.map_filter_def demo_source_def)
  then show ?thesis
    using pages demo_agreement
    by (simp add: gather_corroboration_def evaluate_corroboration_def demo_candidate_sel demo_source_def demo_own
        tri_state_def amount_sibling_def deadline_sibling_def some_match_def)
qed

lemma demo_page_text:
  "extract_candidate_facts None (Some demo_text) = extract_candidate_facts (Some demo_text) None"
  by (simp add: extract_candidate_facts_def text_parts_def demo_text_def or_empty_def)

lemma demo_page_mentions: "demo_day \<in> set (mentions (Some (extract_candidate_facts None (Some demo_text))) ''deadline_mentions'')"
proof -
  have "(0, 10) \<in> set (find_spans MONTH_NAME_DATE_PATTERN 0 None demo_text)"
    by (subst find_spans.simps) (simp add: demo_first_date, simp add: demo_text_def)
  then have "slice demo_text (0, 10) \<in> set (findall MONTH_NAME_DATE_PATTERN demo_text)"
    unfolding findall_def by (metis image_eqI list.set_map)
  then show ?thesis
    by (simp add: mentions_def extract_candidate_facts_def text_parts_def string_list_jstrs demo_text_def demo_day_def
        slice_def Let_def or_empty_def)
qed

lemma demo_verification:
  "\<exists>v d'. fetch_and_verify_source (vl_fetch demo_approval) (vl_router demo_approval) default_settings now demo_candidate
       (demo_source 5) demo_ready = (Inr v, d')
     \<and> dv_page_text v = demo_text \<and> dv_fetched_url v = ''https://demo.org/apply''
     \<and> dget (dv_agreement v) ''amount_matches'' = JNull \<and> dget (dv_agreement v) ''deadline_matches'' = JBool True
     \<and> d' = demo_ready\<lparr>verifications := [v], next_id := 11\<rparr>"
proof -
  have "resolve_url demo_candidate demo_ready = Inr ''https://demo.org/apply''"
    by (simp add: resolve_url_def demo_candidate_sel demo_ready_def new_page_def)
  moreover have "fetch_source (vl_fetch demo_approval) ''https://demo.org/apply'' [''demo.org''] =
     Inr \<lparr>fs_url = ''https://demo.org/apply'', fs_status_code = 200, fs_content = demo_text, fs_content_type = ''text/html''\<rparr>"
    by (simp add: fetch_source_def demo_approval_def demo_fetch_def demo_validate finish_fetch_def MAX_BYTES_def demo_text_def)
  moreover have "fl_net (vl_fetch demo_approval) = demo_net" "fl_decode (vl_fetch demo_approval) s = s" for s
    by (simp_all add: demo_approval_def demo_fetch_def)
  ultimately show ?thesis
    using demo_page_mentions demo_agreement
    by (auto simp: fetch_and_verify_source_def fetch_page_text_def direct_page_def demo_validate demo_source_def
        try_ai_page_extraction_def try_router_def router_configured_def default_settings_def store_verification_def
        new_uuid7_def Let_def compare_facts_def some_agreement_def tri_state_def demo_candidate_sel demo_own some_match_def
        demo_ready_def empty_db_def)
qed
definition demo_derived :: derived_cycle_facts where
  "demo_derived =
     \<lparr>dc_destinations = [''JP''], dc_levels = [''masters''], dc_award_type = ''scholarship'',
      dc_funding_type = resolve_funding_type (lower demo_text), dc_deadline_at = Some (Aware (22035 * days 1) 0)\<rparr>"

lemma demo_vocabulary:
  "countries d = countries demo_ready \<Longrightarrow>
   load_vocabulary d = \<lparr>names = [(''JP'', ''Japan'')], destinations = {''JP''}\<rparr>"
proof -
  assume "countries d = countries demo_ready"
  moreover have "{co_code c |c. c = x \<and> co_is_supported_destination c} = {co_code x}"
    if "co_is_supported_destination x" for x :: country using that by auto
  ultimately show ?thesis by (simp add: load_vocabulary_def demo_ready_def Let_def)
qed

lemma demo_derive:
  "derive_cycle_facts_from_extraction (Some ''scholarship'') None demo_text (Some demo_mentions) [(''JP'', ''Japan'')]
     = Some demo_derived"
  using demo_country demo_award demo_levels demo_deadline
  by (simp add: derive_cycle_facts_from_extraction_def demo_derived_def demo_own resolve_deadline_def or_empty_def
      demo_text_def resolve_agreed_award_type_def text_parts_def lower_def TAXONOMY_def Let_def)

lemma demo_assess:
  assumes "cb_independent_source_count cb = 2" and "dv_page_text v = demo_text"
    and "dv_fetched_url v = ''https://demo.org/apply''"
    and "dget (dv_agreement v) ''amount_matches'' = JNull" "dget (dv_agreement v) ''deadline_matches'' = JBool True"
    and "countries d = countries demo_ready" "providers d = providers demo_ready" "scholarships d = []"
  shows "\<exists>a. assess demo_net default_settings (days 2) demo_candidate cb v d = Inr (Inr a)
    \<and> av_facts a = demo_derived \<and> pv_id (av_provider a) = 1 \<and> av_slug a = ''scholarship''"
proof -
  have "resolve_provider_from_verified_url demo_net ''https://demo.org/apply'' d = Inr (Some (hd (providers demo_ready)))"
    unfolding resolve_provider_from_verified_url_def demo_url_parts assms(7)
    by (simp add: demo_hostname or_empty_def demo_ready_def domain_allowed_def lstrip_char_def lower_def)
  moreover have "available_slug ''scholarship'' d = Some ''scholarship''"
    by (simp add: available_slug_def assms(8) demo_slug slug_candidate_def upt_rec)
  moreover have "dc_deadline_at demo_derived = Some (Aware (22035 * days 1) 0)" by (simp add: demo_derived_def)
  ultimately show ?thesis
    using assms
    by (simp add: assess_def page_disagrees_def demo_candidate_sel demo_derive demo_vocabulary demo_own
        run_sanity_checks_def sanity_passed_def Let_def or_else_def default_settings_def days_def seconds_def demo_ready_def)
qed
lemma demo_facts_built:
  "countries d = countries demo_ready \<Longrightarrow>
   \<exists>facts. build_cycle_facts (vl_std demo_approval) (load_vocabulary d) (approval_inputs demo_derived) = Inr facts"
proof -
  have "tax_degree ''masters'' = Inr ''masters''"
    by (simp add: degree_def alias_of_def tx_lookup_def string_eval TAXONOMY_def)
  moreover have "destination \<lparr>names = [(''JP'', ''Japan'')], destinations = {''JP''}\<rparr> ''JP'' = Inr ''JP''"
    by (simp add: destination_def origin_def string_eval)
  moreover have "resolve_funding_type (lower demo_text) = None"
    by code_simp
  ultimately show "countries d = countries demo_ready \<Longrightarrow> ?thesis"
    by (simp add: demo_vocabulary build_cycle_facts_def approval_inputs_def demo_derived_def check_timezone_def guardE_def
       funding_code_def sorted_set_def)
qed

lemma demo_approved:
  assumes "av_facts a = demo_derived" "pv_id (av_provider a) = 1" "av_slug a = ''scholarship''"
    and d: "d = demo_ready\<lparr>verifications := [v], next_id := 11\<rparr>"
  shows "\<exists>o' d'. approve_candidate demo_approval default_settings (days 2) 9 demo_candidate s cb v a d = (Inr o', d')
     \<and> ao_approved o'"
proof -
  let ?rq = "approval_request demo_candidate cb v a (approval_score cb v a s) (dv_fetched_url v)"
  have "award_type TAXONOMY ''scholarship'' = Inr ''scholarship''"
    by (simp add: award_type_def tx_lookup_def string_eval TAXONOMY_def)
  then have "\<exists>d1. decide_review 9 ?rq d = Inr (Some 11, d1) \<and> countries d1 = countries demo_ready \<and> cycles d1 = []
      \<and> map_option sch_lifecycle_state (tget sch_id 11 (scholarships d1)) = Some Needs_review"
    using assms
    by (simp add: decide_review_def approve_discovery_def demo_ready_def approval_request_def insert_scholarship_def
        new_uuid7_def demo_candidate_sel demo_derived_def SLUG_LENGTH_def empty_db_def)
  then obtain d1 where dec: "decide_review 9 ?rq d = Inr (Some 11, d1)" "countries d1 = countries demo_ready"
    "cycles d1 = []" "map_option sch_lifecycle_state (tget sch_id 11 (scholarships d1)) = Some Needs_review" by blast
  obtain facts where "build_cycle_facts (vl_std demo_approval) (load_vocabulary d1) (approval_inputs demo_derived) = Inr facts"
    using demo_facts_built [OF dec(2)] by blast
  then have "\<exists>c d2. publish_approved (vl_std demo_approval) (days 2) 11 v a d1 = Inr (c, d2)"
    using dec assms(1) by (auto simp: publish_approved_def publish_cycle_def new_uuid7_def Let_def)
  then obtain c d2 where "publish_approved (vl_std demo_approval) (days 2) 11 v a d1 = Inr (c, d2)" by blast
  moreover have "vl_http_url demo_approval u = Inr u" for u by (simp add: demo_approval_def)
  ultimately show ?thesis using dec(1) by (auto simp: approve_candidate_def Let_def)
qed

lemma demo_run:
  "\<exists>o' d'. attempt_auto_approval demo_approval default_settings (days 2) 9 demo_ready = (Inr o', d') \<and> ao_approved o'"
proof -
  obtain cb where cb: "gather_corroboration demo_candidate demo_ready = Inr cb" "cb_independent_source_count cb = 2"
     "cb_amount_corroborated cb = None" "cb_deadline_corroborated cb = Some True"
    using demo_corroboration by blast
  obtain v d1 where v: "fetch_and_verify_source (vl_fetch demo_approval) (vl_router demo_approval) default_settings (days 2)
      demo_candidate (demo_source 5) demo_ready = (Inr v, d1)"
     "dv_page_text v = demo_text" "dv_fetched_url v = ''https://demo.org/apply''"
     "dget (dv_agreement v) ''amount_matches'' = JNull" "dget (dv_agreement v) ''deadline_matches'' = JBool True"
     "d1 = demo_ready\<lparr>verifications := [v], next_id := 11\<rparr>"
    using demo_verification by blast
  have same: "countries d1 = countries demo_ready" "providers d1 = providers demo_ready" "scholarships d1 = []"
    by (simp_all add: v(6) demo_ready_def empty_db_def)
  obtain a where a: "assess demo_net default_settings (days 2) demo_candidate cb v d1 = Inr (Inr a)"
    "av_facts a = demo_derived" "pv_id (av_provider a) = 1" "av_slug a = ''scholarship''"
    using demo_assess [OF cb(2) v(2-5) same] by blast
  obtain t where t: "candidate_of 9 demo_ready = Inr (t, demo_candidate)"
     "rt_draft_recommendation t = Some [(''verdict'', JStr ''ambiguous'')]"
    by (simp add: candidate_of_def demo_ready_def demo_candidate_sel)
  have "admit default_settings (days 2) t demo_candidate demo_ready = Inr (demo_source 5)"
    by (simp add: admit_def t(2) demo_candidate_sel default_settings_def days_def hours_def seconds_def
        source_of_page_def demo_ready_def new_page_def demo_source_def)
  moreover have "corroborated default_settings cb" by (simp add: corroborated_def cb default_settings_def)
  moreover have "fl_net (vl_fetch demo_approval) = demo_net" by (simp add: demo_approval_def demo_fetch_def)
  ultimately show ?thesis
    using demo_approved [OF a(2-4) v(6)] t(1) cb(1) v(1) a(1)
    by (simp add: attempt_auto_approval_def)
qed


text \<open>
  The published deadline need not be the one the page confirmed: when a lead mentions two dates and
  the page only the second, the comparison reports agreement on the deadline, yet the derived facts carry
  the first date, which no mention of the page equals.
\<close>

theorem unconfirmed_deadline_is_published:
  assumes "mentions own ''deadline_mentions'' = [m1, m2]" and "mentions (Some page) ''deadline_mentions'' = [m]"
    and "parse_deadline m1 = Some a" and "parse_deadline m2 = Some b" and "parse_deadline m = Some b" and "a \<noteq> b"
  shows "dget (compare_facts own page) ''deadline_matches'' = JBool True
    \<and> resolve_deadline (mentions own ''deadline_mentions'') = Some (Aware (a * days 1) 0)
    \<and> \<not> some_match deadlines_match [m1] (mentions (Some page) ''deadline_mentions'')"
  using assms
  by (simp add: compare_facts_def some_agreement_def tri_state_def some_match_def deadlines_match_def agree_def
      resolve_deadline_def)

lemma demo_other_day: "parse_deadline ''2030-06-01'' = Some 22066" "parse_deadline demo_day = Some 22035"
  by code_simp+

theorem unconfirmed_deadline_is_published_witness:
  "dget (compare_facts (Some [(''deadline_mentions'', jstrs [demo_day, ''2030-06-01''])])
      [(''deadline_mentions'', jstrs [''2030-06-01''])]) ''deadline_matches'' = JBool True"
proof -
  have "mentions (Some [(''deadline_mentions'', jstrs ms)]) ''deadline_mentions'' = ms" if "list_all (\<lambda>m. m \<noteq> []) ms" for ms
    by (simp add: mentions_def string_list_jstrs that)
  note m = this
  show ?thesis
    by (rule unconfirmed_deadline_is_published [THEN conjunct1, OF m m demo_other_day(2,1,1)])
      (simp_all add: demo_day_def)
qed

end
