(* ===== verification/Harvest.thy ===== *)
theory Harvest
  imports AutoApproval
begin

text \<open>
  The weekly harvests: what the marketplace SDKs and the web search return
  (\<open>src/src/app/infra/parsebot_client.py\<close>, \<open>src/src/app/infra/tavily_client.py\<close>), how one raw item
  becomes a feed row (\<open>src/src/app/domain/parsebot_harvest.py\<close>, \<open>src/src/app/domain/tavily_harvest.py\<close>)
  and the two harvest jobs with their health counters (\<open>src/src/app/infra/worker.py\<close>). The SDK call and
  the search request are parameters.
\<close>

section \<open>Mapping one item\<close>

definition SCHOLARSHIPPORTAL_SOURCE_NAME :: string where
  "SCHOLARSHIPPORTAL_SOURCE_NAME = ''ScholarshipPortal (via Parse.bot)''"
definition PHDSCANNER_SOURCE_NAME :: string where
  "PHDSCANNER_SOURCE_NAME = ''PhDScanner (via Parse.bot)''"
definition MASTERSPORTAL_SOURCE_NAME :: string where
  "MASTERSPORTAL_SOURCE_NAME = ''Mastersportal (via Parse.bot)''"
definition OPPORTUNITYDESK_SOURCE_NAME :: string where
  "OPPORTUNITYDESK_SOURCE_NAME = ''Opportunity Desk (via Parse.bot)''"
definition FASTWEB_SOURCE_NAME :: string where
  "FASTWEB_SOURCE_NAME = ''Fastweb (via Parse.bot)''"
definition CAREERONESTOP_SOURCE_NAME :: string where
  "CAREERONESTOP_SOURCE_NAME = ''CareerOneStop (via Parse.bot)''"
definition TAVILY_SOURCE_NAME :: string where
  "TAVILY_SOURCE_NAME = ''Tavily Web Search''"

record harvested_record =
  hr_title :: string
  hr_url :: string
  hr_excerpt :: "string option"
  hr_feed_created_at :: "datetime option"

text \<open>\<open>(raw.get(key) or "").strip()\<close>: only a string has \<open>strip\<close>.\<close>

definition text_field :: "dict \<Rightarrow> string \<Rightarrow> string result" where
  "text_field raw key =
     (let v = dget raw key
      in if \<not> truthy v then Inr [] else case v of JStr s \<Rightarrow> Inr (strip s) | _ \<Rightarrow> Inl AttributeError)"

definition excerpt_of :: "stdlib \<Rightarrow> json list \<Rightarrow> string option" where
  "excerpt_of std values =
     (let text = join_with '' | '' (map (py_str std) (filter truthy values))
      in if text = [] then None else Some text)"

text \<open>The shape all seven mappings share: a title, a URL, an excerpt and a time, or nothing.\<close>

definition titled ::
  "string \<Rightarrow> string \<Rightarrow> (dict \<Rightarrow> (string option \<times> datetime option) result) \<Rightarrow> dict \<Rightarrow> harvested_record option result"
where
  "titled title_key url_key rest raw =
     bindE (text_field raw title_key) (\<lambda>title. bindE (text_field raw url_key) (\<lambda>url.
       if title = [] \<or> url = [] then Inr None
       else bindE (rest raw) (\<lambda>(excerpt, created).
         Inr (Some \<lparr>hr_title = title, hr_url = url, hr_excerpt = excerpt, hr_feed_created_at = created\<rparr>))))"

definition scholarship_to_record :: "stdlib \<Rightarrow> instant \<Rightarrow> dict \<Rightarrow> harvested_record option result" where
  "scholarship_to_record std harvested_at =
     titled ''title'' ''url'' (\<lambda>raw.
       let provider = (case dget raw ''provider'' of JObj p \<Rightarrow> dget p ''name'' | _ \<Rightarrow> JNull)
       in Inr (excerpt_of std [provider, dget raw ''benefits'', dget raw ''deadline''],
               Some (Aware harvested_at 0)))"

text \<open>
  \<open>datetime.fromtimestamp(value, tz=UTC)\<close>: whole microseconds, rounded half to even, between the years
  1 and 9999. A boolean is an integer of Python.
\<close>

definition round_half_even :: "rat \<Rightarrow> int" where
  "round_half_even x =
     (let f = \<lfloor>x\<rfloor>; r = x - of_int f
      in if r < 1 / 2 then f else if r > 1 / 2 then f + 1 else if even f then f else f + 1)"

definition from_timestamp :: "rat \<Rightarrow> datetime result" where
  "from_timestamp t =
     (if t < - 62135596800 \<or> t \<ge> 253402300800 then Inl (ValueError ''year is out of range'')
      else Inr (Aware (round_half_even (t * 1000000)) 0))"

definition created_time :: "instant \<Rightarrow> json \<Rightarrow> datetime result" where
  "created_time harvested_at v =
     (case v of
        JInt i \<Rightarrow> from_timestamp (of_int i)
      | JFloat r \<Rightarrow> from_timestamp r
      | JBool b \<Rightarrow> from_timestamp (if b then 1 else 0)
      | _ \<Rightarrow> Inr (Aware harvested_at 0))"

definition opportunity_to_record :: "stdlib \<Rightarrow> instant \<Rightarrow> dict \<Rightarrow> harvested_record option result" where
  "opportunity_to_record std harvested_at =
     titled ''title'' ''opportunity_url'' (\<lambda>raw.
       bindE (created_time harvested_at (dget raw ''created_at'')) (\<lambda>created.
         Inr (excerpt_of std [dget raw ''university'', dget raw ''department'', dget raw ''category''],
              Some created)))"

definition mastersportal_to_record :: "stdlib \<Rightarrow> instant \<Rightarrow> dict \<Rightarrow> harvested_record option result" where
  "mastersportal_to_record std harvested_at =
     titled ''title'' ''url'' (\<lambda>raw.
       let amount = dget raw ''grant_amount''; currency = dget raw ''grant_currency'';
           amount_text = (if truthy amount then JStr (strip (py_str std amount @ '' '' @ py_str std currency)) else JNull);
           description = (if truthy (dget raw ''grant_description'') then dget raw ''grant_description''
                          else dget raw ''description'')
       in Inr (excerpt_of std [dget raw ''provider_name'', description, dget raw ''deadline'', amount_text],
               Some (Aware harvested_at 0)))"

fun as_text :: "json \<Rightarrow> string result" where
  "as_text (JStr s) = Inr s"
| "as_text _ = Inl TypeError"

definition countries_text :: "json \<Rightarrow> json result" where
  "countries_text v =
     (case v of
        JList (c # cs) \<Rightarrow> bindE (mapE as_text (c # cs)) (\<lambda>ts. Inr (JStr (join_with '', '' ts)))
      | _ \<Rightarrow> Inr JNull)"

definition opportunitydesk_to_record :: "stdlib \<Rightarrow> instant \<Rightarrow> dict \<Rightarrow> harvested_record option result" where
  "opportunitydesk_to_record std harvested_at =
     titled ''title'' ''application_url'' (\<lambda>raw.
       bindE (countries_text (dget raw ''eligible_countries'')) (\<lambda>countries.
         Inr (excerpt_of std [dget raw ''grant_amount'', dget raw ''deadline'', countries],
              Some (Aware harvested_at 0))))"

definition fastweb_to_record :: "stdlib \<Rightarrow> instant \<Rightarrow> dict \<Rightarrow> harvested_record option result" where
  "fastweb_to_record std harvested_at =
     titled ''title'' ''detail_url'' (\<lambda>raw.
       Inr (excerpt_of std [dget raw ''provider'', dget raw ''award'', dget raw ''deadline''],
            Some (Aware harvested_at 0)))"

definition careeronestop_to_record :: "stdlib \<Rightarrow> instant \<Rightarrow> dict \<Rightarrow> harvested_record option result" where
  "careeronestop_to_record std harvested_at =
     titled ''name'' ''url'' (\<lambda>raw.
       Inr (excerpt_of std [dget raw ''organization'', dget raw ''purpose'', dget raw ''award_amount'',
                            dget raw ''deadline''],
            Some (Aware harvested_at 0)))"

definition tavily_result_to_record :: "instant \<Rightarrow> dict \<Rightarrow> harvested_record option result" where
  "tavily_result_to_record harvested_at =
     titled ''title'' ''url'' (\<lambda>raw.
       bindE (text_field raw ''content'') (\<lambda>content.
         Inr (if content = [] then None else Some content, Some (Aware harvested_at 0))))"

section \<open>What the vendors return\<close>

text \<open>An SDK object is the dictionary of its attributes; the client copies the ones the mapping reads.\<close>

datatype sdk_call =
    Portal_search string string
  | Scanner_search string
  | Masters_search string
  | Desk_details
  | Fastweb_featured
  | Fastweb_by_major string
  | Career_search

definition pick :: "string list \<Rightarrow> dict \<Rightarrow> dict" where
  "pick keys obj = map (\<lambda>k. (k, dget obj k)) keys"

definition scholarship_to_dict :: "dict \<Rightarrow> dict" where
  "scholarship_to_dict obj =
     pick [''title'', ''url'', ''benefits'', ''deadline''] obj
     @ [(''provider'', case dget obj ''provider'' of JObj p \<Rightarrow> JObj [(''name'', dget p ''name'')] | _ \<Rightarrow> JNull)]"

definition opportunity_to_dict :: "dict \<Rightarrow> dict" where
  "opportunity_to_dict =
     pick [''title'', ''opportunity_url'', ''university'', ''department'', ''category'', ''created_at'']"

definition mastersportal_to_dict :: "dict \<Rightarrow> dict" where
  "mastersportal_to_dict =
     pick [''title'', ''url'', ''deadline'', ''description'', ''provider_name'', ''grant_amount'',
           ''grant_currency'', ''grant_description'']"

definition opportunitydesk_grant_to_dict :: "dict \<Rightarrow> dict" where
  "opportunitydesk_grant_to_dict =
     pick [''title'', ''application_url'', ''deadline'', ''eligible_countries'', ''grant_amount'']"

definition fastweb_to_dict :: "dict \<Rightarrow> dict" where
  "fastweb_to_dict = pick [''title'', ''detail_url'', ''provider'', ''award'', ''deadline'']"

definition careeronestop_to_dict :: "dict \<Rightarrow> dict" where
  "careeronestop_to_dict = pick [''name'', ''url'', ''organization'', ''purpose'', ''award_amount'', ''deadline'']"

type_synonym sdk = "sdk_call \<Rightarrow> dict list result"

definition ask :: "sdk \<Rightarrow> (dict \<Rightarrow> dict) \<Rightarrow> sdk_call \<Rightarrow> dict list result" where
  "ask sdk to_dict call = bindE (sdk call) (\<lambda>objs. Inr (map to_dict objs))"

definition PHDSCANNER_COUNTRY_NAMES :: "(string \<times> string) list" where
  "PHDSCANNER_COUNTRY_NAMES =
     [(''CA'', ''Canada''), (''GB'', ''United Kingdom''), (''US'', ''United States''), (''DE'', ''Germany''),
      (''FI'', ''Finland''), (''AU'', ''Australia''), (''TR'', ''Turkiye''), (''JP'', ''Japan''),
      (''KR'', ''South Korea''), (''CN'', ''China''), (''FR'', ''France''), (''SA'', ''Saudi Arabia''),
      (''NZ'', ''New Zealand'')]"

definition fetch_scholarshipportal :: "sdk \<Rightarrow> string \<Rightarrow> string \<Rightarrow> dict list result" where
  "fetch_scholarshipportal sdk dest level = ask sdk scholarship_to_dict (Portal_search dest level)"

definition fetch_phdscanner :: "sdk \<Rightarrow> string \<Rightarrow> dict list result" where
  "fetch_phdscanner sdk dest =
     (case map_of PHDSCANNER_COUNTRY_NAMES dest of
        None \<Rightarrow> Inr []
      | Some country \<Rightarrow> ask sdk opportunity_to_dict (Scanner_search country))"

definition fetch_mastersportal :: "sdk \<Rightarrow> string \<Rightarrow> dict list result" where
  "fetch_mastersportal sdk dest = ask sdk mastersportal_to_dict (Masters_search dest)"

definition fetch_opportunitydesk :: "sdk \<Rightarrow> dict list result" where
  "fetch_opportunitydesk sdk = ask sdk opportunitydesk_grant_to_dict Desk_details"

definition fetch_fastweb_featured :: "sdk \<Rightarrow> dict list result" where
  "fetch_fastweb_featured sdk = ask sdk fastweb_to_dict Fastweb_featured"

definition fetch_fastweb_by_major :: "sdk \<Rightarrow> string \<Rightarrow> dict list result" where
  "fetch_fastweb_by_major sdk major = ask sdk fastweb_to_dict (Fastweb_by_major major)"

definition fetch_careeronestop :: "sdk \<Rightarrow> dict list result" where
  "fetch_careeronestop sdk = ask sdk careeronestop_to_dict Career_search"

datatype search_reply = SearchBody json | SearchHTTPError string | SearchBadBody string

text \<open>The results of one query: a body that is no object has no \<open>get\<close>.\<close>

definition search_tavily :: "(string \<Rightarrow> search_reply) \<Rightarrow> string \<Rightarrow> json list result" where
  "search_tavily post query =
     (case post query of
        SearchHTTPError e \<Rightarrow> Inl (HTTPError e)
      | SearchBadBody e \<Rightarrow> Inl (ValueError e)
      | SearchBody (JObj data) \<Rightarrow> Inr (case dget data ''results'' of JList rs \<Rightarrow> rs | _ \<Rightarrow> [])
      | SearchBody _ \<Rightarrow> Inl AttributeError)"

section \<open>From items to feed rows\<close>

text \<open>The validation of \<open>FeedRecord\<close>: the URL by pydantic's \<open>HttpUrl\<close>, the lengths of title and excerpt.\<close>

definition to_feed_record ::
  "(string \<Rightarrow> string result) \<Rightarrow> uuid \<Rightarrow> harvested_record \<Rightarrow> feed_record result" where
  "to_feed_record http_url sid h =
     bindE (http_url (hr_url h)) (\<lambda>url.
       if hr_title h = [] \<or> length (hr_title h) > 500 \<or> length (or_empty (hr_excerpt h)) > 5000
       then Inl (ValueError ''validation error for FeedRecord'')
       else Inr \<lparr>fd_source_id = sid, fd_url = url, fd_title = hr_title h, fd_excerpt = hr_excerpt h,
                 fd_source_posted_at = None, fd_feed_created_at = hr_feed_created_at h\<rparr>)"

fun skipped_error :: "exn \<Rightarrow> bool" where
  "skipped_error (ValueError _) = True"
| "skipped_error OverflowError = True"
| "skipped_error _ = False"

text \<open>\<open>None\<close> is an item that was skipped; any other exception leaves the loop.\<close>

definition map_and_append ::
  "(string \<Rightarrow> string result) \<Rightarrow> uuid \<Rightarrow> (dict \<Rightarrow> harvested_record option result) \<Rightarrow> dict
   \<Rightarrow> feed_record option result" where
  "map_and_append http_url sid to_record raw =
     (case bindE (to_record raw) (\<lambda>mapped.
             case mapped of None \<Rightarrow> Inr None
                          | Some h \<Rightarrow> bindE (to_feed_record http_url sid h) (\<lambda>f. Inr (Some f))) of
        Inl e \<Rightarrow> (if skipped_error e then Inr None else Inl e)
      | Inr r \<Rightarrow> Inr r)"

fun map_items ::
  "(string \<Rightarrow> string result) \<Rightarrow> uuid \<Rightarrow> (dict \<Rightarrow> harvested_record option result) \<Rightarrow> dict list
   \<Rightarrow> (feed_record list \<times> nat) result" where
  "map_items http_url sid to_record [] = Inr ([], 0)"
| "map_items http_url sid to_record (raw # raws) =
     bindE (map_and_append http_url sid to_record raw) (\<lambda>r.
     bindE (map_items http_url sid to_record raws) (\<lambda>(rs, skipped).
       Inr (case r of Some f \<Rightarrow> (f # rs, skipped) | None \<Rightarrow> (rs, skipped + 1))))"

text \<open>The loop over the calls of one API: records, skipped items and failed calls.\<close>

fun gather_calls ::
  "(string \<Rightarrow> string result) \<Rightarrow> uuid \<Rightarrow> (dict \<Rightarrow> harvested_record option result) \<Rightarrow> dict list result list
   \<Rightarrow> (feed_record list \<times> nat \<times> nat) result" where
  "gather_calls http_url sid to_record [] = Inr ([], 0, 0)"
| "gather_calls http_url sid to_record (call # calls) =
     (case call of
        Inl _ \<Rightarrow>
          bindE (gather_calls http_url sid to_record calls) (\<lambda>(rs, skipped, failures).
            Inr (rs, skipped, failures + 1))
      | Inr raws \<Rightarrow>
          bindE (map_items http_url sid to_record raws) (\<lambda>(rs1, skipped1).
          bindE (gather_calls http_url sid to_record calls) (\<lambda>(rs, skipped, failures).
            Inr (rs1 @ rs, skipped1 + skipped, failures))))"

definition REPEATED_HARVEST_FAILURE_THRESHOLD :: int where
  "REPEATED_HARVEST_FAILURE_THRESHOLD = 3"

definition update_harvest_health :: "nat \<Rightarrow> nat \<Rightarrow> instant \<Rightarrow> source \<Rightarrow> source" where
  "update_harvest_health attempts failures now s =
     (if attempts = 0 then s
      else if failures < attempts then s\<lparr>so_consecutive_harvest_failures := 0\<rparr>
      else s\<lparr>so_consecutive_harvest_failures := so_consecutive_harvest_failures s + 1,
             so_last_harvest_failure_at := Some now\<rparr>)"

section \<open>The two harvests\<close>

definition sorted_destinations :: "string list" where
  "sorted_destinations =
     [''AU'', ''CA'', ''CN'', ''DE'', ''FI'', ''FR'', ''GB'', ''JP'', ''KR'', ''NZ'', ''SA'', ''TR'', ''US'']"

definition MAJORS :: "string list" where
  "MAJORS = [''Biology'', ''Nursing'', ''Business'', ''Engineering'', ''Computer Science'']"

record harvest_api =
  ha_source_name :: string
  ha_calls :: "dict list result list"
  ha_to_record :: "dict \<Rightarrow> harvested_record option result"

definition parsebot_apis :: "stdlib \<Rightarrow> sdk \<Rightarrow> instant \<Rightarrow> harvest_api list" where
  "parsebot_apis std sdk t =
     [\<lparr>ha_source_name = SCHOLARSHIPPORTAL_SOURCE_NAME,
       ha_calls = concat (map (\<lambda>dest. map (fetch_scholarshipportal sdk dest) [''master'', ''phd'']) sorted_destinations),
       ha_to_record = scholarship_to_record std t\<rparr>,
      \<lparr>ha_source_name = PHDSCANNER_SOURCE_NAME, ha_calls = map (fetch_phdscanner sdk) sorted_destinations,
       ha_to_record = opportunity_to_record std t\<rparr>,
      \<lparr>ha_source_name = MASTERSPORTAL_SOURCE_NAME, ha_calls = map (fetch_mastersportal sdk) sorted_destinations,
       ha_to_record = mastersportal_to_record std t\<rparr>,
      \<lparr>ha_source_name = OPPORTUNITYDESK_SOURCE_NAME, ha_calls = [fetch_opportunitydesk sdk],
       ha_to_record = opportunitydesk_to_record std t\<rparr>,
      \<lparr>ha_source_name = FASTWEB_SOURCE_NAME,
       ha_calls = fetch_fastweb_featured sdk # map (fetch_fastweb_by_major sdk) MAJORS,
       ha_to_record = fastweb_to_record std t\<rparr>,
      \<lparr>ha_source_name = CAREERONESTOP_SOURCE_NAME, ha_calls = [fetch_careeronestop sdk],
       ha_to_record = careeronestop_to_record std t\<rparr>]"

definition active_named :: "string \<Rightarrow> db \<Rightarrow> source option" where
  "active_named nm d = find (\<lambda>s. so_name s = nm \<and> so_active s) (sources d)"

text \<open>An API whose source is not active is not asked; an exception keeps the counters already written.\<close>

fun harvest_apis ::
  "(string \<Rightarrow> string result) \<Rightarrow> instant \<Rightarrow> harvest_api list \<Rightarrow> db \<Rightarrow> feed_record list result \<times> db" where
  "harvest_apis http_url now [] d = (Inr [], d)"
| "harvest_apis http_url now (api # apis) d =
     (case active_named (ha_source_name api) d of
        None \<Rightarrow> harvest_apis http_url now apis d
      | Some s \<Rightarrow>
          case gather_calls http_url (so_id s) (ha_to_record api) (ha_calls api) of
            Inl e \<Rightarrow> (Inl e, d)
          | Inr (rs, _, failures) \<Rightarrow>
              let health = update_harvest_health (length (ha_calls api)) failures now;
                  d1 = d\<lparr>sources := tmod so_id (so_id s) health (sources d)\<rparr>
              in map_prod (map_sum id (\<lambda>rest. rs @ rest)) id (harvest_apis http_url now apis d1))"

text \<open>
  A failing import is a database error: the session's transaction is lost, with the counters in it.
  The messages are those the import publishes.
\<close>

definition harvest_parsebot ::
  "stdlib \<Rightarrow> fetchlib \<Rightarrow> (string \<Rightarrow> string result) \<Rightarrow> sdk \<Rightarrow> settings \<Rightarrow> instant \<Rightarrow> db
   \<Rightarrow> qstash_message list result \<times> db" where
  "harvest_parsebot std fl http_url sdk st now d =
     (case harvest_apis http_url now (parsebot_apis std sdk now) d of
        (Inl e, d1) \<Rightarrow> (Inl e, d1)
      | (Inr records, d1) \<Rightarrow>
          if records = [] then (Inr [], d1)
          else case import_feed_records fl st now records d1 of
                 Inl e \<Rightarrow> (Inl e, d)
               | Inr (_, messages, d2) \<Rightarrow> (Inr messages, d2))"

definition tavily_queries :: "string list" where
  "tavily_queries =
     concat (map (\<lambda>dest. let country = (case map_of SEED_COUNTRIES dest of Some nm \<Rightarrow> nm | None \<Rightarrow> dest)
        in [''graduate scholarships '' @ country @ '' international students'',
            ''PhD scholarships '' @ country @ '' international students'']) sorted_destinations)"

fun as_dict :: "json \<Rightarrow> dict result" where
  "as_dict (JObj raw) = Inr raw"
| "as_dict _ = Inl AttributeError"

text \<open>The searches stop when the month's budget is spent; each granted call is committed.\<close>

fun tavily_searches ::
  "(string \<Rightarrow> string result) \<Rightarrow> (string \<Rightarrow> search_reply) \<Rightarrow> settings \<Rightarrow> instant \<Rightarrow> uuid \<Rightarrow> string list \<Rightarrow> db
   \<Rightarrow> feed_record list result \<times> db" where
  "tavily_searches http_url post st now sid [] d = (Inr [], d)"
| "tavily_searches http_url post st now sid (query # queries) d =
     (case reserve_call ''tavily'' (tavily_monthly_search_limit st) now d of
        (False, d1) \<Rightarrow> (Inr [], d1)
      | (True, d1) \<Rightarrow>
          case search_tavily post query of
            Inl (HTTPError _) \<Rightarrow> tavily_searches http_url post st now sid queries d1
          | Inl e \<Rightarrow> (Inl e, d1)
          | Inr raws \<Rightarrow>
              case bindE (mapE as_dict raws) (map_items http_url sid (tavily_result_to_record now)) of
                Inl e \<Rightarrow> (Inl e, d1)
              | Inr (rs, _) \<Rightarrow>
                  map_prod (map_sum id (\<lambda>rest. rs @ rest)) id (tavily_searches http_url post st now sid queries d1))"

definition harvest_tavily ::
  "fetchlib \<Rightarrow> (string \<Rightarrow> string result) \<Rightarrow> (string \<Rightarrow> search_reply) \<Rightarrow> settings \<Rightarrow> instant \<Rightarrow> db
   \<Rightarrow> qstash_message list result \<times> db" where
  "harvest_tavily fl http_url post st now d =
     (case active_named TAVILY_SOURCE_NAME d of
        None \<Rightarrow> (Inr [], d)
      | Some s \<Rightarrow>
          if \<not> is_set (tavily_api_key st) then (Inr [], d)
          else case tavily_searches http_url post st now (so_id s) tavily_queries d of
                 (Inl e, d1) \<Rightarrow> (Inl e, d1)
               | (Inr records, d1) \<Rightarrow>
                   if records = [] then (Inr [], d1)
                   else case import_feed_records fl st now records d1 of
                          Inl e \<Rightarrow> (Inl e, d1)
                        | Inr (_, messages, d2) \<Rightarrow> (Inr messages, d2))"

section \<open>Lemmas\<close>

lemma strip_Nil: "strip [] = []"
  by (simp add: strip_def)

lemma text_field_strip: "text_field raw k = Inr t \<Longrightarrow> strip t = t"
  by (auto simp: text_field_def Let_def strip_idem strip_Nil split: if_splits json.splits)

lemma titled_shape:
  "titled tk uk rest raw = Inr (Some h) \<Longrightarrow> hr_title h \<noteq> [] \<and> strip (hr_title h) = hr_title h"
  by (auto simp: titled_def bindE_eq_Inr dest: text_field_strip split: if_splits)

text \<open>What the importer may rely on.\<close>

definition well_typed :: "(string \<Rightarrow> string result) \<Rightarrow> uuid \<Rightarrow> feed_record \<Rightarrow> bool" where
  "well_typed http_url sid f \<longleftrightarrow>
     fd_source_id f = sid \<and> (\<exists>u. http_url u = Inr (fd_url f)) \<and> strip (fd_title f) = fd_title f
     \<and> fd_title f \<noteq> [] \<and> length (fd_title f) \<le> 500 \<and> length (or_empty (fd_excerpt f)) \<le> 5000"

definition titled_mapping :: "(dict \<Rightarrow> harvested_record option result) \<Rightarrow> bool" where
  "titled_mapping to_record \<longleftrightarrow> (\<exists>tk uk rest. to_record = titled tk uk rest)"

lemma map_and_append_typed:
  assumes "titled_mapping m" and "map_and_append http_url sid m raw = Inr (Some f)"
  shows "well_typed http_url sid f"
proof -
  from assms(2) obtain h where h: "m raw = Inr (Some h)" "to_feed_record http_url sid h = Inr f"
    by (auto simp: map_and_append_def bindE_eq_Inr split: sum.splits if_splits option.splits)
  from assms(1) h(1) have "strip (hr_title h) = hr_title h"
    by (auto simp: titled_mapping_def dest: titled_shape)
  with h(2) show ?thesis
    by (auto simp: to_feed_record_def well_typed_def bindE_eq_Inr split: if_splits)
qed

lemma map_items_typed:
  assumes "titled_mapping m" and "map_items http_url sid m raws = Inr (rs, n)"
  shows "\<forall>f \<in> set rs. well_typed http_url sid f"
  using assms(2)
proof (induction raws arbitrary: rs n)
  case (Cons raw raws)
  then obtain r rs' n' where "map_and_append http_url sid m raw = Inr r" "map_items http_url sid m raws = Inr (rs', n')"
    "rs = (case r of Some f \<Rightarrow> f # rs' | None \<Rightarrow> rs')"
    by (auto simp: bindE_eq_Inr split: option.splits)
  with Cons.IH map_and_append_typed [OF assms(1)] show ?case by (auto split: option.splits)
qed simp

lemma gather_calls_typed:
  assumes "titled_mapping m" and "gather_calls http_url sid m calls = Inr (rs, n, k)"
  shows "\<forall>f \<in> set rs. well_typed http_url sid f"
  using assms(2)
proof (induction calls arbitrary: rs n k)
  case (Cons call calls)
  show ?case
  proof (cases call)
    case (Inl e)
    with Cons show ?thesis by (auto simp: bindE_eq_Inr)
  next
    case (Inr raws)
    with Cons.prems obtain rs1 n1 rs2 n2 k2 where "map_items http_url sid m raws = Inr (rs1, n1)"
      "gather_calls http_url sid m calls = Inr (rs2, n2, k2)" "rs = rs1 @ rs2"
      by (auto simp: bindE_eq_Inr)
    with Cons.IH map_items_typed [OF assms(1)] show ?thesis by auto
  qed
qed simp

lemma active_named_Some: "active_named nm d = Some s \<Longrightarrow> s \<in> set (sources d) \<and> so_active s \<and> so_name s = nm"
  by (auto simp: active_named_def find_Some_iff)

lemma update_harvest_health_sel [simp]:
  "so_id (update_harvest_health a k now s) = so_id s" "so_active (update_harvest_health a k now s) = so_active s"
  by (simp_all add: update_harvest_health_def)

lemma active_after_health:
  "(\<exists>x \<in> set (tmod so_id i (update_harvest_health a k now) ss). so_id x = j \<and> so_active x)
     \<longleftrightarrow> (\<exists>x \<in> set ss. so_id x = j \<and> so_active x)"
  by (induction ss) auto

lemma harvest_apis_typed:
  assumes "\<forall>api \<in> set apis. titled_mapping (ha_to_record api)" and "harvest_apis http_url now apis d = (Inr rs, d')"
    and "f \<in> set rs"
  shows "well_typed http_url (fd_source_id f) f \<and> (\<exists>s \<in> set (sources d). so_id s = fd_source_id f \<and> so_active s)"
  using assms
proof (induction apis arbitrary: d rs d')
  case (Cons api apis)
  show ?case
  proof (cases "active_named (ha_source_name api) d")
    case None
    with Cons show ?thesis by auto
  next
    case (Some s)
    with Cons.prems(2) obtain rs1 n k where g: "gather_calls http_url (so_id s) (ha_to_record api) (ha_calls api) = Inr (rs1, n, k)"
      by (cases "gather_calls http_url (so_id s) (ha_to_record api) (ha_calls api)") auto
    let ?d = "d\<lparr>sources := tmod so_id (so_id s) (update_harvest_health (length (ha_calls api)) k now) (sources d)\<rparr>"
    from Some g Cons.prems(2) obtain rs2 where rest: "harvest_apis http_url now apis ?d = (Inr rs2, d')" "rs = rs1 @ rs2"
      by (cases "harvest_apis http_url now apis ?d"; cases "fst (harvest_apis http_url now apis ?d)") auto
    show ?thesis
    proof (cases "f \<in> set rs1")
      case True
      with gather_calls_typed [OF _ g] Cons.prems(1) have "well_typed http_url (so_id s) f" by simp
      with active_named_Some [OF Some] show ?thesis by (auto simp: well_typed_def)
    next
      case False
      with Cons.prems(3) rest(2) have "f \<in> set rs2" by simp
      from Cons.IH [OF _ rest(1) this] Cons.prems(1) show ?thesis by (simp add: active_after_health)
    qed
  qed
qed simp

lemma parsebot_mappings: "\<forall>api \<in> set (parsebot_apis std sdk t). titled_mapping (ha_to_record api)"
  by (auto simp: parsebot_apis_def titled_mapping_def scholarship_to_record_def opportunity_to_record_def
      mastersportal_to_record_def opportunitydesk_to_record_def fastweb_to_record_def careeronestop_to_record_def)

section \<open>Properties\<close>


lemma text_field_raises:
  "truthy (dget raw k) \<Longrightarrow> \<forall>t. dget raw k \<noteq> JStr t \<Longrightarrow> text_field raw k = Inl AttributeError"
  by (cases "dget raw k") (auto simp: text_field_def Let_def)

lemma map_items_raises:
  "raw \<in> set raws \<Longrightarrow> map_and_append http_url sid m raw = Inl e \<Longrightarrow> \<exists>e'. map_items http_url sid m raws = Inl e'"
proof (induction raws)
  case (Cons x xs)
  show ?case
  proof (cases "raw = x")
    case True
    with Cons show ?thesis by simp
  next
    case False
    with Cons obtain e' where "map_items http_url sid m xs = Inl e'" by auto
    then show ?thesis by (cases "map_and_append http_url sid m x") auto
  qed
qed simp

text \<open>
  One malformed item loses the run: a search result whose title is a number makes the whole harvest
  raise, and nothing that was found before it is imported.
\<close>

theorem malformed_item_aborts_harvest:
  assumes "active_named TAVILY_SOURCE_NAME d = Some s" and "is_set (tavily_api_key st)"
    and "reserve_call ''tavily'' (tavily_monthly_search_limit st) now d = (True, d1)"
    and "search_tavily post (hd tavily_queries) = Inr raws" and "JObj raw \<in> set raws"
    and "truthy (dget raw ''title'')" and "\<forall>t. dget raw ''title'' \<noteq> JStr t"
  shows "\<exists>e. harvest_tavily fl http_url post st now d = (Inl e, d1) \<and> discoveries d1 = discoveries d"
proof -
  obtain q qs where q: "tavily_queries = q # qs"
    by (auto simp: tavily_queries_def sorted_destinations_def Let_def)
  have "map_and_append http_url (so_id s) (tavily_result_to_record now) raw = Inl AttributeError"
    by (simp add: map_and_append_def tavily_result_to_record_def titled_def text_field_raises [OF assms(6,7)])
  moreover have "raw \<in> set dicts" if "mapE as_dict raws = Inr dicts" for dicts
    using mapE_eq_Inr_ball [OF that assms(5)] by auto
  ultimately obtain e where
    "bindE (mapE as_dict raws) (map_items http_url (so_id s) (tavily_result_to_record now)) = Inl e"
    by (cases "mapE as_dict raws") (auto dest: map_items_raises)
  with assms(3,4) have "tavily_searches http_url post st now (so_id s) tavily_queries d = (Inl e, d1)"
    by (simp add: q)
  with assms(1,2) reserve_call_catalogue [OF assms(3)] show ?thesis
    by (simp add: harvest_tavily_def same_catalogue_def)
qed

text \<open>A search service whose first answer has a good item and one with a number for a title.\<close>

definition demo_search :: "string \<Rightarrow> search_reply" where
  "demo_search _ = SearchBody (JObj [(''results'', JList
     [JObj [(''title'', JStr ''Grant''), (''url'', JStr ''https://demo.org/apply'')],
      JObj [(''title'', JInt 2030), (''url'', JStr ''https://demo.org/apply'')]])])"

definition demo_harvest_db :: db where
  "demo_harvest_db = empty_db\<lparr>sources := [demo_official\<lparr>so_name := TAVILY_SOURCE_NAME\<rparr>]\<rparr>"

theorem malformed_item_aborts_harvest_witness:
  "\<exists>e d1. harvest_tavily demo_fetch Inr demo_search (default_settings\<lparr>tavily_api_key := Some ''k''\<rparr>) 0 demo_harvest_db
     = (Inl e, d1)"
proof -
  obtain d1 where budget: "reserve_call ''tavily'' 900 0 demo_harvest_db = (True, d1)"
    by (simp add: reserve_call_def demo_harvest_db_def empty_db_def Let_def)
  have "active_named TAVILY_SOURCE_NAME demo_harvest_db = Some (demo_official\<lparr>so_name := TAVILY_SOURCE_NAME\<rparr>)"
    by (simp add: active_named_def demo_harvest_db_def demo_official_def)
  moreover have "is_set (tavily_api_key (default_settings\<lparr>tavily_api_key := Some ''k''\<rparr>))" by simp
  moreover have "tavily_monthly_search_limit (default_settings\<lparr>tavily_api_key := Some ''k''\<rparr>) = 900"
    by (simp add: default_settings_def)
  moreover have "search_tavily demo_search (hd tavily_queries) =
      Inr [JObj [(''title'', JStr ''Grant''), (''url'', JStr ''https://demo.org/apply'')],
           JObj [(''title'', JInt 2030), (''url'', JStr ''https://demo.org/apply'')]]" (is "_ = Inr ?raws")
    by (simp add: demo_search_def search_tavily_def)
  moreover have "JObj [(''title'', JInt 2030), (''url'', JStr ''https://demo.org/apply'')] \<in> set ?raws" by simp
  ultimately show ?thesis
    using malformed_item_aborts_harvest [of demo_harvest_db _ "default_settings\<lparr>tavily_api_key := Some ''k''\<rparr>" 0 d1
        demo_search ?raws "[(''title'', JInt 2030), (''url'', JStr ''https://demo.org/apply'')]" demo_fetch Inr] budget
    by (simp del: set_simps) blast
qed

text \<open>A marketplace of which one API answers one item.\<close>

definition demo_sdk :: sdk where
  "demo_sdk call = (if call = Career_search
     then Inr [[(''name'', JStr '' Grant ''), (''url'', JStr ''https://demo.org/apply'')]] else Inl (HTTPError []))"

lemma demo_sdk_run:
  "\<exists>d' f. harvest_apis Inr 0 (parsebot_apis demo_std demo_sdk 0)
     (empty_db\<lparr>sources := [demo_official\<lparr>so_name := CAREERONESTOP_SOURCE_NAME\<rparr>]\<rparr>) = (Inr [f], d')
     \<and> fd_title f = ''Grant''"
  by (simp add: parsebot_apis_def active_named_def demo_official_def CAREERONESTOP_SOURCE_NAME_def
      SCHOLARSHIPPORTAL_SOURCE_NAME_def PHDSCANNER_SOURCE_NAME_def MASTERSPORTAL_SOURCE_NAME_def
      OPPORTUNITYDESK_SOURCE_NAME_def FASTWEB_SOURCE_NAME_def fetch_careeronestop_def ask_def demo_sdk_def
      careeronestop_to_dict_def pick_def map_and_append_def careeronestop_to_record_def titled_def text_field_def
      Let_def strip_def to_feed_record_def excerpt_of_def or_empty_def)


end
