(* ===== verification/Worker.thy ===== *)
theory Worker
  imports Harvest
begin

text \<open>
  The worker (\<open>src/src/app/infra/worker.py\<close>): the handler of every job kind, the execution of one claimed
  job, and the batch that a sweep runs. A sweep is itself a job and may run another sweep that is due;
  the number of nested sweeps is bounded by a fuel, and enough fuel is proved to be the number of sweeps
  that are due.

  A rollback of a transaction in progress expires every object the session has loaded; reading one
  afterwards raises, as \<open>src/src/app/infra/freshness.py\<close> explains. Handlers therefore say whether they
  rolled back.
\<close>

section \<open>Handlers\<close>

record world = approvallib +
  wl_settings :: settings
  wl_draws :: "nat \<Rightarrow> rat"
  wl_core :: "json \<Rightarrow> catalogue_reply"
  wl_posthog :: "json \<Rightarrow> send_outcome"
  wl_sdk :: sdk
  wl_search :: "string \<Rightarrow> search_reply"
  wl_locked :: "uuid \<Rightarrow> bool"

definition normalize_row :: "discovery \<Rightarrow> discovery" where
  "normalize_row r =
     r\<lparr>di_normalized_identity_key := Some (nd_identity_key (normalize_discovery (or_empty (di_raw_title r)) None)),
       di_processing_state := ''normalized''\<rparr>"

definition normalize_job :: "dict \<Rightarrow> db \<Rightarrow> db result" where
  "normalize_job payload d =
     bindE (payload_uuid payload ''discovery_id'') (\<lambda>did.
       case tget di_id did (discoveries d) of
         None \<Rightarrow> Inl (LookupError ''Discovery not found'')
       | Some r \<Rightarrow> Inr (put_discovery (normalize_row r) d))"

definition extract_job :: "routerlib \<Rightarrow> settings \<Rightarrow> instant \<Rightarrow> dict \<Rightarrow> db \<Rightarrow> unit result \<times> db" where
  "extract_job rl st now payload d =
     (case payload_uuid payload ''discovery_id'' of
        Inl e \<Rightarrow> (Inl e, d)
      | Inr did \<Rightarrow>
          case tget di_id did (discoveries d) of
            None \<Rightarrow> (Inl (LookupError ''Discovery not found''), d)
          | Some r \<Rightarrow>
              case extract_and_store_facts rl st now True r of (res, r1) \<Rightarrow> (res, put_discovery r1 d))"

definition set_draft :: "dict \<Rightarrow> review_task \<Rightarrow> review_task" where
  "set_draft draft t = t\<lparr>rt_draft_recommendation := Some draft\<rparr>"

definition prepare_review_job :: "dict \<Rightarrow> db \<Rightarrow> db result" where
  "prepare_review_job payload d =
     bindE (payload_uuid payload ''review_task_id'') (\<lambda>tid.
       case tget rt_id tid (review_tasks d) of
         None \<Rightarrow> Inl (LookupError ''Review task not found'')
       | Some t \<Rightarrow>
           (case rt_discovery_id t of
              None \<Rightarrow> Inr d
            | Some did \<Rightarrow>
                (case tget di_id did (discoveries d) of
                   None \<Rightarrow> Inl (LookupError ''Discovery not found'')
                 | Some r \<Rightarrow>
                     let draft = draft_review_recommendation (di_raw_title r) (di_raw_excerpt r)
                                   (di_extracted_facts r) (names (load_vocabulary d))
                     in Inr (d\<lparr>review_tasks := tmod rt_id tid (set_draft draft) (review_tasks d)\<rparr>))))"

definition sync_job :: "stdlib \<Rightarrow> (json \<Rightarrow> catalogue_reply) \<Rightarrow> settings \<Rightarrow> instant \<Rightarrow> db \<Rightarrow> db result" where
  "sync_job std core st now d =
     (if \<not> is_set (core_base_url st) then Inl (ValueError ''CORE_BASE_URL is not configured'')
      else bindE (sync_countries std core now d) (\<lambda>(_, d'). Inr d'))"

section \<open>The approval sweep\<close>

definition sweepable :: "settings \<Rightarrow> instant \<Rightarrow> db \<Rightarrow> review_task \<Rightarrow> bool" where
  "sweepable st now d t =
     (rt_state t = ''open''
      \<and> (case rt_discovery_id t of
           None \<Rightarrow> False
         | Some did \<Rightarrow>
             (case tget di_id did (discoveries d) of
                None \<Rightarrow> False
              | Some r \<Rightarrow> di_auto_review_evaluated_at r = None
                         \<and> di_created_at r \<le> now - hours (auto_approve_min_age_hours st))))"

definition sweep_candidates :: "settings \<Rightarrow> instant \<Rightarrow> db \<Rightarrow> uuid list" where
  "sweep_candidates st now d =
     take (auto_approve_sweep_batch_limit st)
       (map rt_id (sort_key rt_created_at (filter (sweepable st now d) (review_tasks d))))"

record sweep_report =
  sw_evaluated :: nat
  sw_approved :: nat
  sw_raised :: nat

fun attempt_all :: "world \<Rightarrow> instant \<Rightarrow> nat \<Rightarrow> uuid list \<Rightarrow> db \<Rightarrow> sweep_report \<times> db" where
  "attempt_all w now k [] d = (\<lparr>sw_evaluated = 0, sw_approved = 0, sw_raised = 0\<rparr>, d)"
| "attempt_all w now k (tid # tids) d =
     (case attempt_auto_approval ((approvallib.truncate w)\<lparr>vl_draw := wl_draws w k\<rparr>) (wl_settings w) now tid d of
        (res, d1) \<Rightarrow>
          case attempt_all w now (k + 1) tids d1 of
            (r, d2) \<Rightarrow>
              (\<lparr>sw_evaluated = sw_evaluated r + 1,
                sw_approved = sw_approved r + (case res of Inr oc \<Rightarrow> if ao_approved oc then 1 else 0 | Inl _ \<Rightarrow> 0),
                sw_raised = sw_raised r + (case res of Inr _ \<Rightarrow> 0 | Inl _ \<Rightarrow> 1)\<rparr>, d2))"

definition auto_approve_sweep :: "world \<Rightarrow> instant \<Rightarrow> db \<Rightarrow> sweep_report \<times> db" where
  "auto_approve_sweep w now d =
     (if \<not> auto_approve_enabled (wl_settings w) then (\<lparr>sw_evaluated = 0, sw_approved = 0, sw_raised = 0\<rparr>, d)
      else attempt_all w now 0 (sweep_candidates (wl_settings w) now d) d)"

section \<open>Executing one job\<close>

text \<open>The outcome of a handler: its result, whether it rolled back, and the database.\<close>

type_synonym outcome = "unit result \<times> bool \<times> db"

definition done_with :: "db \<Rightarrow> db result \<Rightarrow> outcome" where
  "done_with d r = (case r of Inl e \<Rightarrow> (Inl e, False, d) | Inr d' \<Rightarrow> (Inr (), False, d'))"

definition left_with :: "'a result \<times> db \<Rightarrow> outcome" where
  "left_with rd = (case fst rd of Inl e \<Rightarrow> Inl e | Inr _ \<Rightarrow> Inr (), False, snd rd)"

definition run_handler ::
  "world \<Rightarrow> instant \<Rightarrow> (db \<Rightarrow> bool \<times> db) \<Rightarrow> string \<Rightarrow> dict \<Rightarrow> db \<Rightarrow> outcome" where
  "run_handler w now sweep kind payload d =
     (let st = wl_settings w
      in if kind = ''normalize_discovery'' then done_with d (normalize_job payload d)
         else if kind = ''link_canonical''
         then (case payload_uuid payload ''discovery_id'' of
                 Inl e \<Rightarrow> (Inl e, False, d)
               | Inr did \<Rightarrow> left_with (link_discovery (vl_router w) st now did d))
         else if kind = ''fetch_source_page''
         then (case payload_uuid payload ''page_id'' of
                 Inl e \<Rightarrow> (Inl e, False, d)
               | Inr pid \<Rightarrow> left_with (fetch_and_persist_page (vl_fetch w) st now pid None d))
         else if kind = ''dispatch_outbox''
         then done_with d (bindE (dispatch_analytics_events (vl_std w) st (wl_posthog w) now (wl_locked w) 100 d)
                             (\<lambda>(_, d'). Inr d'))
         else if kind = ''reconcile_stuck_jobs''
         then (Inr (), False, snd (reconcile_stuck_jobs now (wl_locked w) 100 d))
         else if kind = ''sweep_due_jobs'' then (case sweep d of (lost, d') \<Rightarrow> (Inr (), lost, d'))
         else if kind = ''sync_countries'' then done_with d (sync_job (vl_std w) (wl_core w) st now d)
         else if kind = ''extract_candidate'' then left_with (extract_job (vl_router w) st now payload d)
         else if kind = ''prepare_review'' then done_with d (prepare_review_job payload d)
         else if kind = ''harvest_parsebot''
         then left_with (harvest_parsebot (vl_std w) (vl_fetch w) (vl_http_url w) (wl_sdk w) st now d)
         else if kind = ''harvest_tavily''
         then left_with (harvest_tavily (vl_fetch w) (vl_http_url w) (wl_search w) st now d)
         else if kind = ''refresh_status''
         then (Inr (), False, snd (refresh_due_statuses (vl_std w) st now (wl_locked w) None d))
         else if kind = ''reverify_due''
         then (case reverify_due_cycles (vl_std w) (vl_fetch w) st now None d of
                 Inl e \<Rightarrow> (Inl e, False, d)
               | Inr (r, d') \<Rightarrow> (Inr (), rv_renewed r + rv_flagged r + rv_deferred r < rv_checked r, d'))
         else if kind = ''auto_approve_sweep''
         then (case auto_approve_sweep w now d of (r, d') \<Rightarrow> (Inr (), sw_raised r > 0, d'))
         else (Inl (ValueError (''No worker handler for '' @ kind)), False, d))"

text \<open>
  After a database error the session refuses every write until it is rolled back: recording the failure
  raises too, and the job stays claimed.
\<close>

fun session_lost :: "exn \<Rightarrow> bool" where
  "session_lost IntegrityError = True"
| "session_lost DataError = True"
| "session_lost _ = False"

fun exn_text :: "exn \<Rightarrow> string" where
  "exn_text (ValueError m) = m"
| "exn_text (LookupError m) = m"
| "exn_text (HTTPError m) = m"
| "exn_text (RuntimeError m) = m"
| "exn_text _ = []"

definition execute_with :: "world \<Rightarrow> instant \<Rightarrow> (db \<Rightarrow> bool \<times> db) \<Rightarrow> uuid \<Rightarrow> db \<Rightarrow> outcome" where
  "execute_with w now sweep job_id d =
     (case claim_job_for_execution now job_id d of
        Inl e \<Rightarrow> (Inl e, True, d)
      | Inr (job, d1) \<Rightarrow>
          case run_handler w now sweep (pj_kind job) (pj_payload job) d1 of
            (Inr _, lost, d2) \<Rightarrow> (Inr (), lost, complete_job job d2)
          | (Inl e, lost, d2) \<Rightarrow>
              if session_lost e then (Inl e, True, d2)
              else (Inl e, lost, fail_job_for_execution now job (exn_text e) d2))"

section \<open>The batch\<close>

text \<open>
  The loop over the due jobs reads \<open>due.job_id\<close> of each: once a rollback has expired the rows of the
  batch, every later one fails before it is claimed.
\<close>

record batch_report =
  bt_completed :: nat
  bt_failed :: nat

fun run_batch :: "(uuid \<Rightarrow> db \<Rightarrow> outcome) \<Rightarrow> uuid list \<Rightarrow> db \<Rightarrow> batch_report \<times> bool \<times> db" where
  "run_batch execute [] d = (\<lparr>bt_completed = 0, bt_failed = 0\<rparr>, False, d)"
| "run_batch execute (i # is) d =
     (case execute i d of
        (res, lost, d1) \<Rightarrow>
          let ok = (case res of Inr _ \<Rightarrow> 1 | Inl _ \<Rightarrow> 0); bad = (case res of Inr _ \<Rightarrow> 0 | Inl _ \<Rightarrow> 1)
          in if lost then (\<lparr>bt_completed = ok, bt_failed = bad + length is\<rparr>, True, d1)
             else case run_batch execute is d1 of
                    (r, lost', d2) \<Rightarrow>
                      (\<lparr>bt_completed = bt_completed r + ok, bt_failed = bt_failed r + bad\<rparr>, lost', d2))"

definition batch_ids :: "world \<Rightarrow> instant \<Rightarrow> nat \<Rightarrow> db \<Rightarrow> uuid list" where
  "batch_ids w now limit d = map pj_id (due_jobs now (wl_locked w) limit d)"

definition SWEEP_LIMIT :: nat where
  "SWEEP_LIMIT = 200"

primrec execute_job :: "nat \<Rightarrow> world \<Rightarrow> instant \<Rightarrow> uuid \<Rightarrow> db \<Rightarrow> outcome" where
  "execute_job 0 w now = execute_with w now (\<lambda>d. (False, d))"
| "execute_job (Suc n) w now =
     execute_with w now (\<lambda>d. snd (run_batch (execute_job n w now) (batch_ids w now SWEEP_LIMIT d) d))"

definition execute_due_jobs :: "nat \<Rightarrow> world \<Rightarrow> instant \<Rightarrow> nat \<Rightarrow> db \<Rightarrow> batch_report \<times> bool \<times> db" where
  "execute_due_jobs fuel w now limit d = run_batch (execute_job fuel w now) (batch_ids w now limit d) d"

section \<open>What a run does to the job table\<close>

definition is_sweep :: "processing_job \<Rightarrow> bool" where
  "is_sweep j \<longleftrightarrow> pj_kind j = ''sweep_due_jobs''"

text \<open>
  \<open>calm\<close>: rows keep their ids, kinds and keys, no row becomes due, and what is added is newer and no sweep.
\<close>

definition calm_row :: "instant \<Rightarrow> (processing_job \<Rightarrow> processing_job) \<Rightarrow> bool" where
  "calm_row now f \<longleftrightarrow>
     (\<forall>j. pj_id (f j) = pj_id j \<and> pj_kind (f j) = pj_kind j \<and> pj_dedupe_key (f j) = pj_dedupe_key j \<and> (due_predicate now (f j) \<longrightarrow> due_predicate now j))"

definition calm :: "instant \<Rightarrow> db \<Rightarrow> db \<Rightarrow> bool" where
  "calm now d d' \<longleftrightarrow> next_id d \<le> next_id d' \<and>
     (\<exists>f js. jobs d' = map f (jobs d) @ js \<and> calm_row now f
        \<and> (\<forall>j \<in> set js. next_id d \<le> pj_id j \<and> pj_id j < next_id d' \<and> \<not> is_sweep j))"

lemma calm_row_id: "calm_row now (\<lambda>j. j)"
  by (simp add: calm_row_def)

lemma calm_rowI:
  "(\<And>j. pj_id (f j) = pj_id j \<and> pj_kind (f j) = pj_kind j \<and> pj_dedupe_key (f j) = pj_dedupe_key j \<and> \<not> due_predicate now (f j)) \<Longrightarrow> calm_row now f"
  by (simp add: calm_row_def)

lemma calm_row_if: "calm_row now f \<Longrightarrow> calm_row now (\<lambda>j. if P j then f j else j)"
  by (simp add: calm_row_def)

lemma calm_row_comp: "calm_row now f \<Longrightarrow> calm_row now g \<Longrightarrow> calm_row now (g \<circ> f)"
  unfolding calm_row_def comp_def by metis

lemma calmI:
  "jobs d' = map f (jobs d) @ js \<Longrightarrow> calm_row now f \<Longrightarrow> next_id d \<le> next_id d' \<Longrightarrow>
   \<forall>j \<in> set js. next_id d \<le> pj_id j \<and> pj_id j < next_id d' \<and> \<not> is_sweep j \<Longrightarrow> calm now d d'"
  unfolding calm_def by blast

lemma calm_rows: "jobs d' = map f (jobs d) \<Longrightarrow> calm_row now f \<Longrightarrow> next_id d \<le> next_id d' \<Longrightarrow> calm now d d'"
  by (rule calmI [where f = f and js = "[]"]) simp_all

lemma calm_add:
  "jobs d' = jobs d @ js \<Longrightarrow> next_id d \<le> next_id d' \<Longrightarrow>
   \<forall>j \<in> set js. next_id d \<le> pj_id j \<and> pj_id j < next_id d' \<and> \<not> is_sweep j \<Longrightarrow> calm now d d'"
  by (rule calmI [where f = "\<lambda>j. j" and js = js]) (simp_all add: calm_row_id)

lemma calm_same: "jobs d' = jobs d \<Longrightarrow> next_id d \<le> next_id d' \<Longrightarrow> calm now d d'"
  by (rule calm_add [where js = "[]"]) simp_all

lemma calm_refl [simp]: "calm now d d"
  by (simp add: calm_same)

lemma calm_trans:
  assumes "calm now d d1" and "calm now d1 d2"
  shows "calm now d d2"
proof -
  from assms obtain f js g ks where
    f: "jobs d1 = map f (jobs d) @ js" "calm_row now f" "\<forall>j \<in> set js. next_id d \<le> pj_id j \<and> pj_id j < next_id d1 \<and> \<not> is_sweep j"
    and g: "jobs d2 = map g (jobs d1) @ ks" "calm_row now g" "\<forall>j \<in> set ks. next_id d1 \<le> pj_id j \<and> pj_id j < next_id d2 \<and> \<not> is_sweep j"
    and n: "next_id d \<le> next_id d1" "next_id d1 \<le> next_id d2"
    unfolding calm_def by blast
  have "jobs d2 = map (g \<circ> f) (jobs d) @ (map g js @ ks)" using f(1) g(1) by simp
  moreover have "\<forall>j \<in> set (map g js @ ks). next_id d \<le> pj_id j \<and> pj_id j < next_id d2 \<and> \<not> is_sweep j"
    using f(3) g(2,3) n by (fastforce simp: calm_row_def is_sweep_def)
  ultimately show ?thesis
    using calm_row_comp [OF f(2) g(2)] n by (auto intro: calmI)
qed

subsection \<open>The rows the queue writes\<close>

lemma not_due:
  "pj_state j = Running \<or> pj_state j = Completed \<or> pj_state j = Failed_review
     \<or> (\<exists>t. pj_next_attempt_at j = Some t \<and> t > now) \<Longrightarrow> \<not> due_predicate now j"
  by (auto simp: due_predicate_def)

lemma later_attempt: "now < now + seconds (backoff_seconds n)"
  using backoff_bounds [of n] by (simp add: seconds_def)

lemma failed_not_due:
  assumes "pj_state job = Running" and "\<forall>t. pj_next_attempt_at job = Some t \<longrightarrow> t \<le> now"
  shows "\<not> due_predicate now (fail_row (fail_job k n e now) job r)"
proof -
  have "pj_next_attempt_at job \<noteq> Some (now + seconds (backoff_seconds n))"
  proof
    assume "pj_next_attempt_at job = Some (now + seconds (backoff_seconds n))"
    with assms(2) have "now + seconds (backoff_seconds n) \<le> now" by blast
    with later_attempt [of now n] show False by simp
  qed
  then show ?thesis
    using assms(1) later_attempt [of now n]
    by (intro not_due) (auto simp: fail_row_def fail_job_def flush_def)
qed

text \<open>A write of one row, or of several, that leaves each of them not due.\<close>

definition settling :: "instant \<Rightarrow> (processing_job \<Rightarrow> processing_job) \<Rightarrow> bool" where
  "settling now f \<longleftrightarrow> (\<forall>j. pj_id (f j) = pj_id j \<and> pj_kind (f j) = pj_kind j \<and> pj_dedupe_key (f j) = pj_dedupe_key j \<and> \<not> due_predicate now (f j))"

lemma settling_calm_row: "settling now f \<Longrightarrow> calm_row now (\<lambda>j. if P j then f j else j)"
  by (simp add: settling_def calm_row_def)

lemma settling_claim: "tr_state t = Running \<Longrightarrow> settling now (claim_row now' t)"
  by (simp add: settling_def claim_row_def not_due)

lemma settling_complete: "pj_state job = Running \<Longrightarrow> settling now (complete_row job)"
  by (simp add: settling_def complete_row_def finish_job_def flush_def not_due)

lemma settling_fail:
  "pj_state job = Running \<Longrightarrow> \<forall>t. pj_next_attempt_at job = Some t \<longrightarrow> t \<le> now \<Longrightarrow>
   settling now (fail_row (fail_job k n e now) job)"
  by (simp add: settling_def failed_not_due)

lemma reap_not_due: "\<not> due_predicate now (reap_row now j)"
  using later_attempt [of now "pj_attempts j"]
  by (intro not_due) (auto simp: reap_row_def fail_row_def fail_job_def)

lemma settling_reap: "settling now (reap_row now)"
  by (simp add: settling_def reap_not_due)

lemma tmod_calm:
  "jobs d' = tmod pj_id k f (jobs d) \<Longrightarrow> settling now f \<Longrightarrow> next_id d \<le> next_id d' \<Longrightarrow> calm now d d'"
  unfolding tmod_def by (rule calm_rows [OF _ settling_calm_row])

lemma tmods_rows: "settling now f \<Longrightarrow> \<exists>g. tmods pj_id ks f rows = map g rows \<and> calm_row now g"
proof (induction ks arbitrary: rows)
  case Nil
  show ?case by (intro exI [of _ "\<lambda>j. j"]) (simp add: tmods_def calm_row_id)
next
  case (Cons k ks)
  from Cons.IH [OF Cons.prems, of "tmod pj_id k f rows"] obtain g where
    g: "tmods pj_id ks f (tmod pj_id k f rows) = map g (tmod pj_id k f rows)" "calm_row now g" by blast
  have "tmods pj_id (k # ks) f rows = map (g \<circ> (\<lambda>j. if pj_id j = k then f j else j)) rows"
    using g(1) by (simp add: tmods_def tmod_def)
  with calm_row_comp [OF settling_calm_row [OF Cons.prems, of "\<lambda>j. pj_id j = k"] g(2)] show ?case by blast
qed

lemma claimed:
  assumes "claim_job_for_execution now jid d = Inr (job, d1)"
  shows "pj_state job = Running \<and> (\<forall>t. pj_next_attempt_at job = Some t \<longrightarrow> t \<le> now) \<and> pj_id job = jid
    \<and> (\<exists>row. tget pj_id jid (jobs d) = Some row \<and> due_predicate now row \<and> pj_kind job = pj_kind row
         \<and> pj_payload job = pj_payload row)
    \<and> (\<exists>t. jobs d1 = tmod pj_id jid (claim_row now t) (jobs d) \<and> tr_state t = Running) \<and> next_id d1 = next_id d"
proof -
  from assms obtain row t where r: "tget pj_id jid (jobs d) = Some row"
    "claim_job (pj_state row) (pj_attempts row) now (pj_next_attempt_at row) = Inr t"
    "job = claim_row now t row" "d1 = d\<lparr>jobs := tmod pj_id jid (claim_row now t) (jobs d)\<rparr>"
    by (auto simp: claim_job_for_execution_def bindE_eq_Inr split: option.splits)
  from r(2) have "tr_state t = Running" "due_predicate now row"
    "\<forall>t. pj_next_attempt_at row = Some t \<longrightarrow> t \<le> now"
    by (auto simp: claim_job_def due_predicate_def split: if_splits option.splits)
  with r tget_SomeD [OF r(1)] show ?thesis by (auto simp: claim_row_def)
qed

lemma claim_calm: "claim_job_for_execution now jid d = Inr (job, d1) \<Longrightarrow> calm now d d1"
  by (drule claimed) (auto intro: tmod_calm settling_claim)

lemma complete_calm: "pj_state job = Running \<Longrightarrow> calm now d (complete_job job d)"
  by (rule tmod_calm [OF _ settling_complete]) (simp_all add: complete_job_def)

lemma fail_calm:
  "pj_state job = Running \<Longrightarrow> \<forall>t. pj_next_attempt_at job = Some t \<longrightarrow> t \<le> now \<Longrightarrow>
   calm now d (fail_job_for_execution now job e d)"
  by (rule tmod_calm [OF _ settling_fail]) (simp_all add: fail_job_for_execution_def Let_def)

lemma reconcile_calm: "calm now d (snd (reconcile_stuck_jobs now locked limit d))"
proof -
  obtain ks where d': "snd (reconcile_stuck_jobs now locked limit d)
      = d\<lparr>jobs := tmods pj_id ks (reap_row now) (jobs d)\<rparr>"
    by (simp add: reconcile_stuck_jobs_def Let_def)
  obtain g where "tmods pj_id ks (reap_row now) (jobs d) = map g (jobs d)" "calm_row now g"
    using tmods_rows [OF settling_reap] by blast
  then show ?thesis unfolding d' by (auto intro: calm_rows)
qed

subsection \<open>What the handlers do to it\<close>

text \<open>\<open>quiet\<close>: the job table is left alone.\<close>

definition quiet :: "db \<Rightarrow> db \<Rightarrow> bool" where
  "quiet d d' \<longleftrightarrow> jobs d' = jobs d \<and> next_id d \<le> next_id d'"

lemma quiet_calm: "quiet d d' \<Longrightarrow> calm now d d'"
  by (simp add: quiet_def calm_same)

lemma quiet_refl [simp]: "quiet d d"
  by (simp add: quiet_def)

lemma quiet_trans: "quiet d d1 \<Longrightarrow> quiet d1 d2 \<Longrightarrow> quiet d d2"
  by (simp add: quiet_def)

lemma put_discovery_quiet [simp]: "quiet d (put_discovery r d)"
  by (simp add: quiet_def put_discovery_def)

lemma rows_quiet [simp]: "quiet d (d\<lparr>cycles := cs\<rparr>)" "quiet d (d\<lparr>sources := ss\<rparr>)" "quiet d (d\<lparr>review_tasks := ts\<rparr>)"
  by (simp_all add: quiet_def)

lemma reserve_call_quiet: "reserve_call p l now d = (ok, d') \<Longrightarrow> quiet d d'"
  by (auto simp: quiet_def reserve_call_def Let_def split: option.splits if_splits)

lemma fetch_page_quiet: "fetch_and_persist_page fl st now pid ov d = (r, d') \<Longrightarrow> quiet d d'"
proof -
  have jina: "try_jina_fallback fl st now url d = (r, d') \<Longrightarrow> quiet d d'" for url r d'
    by (auto simp: try_jina_fallback_def split: if_splits prod.splits bool.splits option.splits
        dest: reserve_call_quiet)
  have fallback: "fetch_with_jina_fallback fl st now url ds d = (r, d') \<Longrightarrow> quiet d d'" for url ds r d'
    by (auto simp: fetch_with_jina_fallback_def split: sum.splits exn.splits option.splits prod.splits if_splits
        dest: jina)
  show "fetch_and_persist_page fl st now pid ov d = (r, d') \<Longrightarrow> quiet d d'"
    by (auto simp: fetch_and_persist_page_def new_uuid7_def Let_def quiet_def
        split: option.splits if_splits prod.splits sum.splits dest: fallback [unfolded quiet_def])
qed

lemma open_task_quiet [simp]: "quiet d (snd (open_cycle_review_task now c reason draft d))"
  by (simp add: quiet_def open_cycle_review_task_def new_uuid7_def Let_def)

lemma get_page_quiet: "get_or_create_source_page nl sid c d = Inr (page, d') \<Longrightarrow> quiet d d'"
  by (auto simp: get_or_create_source_page_def quiet_def link_cycle_page_def new_uuid7_def bindE_eq_Inr Let_def
      split: option.splits)

lemma fetch_cycle_quiet:
  "fetch_cycle_page fl st now sid c d = (r, d', committed) \<Longrightarrow> quiet d d' \<and> quiet d committed"
proof -
  assume run: "fetch_cycle_page fl st now sid c d = (r, d', committed)"
  show ?thesis
  proof (cases "get_or_create_source_page (fl_net fl) sid c d")
    case (Inl e)
    with run show ?thesis by (auto simp: fetch_cycle_page_def)
  next
    case (Inr pd)
    obtain page d1 where pd: "pd = (page, d1)" by (cases pd)
    have 1: "quiet d d1" using get_page_quiet Inr pd by simp
    show ?thesis
      using run Inr pd 1 quiet_trans [OF 1 fetch_page_quiet]
      by (auto simp: fetch_cycle_page_def Let_def split: sum.splits prod.splits option.splits if_splits)
  qed
qed

lemma judge_quiet: "judge_recheck std cfg now c page prev d = Inr (oc, d') \<Longrightarrow> quiet d d'"
proof -
  have flag: "defer_or_flag std cfg now c reason d = Inr (oc, d') \<Longrightarrow> quiet d d'" for reason
    by (auto simp: defer_or_flag_def bindE_eq_Inr split: if_splits)
  show "judge_recheck std cfg now c page prev d = Inr (oc, d') \<Longrightarrow> quiet d d'"
    by (auto simp: judge_recheck_def Let_def bindE_eq_Inr split: if_split_asm dest: flag)
qed

lemma reverify_one_quiet: "reverify_one_cycle std fl st now sid c d = (oc, d') \<Longrightarrow> quiet d d'"
proof -
  assume run: "reverify_one_cycle std fl st now sid c d = (oc, d')"
  obtain fetched d1 dc where f: "fetch_cycle_page fl st now sid c d = (fetched, d1, dc)"
    by (cases "fetch_cycle_page fl st now sid c d")
  have q: "quiet d d1" "quiet d dc" using fetch_cycle_quiet [OF f] by auto
  have flag: "defer_or_flag std cfg now c reason d1 = Inr (oc', d2) \<Longrightarrow> quiet d1 d2" for cfg reason oc' d2
    by (auto simp: defer_or_flag_def bindE_eq_Inr split: if_splits)
  show ?thesis
    using run f q by (auto split: sum.splits option.splits prod.splits simp: reverify_one_cycle_def
        dest!: flag judge_quiet intro: quiet_trans)
qed

lemma reverify_all_quiet: "reverify_all std fl st now sid is (r, d) = (r', d') \<Longrightarrow> quiet d d'"
proof (induction "is" arbitrary: r d)
  case (Cons i "is")
  show ?case
  proof (cases "find (\<lambda>c. cy_id c = i \<and> is_published d c) (cycles d)")
    case None
    with Cons show ?thesis by simp
  next
    case (Some c)
    obtain oc d1 where one: "reverify_one_cycle std fl st now sid c d = (oc, d1)"
      by (cases "reverify_one_cycle std fl st now sid c d")
    from Cons.prems Some one obtain r1 where "reverify_all std fl st now sid is (r1, d1) = (r', d')"
      by (cases oc) (auto simp: Let_def)
    from Cons.IH [OF this] reverify_one_quiet [OF one] show ?thesis by (blast intro: quiet_trans)
  qed
qed simp

lemma reverify_quiet: "reverify_due_cycles std fl st now limit d = Inr (r, d') \<Longrightarrow> quiet d d'"
  by (auto simp: reverify_due_cycles_def Let_def bindE_eq_Inr split: option.splits if_splits
      dest: reverify_all_quiet)

lemma refresh_quiet: "quiet d (snd (refresh_due_statuses std st now locked limit d))"
  by (simp add: quiet_def refresh_due_statuses_def Let_def)

lemma dispatch_quiet: "dispatch_analytics_events std st post now locked limit d = Inr (r, d') \<Longrightarrow> quiet d d'"
  by (auto simp: dispatch_analytics_events_def Let_def quiet_def split: if_splits send_outcome.splits)

lemma sync_quiet: "sync_countries std core now d = Inr (n, d') \<Longrightarrow> quiet d d'"
proof -
  have one: "upsert now e x = Inr y \<Longrightarrow> quiet x y" for e x y
    by (auto simp: upsert_def bindE_eq_Inr put_country_def new_uuid7_def quiet_def split: if_splits)
  have "upsert_all now es x = Inr y \<Longrightarrow> quiet x y" for es x y
  proof (induction es arbitrary: x)
    case (Cons e es)
    then obtain z where "upsert now e x = Inr z" "upsert_all now es z = Inr y" by (auto simp: bindE_eq_Inr)
    with Cons.IH one show ?case by (blast intro: quiet_trans)
  qed simp
  then show "sync_countries std core now d = Inr (n, d') \<Longrightarrow> quiet d d'"
    by (auto simp: sync_countries_def bindE_eq_Inr split: if_splits)
qed

lemma decide_quiet: "decide_review tid rq d = Inr (r, d') \<Longrightarrow> quiet d d'"
  by (auto simp: decide_review_def approve_discovery_def insert_scholarship_def new_uuid7_def quiet_def
      bindE_eq_Inr Let_def split: option.splits if_splits)

lemma publish_quiet: "publish_cycle now sid cc actor d = Inr (c, d') \<Longrightarrow> quiet d d'"
  by (auto simp: publish_cycle_def new_uuid7_def quiet_def Let_def split: option.splits if_splits)

lemma seal_quiet: "quiet d (seal_approval st q now did sid cid score snap d)"
  by (simp add: seal_approval_def set_evaluated_def new_uuid7_def quiet_def Let_def)

lemma stopped_quiet: "stopped now did s d = (res, d') \<Longrightarrow> quiet d d'"
  by (cases s) (auto simp: quiet_def set_evaluated_def)

lemma verify_quiet: "fetch_and_verify_source fl rl st now r s d = (res, d') \<Longrightarrow> quiet d d'"
proof -
  have page: "fetch_page_text fl st now url ds d = (r', x) \<Longrightarrow> quiet d x" for url ds r' x
    by (auto simp: fetch_page_text_def split: prod.splits if_splits option.splits dest: reserve_call_quiet)
  show "fetch_and_verify_source fl rl st now r s d = (res, d') \<Longrightarrow> quiet d d'"
    by (auto simp: fetch_and_verify_source_def store_verification_def new_uuid7_def Let_def quiet_def
        split: sum.splits prod.splits dest!: page [unfolded quiet_def])
qed

lemma approve_quiet: "approve_candidate lib st now tid r s cb v a d = (res, d') \<Longrightarrow> quiet d d'"
proof -
  assume run: "approve_candidate lib st now tid r s cb v a d = (res, d')"
  then consider "d' = d" | sid rq where "decide_review tid rq d = Inr (sid, d')"
    | sid rq d1 c d2 x score snap where "decide_review tid rq d = Inr (Some sid, d1)"
      "publish_approved (vl_std lib) now sid v a d1 = Inr (c, d2)"
      "d' = seal_approval st (vl_draw lib) now (di_id r) sid x score snap d2"
    by (auto simp: approve_candidate_def Let_def split: sum.splits option.splits prod.splits if_splits)
  then show ?thesis
  proof cases
    case 3
    then have "quiet d1 d2" by (auto simp: publish_approved_def bindE_eq_Inr dest: publish_quiet)
    with decide_quiet [OF 3(1)] seal_quiet 3(3) show ?thesis by (blast intro: quiet_trans)
  qed (auto dest: decide_quiet)
qed

lemma attempt_quiet: "attempt_auto_approval lib st now tid d = (res, d') \<Longrightarrow> quiet d d'"
  unfolding attempt_auto_approval_def
  by (auto simp del: stopped.simps split: sum.split_asm prod.split_asm if_split_asm
      dest!: stopped_quiet approve_quiet verify_quiet intro: quiet_trans)

lemma attempt_all_quiet: "attempt_all w now k tids d = (r, d') \<Longrightarrow> quiet d d'"
proof (induction w now k tids d arbitrary: r d' rule: attempt_all.induct)
  case (2 w now k tid tids d)
  from "2.prems" obtain res d1 r1 where
    one: "attempt_auto_approval ((approvallib.truncate w)\<lparr>vl_draw := wl_draws w k\<rparr>) (wl_settings w) now tid d = (res, d1)"
    and rest: "attempt_all w now (k + 1) tids d1 = (r1, d')"
    by (auto split: prod.splits)
  from "2.IH" [OF one [symmetric] rest] attempt_quiet [OF one] show ?case by (blast intro: quiet_trans)
qed simp

lemma sweep_quiet: "auto_approve_sweep w now d = (r, d') \<Longrightarrow> quiet d d'"
  by (auto simp: auto_approve_sweep_def split: if_splits dest: attempt_all_quiet)

subsection \<open>The handlers that add jobs\<close>

lemma review_task_calm: "add_review_task_once now did reason priority d = Inr d' \<Longrightarrow> calm now d d'"
proof -
  assume run: "add_review_task_once now did reason priority d = Inr d'"
  show ?thesis
  proof (cases "\<exists>t \<in> set (review_tasks d). live_task t \<and> rt_discovery_id t = Some did")
    case True
    with run show ?thesis by (simp add: add_review_task_once_def)
  next
    case False
    with run obtain key p x e where "enqueue_job ''prepare_review'' key p e = Inr (x, d')"
      and e: "jobs e = jobs d" "next_id e = Suc (next_id d)"
      by (auto simp: add_review_task_once_def new_uuid7_def Let_def map_sum_def split: sum.splits)
    then have "(\<exists>j. jobs d' = jobs d @ [j] \<and> pj_id j = Suc (next_id d) \<and> \<not> is_sweep j) \<or> jobs d' = jobs d"
      and "next_id d' = Suc (Suc (next_id d))"
      by (cases x, auto dest!: enqueue_job_jobs simp: new_job_def is_sweep_def split: if_splits)+
    then show ?thesis by (auto intro: calm_add calm_same)
  qed
qed

lemma link_calm: "link_discovery rl st now did d = (r, d') \<Longrightarrow> calm now d d'"
proof -
  have queue: "queue_for_review rl st now decision x e = (y, e') \<Longrightarrow> calm now e e'" for decision x e y e'
    by (auto simp: queue_for_review_def Let_def split: prod.splits sum.splits
        intro: quiet_calm calm_trans [OF quiet_calm [OF put_discovery_quiet]] dest: review_task_calm)
  show "link_discovery rl st now did d = (r, d') \<Longrightarrow> calm now d d'"
    by (auto simp: link_discovery_def Let_def split: option.split_asm sum.split_asm if_split_asm
        intro: quiet_calm dest: queue)
qed

text \<open>An import adds jobs of the two kinds every new lead has.\<close>

lemma insert_jobs_calm:
  "insert_jobs run ps d = Inr d' \<Longrightarrow> \<forall>p \<in> set ps. pn_kind p \<noteq> ''sweep_due_jobs'' \<Longrightarrow> calm now d d'"
proof (induction ps arbitrary: d)
  case (Cons p ps)
  then obtain d1 where one: "insert_job (pn_kind p) (pn_dedupe_key p) (pn_payload p) run d = Inr d1"
    and rest: "insert_jobs run ps d1 = Inr d'"
    by (auto simp: bindE_eq_Inr)
  from one Cons.prems(2) have "calm now d d1"
    by (auto simp: insert_job_def new_uuid7_def new_job_def is_sweep_def split: if_splits intro!: calm_add)
  with Cons.IH [OF rest] Cons.prems(2) show ?case by (auto intro: calm_trans)
qed simp

lemma import_record_calm:
  assumes "import_record fl now run rec d = Inr (b, ps, d')"
  shows "calm now' d d'"
  using assms
proof (cases rule: import_record_cases)
  case (invalid raw reason)
  then show ?thesis by (auto intro!: calm_same simp: quarantine_record_def new_uuid7_def)
next
  case (repeated cand s pid)
  then show ?thesis by (auto intro!: calm_same simp: seen_page_def new_uuid7_def split: option.splits)
next
  case (fresh cand s pid d1)
  have "calm now' d d1"
    using fresh(3) by (auto intro!: calm_same simp: seen_page_def new_uuid7_def split: option.splits)
  moreover have "calm now' d1 d'"
  proof -
    from fresh(4) obtain i key d2 where "insert_jobs run (discovery_jobs i key) d2 = Inr d'"
      "jobs d2 = jobs d1" "next_id d2 = Suc (next_id d1)"
      by (auto simp: add_discovery_def new_uuid7_def bindE_eq_Inr Let_def split: if_splits)
    moreover have "\<forall>p \<in> set (discovery_jobs i key). pn_kind p \<noteq> ''sweep_due_jobs''"
      by (simp add: discovery_jobs_def Let_def)
    ultimately show ?thesis by (auto intro: calm_trans [OF calm_same insert_jobs_calm])
  qed
  ultimately show ?thesis by (rule calm_trans)
qed

lemma import_calm: "import_feed_records fl st now rs d = Inr (oc, ms, d') \<Longrightarrow> calm now' d d'"
proof -
  assume run: "import_feed_records fl st now rs d = Inr (oc, ms, d')"
  have records: "import_records fl now run rs d1 = Inr (bs, ps, d2) \<Longrightarrow> calm now' d1 d2" for run rs d1 bs ps d2
  proof (induction rs arbitrary: d1 bs ps)
    case (Cons r rs)
    then obtain b qs d3 cs ts where "import_record fl now run r d1 = Inr (b, qs, d3)"
      "import_records fl now run rs d3 = Inr (cs, ts, d2)"
      by (auto simp: bindE_eq_Inr)
    with Cons.IH show ?case by (blast intro: calm_trans import_record_calm)
  qed simp
  from run obtain i d1 bs ps d2 oc' where 1: "start_run now rs d = (i, d1)"
    "import_records fl now i rs d1 = Inr (bs, ps, d2)"
    "d' = d2\<lparr>crawl_runs := tmod cr_id i (finish_run now oc') (crawl_runs d2)\<rparr>"
    by (auto simp: import_feed_records_def bindE_eq_Inr Let_def split: prod.splits)
  have "calm now' d d1" using 1(1) by (auto simp: start_run_def new_uuid7_def Let_def intro!: calm_same)
  moreover have "calm now' d2 d'" using 1(3) by (auto intro!: calm_same)
  ultimately show ?thesis using records [OF 1(2)] by (blast intro: calm_trans)
qed

text \<open>The harvests write sources and the research budget, and import.\<close>

lemma harvest_apis_writes: "harvest_apis http_url now apis d = (r, d') \<Longrightarrow> \<exists>ss. d' = d\<lparr>sources := ss\<rparr>"
proof (induction apis arbitrary: d r)
  case Nil
  then show ?case by (auto intro: exI [of _ "sources d"])
next
  case (Cons api apis)
  show ?case
  proof (cases "active_named (ha_source_name api) d")
    case None
    with Cons show ?thesis by simp
  next
    case (Some s)
    show ?thesis
    proof (cases "gather_calls http_url (so_id s) (ha_to_record api) (ha_calls api)")
      case (Inl e)
      with Cons.prems Some show ?thesis by (auto intro: exI [of _ "sources d"])
    next
      case (Inr x)
      obtain rs k failures where "x = (rs, k, failures)" by (cases x)
      with Cons.prems Some Inr obtain ss r1 where "harvest_apis http_url now apis (d\<lparr>sources := ss\<rparr>) = (r1, d')"
        by (auto simp: Let_def map_prod_def split: prod.splits)
      from Cons.IH [OF this] show ?thesis by auto
    qed
  qed
qed

lemma reserve_call_writes: "reserve_call p l now d = (ok, d') \<Longrightarrow> \<exists>us. d' = d\<lparr>usage := us\<rparr>"
  by (auto simp: reserve_call_def Let_def split: option.splits if_splits intro: exI [of _ "usage d"])

lemma tavily_writes: "tavily_searches http_url post st now sid qs d = (r, d') \<Longrightarrow> \<exists>us. d' = d\<lparr>usage := us\<rparr>"
proof (induction qs arbitrary: d r)
  case Nil
  then show ?case by (auto intro: exI [of _ "usage d"])
next
  case (Cons q qs)
  obtain ok d1 where res: "reserve_call ''tavily'' (tavily_monthly_search_limit st) now d = (ok, d1)"
    by (cases "reserve_call ''tavily'' (tavily_monthly_search_limit st) now d")
  from Cons.prems res have "d' = d1 \<or> (\<exists>r1. tavily_searches http_url post st now sid qs d1 = (r1, d'))"
    by (auto simp: map_prod_def split: bool.splits sum.splits exn.splits prod.splits)
  with reserve_call_writes [OF res] Cons.IH show ?case by fastforce
qed

lemma harvest_apis_quiet: "harvest_apis http_url now apis d = (r, d') \<Longrightarrow> quiet d d'"
  by (auto dest!: harvest_apis_writes simp: quiet_def)

lemma tavily_quiet: "tavily_searches http_url post st now sid qs d = (r, d') \<Longrightarrow> quiet d d'"
  by (auto dest!: tavily_writes simp: quiet_def)

lemma harvest_parsebot_calm: "harvest_parsebot std fl http_url sdk st now d = (r, d') \<Longrightarrow> calm now d d'"
  unfolding harvest_parsebot_def
  by (auto split: prod.split_asm sum.split_asm if_split_asm
      dest!: harvest_apis_quiet import_calm [where now' = now] intro: quiet_calm calm_trans)

lemma harvest_tavily_calm: "harvest_tavily fl http_url post st now d = (r, d') \<Longrightarrow> calm now d d'"
  unfolding harvest_tavily_def
  by (auto split: prod.split_asm sum.split_asm if_split_asm option.split_asm
      dest!: tavily_quiet import_calm [where now' = now] intro: quiet_calm calm_trans)

text \<open>Every handler is calm when the sweep it may start is.\<close>

lemma done_with_cases: "done_with d r = (res, lost, d') \<Longrightarrow> d' = d \<or> r = Inr d'"
  by (auto simp: done_with_def split: sum.splits)

lemma left_with_cases: "left_with rd = (res, lost, d') \<Longrightarrow> \<exists>r. rd = (r, d')"
  by (cases rd) (auto simp: left_with_def)

lemma normalize_quiet: "normalize_job payload d = Inr d' \<Longrightarrow> quiet d d'"
  by (auto simp: normalize_job_def bindE_eq_Inr split: option.splits)

lemma extract_quiet: "extract_job rl st now payload d = (r, d') \<Longrightarrow> quiet d d'"
  by (auto simp: extract_job_def split: sum.splits option.splits prod.splits)

lemma prepare_quiet: "prepare_review_job payload d = Inr d' \<Longrightarrow> quiet d d'"
  unfolding prepare_review_job_def bindE_eq_Inr
  by (elim exE conjE) (auto simp: Let_def split: option.split_asm)

lemma sync_job_quiet: "sync_job std core st now d = Inr d' \<Longrightarrow> quiet d d'"
  by (auto simp: sync_job_def bindE_eq_Inr split: if_splits dest: sync_quiet)

lemmas handler_quiet = normalize_quiet extract_quiet prepare_quiet sync_job_quiet fetch_page_quiet dispatch_quiet
  reverify_quiet sweep_quiet

lemma handler_calm:
  assumes "run_handler w now sweep kind payload d = (res, lost, d')"
    and "kind = ''sweep_due_jobs'' \<Longrightarrow> calm now d (snd (sweep d))"
  shows "calm now d d'"
  using assms(1) unfolding run_handler_def Let_def
  by (auto split: if_split_asm sum.split_asm prod.split_asm simp: bindE_eq_Inr reconcile_calm
        refresh_quiet [THEN quiet_calm]
      dest!: left_with_cases done_with_cases
      dest: assms(2) handler_quiet [THEN quiet_calm [where now = now]] link_calm harvest_parsebot_calm harvest_tavily_calm)

section \<open>A run settles its job\<close>

lemma execute_cases:
  assumes "execute_with w now sweep i d = (res, lost, d')"
  obtains (refused) e where "claim_job_for_execution now i d = Inl e" "res = Inl e" "lost" "d' = d"
  | (completed) job d1 d2 u where "claim_job_for_execution now i d = Inr (job, d1)"
      "run_handler w now sweep (pj_kind job) (pj_payload job) d1 = (Inr u, lost, d2)"
      "res = Inr ()" "d' = complete_job job d2"
  | (failed) job d1 d2 e lost' where "claim_job_for_execution now i d = Inr (job, d1)"
      "run_handler w now sweep (pj_kind job) (pj_payload job) d1 = (Inl e, lost', d2)" "res = Inl e"
      "if session_lost e then lost \<and> d' = d2
       else lost = lost' \<and> d' = fail_job_for_execution now job (exn_text e) d2"
proof (cases "claim_job_for_execution now i d")
  case (Inl e)
  with assms show ?thesis by (auto simp: execute_with_def intro: refused)
next
  case (Inr jd)
  then obtain job d1 where claim: "claim_job_for_execution now i d = Inr (job, d1)" by (cases jd) simp
  obtain out lost' d2 where run: "run_handler w now sweep (pj_kind job) (pj_payload job) d1 = (out, lost', d2)"
    by (cases "run_handler w now sweep (pj_kind job) (pj_payload job) d1")
  show ?thesis
  proof (cases out)
    case (Inl e)
    with assms claim run show ?thesis
      by (intro failed [of job d1 e lost' d2]) (simp_all add: execute_with_def split: if_split_asm)
  next
    case (Inr u)
    with assms claim run show ?thesis by (intro completed [of job d1 u d2]) (simp_all add: execute_with_def)
  qed
qed

lemma execute_with_calm:
  assumes "execute_with w now sweep i d = (res, lost, d')" and "\<And>x. calm now x (snd (sweep x))"
  shows "calm now d d'"
  using assms(1)
proof (cases rule: execute_cases)
  case (completed job d1 d2 u)
  with claimed [OF completed(1)] show ?thesis
    using claim_calm handler_calm [OF completed(2) assms(2)] complete_calm by (blast intro: calm_trans)
next
  case (failed job d1 d2 e lost')
  from claim_calm [OF failed(1)] handler_calm [OF failed(2) assms(2)] have 1: "calm now d d2" by (rule calm_trans)
  show ?thesis
    using failed(4) 1 claimed [OF failed(1)] fail_calm [of job now d2 "exn_text e"]
    by (auto split: if_splits intro: calm_trans)
qed simp

lemma run_batch_calm:
  assumes "\<And>i x res lost y. execute i x = (res, lost, y) \<Longrightarrow> calm now x y"
  shows "run_batch execute is d = (r, lost, d') \<Longrightarrow> calm now d d'"
proof (induction "is" arbitrary: d r lost)
  case (Cons i "is")
  obtain res l d1 where one: "execute i d = (res, l, d1)" by (cases "execute i d")
  show ?case
  proof (cases l)
    case True
    with Cons.prems one have "d' = d1" by (auto simp: Let_def)
    with assms [OF one] show ?thesis by simp
  next
    case False
    with Cons.prems one obtain r' where "run_batch execute is d1 = (r', lost, d')"
      by (auto simp: Let_def split: prod.splits)
    from Cons.IH [OF this] assms [OF one] show ?thesis by (blast intro: calm_trans)
  qed
qed simp

lemma execute_job_calm: "execute_job n w now i d = (res, lost, d') \<Longrightarrow> calm now d d'"
proof (induction n arbitrary: i d res lost d')
  case 0
  then show ?case by (simp add: execute_with_calm)
next
  case (Suc n)
  have "calm now x (snd (snd (run_batch (execute_job n w now) is x)))" for x "is"
    by (cases "run_batch (execute_job n w now) is x") (auto intro: run_batch_calm [OF Suc.IH])
  then show ?case by (rule execute_with_calm [OF Suc.prems [unfolded execute_job.simps(2)]])
qed

section \<open>Sweeps that run sweeps\<close>

definition due_sweeps :: "instant \<Rightarrow> db \<Rightarrow> uuid set" where
  "due_sweeps now d = pj_id ` {j \<in> set (jobs d). is_sweep j \<and> due_predicate now j}"

lemma finite_due_sweeps [simp]: "finite (due_sweeps now d)"
  by (simp add: due_sweeps_def)

lemma calm_due_sweeps: "calm now d d' \<Longrightarrow> due_sweeps now d' \<subseteq> due_sweeps now d"
proof
  fix i assume "calm now d d'" "i \<in> due_sweeps now d'"
  then obtain f js j where f: "jobs d' = map f (jobs d) @ js" "calm_row now f" "\<forall>j \<in> set js. \<not> is_sweep j"
    and j: "j \<in> set (jobs d')" "is_sweep j" "due_predicate now j" "i = pj_id j"
    unfolding calm_def due_sweeps_def by blast
  from f j(1,2) obtain j0 where "j0 \<in> set (jobs d)" "j = f j0" by auto
  with f(2) j(2,3,4) have "is_sweep j0 \<and> due_predicate now j0 \<and> pj_id j0 = i"
    by (simp add: calm_row_def is_sweep_def)
  with \<open>j0 \<in> set (jobs d)\<close> show "i \<in> due_sweeps now d" unfolding due_sweeps_def by blast
qed

lemma claim_due_sweeps:
  assumes "claim_job_for_execution now i d = Inr (job, d1)" and "pj_kind job = ''sweep_due_jobs''"
  shows "card (due_sweeps now d1) < card (due_sweeps now d)"
proof -
  from claimed [OF assms(1)] obtain row t where row: "tget pj_id i (jobs d) = Some row" "due_predicate now row"
    "pj_kind job = pj_kind row" and d1: "jobs d1 = tmod pj_id i (claim_row now t) (jobs d)" "tr_state t = Running"
    by blast
  have "i \<in> due_sweeps now d"
    using row assms(2) tget_SomeD [OF row(1)] by (auto simp: due_sweeps_def is_sweep_def)
  moreover have "i \<notin> due_sweeps now d1"
  proof
    assume "i \<in> due_sweeps now d1"
    then obtain j where j: "j \<in> set (tmod pj_id i (claim_row now t) (jobs d))" "due_predicate now j" "pj_id j = i"
      unfolding due_sweeps_def d1 by blast
    from j(1,3) obtain j0 where "j = claim_row now t j0" by (auto simp: tmod_def claim_row_def split: if_splits)
    with j(2) d1(2) show False by (simp add: claim_row_def due_predicate_def)
  qed
  ultimately have "due_sweeps now d1 \<subset> due_sweeps now d"
    using calm_due_sweeps [OF claim_calm [OF assms(1)]] by blast
  then show ?thesis by (simp add: psubset_card_mono)
qed

lemma run_batch_cong:
  assumes "\<And>i x. card (due_sweeps now x) \<le> k \<Longrightarrow> f i x = g i x"
    and "\<And>i x res lost y. f i x = (res, lost, y) \<Longrightarrow> calm now x y"
  shows "card (due_sweeps now d) \<le> k \<Longrightarrow> run_batch f is d = run_batch g is d"
proof (induction "is" arbitrary: d)
  case (Cons i "is")
  obtain res l d1 where one: "f i d = (res, l, d1)" by (cases "f i d")
  have "card (due_sweeps now d1) \<le> k"
    using calm_due_sweeps [OF assms(2) [OF one]] Cons.prems by (meson card_mono finite_due_sweeps order_trans)
  from Cons.IH [OF this] one assms(1) [OF Cons.prems, of i] show ?case by (simp add: Let_def)
qed simp

lemma handler_sweep_only:
  "kind = ''sweep_due_jobs'' \<longrightarrow> sweep d = sweep' d \<Longrightarrow>
   run_handler w now sweep kind payload d = run_handler w now sweep' kind payload d"
  by (cases "kind = ''sweep_due_jobs''") (simp_all add: run_handler_def Let_def)

lemma execute_with_cong:
  assumes "\<And>job d1. claim_job_for_execution now i d = Inr (job, d1) \<Longrightarrow> pj_kind job = ''sweep_due_jobs'' \<Longrightarrow> s d1 = s' d1"
  shows "execute_with w now s i d = execute_with w now s' i d"
proof (cases "claim_job_for_execution now i d")
  case (Inr jd)
  then obtain job d1 where jd: "jd = (job, d1)" by (cases jd)
  have "run_handler w now s (pj_kind job) (pj_payload job) d1 = run_handler w now s' (pj_kind job) (pj_payload job) d1"
    using assms Inr jd by (intro handler_sweep_only) simp
  with Inr jd show ?thesis by (simp only: execute_with_def sum.case prod.case)
qed (simp add: execute_with_def)

lemma fuel_step: "card (due_sweeps now d) \<le> n \<Longrightarrow> execute_job (Suc n) w now i d = execute_job n w now i d"
proof (induction n arbitrary: i d)
  case 0
  show ?case
    unfolding execute_job.simps using claim_due_sweeps 0 by (intro execute_with_cong) fastforce
next
  case (Suc n)
  have more: "execute_job (Suc m) w now i d
      = execute_with w now (\<lambda>d. snd (run_batch (execute_job m w now) (batch_ids w now SWEEP_LIMIT d) d)) i d" for m
    by (rule execute_job.simps(2) [THEN fun_cong, THEN fun_cong])
  have "execute_with w now (\<lambda>d. snd (run_batch (execute_job (Suc n) w now) (batch_ids w now SWEEP_LIMIT d) d)) i d
      = execute_with w now (\<lambda>d. snd (run_batch (execute_job n w now) (batch_ids w now SWEEP_LIMIT d) d)) i d"
  proof (rule execute_with_cong)
    fix job d1
    assume claim: "claim_job_for_execution now i d = Inr (job, d1)" "pj_kind job = ''sweep_due_jobs''"
    with claim_due_sweeps [OF claim] Suc.prems have "card (due_sweeps now d1) \<le> n" by simp
    from run_batch_cong [where f = "execute_job (Suc n) w now" and g = "execute_job n w now", OF Suc.IH execute_job_calm this]
    show "snd (run_batch (execute_job (Suc n) w now) (batch_ids w now SWEEP_LIMIT d1) d1)
        = snd (run_batch (execute_job n w now) (batch_ids w now SWEEP_LIMIT d1) d1)" by (rule arg_cong [where f = snd])
  qed
  then show ?case unfolding more [symmetric] .
qed

lemma fuel_enough: "card (due_sweeps now d) \<le> n \<Longrightarrow> execute_job (n + k) w now i d = execute_job n w now i d"
  by (induction k) (simp_all add: fuel_step del: execute_job.simps)

section \<open>What a batch leaves behind\<close>

definition settled_job :: "instant \<Rightarrow> uuid \<Rightarrow> db \<Rightarrow> bool" where
  "settled_job now i d \<longleftrightarrow> (\<forall>j \<in> set (jobs d). pj_id j = i \<longrightarrow> \<not> due_predicate now j)"

lemma calm_next: "calm now d d' \<Longrightarrow> next_id d \<le> next_id d'"
  by (simp add: calm_def)

text \<open>A row that is due after a calm run was due before it or is new.\<close>

lemma calm_due:
  assumes "calm now d d'" and "j \<in> set (jobs d')" and "due_predicate now j"
  shows "(\<exists>j0 \<in> set (jobs d). pj_id j0 = pj_id j \<and> due_predicate now j0) \<or> next_id d \<le> pj_id j"
proof -
  from assms(1) obtain f js where f: "jobs d' = map f (jobs d) @ js" "calm_row now f" "\<forall>j \<in> set js. next_id d \<le> pj_id j"
    unfolding calm_def by blast
  from assms(2) f(1) consider "j \<in> set js" | j0 where "j0 \<in> set (jobs d)" "j = f j0" by auto
  then show ?thesis
  proof cases
    case 2
    with f(2) assms(3) have "pj_id j0 = pj_id j \<and> due_predicate now j0" by (simp add: calm_row_def)
    with 2(1) show ?thesis by blast
  qed (use f(3) in simp)
qed

lemma calm_settled: "calm now d d' \<Longrightarrow> settled_job now i d \<Longrightarrow> i < next_id d \<Longrightarrow> settled_job now i d'"
  unfolding settled_job_def using calm_due [of now d d'] by (fastforce simp: not_less)

lemma settling_settles: "jobs d' = tmod pj_id i f (jobs d) \<Longrightarrow> settling now f \<Longrightarrow> settled_job now i d'"
  by (auto simp: settled_job_def tmod_def settling_def)

lemma complete_settles: "pj_state job = Running \<Longrightarrow> settled_job now (pj_id job) (complete_job job d)"
  by (rule settling_settles [OF _ settling_complete]) (simp_all add: complete_job_def)

lemma fail_settles:
  assumes "pj_state job = Running" and "\<forall>t. pj_next_attempt_at job = Some t \<longrightarrow> t \<le> now"
  shows "settled_job now (pj_id job) (fail_job_for_execution now job e d)"
  by (rule settling_settles [OF _ settling_fail [OF assms]]) (simp add: fail_job_for_execution_def Let_def)

lemma execute_settles:
  assumes "execute_with w now sweep i d = (res, False, d')"
  shows "settled_job now i d'"
  using assms
proof (cases rule: execute_cases)
  case (completed job d1 d2 u)
  with claimed [OF completed(1)] complete_settles show ?thesis by blast
next
  case (failed job d1 d2 e lost')
  then have "d' = fail_job_for_execution now job (exn_text e) d2" by (simp split: if_splits)
  with claimed [OF failed(1)] fail_settles show ?thesis by blast
qed simp

lemma execute_job_settles: "execute_job n w now i d = (res, False, d') \<Longrightarrow> settled_job now i d'"
  by (cases n) (simp_all add: execute_settles)

lemma run_batch_settles:
  assumes "\<And>i x res lost y. execute i x = (res, lost, y) \<Longrightarrow> calm now x y"
    and "\<And>i x res y. execute i x = (res, False, y) \<Longrightarrow> settled_job now i y"
  shows "run_batch execute is d = (r, False, d') \<Longrightarrow> \<forall>i \<in> set is. i < next_id d
    \<Longrightarrow> bt_completed r + bt_failed r = length is \<and> (\<forall>i \<in> set is. settled_job now i d')"
proof (induction "is" arbitrary: d r)
  case (Cons i "is")
  obtain res l d1 where one: "execute i d = (res, l, d1)" by (cases "execute i d")
  with Cons.prems(1) have "\<not> l" by (cases l) (auto simp: Let_def)
  with one Cons.prems(1) obtain r' where rest: "run_batch execute is d1 = (r', False, d')"
    and r: "bt_completed r + bt_failed r = Suc (bt_completed r' + bt_failed r')"
    by (auto simp: Let_def split: prod.splits sum.splits)
  have known: "\<forall>k \<in> set (i # is). k < next_id d1"
    using Cons.prems(2) calm_next [OF assms(1) [OF one]] by auto
  have "calm now d1 d'" by (rule run_batch_calm [OF assms(1) rest])
  then have "settled_job now i d'"
    using assms(2) one \<open>\<not> l\<close> known by (auto intro: calm_settled)
  with Cons.IH [OF rest] known r show ?case by simp
qed simp

section \<open>Properties\<close>

text \<open>C16. However many sweeps are queued, the nesting of sweeps ends: a batch run with one level per due sweep
  is the batch run with any more levels.\<close>

theorem nested_sweeps_end:
  "execute_due_jobs (card (due_sweeps now d) + k) w now limit d = execute_due_jobs (card (due_sweeps now d)) w now limit d"
  unfolding execute_due_jobs_def
  by (rule run_batch_cong [OF _ execute_job_calm order.refl]) (rule fuel_enough)

lemma set_due_jobs:
  assumes "length (jobs d) \<le> limit"
  shows "set (due_jobs now (\<lambda>_. False) limit d) = {j \<in> set (jobs d). due_predicate now j}"
    "length (due_jobs now (\<lambda>_. False) limit d) = count_due_jobs now d"
  using assms le_trans [OF length_filter_le [of "due_predicate now" "jobs d"]]
  by (simp_all add: due_jobs_def count_due_jobs_def)


text \<open>A country sync that meets a code too long for its column raises a database error: the job stays
  claimed, and every job of the batch after it is counted as failed without being run.\<close>

theorem database_error_skips_the_batch:
  assumes "queue_ok d" and "batch_ids w now limit d = i # is"
    and "claim_job_for_execution now i d = Inr (job, d1)" and "pj_kind job = ''sync_countries''"
    and "sync_job (vl_std w) (wl_core w) (wl_settings w) now d1 = Inl DataError"
  shows "execute_due_jobs n w now limit d = (\<lparr>bt_completed = 0, bt_failed = Suc (length is)\<rparr>, True, d1)
    \<and> pj_state job = Running \<and> (\<forall>k \<in> set is. tget pj_id k (jobs d1) = tget pj_id k (jobs d))"
proof -
  have handler: "run_handler w now s (pj_kind job) (pj_payload job) d1 = (Inl DataError, False, d1)" for s
    using assms(5) unfolding assms(4) by (simp add: run_handler_def done_with_def Let_def)
  have run: "execute_with w now s i d = (Inl DataError, True, d1)" for s
    by (simp add: execute_with_def assms(3) handler)
  have job: "execute_job n w now i d = (Inl DataError, True, d1)"
    by (cases n) (simp_all add: run)
  have "distinct (i # is)"
    using assms(1) distinct_batch [of pj_id "jobs d"] unfolding assms(2) [symmetric]
    by (simp add: batch_ids_def due_jobs_def queue_ok_def)
  moreover obtain t where "jobs d1 = tmod pj_id i (claim_row now t) (jobs d)" "pj_state job = Running"
    using claimed [OF assms(3)] by blast
  ultimately have "pj_state job = Running \<and> (\<forall>k \<in> set is. tget pj_id k (jobs d1) = tget pj_id k (jobs d))"
    by (auto simp: claim_row_def intro!: job_table.get_mod_other)
  then show ?thesis using job by (simp add: execute_due_jobs_def assms(2) Let_def)
qed

text \<open>The queue accepts jobs of the kind \<open>import_feed\<close>, and every run of one raises and gives it to a
  reviewer at once, as it is not retried.\<close>

theorem import_feed_has_no_handler:
  assumes "tget pj_id i (jobs d) = Some j" and "pj_kind j = ''import_feed''" and "due_predicate now j"
    and "pj_last_error j = None"
  shows "pj_kind j \<in> ALLOWED_JOB_KINDS
    \<and> (\<exists>d' j'. execute_job n w now i d = (Inl (ValueError ''No worker handler for import_feed''), False, d')
         \<and> tget pj_id i (jobs d') = Some j' \<and> pj_state j' = Failed_review
         \<and> pj_last_error j' = Some ''No worker handler for import_feed'')"
proof -
  obtain t where t: "claim_job (pj_state j) (pj_attempts j) now (pj_next_attempt_at j) = Inr t" "tr_state t = Running"
    using assms(3) by (auto simp: due_predicate_claim claim_job_Inr)
  define job where "job = claim_row now t j"
  define d1 where "d1 = d\<lparr>jobs := tmod pj_id i (claim_row now t) (jobs d)\<rparr>"
  let ?e = "''No worker handler for import_feed''"
  let ?d' = "fail_job_for_execution now job ?e d1"
  have claim: "claim_job_for_execution now i d = Inr (job, d1)"
    by (simp add: claim_job_for_execution_def assms(1) t(1) job_def d1_def)
  have kind: "pj_kind job = ''import_feed''" "pj_last_error job = None" using assms(2,4) by (simp_all add: claim_row_def job_def)
  have "run_handler w now s ''import_feed'' p x = (Inl (ValueError ?e), False, x)" for s p x
    by (simp add: run_handler_def Let_def)
  then have "execute_with w now s i d = (Inl (ValueError ?e), False, ?d')" for s
    unfolding execute_with_def claim sum.case prod.case kind by simp
  then have run: "execute_job n w now i d = (Inl (ValueError ?e), False, ?d')" by (cases n) simp_all
  have row: "tget pj_id i (jobs d1) = Some job"
    using assms(1) by (simp add: claim_row_def job_table.get_mod_same d1_def job_def)
  have id: "pj_id job = i" using tget_SomeD [OF assms(1)] by (simp add: claim_row_def job_def)
  let ?t = "fail_job ''import_feed'' (pj_attempts job) ?e now"
  have "tr_state ?t = Failed_review" "tr_error ?t = Some ?e"
    by (simp_all add: fail_job_def RETRYABLE_KINDS_def)
  then have "pj_state (fail_row ?t job job) = Failed_review \<and> pj_last_error (fail_row ?t job job) = Some ?e"
    by (simp add: fail_row_def flush_def)
  moreover have "tget pj_id i (jobs ?d') = Some (fail_row ?t job job)"
    using row by (simp add: fail_job_for_execution_def Let_def kind id job_table.get_mod_same fail_row_def)
  ultimately show ?thesis using run assms(2) by (auto simp: ALLOWED_JOB_KINDS_def)
qed

subsection \<open>Examples\<close>

definition demo_world :: world where
  "demo_world = approvallib.extend demo_approval
     \<lparr>wl_settings = default_settings\<lparr>core_base_url := Some ''https://c''\<rparr>, wl_draws = (\<lambda>_. 1),
      wl_core = (\<lambda>_. CatalogueBody (JObj [(''data'', JList [JObj [(''code'', JStr ''FRA''), (''display_name'', JStr ''France'')]]),
                          (''next_cursor'', JNull)])),
      wl_posthog = (\<lambda>_. Accepted), wl_sdk = demo_sdk, wl_search = demo_search, wl_locked = (\<lambda>_. False)\<rparr>"

definition demo_batch :: "string \<Rightarrow> db" where
  "demo_batch kind = empty_db\<lparr>jobs := [new_job 1 kind ''a'' [] None, new_job 2 ''import_feed'' ''b'' [] None], next_id := 3\<rparr>"

lemma demo_batch_ok: "queue_ok (demo_batch kind)"
  by (simp add: queue_ok_def demo_batch_def job_row_ok_new) (simp add: new_job_def)

lemma demo_batch_ids: "batch_ids demo_world 0 2 (demo_batch kind) = [1, 2]"
  by (simp add: batch_ids_def due_jobs_def demo_batch_def demo_world_def due_predicate_def new_job_def
      approvallib.extend_def)

lemma demo_clean_run:
  "\<exists>d'. execute_due_jobs 0 demo_world 0 2 (demo_batch ''dispatch_outbox'') = (\<lparr>bt_completed = 1, bt_failed = 1\<rparr>, False, d')"
proof -
  have off: "dispatch_analytics_events std (wl_settings demo_world) post now locked limit d
      = Inr (\<lparr>held = length (claim_pending_events DESTINATION_ANALYTICS locked limit d), dispatched = 0, failed = 0\<rparr>, d)"
    for std post now locked limit d
    by (simp add: dispatch_analytics_events_def demo_world_def approvallib.extend_def default_settings_def Let_def)
  have handlers: "run_handler demo_world 0 s ''dispatch_outbox'' p x = (Inr (), False, x)"
    "run_handler demo_world 0 s ''import_feed'' p x = (Inl (ValueError ''No worker handler for import_feed''), False, x)" for s p x
    by (simp_all add: run_handler_def Let_def off done_with_def)
  show ?thesis
    unfolding execute_due_jobs_def demo_batch_ids
    by (simp add: execute_with_def Let_def demo_batch_def new_job_def
        claim_job_for_execution_def claim_job_def claim_row_def handlers complete_job_def complete_row_def
        flush_def finish_job_def)
qed


definition demo_claimed :: db where
  "demo_claimed = snd (projr (claim_job_for_execution 0 1 (demo_batch ''sync_countries'')))"

lemma demo_claim_sync:
  "claim_job_for_execution 0 1 (demo_batch ''sync_countries'')
     = Inr (claim_row 0 (projr (claim_job Queued 0 0 None)) (new_job 1 ''sync_countries'' ''a'' [] None), demo_claimed)"
  by (simp add: demo_claimed_def claim_job_for_execution_def demo_batch_def claim_job_def new_job_def)

lemma demo_long_code: "upper (strip ''FRA'') = ''FRA''"
  by code_simp

lemma demo_sync_error: "sync_job (vl_std demo_world) (wl_core demo_world) (wl_settings demo_world) 0 demo_claimed = Inl DataError"
  by (simp add: sync_job_def demo_world_def approvallib.extend_def sync_countries_def list_catalogue_def MAX_PAGES_def read_page_def
      numeral_eq_Suc upsert_def core_id_of_def country_code_def demo_long_code)

theorem database_error_skips_the_batch_witness:
  "\<exists>d'. execute_due_jobs 0 demo_world 0 2 (demo_batch ''sync_countries'') = (\<lparr>bt_completed = 0, bt_failed = 2\<rparr>, True, d')
     \<and> (\<exists>j. tget pj_id 2 (jobs d') = Some j \<and> due_predicate 0 j)"
proof -
  have "pj_kind (claim_row 0 (projr (claim_job Queued 0 0 None)) (new_job 1 ''sync_countries'' ''a'' [] None)) = ''sync_countries''"
    by (simp add: claim_row_def new_job_def)
  from database_error_skips_the_batch [OF demo_batch_ok demo_batch_ids demo_claim_sync this demo_sync_error]
  show ?thesis by (simp add: demo_batch_def new_job_def due_predicate_def)
qed

theorem import_feed_has_no_handler_witness:
  "\<exists>d' j'. execute_job 0 demo_world 0 2 (demo_batch ''sync_countries'')
       = (Inl (ValueError ''No worker handler for import_feed''), False, d')
     \<and> tget pj_id 2 (jobs d') = Some j' \<and> pj_state j' = Failed_review"
proof -
  let ?j = "new_job 2 ''import_feed'' ''b'' [] None"
  have "tget pj_id 2 (jobs (demo_batch ''sync_countries'')) = Some ?j" "pj_kind ?j = ''import_feed''"
    "due_predicate 0 ?j" "pj_last_error ?j = None"
    by (simp_all add: demo_batch_def new_job_def due_predicate_def)
  from import_feed_has_no_handler [OF this] show ?thesis by blast
qed

end
