(* ===== verification/System.thy ===== *)
theory System
  imports Worker
begin

text \<open>
  The catalogue under everything that may write it: reviewers and administrators
  (\<open>src/src/app/infra/reviews.py\<close>, \<open>src/src/app/infra/publication.py\<close>,
  \<open>src/src/app/infra/withdrawals.py\<close>), feed imports (\<open>src/src/app/infra/ingestion.py\<close>), the queue
  (\<open>src/src/app/infra/jobs.py\<close>) and every job the worker runs (\<open>src/src/app/infra/worker.py\<close>).

  The specification is a small machine over what each scholarship is: its lifecycle state and the cycles
  it has. A record is added for review, published with a new cycle, or withdrawn, and nothing else.
\<close>

section \<open>The specification\<close>

type_synonym catalogue_view = "uuid \<Rightarrow> (record_state \<times> uuid set) option"

inductive life_step :: "catalogue_view \<Rightarrow> catalogue_view \<Rightarrow> bool" where
  add: "V i = None \<Longrightarrow> life_step V (V(i \<mapsto> (Needs_review, {})))"
| publish: "V i = Some (st, C) \<Longrightarrow> st \<noteq> Withdrawn \<Longrightarrow> \<forall>j st' C'. V j = Some (st', C') \<longrightarrow> c \<notin> C' \<Longrightarrow>
    life_step V (V(i \<mapsto> (Published, insert c C)))"
| withdraw: "V i = Some (st, C) \<Longrightarrow> st \<noteq> Withdrawn \<Longrightarrow> life_step V (V(i \<mapsto> (Withdrawn, C)))"

inductive_cases life_stepE: "life_step V V'"

definition cycle_ids :: "db \<Rightarrow> uuid \<Rightarrow> uuid set" where
  "cycle_ids d sid = cy_id ` {c \<in> set (cycles d). cy_scholarship_id c = sid}"

definition view :: "db \<Rightarrow> catalogue_view" where
  "view d sid = map_option (\<lambda>st. (st, cycle_ids d sid)) (lifecycle_of d sid)"

definition lawful :: "db \<Rightarrow> db \<Rightarrow> bool" where
  "lawful d d' \<longleftrightarrow> (catalogue_ok d \<longrightarrow>
     catalogue_ok d' \<and> (\<forall>v. withdrawn_record d v \<longrightarrow> withdrawn_record d' v) \<and> life_step\<^sup>*\<^sup>* (view d) (view d'))"

definition untouched :: "db \<Rightarrow> db \<Rightarrow> bool" where
  "untouched d d' \<longleftrightarrow> scholarships d' = scholarships d \<and> cycles d' = cycles d \<and> next_id d \<le> next_id d'"

lemma lawful_refl [simp]: "lawful d d"
  by (simp add: lawful_def)

lemma lawful_trans: "lawful d d1 \<Longrightarrow> lawful d1 d2 \<Longrightarrow> lawful d d2"
  unfolding lawful_def by (blast intro: rtranclp_trans)

lemma lawfulI:
  assumes "catalogue_ok d \<Longrightarrow> catalogue_ok d'" and "\<And>v. catalogue_ok d \<Longrightarrow> withdrawn_record d v \<Longrightarrow> withdrawn_record d' v"
    and "catalogue_ok d \<Longrightarrow> life_step\<^sup>*\<^sup>* (view d) (view d')"
  shows "lawful d d'"
  using assms by (simp add: lawful_def)

lemma cycle_ids_keys: "cycle_ids d sid = fst ` {k \<in> set (map (\<lambda>c. (cy_id c, cy_scholarship_id c)) (cycles d)). snd k = sid}"
  by (force simp: cycle_ids_def)

lemma cycle_ids_cong:
  "map (\<lambda>c. (cy_id c, cy_scholarship_id c)) (cycles d') = map (\<lambda>c. (cy_id c, cy_scholarship_id c)) (cycles d) \<Longrightarrow>
   cycle_ids d' sid = cycle_ids d sid"
  by (simp only: cycle_ids_keys)

text \<open>Rewriting cycles in place, keys and owners kept, is no step of the specification.\<close>

lemma view_rewrite:
  assumes "scholarships d' = scholarships d" and "cycles d' = map g (cycles d)"
    and "\<And>c. cy_id (g c) = cy_id c \<and> cy_scholarship_id (g c) = cy_scholarship_id c"
  shows "view d' = view d"
proof -
  have "map (\<lambda>c. (cy_id c, cy_scholarship_id c)) (cycles d') = map (\<lambda>c. (cy_id c, cy_scholarship_id c)) (cycles d)"
    using assms(2,3) by simp
  then have "cycle_ids d' sid = cycle_ids d sid" for sid by (rule cycle_ids_cong)
  with assms(1) show ?thesis by (simp add: view_def lifecycle_of_def fun_eq_iff)
qed

lemma untouched_lawful: "untouched d d' \<Longrightarrow> lawful d d'"
proof (rule lawfulI)
  assume u: "untouched d d'" and ok: "catalogue_ok d"
  then show "catalogue_ok d'"
    by (intro catalogue_ok_rewrite [OF ok, of d' id]) (simp_all add: untouched_def catalogue_okD)
  show "withdrawn_record d' v" if "withdrawn_record d v" for v
    using u that by (simp add: untouched_def withdrawn_record_def)
  show "life_step\<^sup>*\<^sup>* (view d) (view d')"
    using view_rewrite [of d' d id] u by (simp add: untouched_def)
qed

section \<open>The catalogue operations refine it\<close>

lemma view_upd:
  assumes "\<And>j. lifecycle_of d' j = (if j = i then Some st else lifecycle_of d j)"
    and "\<And>j. cycle_ids d' j = (if j = i then C else cycle_ids d j)"
  shows "view d' = (view d)(i \<mapsto> (st, C))"
  using assms by (auto simp: view_def fun_eq_iff)

lemma cycle_ids_snoc:
  "cycles d' = cycles d @ [c] \<Longrightarrow>
   cycle_ids d' j = (if j = cy_scholarship_id c then insert (cy_id c) (cycle_ids d j) else cycle_ids d j)"
  by (auto simp: cycle_ids_def intro: rev_image_eqI)

lemma view_cycle_known: "catalogue_ok d \<Longrightarrow> view d i = Some (st, C) \<Longrightarrow> c \<in> C \<Longrightarrow> c < next_id d"
  using catalogue_okD(7) by (auto simp: view_def cycle_ids_def)

lemma publish_lawful: "publish_cycle now sid cc actor d = Inr (c, d') \<Longrightarrow> lawful d d'"
proof (rule lawfulI)
  assume p: "publish_cycle now sid cc actor d = Inr (c, d')" and ok: "catalogue_ok d"
  show "catalogue_ok d'" by (rule publish_catalogue_ok [OF ok p])
  show "withdrawn_record d' v" if "withdrawn_record d v" for v by (rule publish_final [OF that p])
  show "life_step\<^sup>*\<^sup>* (view d) (view d')"
    using p
  proof (cases rule: publish_cases)
    case (1 s)
    have lc: "lifecycle_of d' j = (if j = sid then Some Published else lifecycle_of d j)" for j
      using lifecycle_tmod [OF 1(6), of j] 1(1) by (auto simp: lifecycle_of_def)
    have "cy_id c = next_id d" "cy_scholarship_id c = sid" unfolding 1(4) by simp_all
    then have ids: "cycle_ids d' j = (if j = sid then insert (next_id d) (cycle_ids d sid) else cycle_ids d j)" for j
      unfolding cycle_ids_snoc [OF 1(5)] by simp
    have "view d' = (view d)(sid \<mapsto> (Published, insert (next_id d) (cycle_ids d sid)))"
      by (rule view_upd) (use lc ids in simp_all)
    moreover have "view d sid = Some (sch_lifecycle_state s, cycle_ids d sid)"
      using 1(1) by (simp add: view_def lifecycle_of_def)
    ultimately have "life_step (view d) (view d')"
      using life_step.publish [of "view d" sid "sch_lifecycle_state s" "cycle_ids d sid" "next_id d"] 1(2)
        view_cycle_known [OF ok] by fastforce
    then show ?thesis by blast
  qed
qed

lemma withdraw_lawful: "withdraw_scholarship now sid reason actor d = Inr (n, d') \<Longrightarrow> lawful d d'"
proof (rule lawfulI)
  assume w: "withdraw_scholarship now sid reason actor d = Inr (n, d')" and ok: "catalogue_ok d"
  show "catalogue_ok d'" by (rule withdraw_catalogue_ok [OF ok w])
  show "withdrawn_record d' v" if "withdrawn_record d v" for v by (rule withdraw_final [OF that w])
  show "life_step\<^sup>*\<^sup>* (view d) (view d')"
    using w
  proof (cases rule: withdraw_cases)
    case (1 s)
    have lc: "lifecycle_of d' j = (if j = sid then Some Withdrawn else lifecycle_of d j)" for j
      using lifecycle_tmod [OF 1(4), of j] 1(1) by (auto simp: lifecycle_of_def)
    have "cycle_ids d' j = cycle_ids d j" for j by (rule cycle_ids_cong) (simp add: 1(3))
    then have "view d' = (view d)(sid \<mapsto> (Withdrawn, cycle_ids d sid))"
      using lc by (intro view_upd) simp_all
    moreover have "view d sid = Some (sch_lifecycle_state s, cycle_ids d sid)"
      using 1(1) by (simp add: view_def lifecycle_of_def)
    ultimately show ?thesis using life_step.withdraw 1(2) by fastforce
  qed
qed

lemma decide_lawful: "decide_review tid rq d = Inr (r, d') \<Longrightarrow> lawful d d'"
proof (rule lawfulI)
  assume p: "decide_review tid rq d = Inr (r, d')" and ok: "catalogue_ok d"
  show "catalogue_ok d'" by (rule decide_catalogue_ok [OF ok p])
  show "withdrawn_record d' v" if "withdrawn_record d v" for v by (rule decide_final [OF ok that p])
  show "life_step\<^sup>*\<^sup>* (view d) (view d')"
    using p
  proof (cases rule: decide_cases)
    case (1 task)
    consider "scholarships d' = scholarships d"
      | s where "scholarships d' = scholarships d @ [s]" "sch_id s = next_id d" "sch_lifecycle_state s = Needs_review"
      using 1(5) by blast
    then show ?thesis
    proof cases
      case 1
      then show ?thesis using \<open>cycles d' = cycles d\<close> view_rewrite [of d' d id] by simp
    next
      case (2 s)
      have new: "lifecycle_of d (next_id d) = None" "cycle_ids d (next_id d) = {}"
      proof -
        show none: "lifecycle_of d (next_id d) = None"
          using catalogue_okD(5) [OF ok] by (force simp: lifecycle_of_def tget_None_iff)
        then show "cycle_ids d (next_id d) = {}"
          using catalogue_okD(8) [OF ok] by (fastforce simp: cycle_ids_def)
      qed
      have "lifecycle_of d' j = (if j = next_id d then Some Needs_review else lifecycle_of d j)" for j
        using 2 new(1) by (auto simp: lifecycle_of_def row_simps split: option.split)
      then have "view d' = (view d)(next_id d \<mapsto> (Needs_review, {}))"
        using \<open>cycles d' = cycles d\<close> new(2) by (intro view_upd) (simp_all add: cycle_ids_def)
      moreover have "view d (next_id d) = None" using new(1) by (simp add: view_def)
      ultimately show ?thesis using life_step.add by fastforce
    qed
  qed
qed

text \<open>In-place writes to cycles of records that are not withdrawn.\<close>

lemma rewrite_lawful:
  assumes "catalogue_ok d \<Longrightarrow> catalogue_ok d'" and "\<And>v. catalogue_ok d \<Longrightarrow> withdrawn_record d v \<Longrightarrow> withdrawn_record d' v"
    and "scholarships d' = scholarships d" and "cycles d' = map g (cycles d)"
    and "\<And>c. cy_id (g c) = cy_id c \<and> cy_scholarship_id (g c) = cy_scholarship_id c"
  shows "lawful d d'"
  using assms(1,2) view_rewrite [OF assms(3-5)] by (intro lawfulI) simp_all

lemma update_lawful:
  assumes "load_cycle_for_update sid cid d = Inr cyc" and "update_cycle cyc cc ch actor d = Inr (c, d')"
  shows "lawful d d'"
proof -
  have cyc: "cycles d' = map (\<lambda>x. if cy_id x = cy_id cyc then write_content cc x else x) (cycles d)"
    and sch: "scholarships d' = scholarships d"
    using assms(2) by (auto elim!: update_cases simp: tmod_def)
  show ?thesis
  proof (rule rewrite_lawful [OF _ _ sch cyc])
    show "catalogue_ok d'" if "catalogue_ok d" by (rule update_catalogue_ok [OF that assms])
    show "withdrawn_record d' v" if "catalogue_ok d" "withdrawn_record d v" for v by (rule update_final [OF that assms])
  qed simp
qed

lemma refresh_lawful: "lawful d (snd (refresh_due_statuses std st now locked limit d))"
proof (cases "catalogue_ok d")
  case True
  show ?thesis
    by (rule rewrite_lawful [OF _ _ refresh_frame(1) refresh_cycles [OF catalogue_okD(3) [OF True]]])
      (simp_all add: refresh_keeps refreshed_facts)
qed (simp add: lawful_def)

lemma reverify_one_lawful:
  assumes "c \<in> set (cycles d)" and "is_published d c" and "reverify_one_cycle std fl st now sid c d = (r, d')"
  shows "lawful d d'"
proof -
  obtain g where g: "cycles d' = map (\<lambda>x. if cy_id x = cy_id c then g x else x) (cycles d)"
      "scholarships d' = scholarships d"
    and row: "g = id \<or> (\<exists>p. g = set_cycle_page p) \<or> (\<exists>p. g = renew_row now \<circ> set_cycle_page p) \<or> g = renew_row now"
    using assms(3) by (rule reverify_writes) blast
  show ?thesis
  proof (rule rewrite_lawful [OF _ _ g(2,1)])
    show "catalogue_ok d'" if "catalogue_ok d" by (rule reverify_keeps(1) [OF that assms])
    show "withdrawn_record d' v" if "catalogue_ok d" "withdrawn_record d v" for v
      by (rule reverify_keeps(2) [OF that(1) assms that(2)])
  qed (use reverify_row [OF row] in simp)
qed

lemma reverify_all_lawful: "reverify_all std fl st now sid is (r, d) = (r', d') \<Longrightarrow> lawful d d'"
proof (induction "is" arbitrary: r d)
  case (Cons i "is")
  show ?case
  proof (cases "find (\<lambda>c. cy_id c = i \<and> is_published d c) (cycles d)")
    case None
    with Cons show ?thesis by simp
  next
    case (Some c)
    obtain oc d1 where one: "reverify_one_cycle std fl st now sid c d = (oc, d1)"
      by (cases "reverify_one_cycle std fl st now sid c d")
    from Cons.prems Some one obtain r1 where rest: "reverify_all std fl st now sid is (r1, d1) = (r', d')"
      by (cases oc) (auto simp: Let_def)
    have "c \<in> set (cycles d)" "is_published d c" using Some by (auto simp: find_Some_iff)
    from reverify_one_lawful [OF this one] Cons.IH [OF rest] show ?thesis by (rule lawful_trans)
  qed
qed simp

lemma reverify_lawful: "reverify_due_cycles std fl st now limit d = Inr (r, d') \<Longrightarrow> lawful d d'"
  by (auto simp: reverify_due_cycles_def Let_def bindE_eq_Inr split: option.splits if_splits
      dest: reverify_all_lawful)

text \<open>The automatic approval is a decision, a publication and the mark on the new cycle.\<close>

lemma seal_lawful:
  assumes "c \<in> set (cycles d)" and "lifecycle_of d (cy_scholarship_id c) = Some Published"
  shows "lawful d (seal_approval st q now did sid (cy_id c) score snap d)"
proof (cases "catalogue_ok d")
  case ok: True
  let ?d = "seal_approval st q now did sid (cy_id c) score snap d"
  let ?g = "\<lambda>x. if cy_id x = cy_id c then stamp_cycle score x else x"
  have cyc: "cycles ?d = map ?g (cycles d)" and sch: "scholarships ?d = scholarships d"
    by (simp_all add: seal_approval_effect tmod_def)
  have row: "cy_id (?g x) = cy_id x \<and> cy_scholarship_id (?g x) = cy_scholarship_id x \<and> identity_of (?g x) = identity_of x" for x
    by (simp add: stamp_cycle_def identity_of_def)
  have keep: "?g x = x" if "x \<in> set (cycles d)" "lifecycle_of d (cy_scholarship_id x) = Some Withdrawn" for x
  proof -
    have "x = c" if "cy_id x = cy_id c"
      using that \<open>x \<in> set (cycles d)\<close> assms(1) catalogue_okD(3) [OF ok] by (meson distinct_map inj_onD)
    with that(2) assms(2) show ?thesis by fastforce
  qed
  have "map identity_of (map ?g (cycles d)) = map identity_of (cycles d)"
    using row by (simp only: map_map comp_def)
  then have dist: "distinct (map identity_of (cycles ?d))"
    using catalogue_okD(4) [OF ok] by (simp only: cyc)
  have later: "next_id d \<le> next_id ?d" using seal_quiet by (simp add: quiet_def)
  show ?thesis
  proof (rule rewrite_lawful [OF _ _ sch cyc])
    show "catalogue_ok ?d" by (rule catalogue_ok_rewrite [OF ok sch later cyc _ dist]) (use row keep in auto)
    show "withdrawn_record ?d v" if "withdrawn_record d v" for v
      by (rule final_rewrite [OF that sch cyc]) (use row keep in auto)
  qed (use row in simp)
qed (simp add: lawful_def)

lemma approve_lawful:
  assumes "approve_candidate lib st now tid r s cb v a d = (res, d')"
  shows "lawful d d'"
proof -
  from assms consider "d' = d" | sid rq where "decide_review tid rq d = Inr (sid, d')"
    | sid rq d1 c d2 score snap where "decide_review tid rq d = Inr (Some sid, d1)"
      "publish_approved (vl_std lib) now sid v a d1 = Inr (c, d2)"
      "d' = seal_approval st (vl_draw lib) now (di_id r) sid (cy_id c) score snap d2"
    by (auto simp: approve_candidate_def Let_def split: sum.splits option.splits prod.splits if_splits)
  then show ?thesis
  proof cases
    case (3 sid rq d1 c d2 score snap)
    then obtain cc actor where pub: "publish_cycle now sid cc actor d1 = Inr (c, d2)"
      by (auto simp: publish_approved_def bindE_eq_Inr)
    have "c \<in> set (cycles d2) \<and> lifecycle_of d2 (cy_scholarship_id c) = Some Published"
      using pub by (cases rule: publish_cases) (simp add: lifecycle_tmod, simp add: lifecycle_of_def)
    with 3(3) have "lawful d2 d'" by (simp add: seal_lawful)
    with decide_lawful [OF 3(1)] publish_lawful [OF pub] show ?thesis by (blast intro: lawful_trans)
  qed (auto dest: decide_lawful)
qed

lemma stopped_untouched: "stopped now did s d = (res, d') \<Longrightarrow> untouched d d'"
  by (cases s) (auto simp: untouched_def set_evaluated_def)

lemma verify_untouched: "fetch_and_verify_source fl rl st now r s d = (res, d') \<Longrightarrow> untouched d d'"
  by (auto dest!: verify_frame simp: same_catalogue_def untouched_def)

lemmas attempt_parts = stopped_untouched [THEN untouched_lawful] approve_lawful verify_untouched [THEN untouched_lawful]

lemma attempt_lawful: "attempt_auto_approval lib st now tid d = (res, d') \<Longrightarrow> lawful d d'"
  unfolding attempt_auto_approval_def
  by (auto simp del: stopped.simps split: sum.split_asm prod.split_asm if_split_asm
      dest!: attempt_parts intro: lawful_trans)

lemma attempt_all_lawful: "attempt_all w now k tids d = (r, d') \<Longrightarrow> lawful d d'"
proof (induction w now k tids d arbitrary: r d' rule: attempt_all.induct)
  case (2 w now k tid tids d)
  from "2.prems" obtain res d1 r1 where
    one: "attempt_auto_approval ((approvallib.truncate w)\<lparr>vl_draw := wl_draws w k\<rparr>) (wl_settings w) now tid d = (res, d1)"
    and rest: "attempt_all w now (k + 1) tids d1 = (r1, d')"
    by (auto split: prod.splits)
  from attempt_lawful [OF one] "2.IH" [OF one [symmetric] rest] show ?case by (rule lawful_trans)
qed simp

lemma sweep_lawful: "auto_approve_sweep w now d = (r, d') \<Longrightarrow> lawful d d'"
  by (auto simp: auto_approve_sweep_def split: if_splits dest: attempt_all_lawful)

section \<open>What leaves the catalogue alone\<close>

lemma untouched_refl [simp]: "untouched d d"
  by (simp add: untouched_def)

lemma untouched_trans: "untouched d d1 \<Longrightarrow> untouched d1 d2 \<Longrightarrow> untouched d d2"
  by (simp add: untouched_def)

lemma rows_untouched [simp]:
  "untouched d (put_discovery r d)" "untouched d (d\<lparr>jobs := js\<rparr>)" "untouched d (d\<lparr>sources := ss\<rparr>)"
  "untouched d (d\<lparr>review_tasks := ts\<rparr>)" "untouched d (complete_job job d)"
  "untouched d (fail_job_for_execution now job e d)" "untouched d (snd (reconcile_stuck_jobs now locked limit d))"
  by (simp_all add: untouched_def put_discovery_def complete_job_def fail_job_for_execution_def
      reconcile_stuck_jobs_def Let_def)

lemma claim_untouched: "claim_job_for_execution now i d = Inr (job, d') \<Longrightarrow> untouched d d'"
  by (auto simp: claim_job_for_execution_def bindE_eq_Inr split: option.splits)

lemma enqueue_untouched: "enqueue_job k key p d = Inr (x, d') \<Longrightarrow> untouched d d'"
  by (auto simp: enqueue_job_def new_uuid7_def untouched_def Let_def split: option.splits if_splits)

lemma fetch_untouched: "fetch_and_persist_page fl st now pid ov d = (r, d') \<Longrightarrow> untouched d d'"
  by (auto dest: fetch_persist_frame simp: untouched_def)

lemma dispatch_untouched: "dispatch_analytics_events std st post now locked limit d = Inr (r, d') \<Longrightarrow> untouched d d'"
  by (auto simp: dispatch_analytics_events_def Let_def untouched_def split: if_splits send_outcome.splits)

lemma sync_untouched: "sync_countries std core now d = Inr (n, d') \<Longrightarrow> untouched d d'"
proof -
  have one: "upsert now e x = Inr y \<Longrightarrow> untouched x y" for e x y
    by (auto simp: upsert_def bindE_eq_Inr put_country_def new_uuid7_def untouched_def split: if_splits)
  have "upsert_all now es x = Inr y \<Longrightarrow> untouched x y" for es x y
  proof (induction es arbitrary: x)
    case (Cons e es)
    then obtain z where "upsert now e x = Inr z" "upsert_all now es z = Inr y" by (auto simp: bindE_eq_Inr)
    with Cons.IH one show ?case by (blast intro: untouched_trans)
  qed simp
  then show "sync_countries std core now d = Inr (n, d') \<Longrightarrow> untouched d d'"
    by (auto simp: sync_countries_def bindE_eq_Inr split: if_splits)
qed

lemma review_task_untouched: "add_review_task_once now did reason priority d = Inr d' \<Longrightarrow> untouched d d'"
proof -
  assume run: "add_review_task_once now did reason priority d = Inr d'"
  show ?thesis
  proof (cases "\<exists>t \<in> set (review_tasks d). live_task t \<and> rt_discovery_id t = Some did")
    case True
    with run show ?thesis by (simp add: add_review_task_once_def)
  next
    case False
    with run obtain key p x e where "enqueue_job ''prepare_review'' key p e = Inr (x, d')" "untouched d e"
      by (auto simp: add_review_task_once_def new_uuid7_def untouched_def Let_def map_sum_def split: sum.splits)
    with enqueue_untouched untouched_trans show ?thesis by blast
  qed
qed

lemma link_untouched: "link_discovery rl st now did d = (r, d') \<Longrightarrow> untouched d d'"
proof -
  have queue: "queue_for_review rl st now decision x e = (y, e') \<Longrightarrow> untouched e e'" for decision x e y e'
    by (auto simp: queue_for_review_def Let_def split: prod.splits sum.splits
        intro: untouched_trans [OF rows_untouched(1)] dest: review_task_untouched)
  show "link_discovery rl st now did d = (r, d') \<Longrightarrow> untouched d d'"
    by (auto simp: link_discovery_def Let_def split: option.split_asm sum.split_asm if_split_asm dest: queue)
qed

lemma import_record_untouched:
  assumes "import_record fl now run rec d = Inr (b, ps, d')"
  shows "untouched d d'"
proof -
  have seen: "seen_page now s url x = (pid, y) \<Longrightarrow> untouched x y" for s url x pid y
    by (auto simp: seen_page_def new_uuid7_def untouched_def split: option.splits)
  have job: "insert_job k key p r x = Inr y \<Longrightarrow> untouched x y" for k key p r x y
    by (auto simp: insert_job_def new_uuid7_def untouched_def split: if_splits)
  have jobs: "insert_jobs r qs x = Inr y \<Longrightarrow> untouched x y" for r qs x y
    by (induction qs arbitrary: x) (auto simp: bindE_eq_Inr dest!: job intro: untouched_trans)
  have new: "add_discovery now r pid cand rec x = Inr (b, ps, y) \<Longrightarrow> untouched x y" for r pid cand x y
    by (auto simp: add_discovery_def new_uuid7_def bindE_eq_Inr Let_def untouched_def simp del: insert_jobs.simps
        split: if_splits dest!: jobs)
  show ?thesis
    using assms
  proof (cases rule: import_record_cases)
    case (invalid raw reason)
    then show ?thesis by (simp add: quarantine_record_def new_uuid7_def untouched_def)
  next
    case (repeated cand s pid)
    then show ?thesis using seen by blast
  next
    case (fresh cand s pid d1)
    then show ?thesis using seen new untouched_trans by blast
  qed
qed

lemma import_untouched: "import_feed_records fl st now rs d = Inr (oc, ms, d') \<Longrightarrow> untouched d d'"
proof -
  assume run: "import_feed_records fl st now rs d = Inr (oc, ms, d')"
  have records: "import_records fl now run rs d1 = Inr (bs, ps, d2) \<Longrightarrow> untouched d1 d2" for run rs d1 bs ps d2
  proof (induction rs arbitrary: d1 bs ps)
    case (Cons r rs)
    then obtain b qs d3 cs ts where "import_record fl now run r d1 = Inr (b, qs, d3)"
      "import_records fl now run rs d3 = Inr (cs, ts, d2)"
      by (auto simp: bindE_eq_Inr)
    with Cons.IH show ?case by (blast intro: untouched_trans import_record_untouched)
  qed simp
  from run obtain i d1 bs ps d2 oc' where 1: "start_run now rs d = (i, d1)"
    "import_records fl now i rs d1 = Inr (bs, ps, d2)"
    "d' = d2\<lparr>crawl_runs := tmod cr_id i (finish_run now oc') (crawl_runs d2)\<rparr>"
    by (auto simp: import_feed_records_def bindE_eq_Inr Let_def split: prod.splits)
  have "untouched d d1" using 1(1) by (auto simp: start_run_def new_uuid7_def Let_def untouched_def)
  moreover have "untouched d2 d'" using 1(3) by (simp add: untouched_def)
  ultimately show ?thesis using records [OF 1(2)] by (blast intro: untouched_trans)
qed

lemma harvest_parsebot_untouched: "harvest_parsebot std fl http_url sdk st now d = (r, d') \<Longrightarrow> untouched d d'"
  unfolding harvest_parsebot_def
  by (auto split: prod.split_asm sum.split_asm if_split_asm dest!: harvest_apis_writes import_untouched
      simp: untouched_def)

lemma harvest_tavily_untouched: "harvest_tavily fl http_url post st now d = (r, d') \<Longrightarrow> untouched d d'"
  unfolding harvest_tavily_def
  by (auto split: prod.split_asm sum.split_asm if_split_asm option.split_asm dest!: tavily_writes import_untouched
      simp: untouched_def)

lemma normalize_untouched: "normalize_job payload d = Inr d' \<Longrightarrow> untouched d d'"
  by (auto simp: normalize_job_def bindE_eq_Inr split: option.splits)

lemma extract_untouched: "extract_job rl st now payload d = (r, d') \<Longrightarrow> untouched d d'"
  by (auto simp: extract_job_def split: sum.splits option.splits prod.splits)

lemma prepare_untouched: "prepare_review_job payload d = Inr d' \<Longrightarrow> untouched d d'"
  unfolding prepare_review_job_def bindE_eq_Inr
  by (elim exE conjE) (auto simp: Let_def split: option.split_asm)

lemma sync_job_untouched: "sync_job std core st now d = Inr d' \<Longrightarrow> untouched d d'"
  by (auto simp: sync_job_def bindE_eq_Inr split: if_splits dest: sync_untouched)

lemmas handler_untouched = normalize_untouched extract_untouched prepare_untouched sync_job_untouched
  fetch_untouched dispatch_untouched link_untouched harvest_parsebot_untouched harvest_tavily_untouched

section \<open>Every job the worker runs\<close>

lemma handler_lawful:
  assumes "run_handler w now sweep kind payload d = (res, lost, d')"
    and "kind = ''sweep_due_jobs'' \<Longrightarrow> lawful d (snd (sweep d))"
  shows "lawful d d'"
  using assms(1) unfolding run_handler_def Let_def
  by (auto split: if_split_asm sum.split_asm prod.split_asm simp: bindE_eq_Inr refresh_lawful
        rows_untouched(7) [THEN untouched_lawful]
      dest!: left_with_cases done_with_cases
      dest: assms(2) handler_untouched [THEN untouched_lawful] reverify_lawful sweep_lawful)

lemma execute_with_lawful:
  assumes "execute_with w now sweep i d = (res, lost, d')" and "\<And>x. lawful x (snd (sweep x))"
  shows "lawful d d'"
  using assms(1)
proof (cases rule: execute_cases)
  case (completed job d1 d2 u)
  from claim_untouched [OF completed(1)] handler_lawful [OF completed(2) assms(2)]
  have "lawful d d2" by (blast intro: lawful_trans untouched_lawful)
  then show ?thesis unfolding completed(4) by (rule lawful_trans) (simp add: untouched_lawful)
next
  case (failed job d1 d2 e lost')
  from claim_untouched [OF failed(1)] handler_lawful [OF failed(2) assms(2)]
  have "lawful d d2" by (blast intro: lawful_trans untouched_lawful)
  moreover have "lawful d2 d'" using failed(4) by (auto intro: untouched_lawful split: if_splits)
  ultimately show ?thesis by (rule lawful_trans)
qed simp

lemma run_batch_lawful:
  assumes "\<And>i x res lost y. execute i x = (res, lost, y) \<Longrightarrow> lawful x y"
  shows "run_batch execute is d = (r, lost, d') \<Longrightarrow> lawful d d'"
proof (induction "is" arbitrary: d r lost)
  case (Cons i "is")
  obtain res l d1 where one: "execute i d = (res, l, d1)" by (cases "execute i d")
  from Cons.prems one have "d' = d1 \<or> (\<exists>r'. run_batch execute is d1 = (r', lost, d'))"
    by (auto simp: Let_def split: prod.splits if_splits)
  with assms [OF one] Cons.IH show ?case by (blast intro: lawful_trans)
qed simp

lemma execute_job_lawful: "execute_job n w now i d = (res, lost, d') \<Longrightarrow> lawful d d'"
proof (induction n arbitrary: i d res lost d')
  case 0
  then show ?case by (simp add: execute_with_lawful)
next
  case (Suc n)
  have "lawful x (snd (snd (run_batch (execute_job n w now) is x)))" for x "is"
    by (cases "run_batch (execute_job n w now) is x") (auto intro: run_batch_lawful [OF Suc.IH])
  then show ?case by (rule execute_with_lawful [OF Suc.prems [unfolded execute_job.simps(2)]])
qed

section \<open>The whole program\<close>

inductive sys_step :: "db \<Rightarrow> db \<Rightarrow> bool" where
  review: "decide_review tid rq d = Inr (r, d') \<Longrightarrow> sys_step d d'"
| publish_new: "publish_cycle now sid cc actor d = Inr (c, d') \<Longrightarrow> sys_step d d'"
| update: "load_cycle_for_update sid cid d = Inr cyc \<Longrightarrow> update_cycle cyc cc ch actor d = Inr (c, d') \<Longrightarrow> sys_step d d'"
| take_down: "withdraw_scholarship now sid reason actor d = Inr (n, d') \<Longrightarrow> sys_step d d'"
| import_feed: "import_feed_records fl st now rs d = Inr (oc, ms, d') \<Longrightarrow> sys_step d d'"
| new_source: "create_source srq d = Inr (i, d') \<Longrightarrow> sys_step d d'"
| source_domains: "update_source_domains i ds d = Inr d' \<Longrightarrow> sys_step d d'"
| source_off: "deactivate_source i d = Inr d' \<Longrightarrow> sys_step d d'"
| new_provider: "create_provider nm ds country vocab d = Inr (i, d') \<Longrightarrow> sys_step d d'"
| enqueue: "enqueue_job k key p d = Inr (x, d') \<Longrightarrow> sys_step d d'"
| run_job: "execute_job n w now i d = (res, lost, d') \<Longrightarrow> sys_step d d'"
| run_due: "execute_due_jobs n w now limit d = (r, lost, d') \<Longrightarrow> sys_step d d'"

lemma admin_untouched:
  "create_source srq d = Inr (i, d') \<Longrightarrow> untouched d d'" "update_source_domains k ds d = Inr d' \<Longrightarrow> untouched d d'"
  "deactivate_source k d = Inr d' \<Longrightarrow> untouched d d'" "create_provider nm ds country vocab d = Inr (i, d') \<Longrightarrow> untouched d d'"
  by (auto simp: create_source_def update_source_domains_def deactivate_source_def create_provider_def new_uuid7_def
      bindE_eq_Inr untouched_def split: option.splits)

lemma sys_step_lawful: "sys_step d d' \<Longrightarrow> lawful d d'"
proof (induction rule: sys_step.induct)
  case (run_due n w now limit d r lost d')
  then show ?case unfolding execute_due_jobs_def by (rule run_batch_lawful [OF execute_job_lawful, rotated])
qed (auto dest: decide_lawful publish_lawful update_lawful withdraw_lawful execute_job_lawful
      admin_untouched [THEN untouched_lawful] import_untouched [THEN untouched_lawful] enqueue_untouched [THEN untouched_lawful])

interpretation whole: simulation sys_step catalogue_ok withdrawn_record life_step view
  by unfold_locales (use sys_step_lawful in \<open>auto simp: lawful_def\<close>)

section \<open>Properties\<close>

text \<open>What the specification promises: a record and its cycles stay, and a withdrawn record is final.\<close>

lemma life_step_keeps:
  "life_step V V' \<Longrightarrow> V i = Some (st, C) \<Longrightarrow>
   \<exists>st' C'. V' i = Some (st', C') \<and> C \<subseteq> C' \<and> (st = Withdrawn \<longrightarrow> st' = Withdrawn \<and> C' = C)"
  by (erule life_stepE) (auto split: if_splits)

lemma life_run_keeps:
  "life_step\<^sup>*\<^sup>* V V' \<Longrightarrow> V i = Some (st, C) \<Longrightarrow>
   \<exists>st' C'. V' i = Some (st', C') \<and> C \<subseteq> C' \<and> (st = Withdrawn \<longrightarrow> st' = Withdrawn \<and> C' = C)"
proof (induction rule: rtranclp_induct)
  case (step V1 V2)
  then obtain st1 C1 where 1: "V1 i = Some (st1, C1)" "C \<subseteq> C1" "st = Withdrawn \<longrightarrow> st1 = Withdrawn \<and> C1 = C" by blast
  from life_step_keeps [OF step.hyps(2) 1(1)] 1(2,3) show ?case by blast
qed auto

text \<open>C1. The program refines the lifecycle machine: whatever reviewers, imports and jobs do, in any order, is a
  run of additions, publications and withdrawals, and no record or cycle is ever lost.\<close>

theorem program_refines_lifecycle:
  assumes "catalogue_ok d" and "sys_step\<^sup>*\<^sup>* d d'"
  shows "life_step\<^sup>*\<^sup>* (view d) (view d')
    \<and> (\<forall>i st C. view d i = Some (st, C) \<longrightarrow> (\<exists>st' C'. view d' i = Some (st', C') \<and> C \<subseteq> C'))"
  using whole.run_simulates [OF assms(2,1)] by (blast dest: life_run_keeps)



subsection \<open>Examples\<close>

text \<open>A record that is published and taken down again.\<close>

definition demo_published_again :: db where
  "demo_published_again = snd (projr (publish_cycle 0 2 demo_content ''a'' demo_catalogue))"

definition demo_taken_down :: db where
  "demo_taken_down = snd (projr (withdraw_scholarship 1 2 ''gone'' ''a'' demo_published_again))"

definition demo_new_cycle :: cycle where
  "demo_new_cycle = new_cycle 0 4 2 demo_content"

lemma demo_publishes: "publish_cycle 0 2 demo_content ''a'' demo_catalogue = Inr (demo_new_cycle, demo_published_again)"
  by (simp add: demo_published_again_def demo_new_cycle_def publish_cycle_def demo_catalogue_def demo_scholarship_def
      empty_db_def new_uuid7_def Let_def)

lemma demo_published_rows:
  "scholarships demo_published_again = [set_lifecycle Published demo_scholarship]"
  "cycles demo_published_again = [demo_new_cycle]"
  using demo_publishes
  by (auto elim!: publish_cases simp: demo_catalogue_def demo_scholarship_def empty_db_def)

lemma demo_withdraws: "withdraw_scholarship 1 2 ''gone'' ''a'' demo_published_again = Inr (1, demo_taken_down)"
  by (simp add: demo_taken_down_def withdraw_scholarship_def demo_published_rows demo_scholarship_def set_lifecycle_def
      demo_new_cycle_def Let_def)

lemma demo_taken_down_rows:
  "scholarships demo_taken_down = [set_lifecycle Withdrawn demo_scholarship]"
  "cycles demo_taken_down = [withdraw_row demo_new_cycle]"
proof -
  show "scholarships demo_taken_down = [set_lifecycle Withdrawn demo_scholarship]"
    using demo_withdraws
    by (rule withdraw_cases) (simp add: demo_published_rows demo_scholarship_def set_lifecycle_def)
  show "cycles demo_taken_down = [withdraw_row demo_new_cycle]"
    using demo_withdraws
    by (rule withdraw_cases) (simp add: demo_published_rows, simp add: demo_new_cycle_def)
qed

lemma demo_trace_runs: "sys_step demo_catalogue demo_published_again" "sys_step demo_published_again demo_taken_down"
  by (rule sys_step.publish_new [OF demo_publishes], rule sys_step.take_down [OF demo_withdraws])

lemma demo_both: "sys_step\<^sup>*\<^sup>* demo_catalogue demo_taken_down"
  using demo_trace_runs by (blast intro: converse_rtranclp_into_rtranclp)

theorem program_refines_lifecycle_witness:
  "life_step\<^sup>*\<^sup>* (view demo_catalogue) (view demo_taken_down) \<and> view demo_taken_down 2 = Some (Withdrawn, {4})"
proof -
  have "cycle_ids demo_taken_down 2 = {4}"
    by (auto simp: cycle_ids_def demo_taken_down_rows demo_new_cycle_def intro: rev_image_eqI)
  then have "view demo_taken_down 2 = Some (Withdrawn, {4})"
    by (simp add: view_def lifecycle_of_def demo_taken_down_rows demo_scholarship_def set_lifecycle_def)
  with program_refines_lifecycle [OF demo_catalogue_ok demo_both] show ?thesis by blast
qed

definition demo_queued :: db where
  "demo_queued = snd (projr (enqueue_job ''reverify_due'' ''k'' [] demo_taken_down))"

lemma demo_enqueues: "\<exists>x. enqueue_job ''reverify_due'' ''k'' [] demo_taken_down = Inr (x, demo_queued)"
proof -
  have "jobs demo_taken_down = []"
    by (simp add: demo_taken_down_def withdraw_scholarship_def demo_published_rows demo_scholarship_def set_lifecycle_def
        demo_new_cycle_def Let_def demo_published_again_def publish_cycle_def demo_catalogue_def empty_db_def new_uuid7_def)
  then show ?thesis
    by (auto simp: demo_queued_def enqueue_job_def new_uuid7_def job_by_dedupe_def new_job_def Let_def)
qed



end
