(* ===== verification/Delivery.thy ===== *)
theory Delivery
  imports Worker Http
begin

text \<open>
  How a queued message becomes work: the two callback routes of \<open>src/src/app/api/routes.py\<close>
  (\<open>receive_fixed_job\<close>, \<open>receive_job\<close>), the body of a delivery (\<open>src/src/app/api/job_schemas.py\<close>)
  and the keys a recurring schedule gets.

  What an executed job committed stays even when the route then raises, so a delivery answers beside
  its database. One instant stands for the several clock reads of a request.
\<close>

section \<open>The body of a delivery\<close>

text \<open>\<open>dl_loads\<close> is the JSON parser, \<open>dl_uuid\<close> pydantic's test of a textual UUID.\<close>

record deliverylib =
  dl_verifier :: verifierlib
  dl_loads :: "string \<Rightarrow> json option"
  dl_uuid :: "string \<Rightarrow> bool"

record job_request =
  jr_kind :: "string option"
  jr_dedupe_key :: string
  jr_payload :: dict

definition optional_text :: "json \<Rightarrow> string option option" where
  "optional_text v = (case v of JNull \<Rightarrow> Some None | JStr s \<Rightarrow> Some (Some s) | _ \<Rightarrow> None)"

definition job_id_ok :: "deliverylib \<Rightarrow> json \<Rightarrow> bool" where
  "job_id_ok dl v = (case v of JNull \<Rightarrow> True | JStr s \<Rightarrow> dl_uuid dl s | _ \<Rightarrow> False)"

definition validate_job :: "deliverylib \<Rightarrow> dict \<Rightarrow> job_request option" where
  "validate_job dl kvs =
     (case (optional_text (dget kvs ''kind''), dget kvs ''dedupe_key'', dget_or kvs ''payload'' (JObj [])) of
        (Some kind, JStr key, JObj payload) \<Rightarrow>
          if job_id_ok dl (dget kvs ''job_id'') \<and> key \<noteq> [] \<and> length key \<le> 500
          then Some \<lparr>jr_kind = kind, jr_dedupe_key = key, jr_payload = payload\<rparr> else None
      | _ \<Rightarrow> None)"

definition parse_job :: "deliverylib \<Rightarrow> string \<Rightarrow> job_request response" where
  "parse_job dl raw_body =
     (case dl_loads dl raw_body of
        Some (JObj kvs) \<Rightarrow>
          (case validate_job dl kvs of
             Some jr \<Rightarrow> Inr jr | None \<Rightarrow> Inl (http_raise 422 ''Invalid job payload''))
      | _ \<Rightarrow> Inl (http_raise 422 ''Invalid job payload''))"

definition qstash_destination :: "settings \<Rightarrow> string option \<Rightarrow> string" where
  "qstash_destination st kind =
     (let configured = qstash_expected_destination st
      in if configured = [] then []
         else case kind of None \<Rightarrow> configured
              | Some k \<Rightarrow> rstrip_char (CHR ''/'') configured @ ''/'' @ k)"

definition verified_job_body ::
  "stdlib \<Rightarrow> deliverylib \<Rightarrow> settings \<Rightarrow> string \<Rightarrow> string \<Rightarrow> string option \<Rightarrow> string response" where
  "verified_job_body std dl st dest raw_body signature =
     (if vr_ok (verify_delivery std (dl_verifier dl) (st\<lparr>qstash_expected_destination := dest\<rparr>)
                  raw_body signature)
      then Inr raw_body else Inl (http_raise 401 ''Invalid QStash signature''))"

section \<open>Recurring schedules\<close>

definition RECURRING_WEEKLY_KINDS :: "string set" where
  "RECURRING_WEEKLY_KINDS = {''harvest_parsebot'', ''harvest_tavily'', ''sync_countries''}"

definition RECURRING_QUARTER_HOUR_KINDS :: "string set" where
  "RECURRING_QUARTER_HOUR_KINDS =
     {''refresh_status'', ''reverify_due'', ''sweep_due_jobs'', ''reconcile_stuck_jobs''}"

definition RECURRING_HOURLY_KINDS :: "string set" where
  "RECURRING_HOURLY_KINDS = {''auto_approve_sweep''}"

text \<open>
  \<open>isocalendar()\<close>: the year and the week of the Thursday of the same week. Day 0 is a Thursday, so the
  weeks begin at the days whose number is 4 modulo 7.
\<close>

definition week_thursday :: "int \<Rightarrow> int" where
  "week_thursday day = day - (day + 3) mod 7 + 3"

definition iso_year :: "instant \<Rightarrow> int" where
  "iso_year now = year_of_day (week_thursday (now div days 1))"

definition iso_week :: "instant \<Rightarrow> int" where
  "iso_week now = (week_thursday (now div days 1) - days_from_civil (iso_year now) 1 1) div 7 + 1"

definition weekly_dedupe_key :: "instant \<Rightarrow> string \<Rightarrow> string" where
  "weekly_dedupe_key now kind =
     kind @ '':'' @ decimal (nat (iso_year now)) @ ''-W'' @ two_digits (iso_week now)"

definition minutes :: "int \<Rightarrow> timedelta" where "minutes n = seconds (n * 60)"

definition quarter_hour_dedupe_key :: "stdlib \<Rightarrow> instant \<Rightarrow> string \<Rightarrow> string" where
  "quarter_hour_dedupe_key std now kind =
     kind @ '':'' @ std_isoformat std (Aware (now div minutes 15 * minutes 15) 0)"

definition hourly_dedupe_key :: "stdlib \<Rightarrow> instant \<Rightarrow> string \<Rightarrow> string" where
  "hourly_dedupe_key std now kind =
     kind @ '':'' @ std_isoformat std (Aware (now div hours 1 * hours 1) 0)"

definition scheduled_key :: "stdlib \<Rightarrow> instant \<Rightarrow> string \<Rightarrow> string \<Rightarrow> string" where
  "scheduled_key std now kind key =
     (if key = kind @ '':scheduled''
      then if kind \<in> RECURRING_WEEKLY_KINDS then weekly_dedupe_key now kind
           else if kind \<in> RECURRING_QUARTER_HOUR_KINDS then quarter_hour_dedupe_key std now kind
           else if kind \<in> RECURRING_HOURLY_KINDS then hourly_dedupe_key std now kind
           else key
      else key)"

section \<open>The routes\<close>

record job_response =
  js_job_id :: uuid
  js_state :: job_state
  js_created :: bool

text \<open>
  The last error of the job after a failed run, or the exception itself. A run that lost the session
  cannot read the row back either, and that exception leaves the route.
\<close>

definition failure_detail :: "uuid \<Rightarrow> exn \<Rightarrow> db \<Rightarrow> string" where
  "failure_detail i e d =
     ''Job execution failed: '' @
     (case tget pj_id i (jobs d) of
        Some j \<Rightarrow> if is_set (pj_last_error j) then the (pj_last_error j) else exn_text e
      | None \<Rightarrow> exn_text e)"

definition run_delivered ::
  "(uuid \<Rightarrow> db \<Rightarrow> outcome) \<Rightarrow> processing_job \<Rightarrow> bool \<Rightarrow> db \<Rightarrow> job_response response \<times> db" where
  "run_delivered execute job created d =
     (case execute (pj_id job) d of
        (Inr _, _, d1) \<Rightarrow> (Inr \<lparr>js_job_id = pj_id job, js_state = Completed, js_created = created\<rparr>, d1)
      | (Inl e, _, d1) \<Rightarrow>
          (if session_lost e then Inl (Unhandled e)
           else Inl (http_raise 502 (failure_detail (pj_id job) e d1)), d1))"

definition enqueue_and_run ::
  "stdlib \<Rightarrow> (uuid \<Rightarrow> db \<Rightarrow> outcome) \<Rightarrow> instant \<Rightarrow> string \<Rightarrow> job_request \<Rightarrow> db \<Rightarrow> job_response response \<times> db"
where
  "enqueue_and_run std execute now kind jr d =
     (if kind \<notin> ALLOWED_JOB_KINDS then (Inl (http_raise 404 ''Unknown job kind''), d)
      else case enqueue_job kind (scheduled_key std now kind (jr_dedupe_key jr)) (jr_payload jr) d of
             Inl e \<Rightarrow> (Inl (Unhandled e), d)
           | Inr ((job, created), d1) \<Rightarrow>
               if due_predicate now job then run_delivered execute job created d1
               else (Inr \<lparr>js_job_id = pj_id job, js_state = pj_state job, js_created = created\<rparr>, d1))"

definition with_body ::
  "'a response \<Rightarrow> ('a \<Rightarrow> db \<Rightarrow> job_response response \<times> db) \<Rightarrow> db \<Rightarrow> job_response response \<times> db" where
  "with_body m f d = (case m of Inl e \<Rightarrow> (Inl e, d) | Inr x \<Rightarrow> f x d)"

definition receive_fixed_job ::
  "nat \<Rightarrow> world \<Rightarrow> deliverylib \<Rightarrow> instant \<Rightarrow> string \<Rightarrow> string option \<Rightarrow> db \<Rightarrow> job_response response \<times> db" where
  "receive_fixed_job fuel w dl now raw_body signature =
     (let st = wl_settings w
      in with_body (bindH (verified_job_body (vl_std w) dl st (qstash_destination st None) raw_body signature)
           (parse_job dl)) (\<lambda>jr d.
         if \<not> is_set (jr_kind jr) then (Inl (http_raise 422 ''Job kind is required''), d)
         else enqueue_and_run (vl_std w) (execute_job fuel w now) now (the (jr_kind jr)) jr d))"

definition receive_job ::
  "nat \<Rightarrow> world \<Rightarrow> deliverylib \<Rightarrow> instant \<Rightarrow> string \<Rightarrow> string \<Rightarrow> string option \<Rightarrow> db
   \<Rightarrow> job_response response \<times> db" where
  "receive_job fuel w dl now kind raw_body signature =
     (let st = wl_settings w
      in with_body (bindH (verified_job_body (vl_std w) dl st (qstash_destination st (Some kind)) raw_body signature)
           (parse_job dl))
           (enqueue_and_run (vl_std w) (execute_job fuel w now) now kind))"

section \<open>Lemmas: keys\<close>

lemma decimal_prefix:
  assumes "decimal a @ c # s = decimal b @ c # t" and "\<not> is_digit c"
  shows "a = b \<and> s = t"
proof -
  have digits: "list_all is_digit (decimal n)" for n using decimal_digits by blast
  then have "takeWhile is_digit (decimal n @ c # u) = decimal n" for n u
    using assms(2) by (simp add: takeWhile_append2 list_all_iff)
  from this [of a s] this [of b t] assms(1) have "decimal a = decimal b" by simp
  moreover from this assms(1) have "s = t" by simp
  ultimately show ?thesis by (metis read_decimal_decimal)
qed

lemma read_pad: "read_decimal (CHR ''0'' # s) = read_decimal s"
  by (simp add: read_decimal_def)

lemma two_digits_inj: "two_digits m = two_digits n \<Longrightarrow> 0 \<le> m \<Longrightarrow> 0 \<le> n \<Longrightarrow> m = n"
proof -
  assume eq: "two_digits m = two_digits n" and pos: "0 \<le> m" "0 \<le> n"
  have "read_decimal (two_digits k) = nat k" for k
    by (simp add: two_digits_def read_pad read_decimal_decimal del: decimal.simps)
  with eq pos have "nat m = nat n" by metis
  with pos show "m = n" by simp
qed

lemma iso_inj: "iso_roundtrip std \<Longrightarrow> std_isoformat std a = std_isoformat std b \<Longrightarrow> a = b"
  by (metis iso_roundtrip_def option.inject)

text \<open>The first of January of the year of a day is not much later than the day, whatever the day.\<close>

lemma year_starts_before: "days_from_civil (year_of_day z) 1 1 \<le> z + 7"
proof -
  define z' era doe where "z' = z + 719468" and "era = z' div 146097" and "doe = z' mod 146097"
  define a b c where "a = doe div 1460" and "b = doe div 36524" and "c = doe div 146096"
  define yoe where "yoe = (doe - a + b - c) div 365"
  define doy where "doy = doe - (365 * yoe + yoe div 4 - yoe div 100)"
  have z: "z = era * 146097 + doe - 719468" and doe: "0 \<le> doe" "doe < 146097"
    by (simp_all add: z'_def era_def doe_def)
  have abc: "1460 * a \<le> doe" "doe < 1460 * a + 1460" "36524 * b \<le> doe" "0 \<le> b" "146096 * c \<le> doe" "0 \<le> c"
    using doe unfolding a_def b_def c_def by (simp_all add: pos_imp_zdiv_nonneg_iff; linarith)+
  have abc': "b \<le> 4" "doe < 146096 * c + 146096" using abc doe unfolding c_def by linarith+
  have y: "365 * yoe \<le> doe - a + b - c" "doe - a + b - c < 365 * yoe + 365" unfolding yoe_def by linarith+
  have nonneg: "0 \<le> yoe" using abc y doe by linarith
  have yoe: "yoe < 400"
  proof (rule ccontr)
    assume "\<not> yoe < 400"
    with y have 1: "146000 \<le> doe - a + b - c" by linarith
    with abc abc' doe have "99 \<le> a" by linarith
    with 1 abc abc' doe have "100 \<le> a" by linarith
    with 1 abc' have "146096 + c \<le> doe" by linarith
    with abc' doe have "0 < c" by linarith
    with \<open>146096 + c \<le> doe\<close> doe show False by linarith
  qed
  define p q where "p = yoe div 4" and "q = yoe div 100"
  have pq: "4 * p \<le> yoe" "yoe < 100 * q + 100" unfolding p_def q_def by linarith+
  have low: "365 * yoe + p - q \<le> doe + 7" using abc y pq by linarith
  define mp where "mp = (5 * doy + 2) div 153"
  have year: "year_of_day z = yoe + era * 400 + (if mp < 10 then 0 else 1)"
    unfolding year_of_day_def Let_def mp_def doy_def yoe_def a_def b_def c_def doe_def era_def z'_def by (rule refl)
  have jan: "days_from_civil (y + 1 + e * 400) 1 1
      = e * 146097 + (365 * y + y div 4 - y div 100 + 306) - 719468" if "0 \<le> y" "y < 400" for y e
    using that by (simp add: days_from_civil_def Let_def div_add_self2 algebra_simps)
  show ?thesis
  proof (cases "mp < 10")
    case False
    then have "306 \<le> doy" unfolding mp_def by linarith
    moreover have "year_of_day z = yoe + 1 + era * 400" using False by (simp add: year)
    ultimately show ?thesis using jan [OF nonneg yoe, of era] z unfolding doy_def by simp
  next
    case early: True
    show ?thesis
    proof (cases "yoe = 0")
      case True
      with early have "year_of_day z = 399 + 1 + (era - 1) * 400" by (simp add: year)
      with doe z jan [of 399 "era - 1"] show ?thesis by simp
    next
      case False
      define r t where "r = (yoe - 1) div 4" and "t = (yoe - 1) div 100"
      have "r \<le> p" "q - 1 \<le> t" unfolding r_def t_def p_def q_def by linarith+
      moreover have "days_from_civil (yoe + era * 400) 1 1 = era * 146097 + (365 * (yoe - 1) + r - t + 306) - 719468"
        using jan [of "yoe - 1" era] False nonneg yoe by (simp add: r_def t_def)
      moreover have "year_of_day z = yoe + era * 400" using early by (simp add: year)
      ultimately show ?thesis using low z by simp
    qed
  qed
qed

lemma year_nonneg: "0 \<le> z \<Longrightarrow> 0 \<le> year_of_day z"
proof -
  assume z: "0 \<le> z"
  define doe where "doe = (z + 719468) mod 146097"
  define a b c where "a = doe div 1460" and "b = doe div 36524" and "c = doe div 146096"
  have doe: "0 \<le> doe" by (simp add: doe_def)
  have "0 \<le> a \<and> 1460 * a \<le> doe" "0 \<le> b" "146096 * c \<le> doe"
    using doe unfolding a_def b_def c_def by (simp_all add: pos_imp_zdiv_nonneg_iff; linarith)+
  then have "0 \<le> (doe - a + b - c) div 365" using doe by (simp add: pos_imp_zdiv_nonneg_iff)
  moreover have "0 \<le> (z + 719468) div 146097" using z by (simp add: pos_imp_zdiv_nonneg_iff)
  ultimately show ?thesis
    unfolding year_of_day_def Let_def doe_def [symmetric] a_def [symmetric] b_def [symmetric] c_def [symmetric]
    by (auto intro: add_nonneg_nonneg)
qed

lemma sevenths: "(7 * k - j) div 7 = (7 * k' - j) div 7 \<Longrightarrow> k = (k' :: int)"
  by presburger

lemma thursday_of_week: "week_thursday day = 7 * ((day + 3) div 7)"
  unfolding week_thursday_def by presburger

text \<open>The window a recurring kind gets one key for: its ISO week, its quarter of an hour, its hour.\<close>

definition schedule_window :: "string \<Rightarrow> instant \<Rightarrow> int" where
  "schedule_window kind t =
     (if kind \<in> RECURRING_WEEKLY_KINDS then (t div days 1 + 3) div 7
      else if kind \<in> RECURRING_QUARTER_HOUR_KINDS then t div minutes 15 else t div hours 1)"

lemma weekly_key_window:
  assumes "0 \<le> t" and "0 \<le> t'"
  shows "weekly_dedupe_key t kind = weekly_dedupe_key t' kind
    \<longleftrightarrow> (t div days 1 + 3) div 7 = (t' div days 1 + 3) div 7"
proof
  assume eq: "weekly_dedupe_key t kind = weekly_dedupe_key t' kind"
  have year: "0 \<le> iso_year u" if "0 \<le> u" for u
    using that unfolding iso_year_def thursday_of_week
    by (intro year_nonneg) (simp add: days_def seconds_def pos_imp_zdiv_nonneg_iff)
  have week: "0 \<le> iso_week u" for u
    using year_starts_before [of "week_thursday (u div days 1)"] unfolding iso_week_def iso_year_def by linarith
  have dash: "\<not> is_digit (CHR ''-'')" by (simp add: is_digit_def)
  have "decimal (nat (iso_year t)) @ CHR ''-'' # CHR ''W'' # two_digits (iso_week t)
      = decimal (nat (iso_year t')) @ CHR ''-'' # CHR ''W'' # two_digits (iso_week t')"
    using eq unfolding weekly_dedupe_key_def by simp
  from decimal_prefix [OF this dash] have same: "nat (iso_year t) = nat (iso_year t')"
    "CHR ''W'' # two_digits (iso_week t) = CHR ''W'' # two_digits (iso_week t')" by blast+
  from same(2) have "two_digits (iso_week t) = two_digits (iso_week t')" by (rule list.inject [THEN iffD1, THEN conjunct2])
  from two_digits_inj [OF this week week] have "iso_week t = iso_week t'" .
  moreover have "iso_year t = iso_year t'" using same(1) year [OF assms(1)] year [OF assms(2)] by linarith
  ultimately have "iso_year t = iso_year t'" "iso_week t = iso_week t'" by blast+
  then have "(7 * ((t div days 1 + 3) div 7) - days_from_civil (iso_year t') 1 1) div 7
      = (7 * ((t' div days 1 + 3) div 7) - days_from_civil (iso_year t') 1 1) div 7"
    unfolding iso_week_def thursday_of_week by simp
  then show "(t div days 1 + 3) div 7 = (t' div days 1 + 3) div 7" by (rule sevenths)
next
  assume "(t div days 1 + 3) div 7 = (t' div days 1 + 3) div 7"
  then show "weekly_dedupe_key t kind = weekly_dedupe_key t' kind"
    by (simp add: weekly_dedupe_key_def iso_year_def iso_week_def thursday_of_week del: decimal.simps)
qed

text \<open>
  C38. A recurring schedule runs once per window: two deliveries of the schedule's static body get the same
  key exactly when they arrive in the same ISO week, quarter of an hour or hour, as the kind's cadence says;
  an operator's own key is never touched.
\<close>

theorem schedule_key_is_its_window:
  assumes "iso_roundtrip std" and "0 \<le> t" and "0 \<le> t'"
    and "kind \<in> RECURRING_WEEKLY_KINDS \<union> RECURRING_QUARTER_HOUR_KINDS \<union> RECURRING_HOURLY_KINDS"
  shows "(scheduled_key std t kind (kind @ '':scheduled'') = scheduled_key std t' kind (kind @ '':scheduled'')
      \<longleftrightarrow> schedule_window kind t = schedule_window kind t')
    \<and> (\<forall>key. key \<noteq> kind @ '':scheduled'' \<longrightarrow> scheduled_key std t kind key = key)"
proof -
  have "quarter_hour_dedupe_key std t kind = quarter_hour_dedupe_key std t' kind
      \<longleftrightarrow> t div minutes 15 = t' div minutes 15"
    using iso_inj [OF assms(1)] by (fastforce simp: quarter_hour_dedupe_key_def minutes_def seconds_def)
  moreover have "hourly_dedupe_key std t kind = hourly_dedupe_key std t' kind \<longleftrightarrow> t div hours 1 = t' div hours 1"
    using iso_inj [OF assms(1)] by (fastforce simp: hourly_dedupe_key_def hours_def seconds_def)
  ultimately show ?thesis
    using weekly_key_window [OF assms(2,3), of kind] assms(4)
    by (auto simp: scheduled_key_def schedule_window_def)
qed

section \<open>Lemmas: a delivery\<close>

lemma verified_body_signed:
  "verified_job_body std dl st dest raw sig = Inr b \<Longrightarrow> b = raw \<and> dest \<noteq> [] \<and>
     (\<exists>key \<in> {the (qstash_current_signing_key st), the (qstash_next_signing_key st)}. \<exists>c.
        vf_decode (dl_verifier dl) key (the sig) = Claims c \<and> dget c ''sub'' = JStr dest
        \<and> decode_body_claim (dl_verifier dl) (py_str std (dget_or c ''body'' (JStr [])))
            = Some (vf_digest (dl_verifier dl) raw))"
  unfolding verified_job_body_def verify_delivery_def Let_def
  by (auto simp: try_signing_keys_ok simp del: try_signing_keys.simps split: if_splits)

definition job_under :: "string \<Rightarrow> db \<Rightarrow> processing_job option" where
  "job_under key d = job_by_dedupe key (jobs d)"

lemma calm_job_under:
  assumes "calm now d d'" and "job_under key d = Some j"
  shows "\<exists>j'. job_under key d' = Some j' \<and> pj_id j' = pj_id j \<and> pj_kind j' = pj_kind j
     \<and> (due_predicate now j' \<longrightarrow> due_predicate now j)"
proof -
  from assms(1) obtain f js where f: "jobs d' = map f (jobs d) @ js" "calm_row now f" unfolding calm_def by blast
  then have keys: "pj_dedupe_key (f j) = pj_dedupe_key j" for j by (simp add: calm_row_def)
  have "find (\<lambda>j. pj_dedupe_key j = key) (map f rows @ js) = Some (f j)"
    if "find (\<lambda>j. pj_dedupe_key j = key) rows = Some j" for rows
    using that by (induction rows) (auto simp: keys split: if_splits)
  with assms(2) f have "job_under key d' = Some (f j)" by (simp add: job_under_def job_by_dedupe_def)
  with f(2) show ?thesis by (auto simp: calm_row_def)
qed

lemma enqueue_job_under:
  "enqueue_job kind key p d = Inr ((job, created), d1) \<Longrightarrow> job_under key d1 = Some job
     \<and> (created \<longleftrightarrow> job_under key d = None) \<and> (\<not> created \<longrightarrow> d1 = d\<lparr>next_id := Suc (next_id d)\<rparr>)"
  by (auto simp: enqueue_job_def job_under_def new_uuid7_def Let_def split: option.splits if_splits)

lemma enqueue_total: "\<exists>job created d1. enqueue_job kind key p d = Inr ((job, created), d1)"
proof (cases "job_by_dedupe key (jobs d)")
  case None
  then show ?thesis
    by (auto simp: enqueue_job_def new_uuid7_def Let_def job_by_dedupe_def find_append_one new_job_def)
next
  case (Some job)
  then have "enqueue_job kind key p d = Inr ((job, False), d\<lparr>next_id := Suc (next_id d)\<rparr>)"
    by (simp add: enqueue_job_def new_uuid7_def Let_def)
  then show ?thesis by blast
qed

lemma nested_sweep_calm:
  "execute_job n w now i d = (res, lost, d') \<Longrightarrow>
   \<exists>sweep. execute_with w now sweep i d = (res, lost, d') \<and> (\<forall>x. calm now x (snd (sweep x)))"
proof (cases n)
  case (Suc m)
  have "calm now x (snd (snd (run_batch (execute_job m w now) is x)))" for x "is"
    by (cases "run_batch (execute_job m w now) is x") (auto intro: run_batch_calm [OF execute_job_calm])
  moreover assume "execute_job n w now i d = (res, lost, d')"
  ultimately show ?thesis using Suc by auto
qed auto

lemma job_under_write:
  assumes "job_under key d = Some j" and "\<And>j. pj_dedupe_key (f j) = pj_dedupe_key j"
    and "jobs d' = tmod pj_id (pj_id j) f (jobs d)"
  shows "job_under key d' = Some (f j)"
proof -
  have "find (\<lambda>j. pj_dedupe_key j = key) (tmod pj_id (pj_id j) f rows) = Some (f j)"
    if "find (\<lambda>j. pj_dedupe_key j = key) rows = Some j" for rows
    using that by (induction rows) (auto simp: assms(2) split: if_splits)
  with assms(1,3) show ?thesis by (simp add: job_under_def job_by_dedupe_def)
qed

text \<open>What the row under a key says once its due job has been run.\<close>

lemma delivered_run:
  assumes run: "execute_job n w now (pj_id job) d = (res, lost, d')"
    and job: "job_under key d = Some job" "due_predicate now job" and ids: "distinct (map pj_id (jobs d))"
  shows "\<exists>j'. job_under key d' = Some j' \<and> pj_id j' = pj_id job
     \<and> (case res of Inr _ \<Rightarrow> pj_state j' = Completed
        | Inl e \<Rightarrow> session_lost e \<or> (pj_state j' \<in> {Retry_wait, Failed_review} \<and> \<not> due_predicate now j'))"
proof -
  from nested_sweep_calm [OF run] obtain sweep where
    ex: "execute_with w now sweep (pj_id job) d = (res, lost, d')" and calm: "\<And>x. calm now x (snd (sweep x))" by blast
  have "job \<in> set (jobs d)" using job(1) by (auto simp: job_under_def job_by_dedupe_def find_Some_iff)
  then have row: "tget pj_id (pj_id job) (jobs d) = Some job" by (rule tget_in_set [OF ids])
  have after: "\<exists>j2. job_under key d2 = Some j2 \<and> pj_id j2 = pj_id c"
    if "claim_job_for_execution now (pj_id job) d = Inr (c, d1)"
      "run_handler w now sweep (pj_kind c) (pj_payload c) d1 = (out, lost', d2)" for c d1 out lost' d2
    using calm_job_under [OF calm_trans [OF claim_calm [OF that(1)] handler_calm [OF that(2) calm]] job(1)]
      claimed [OF that(1)] by auto
  from ex show ?thesis
  proof (cases rule: execute_cases)
    case (refused e)
    with row job(2) show ?thesis
      by (auto simp: claim_job_for_execution_def due_predicate_claim bindE_eq_Inl)
  next
    case (completed c d1 d2 u)
    from after [OF completed(1,2)] obtain j2 where j2: "job_under key d2 = Some j2" "pj_id j2 = pj_id c" by blast
    have "job_under key d' = Some (complete_row c j2)"
      by (rule job_under_write [OF j2(1)]) (simp_all add: completed(4) complete_job_def j2(2))
    with completed(3) j2(2) claimed [OF completed(1)] show ?thesis
      by (auto simp: complete_row_def finish_job_def flush_def)
  next
    case (failed c d1 d2 e lost')
    from after [OF failed(1,2)] obtain j2 where j2: "job_under key d2 = Some j2" "pj_id j2 = pj_id c" by blast
    show ?thesis
    proof (cases "session_lost e")
      case True
      with failed(3,4) j2 claimed [OF failed(1)] show ?thesis by auto
    next
      case False
      let ?t = "fail_job (pj_kind c) (pj_attempts c) (exn_text e) now"
      from False failed(4) have d': "d' = fail_job_for_execution now c (exn_text e) d2" by simp
      have "job_under key d' = Some (fail_row ?t c j2)"
        by (rule job_under_write [OF j2(1)]) (simp_all add: d' fail_job_for_execution_def Let_def j2(2))
      moreover have "\<not> due_predicate now (fail_row ?t c j2)"
        using claimed [OF failed(1)] by (intro failed_not_due) auto
      moreover have "pj_state (fail_row ?t c j2) \<in> {Retry_wait, Failed_review}"
        using claimed [OF failed(1)] fail_job_state [of "pj_kind c" "pj_attempts c" "exn_text e" now]
        by (auto simp: fail_row_def flush_def)
      ultimately show ?thesis using failed(3) j2(2) claimed [OF failed(1)] by auto
    qed
  qed
qed

lemma enqueue_ids:
  "enqueue_job kind key p d = Inr ((job, created), d1) \<Longrightarrow> queue_ok d \<Longrightarrow> distinct (map pj_id (jobs d1))"
  by (drule (1) enqueue_queue_ok [rotated]) (simp add: queue_ok_def)

section \<open>Properties of a delivery\<close>


text \<open>
  C12. A delivery is acknowledged for what happened: over a sound queue, after a delivery of an allowed kind
  the job under its key exists and, unless the run lost the database session, is not left due; an answer
  names that job and its stored state, and 502 is answered exactly for a run that failed and left the job
  waiting for its retry or handed to a reviewer.
\<close>

theorem delivery_is_acknowledged_truthfully:
  assumes "queue_ok d" and "kind \<in> ALLOWED_JOB_KINDS"
    and "enqueue_and_run std (execute_job fuel w now) now kind jr d = (out, d')"
  shows "\<exists>j. job_under (scheduled_key std now kind (jr_dedupe_key jr)) d' = Some j
     \<and> (case out of
          Inr r \<Rightarrow> js_job_id r = pj_id j \<and> js_state r = pj_state j \<and> \<not> due_predicate now j
        | Inl (HTTPException status _ _) \<Rightarrow>
            status = 502 \<and> pj_state j \<in> {Retry_wait, Failed_review} \<and> \<not> due_predicate now j
        | Inl (Unhandled e) \<Rightarrow> session_lost e)"
proof -
  let ?key = "scheduled_key std now kind (jr_dedupe_key jr)"
  obtain job created d1 where enq: "enqueue_job kind ?key (jr_payload jr) d = Inr ((job, created), d1)"
    using enqueue_total by blast
  note under = enqueue_job_under [OF enq, THEN conjunct1]
  show ?thesis
  proof (cases "due_predicate now job")
    case False
    with assms(2,3) enq under show ?thesis by (auto simp: enqueue_and_run_def)
  next
    case True
    obtain res lost d2 where ex: "execute_job fuel w now (pj_id job) d1 = (res, lost, d2)"
      by (cases "execute_job fuel w now (pj_id job) d1")
    from delivered_run [OF ex under True enqueue_ids [OF enq assms(1)]] obtain j where
      j: "job_under ?key d2 = Some j" "pj_id j = pj_id job"
      "case res of Inr _ \<Rightarrow> pj_state j = Completed
        | Inl e \<Rightarrow> session_lost e \<or> (pj_state j \<in> {Retry_wait, Failed_review} \<and> \<not> due_predicate now j)" by blast
    have out: "run_delivered (execute_job fuel w now) job created d1 = (out, d')"
      using assms(2,3) enq True by (simp add: enqueue_and_run_def)
    show ?thesis
      using out ex j by (cases res) (auto simp: run_delivered_def due_predicate_def split: if_splits)
  qed
qed

text \<open>
  A job that has completed is never run again by its key: once a delivery was answered as completed,
  every later delivery under the same key reports that very job as completed and not created, and changes
  nothing but the counter of issued ids.
\<close>

theorem completed_delivery_is_only_replayed:
  assumes "queue_ok d" and "kind \<in> ALLOWED_JOB_KINDS"
    and "enqueue_and_run std (execute_job fuel w now) now kind jr d = (Inr r, d')" and "js_state r = Completed"
    and "kind' \<in> ALLOWED_JOB_KINDS"
    and "scheduled_key std now' kind' (jr_dedupe_key jr') = scheduled_key std now kind (jr_dedupe_key jr)"
  shows "enqueue_and_run std execute now' kind' jr' d'
    = (Inr \<lparr>js_job_id = js_job_id r, js_state = Completed, js_created = False\<rparr>, d'\<lparr>next_id := Suc (next_id d')\<rparr>)"
proof -
  let ?key = "scheduled_key std now kind (jr_dedupe_key jr)"
  obtain job created d1 where enq: "enqueue_job kind ?key (jr_payload jr) d = Inr ((job, created), d1)"
    using enqueue_total by blast
  note under = enqueue_job_under [OF enq, THEN conjunct1]
  have "\<exists>j. job_under ?key d' = Some j \<and> pj_id j = js_job_id r \<and> pj_state j = Completed"
  proof (cases "due_predicate now job")
    case False
    with assms(2,3,4) enq under show ?thesis by (auto simp: enqueue_and_run_def)
  next
    case True
    obtain res lost d2 where ex: "execute_job fuel w now (pj_id job) d1 = (res, lost, d2)"
      by (cases "execute_job fuel w now (pj_id job) d1")
    from True assms(2,3) enq ex have "\<exists>u. res = Inr u" "d' = d2" "js_job_id r = pj_id job"
      by (auto simp: enqueue_and_run_def run_delivered_def split: sum.splits if_splits)
    with delivered_run [OF ex under True enqueue_ids [OF enq assms(1)]] show ?thesis by auto
  qed
  then obtain j where "job_by_dedupe ?key (jobs d') = Some j" "pj_id j = js_job_id r" "pj_state j = Completed"
    by (auto simp: job_under_def)
  with assms(5,6) show ?thesis
    by (simp add: enqueue_and_run_def enqueue_job_def new_uuid7_def Let_def due_predicate_def)
qed

section \<open>Witnesses\<close>

theorem schedule_key_is_its_window_witness:
  "weekly_dedupe_key 0 ''sync_countries'' = weekly_dedupe_key (hours 5) ''sync_countries''
   \<and> scheduled_key demo_std 0 ''sync_countries'' ''now'' = ''now''"
  using schedule_key_is_its_window [of demo_std 0 "hours 5" "''sync_countries''"] demo_std_roundtrip
  by (simp add: RECURRING_WEEKLY_KINDS_def scheduled_key_def schedule_window_def hours_def days_def seconds_def
      del: decimal.simps)

definition demo_delivery_world :: world where
  "demo_delivery_world = demo_world\<lparr>wl_settings := default_settings\<lparr>qstash_current_signing_key := Some ''k'',
     qstash_next_signing_key := Some ''n'', qstash_expected_destination := ''https://a''\<rparr>\<rparr>"

definition demo_delivery :: deliverylib where
  "demo_delivery =
     \<lparr>dl_verifier = \<lparr>vf_decode = (\<lambda>_ _. Claims [(''iss'', JStr ''Upstash''), (''sub'', JStr ''https://a''), (''body'', JStr ''b'')]),
        vf_b64 = (\<lambda>_. Some (replicate 32 (CHR ''x''))), vf_digest = (\<lambda>_. replicate 32 (CHR ''x''))\<rparr>,
      dl_loads = (\<lambda>_. Some (JObj [(''kind'', JStr ''dispatch_outbox''), (''dedupe_key'', JStr ''k1'')])),
      dl_uuid = (\<lambda>_. False)\<rparr>"

lemma demo_outbox_handler: "run_handler demo_delivery_world 0 sweep ''dispatch_outbox'' p x = (Inr (), False, x)"
proof -
  have "dispatch_analytics_events std (wl_settings demo_delivery_world) post now locked limit d
      = Inr (\<lparr>held = length (claim_pending_events DESTINATION_ANALYTICS locked limit d), dispatched = 0, failed = 0\<rparr>, d)"
    for std post now locked limit d
    by (simp add: dispatch_analytics_events_def demo_delivery_world_def default_settings_def Let_def)
  then show ?thesis by (simp add: run_handler_def Let_def done_with_def)
qed

definition demo_job_request :: job_request where
  "demo_job_request = \<lparr>jr_kind = Some ''dispatch_outbox'', jr_dedupe_key = ''k1'', jr_payload = []\<rparr>"

lemma demo_run_delivery:
  "\<exists>r d'. enqueue_and_run std (execute_job 0 demo_delivery_world 0) 0 ''dispatch_outbox'' demo_job_request empty_db = (Inr r, d')
     \<and> js_state r = Completed \<and> js_job_id r = 1"
  by (simp add: enqueue_and_run_def ALLOWED_JOB_KINDS_def scheduled_key_def demo_job_request_def enqueue_job_def
      new_uuid7_def empty_db_def job_by_dedupe_def new_job_def due_predicate_def run_delivered_def execute_with_def
      claim_job_for_execution_def claim_job_def claim_row_def demo_outbox_handler Let_def)

lemma demo_queue_empty: "queue_ok empty_db"
  by (simp add: queue_ok_def empty_db_def)

lemma demo_kind_allowed: "''dispatch_outbox'' \<in> ALLOWED_JOB_KINDS"
  by (simp add: ALLOWED_JOB_KINDS_def)

theorem delivery_is_acknowledged_truthfully_witness:
  "\<exists>r d' j. enqueue_and_run demo_std (execute_job 0 demo_delivery_world 0) 0 ''dispatch_outbox'' demo_job_request empty_db = (Inr r, d')
     \<and> job_under (scheduled_key demo_std 0 ''dispatch_outbox'' ''k1'') d' = Some j \<and> pj_state j = Completed \<and> pj_id j = 1"
proof -
  from demo_run_delivery [of demo_std] obtain r d' where
    run: "enqueue_and_run demo_std (execute_job 0 demo_delivery_world 0) 0 ''dispatch_outbox'' demo_job_request empty_db = (Inr r, d')"
    and r: "js_state r = Completed" "js_job_id r = 1" by blast
  from delivery_is_acknowledged_truthfully [OF demo_queue_empty demo_kind_allowed run] run r
  show ?thesis by (auto simp: demo_job_request_def)
qed

theorem completed_delivery_is_only_replayed_witness:
  "\<exists>r d'. enqueue_and_run demo_std (execute_job 0 demo_delivery_world 0) 0 ''dispatch_outbox'' demo_job_request empty_db = (Inr r, d')
     \<and> enqueue_and_run demo_std (execute_job 0 demo_delivery_world 9) 9 ''dispatch_outbox'' demo_job_request d'
         = (Inr \<lparr>js_job_id = 1, js_state = Completed, js_created = False\<rparr>, d'\<lparr>next_id := Suc (next_id d')\<rparr>)"
proof -
  from demo_run_delivery [of demo_std] obtain r d' where
    run: "enqueue_and_run demo_std (execute_job 0 demo_delivery_world 0) 0 ''dispatch_outbox'' demo_job_request empty_db = (Inr r, d')"
    and r: "js_state r = Completed" "js_job_id r = 1" by blast
  have "scheduled_key demo_std 9 ''dispatch_outbox'' (jr_dedupe_key demo_job_request)
      = scheduled_key demo_std 0 ''dispatch_outbox'' (jr_dedupe_key demo_job_request)"
    by (simp add: scheduled_key_def demo_job_request_def)
  from completed_delivery_is_only_replayed [OF demo_queue_empty demo_kind_allowed run r(1) demo_kind_allowed this] run r(2)
  show ?thesis by metis
qed


end
