(* ===== verification/Admin.thy ===== *)
theory Admin
  imports System Delivery Search
begin

text \<open>
  The routes of reviewers and administrators that write
  (\<open>src/src/app/api/routes.py\<close>, with the rqs of \<open>src/src/app/api/review_schemas.py\<close> and
  \<open>src/src/app/api/auto_approval_schemas.py\<close>): the feed import, sources and providers, review decisions
  one by one and in bulk, the resolution of an approval audit, publishing, correcting and withdrawing, and
  the manual run of the due jobs. Each is a call of an operation of the catalogue behind the service token,
  with the operation's exceptions sorted into status codes. The session commits on a clean answer, so a
  route gives its new database only beside one.

  A timestamp of a request is an instant: one without an offset is read in the zone of the server.
\<close>

section \<open>Exceptions and status codes\<close>

definition decision_errors :: "exn \<Rightarrow> http_error" where
  "decision_errors e =
     (case e of ValueError m \<Rightarrow> http_raise 422 m | LookupError m \<Rightarrow> http_raise 404 m | _ \<Rightarrow> Unhandled e)"

definition missing_error :: "exn \<Rightarrow> http_error" where
  "missing_error e = (case e of LookupError m \<Rightarrow> http_raise 404 m | _ \<Rightarrow> Unhandled e)"

definition conflict_error :: "exn \<Rightarrow> http_error" where
  "conflict_error e = (case e of ValueError m \<Rightarrow> http_raise 409 m | _ \<Rightarrow> Unhandled e)"

definition record_errors :: "exn \<Rightarrow> http_error" where
  "record_errors e =
     (case e of LookupError m \<Rightarrow> http_raise 404 m | ValueError m \<Rightarrow> http_raise 409 m | _ \<Rightarrow> Unhandled e)"

text \<open>A request that its schema refuses; \<open>validation_exception_handler\<close> writes the answer.\<close>

definition request_invalid :: http_error where
  "request_invalid = http_raise 422 ''Request validation failed''"

section \<open>Imports, sources, providers\<close>

definition import_feed_route ::
  "fetchlib \<Rightarrow> settings \<Rightarrow> instant \<Rightarrow> feed_record list \<Rightarrow> db
   \<Rightarrow> ((import_outcome \<times> qstash_message list) \<times> db) response" where
  "import_feed_route fl st now records d =
     bindH (plain_call (import_feed_records fl st now records d)) (\<lambda>(oc, messages, d').
     Inr ((oc, messages), d'))"

definition source_read :: "uuid \<Rightarrow> db \<Rightarrow> (source \<times> db) response" where
  "source_read sid d =
     (case tget so_id sid (sources d) of None \<Rightarrow> Inl (Unhandled AttributeError) | Some s \<Rightarrow> Inr (s, d))"

definition create_source_route :: "source_request \<Rightarrow> db \<Rightarrow> (source \<times> db) response" where
  "create_source_route rq d =
     bindH (try_call (\<lambda>_. request_invalid) (create_source rq d)) (\<lambda>(sid, d'). source_read sid d')"

definition deactivate_source_route :: "uuid \<Rightarrow> db \<Rightarrow> (source \<times> db) response" where
  "deactivate_source_route sid d =
     bindH (try_call missing_error (deactivate_source sid d)) (source_read sid)"

definition update_source_domains_route :: "uuid \<Rightarrow> string list \<Rightarrow> db \<Rightarrow> (source \<times> db) response" where
  "update_source_domains_route sid domains d =
     bindH (try_call (\<lambda>_. request_invalid) (normalize_domains domains)) (\<lambda>_.
     bindH (try_call missing_error (update_source_domains sid domains d)) (source_read sid))"

definition provider_read :: "uuid \<Rightarrow> db \<Rightarrow> (provider \<times> db) response" where
  "provider_read pid d =
     (case tget pv_id pid (providers d) of None \<Rightarrow> Inl (Unhandled AttributeError) | Some p \<Rightarrow> Inr (p, d))"

definition create_provider_route ::
  "string \<Rightarrow> string list \<Rightarrow> string option \<Rightarrow> db \<Rightarrow> (provider \<times> db) response" where
  "create_provider_route name domains country d =
     bindH (try_call (\<lambda>_. request_invalid) (normalize_domains domains)) (\<lambda>_.
     let vocab = (case country of None \<Rightarrow> None | Some _ \<Rightarrow> Some (load_vocabulary d))
     in bindH (try_call answer_422 (create_provider name domains country vocab d)) (\<lambda>(pid, d'). provider_read pid d'))"

section \<open>Review decisions\<close>

record decision_response =
  ds_review_task_id :: uuid
  ds_decision :: string
  ds_scholarship_id :: "uuid option"

definition review_decision :: "uuid \<Rightarrow> review_request \<Rightarrow> db \<Rightarrow> (decision_response \<times> db) response" where
  "review_decision tid rq d =
     bindH (try_call decision_errors (decide_review tid rq d)) (\<lambda>(sid, d').
     Inr (\<lparr>ds_review_task_id = tid, ds_decision = rq_decision rq, ds_scholarship_id = sid\<rparr>, d'))"

text \<open>One result per item; \<open>bk_error\<close> is the exception whose text the answer carries.\<close>

record bulk_result =
  bk_review_task_id :: uuid
  bk_success :: bool
  bk_decision :: string
  bk_scholarship_id :: "uuid option"
  bk_error :: "exn option"

definition bulk_item :: "uuid \<times> review_request \<Rightarrow> db \<Rightarrow> bulk_result \<times> db" where
  "bulk_item x d =
     (case decide_review (fst x) (snd x) d of
        Inr (sid, d') \<Rightarrow>
          (\<lparr>bk_review_task_id = fst x, bk_success = True, bk_decision = rq_decision (snd x),
            bk_scholarship_id = sid, bk_error = None\<rparr>, d')
      | Inl e \<Rightarrow>
          (\<lparr>bk_review_task_id = fst x, bk_success = False, bk_decision = rq_decision (snd x),
            bk_scholarship_id = None, bk_error = Some e\<rparr>, d))"

fun bulk_review_decision :: "(uuid \<times> review_request) list \<Rightarrow> db \<Rightarrow> bulk_result list \<times> db" where
  "bulk_review_decision [] d = ([], d)"
| "bulk_review_decision (x # items) d =
     (case bulk_item x d of (r, d1) \<Rightarrow>
        case bulk_review_decision items d1 of (rs, d2) \<Rightarrow> (r # rs, d2))"

section \<open>Audits of automatic approvals\<close>

record resolve_request =
  rv_outcome :: string
  rv_reviewer_notes :: "string option"
  rv_resolved_by :: string

definition resolve_audit_row :: "instant \<Rightarrow> resolve_request \<Rightarrow> auto_approval_audit \<Rightarrow> auto_approval_audit" where
  "resolve_audit_row now rq a =
     a\<lparr>aa_outcome := rv_outcome rq, aa_reviewer_notes := rv_reviewer_notes rq,
       aa_resolved_at := Some now, aa_resolved_by := Some (rv_resolved_by rq)\<rparr>"

text \<open>The answer: the row as written, and the name of its scholarship.\<close>

definition resolve_auto_approval_audit ::
  "instant \<Rightarrow> uuid \<Rightarrow> resolve_request \<Rightarrow> db \<Rightarrow> ((auto_approval_audit \<times> string) \<times> db) response" where
  "resolve_auto_approval_audit now aid rq d =
     (case tget aa_id aid (auto_audits d) of
        None \<Rightarrow> Inl (http_raise 404 ''Audit not found'')
      | Some a \<Rightarrow>
          let d' = d\<lparr>auto_audits := tmod aa_id aid (resolve_audit_row now rq) (auto_audits d)\<rparr>;
              name = (case tget sch_id (aa_scholarship_id a) (scholarships d) of
                        None \<Rightarrow> [] | Some s \<Rightarrow> sch_name s)
          in Inr ((resolve_audit_row now rq a, name), d'))"

section \<open>Withdrawing and publishing\<close>

definition withdraw_route :: "instant \<Rightarrow> uuid \<Rightarrow> string \<Rightarrow> db \<Rightarrow> (nat \<times> db) response" where
  "withdraw_route now sid reason d =
     try_call record_errors (withdraw_scholarship now sid reason ''internal_service'' d)"

text \<open>The facts of a publish request are the arguments of \<open>build_cycle_facts\<close>.\<close>

record publish_request =
  pq_provider_cycle_key :: string
  pq_applicant_segment :: string
  pq_official_cycle_url :: string
  pq_public_status :: public_status
  pq_status_valid_until :: "instant option"
  pq_last_verified_at :: "instant option"
  pq_inputs :: cycle_inputs

definition published_content :: "publish_request \<Rightarrow> dict \<Rightarrow> cycle_content" where
  "published_content rq facts =
     \<lparr>cc_key = pq_provider_cycle_key rq, cc_segment = pq_applicant_segment rq,
      cc_url = pq_official_cycle_url rq, cc_status = pq_public_status rq, cc_facts = facts,
      cc_valid_until = pq_status_valid_until rq, cc_verified_at = pq_last_verified_at rq\<rparr>"

definition publish_route ::
  "stdlib \<Rightarrow> instant \<Rightarrow> uuid \<Rightarrow> publish_request \<Rightarrow> db \<Rightarrow> (cycle \<times> db) response" where
  "publish_route std now sid rq d =
     bindH (try_call answer_422 (build_cycle_facts std (load_vocabulary d) (pq_inputs rq))) (\<lambda>facts.
     try_call record_errors (publish_cycle now sid (published_content rq facts) ''internal_service'' d))"

section \<open>Correcting a cycle\<close>

text \<open>A field of a partial update: left out, sent as null, or sent with a value (\<open>exclude_unset\<close>).\<close>

datatype 'a sent = Unsent | Null | Sent 'a

fun apply_sent :: "('a option \<Rightarrow> 'b) \<Rightarrow> 'a sent \<Rightarrow> 'b \<Rightarrow> 'b" where
  "apply_sent g Unsent old = old"
| "apply_sent g Null old = g None"
| "apply_sent g (Sent x) old = g (Some x)"

record update_request =
  up_provider_cycle_key :: "string sent"
  up_applicant_segment :: "string sent"
  up_official_cycle_url :: "string sent"
  up_public_status :: "public_status sent"
  up_status_valid_until :: "instant sent"
  up_last_verified_at :: "instant sent"
  up_destinations :: "string list sent"
  up_levels :: "string list sent"
  up_origin_mode :: "string sent"
  up_origins :: "string list sent"
  up_field_mode :: "string sent"
  up_fields :: "string list sent"
  up_programme_names :: "string list sent"
  up_evidence_fresh :: "bool sent"
  up_deadline_at :: "datetime sent"
  up_deadline_precision :: "string sent"
  up_deadline_timezone :: "string sent"
  up_eligibility_note :: "string sent"
  up_expected_reopen_month :: "int sent"
  up_funding_type :: "string sent"

fun if_sent :: "string \<Rightarrow> 'a sent \<Rightarrow> string list" where
  "if_sent n Unsent = []"
| "if_sent n _ = [n]"

text \<open>\<open>list(changes)\<close>: the fields the caller set, first the columns, then those of \<open>_CYCLE_FACT_FIELDS\<close>.\<close>

definition changed_facts :: "update_request \<Rightarrow> string list" where
  "changed_facts u =
     if_sent ''destinations'' (up_destinations u) @ if_sent ''levels'' (up_levels u)
     @ if_sent ''origin_mode'' (up_origin_mode u) @ if_sent ''origins'' (up_origins u)
     @ if_sent ''field_mode'' (up_field_mode u) @ if_sent ''fields'' (up_fields u)
     @ if_sent ''programme_names'' (up_programme_names u) @ if_sent ''evidence_fresh'' (up_evidence_fresh u)
     @ if_sent ''deadline_at'' (up_deadline_at u) @ if_sent ''deadline_precision'' (up_deadline_precision u)
     @ if_sent ''deadline_timezone'' (up_deadline_timezone u)
     @ if_sent ''eligibility_note'' (up_eligibility_note u)
     @ if_sent ''expected_reopen_month'' (up_expected_reopen_month u)
     @ if_sent ''funding_type'' (up_funding_type u)"

definition changed_fields :: "update_request \<Rightarrow> string list" where
  "changed_fields u =
     if_sent ''provider_cycle_key'' (up_provider_cycle_key u)
     @ if_sent ''applicant_segment'' (up_applicant_segment u)
     @ if_sent ''official_cycle_url'' (up_official_cycle_url u)
     @ if_sent ''public_status'' (up_public_status u)
     @ if_sent ''status_valid_until'' (up_status_valid_until u)
     @ if_sent ''last_verified_at'' (up_last_verified_at u) @ changed_facts u"

text \<open>\<open>inputs.update(...)\<close>. A null list is not written here: \<open>edited_facts\<close> raises for it.\<close>

definition edited_inputs :: "update_request \<Rightarrow> cycle_inputs \<Rightarrow> cycle_inputs" where
  "edited_inputs u i =
     i\<lparr>in_destinations := apply_sent (case_option [] id) (up_destinations u) (in_destinations i),
       in_levels := apply_sent (case_option [] id) (up_levels u) (in_levels i),
       in_origin_mode := apply_sent (jopt JStr) (up_origin_mode u) (in_origin_mode i),
       in_origins := apply_sent (case_option [] id) (up_origins u) (in_origins i),
       in_field_mode := apply_sent (jopt JStr) (up_field_mode u) (in_field_mode i),
       in_fields := apply_sent (case_option [] id) (up_fields u) (in_fields i),
       in_programme_names := apply_sent id (up_programme_names u) (in_programme_names i),
       in_evidence_fresh := apply_sent (case_option False id) (up_evidence_fresh u) (in_evidence_fresh i),
       in_deadline_at := apply_sent id (up_deadline_at u) (in_deadline_at i),
       in_deadline_precision := apply_sent (jopt JStr) (up_deadline_precision u) (in_deadline_precision i),
       in_deadline_timezone := apply_sent (jopt JStr) (up_deadline_timezone u) (in_deadline_timezone i),
       in_eligibility_note := apply_sent (jopt JStr) (up_eligibility_note u) (in_eligibility_note i),
       in_expected_reopen_month := apply_sent (jopt JInt) (up_expected_reopen_month u) (in_expected_reopen_month i),
       in_funding_type := apply_sent (jopt JStr) (up_funding_type u) (in_funding_type i)\<rparr>"

text \<open>
  \<open>build_cycle_facts(**inputs)\<close>. A list sent as null raises \<open>TypeError\<close> where the builder comes to iterate
  it, after the checks before it; a null \<open>evidence_fresh\<close> is stored as it is.
\<close>

definition edited_facts :: "stdlib \<Rightarrow> country_vocabulary \<Rightarrow> update_request \<Rightarrow> cycle_inputs \<Rightarrow> dict result" where
  "edited_facts std v u old =
     (let i = edited_inputs u old
      in bindE (guardE (up_destinations u \<noteq> Null) TypeError) (\<lambda>_.
         bindE (mapE (destination v) (in_destinations i)) (\<lambda>dests.
         bindE (guardE (dests \<noteq> []) (ValueError ''At least one destination is required'')) (\<lambda>_.
         bindE (guardE (up_levels u \<noteq> Null) TypeError) (\<lambda>_.
         bindE (mapE tax_degree (in_levels i)) (\<lambda>levels.
         bindE (guardE (levels \<noteq> []) (ValueError ''At least one degree level is required'')) (\<lambda>_.
         bindE (guardE (up_origins u \<noteq> Null) TypeError) (\<lambda>_.
         bindE (mapE (origin v) (in_origins i)) (\<lambda>origins.
         bindE (guardE (\<not> (in_origin_mode i = JStr ''restricted'' \<and> origins = []))
                  (ValueError ''origin_mode restricted requires at least one origin'')) (\<lambda>_.
         bindE (guardE (up_fields u \<noteq> Null) TypeError) (\<lambda>_.
         bindE (build_cycle_facts std v i) (\<lambda>facts.
         Inr (if up_evidence_fresh u = Null then dset ''evidence_fresh'' JNull facts else facts)))))))))))))"

text \<open>
  The columns. A null URL goes through \<open>str\<close>; a null key or segment clashes with nothing and fails the
  column's constraint when the row is flushed.
\<close>

definition corrected_content :: "update_request \<Rightarrow> cycle \<Rightarrow> dict \<Rightarrow> cycle_content" where
  "corrected_content u cyc facts =
     \<lparr>cc_key = apply_sent or_empty (up_provider_cycle_key u) (cy_provider_cycle_key cyc),
      cc_segment = apply_sent or_empty (up_applicant_segment u) (cy_applicant_segment cyc),
      cc_url = apply_sent (case_option ''None'' id) (up_official_cycle_url u) (cy_official_cycle_url cyc),
      cc_status = apply_sent (case_option (cy_public_status cyc) id) (up_public_status u) (cy_public_status cyc),
      cc_facts = facts,
      cc_valid_until = apply_sent id (up_status_valid_until u) (cy_status_valid_until cyc),
      cc_verified_at = apply_sent id (up_last_verified_at u) (cy_last_verified_at cyc)\<rparr>"

definition write_correction :: "update_request \<Rightarrow> cycle \<Rightarrow> dict \<Rightarrow> db \<Rightarrow> (cycle \<times> db) result" where
  "write_correction u cyc facts d =
     (if up_provider_cycle_key u = Null \<or> up_applicant_segment u = Null then Inl IntegrityError
      else update_cycle cyc (corrected_content u cyc facts) (changed_fields u) ''internal_service'' d)"

definition update_cycle_route ::
  "stdlib \<Rightarrow> uuid \<Rightarrow> uuid \<Rightarrow> update_request \<Rightarrow> db \<Rightarrow> (cycle \<times> db) response" where
  "update_cycle_route std sid cid u d =
     bindH (guardH (changed_fields u \<noteq> []) (http_raise 422 ''No fields to update'')) (\<lambda>_.
     bindH (try_call record_errors (load_cycle_for_update sid cid d)) (\<lambda>cyc.
     bindH (try_call answer_422
              (bindE (cycle_facts_to_inputs std (cy_facts cyc)) (edited_facts std (load_vocabulary d) u))) (\<lambda>facts.
     try_call conflict_error (write_correction u cyc facts d))))"

section \<open>The manual run of the due jobs\<close>

record run_due_response =
  rd_completed :: nat
  rd_failed :: nat
  rd_remaining :: nat

definition run_due_jobs_route :: "nat \<Rightarrow> world \<Rightarrow> instant \<Rightarrow> nat \<Rightarrow> db \<Rightarrow> run_due_response \<times> db" where
  "run_due_jobs_route fuel w now limit d =
     (case execute_due_jobs fuel w now limit d of
        (r, _, d') \<Rightarrow>
          (\<lparr>rd_completed = bt_completed r, rd_failed = bt_failed r, rd_remaining = count_due_jobs now d'\<rparr>, d'))"

section \<open>The administrative surface\<close>

datatype admin_call =
    Import_feed "feed_record list"
  | Create_source source_request
  | Deactivate_source uuid
  | Update_domains uuid "string list"
  | Create_provider string "string list" "string option"
  | Decide uuid review_request
  | Decide_bulk "(uuid \<times> review_request) list"
  | Resolve_audit uuid resolve_request
  | Withdraw uuid string
  | Publish uuid publish_request
  | Update_cycle uuid uuid update_request
  | Run_due nat

datatype admin_answer =
    Imported_feed import_outcome "qstash_message list"
  | Source_row source
  | Provider_row provider
  | Decision decision_response
  | Decisions "bulk_result list"
  | Audit auto_approval_audit string
  | Withdrawn_cycles nat
  | Cycle_row cycle
  | Ran run_due_response

definition answer :: "('a \<Rightarrow> admin_answer) \<Rightarrow> ('a \<times> db) response \<Rightarrow> (admin_answer \<times> db) response" where
  "answer f m = bindH m (\<lambda>(x, d). Inr (f x, d))"

fun admin_route :: "nat \<Rightarrow> world \<Rightarrow> instant \<Rightarrow> admin_call \<Rightarrow> db \<Rightarrow> (admin_answer \<times> db) response" where
  "admin_route fuel w now (Import_feed rs) d =
     answer (\<lambda>(oc, ms). Imported_feed oc ms) (import_feed_route (vl_fetch w) (wl_settings w) now rs d)"
| "admin_route fuel w now (Create_source rq) d = answer Source_row (create_source_route rq d)"
| "admin_route fuel w now (Deactivate_source sid) d = answer Source_row (deactivate_source_route sid d)"
| "admin_route fuel w now (Update_domains sid ds) d = answer Source_row (update_source_domains_route sid ds d)"
| "admin_route fuel w now (Create_provider nm ds c) d = answer Provider_row (create_provider_route nm ds c d)"
| "admin_route fuel w now (Decide tid rq) d = answer Decision (review_decision tid rq d)"
| "admin_route fuel w now (Decide_bulk items) d = answer Decisions (Inr (bulk_review_decision items d))"
| "admin_route fuel w now (Resolve_audit aid rq) d =
     answer (\<lambda>(a, name). Audit a name) (resolve_auto_approval_audit now aid rq d)"
| "admin_route fuel w now (Withdraw sid reason) d = answer Withdrawn_cycles (withdraw_route now sid reason d)"
| "admin_route fuel w now (Publish sid rq) d = answer Cycle_row (publish_route (vl_std w) now sid rq d)"
| "admin_route fuel w now (Update_cycle sid cid u) d = answer Cycle_row (update_cycle_route (vl_std w) sid cid u d)"
| "admin_route fuel w now (Run_due limit) d = answer Ran (Inr (run_due_jobs_route fuel w now limit d))"

text \<open>A request: the token it carries and what it asks for. A request that fails leaves the database.\<close>

definition serve_admin ::
  "nat \<Rightarrow> world \<Rightarrow> instant \<Rightarrow> string option \<times> admin_call \<Rightarrow> db \<Rightarrow> admin_answer response \<times> db" where
  "serve_admin fuel w now request d =
     (case bindH (require_internal_service (wl_settings w) (fst request)) (\<lambda>_.
             admin_route fuel w now (snd request) d) of
        Inl e \<Rightarrow> (Inl e, d)
      | Inr (a, d') \<Rightarrow> (Inr a, d'))"

fun serve_admins ::
  "nat \<Rightarrow> world \<Rightarrow> (instant \<times> string option \<times> admin_call) list \<Rightarrow> db \<Rightarrow> db" where
  "serve_admins fuel w [] d = d"
| "serve_admins fuel w ((now, request) # rqs) d =
     serve_admins fuel w rqs (snd (serve_admin fuel w now request d))"

section \<open>Lemmas: the surface and the catalogue\<close>

lemma answer_eq_Inr: "answer f m = Inr (a, d') \<longleftrightarrow> (\<exists>x. m = Inr (x, d') \<and> a = f x)"
  by (auto simp: answer_def bindH_eq_Inr)

lemma read_back_rows: "source_read sid d = Inr (s, d') \<Longrightarrow> d' = d" "provider_read pid d = Inr (p, d') \<Longrightarrow> d' = d"
  by (auto simp: source_read_def provider_read_def split: option.splits)

lemma bulk_item_lawful: "bulk_item x d = (r, d') \<Longrightarrow> lawful d d'"
  by (auto simp: bulk_item_def split: prod.splits sum.splits dest: decide_lawful)

lemma bulk_lawful: "bulk_review_decision items d = (rs, d') \<Longrightarrow> lawful d d'"
proof (induction items arbitrary: d rs)
  case (Cons x items)
  then obtain r d1 rs1 where "bulk_item x d = (r, d1)" "bulk_review_decision items d1 = (rs1, d')"
    by (auto split: prod.splits)
  with Cons.IH show ?case by (blast intro: lawful_trans bulk_item_lawful)
qed simp

lemma import_route_step: "import_feed_route fl st now rs d = Inr (x, d') \<Longrightarrow> sys_step d d'"
  by (auto simp: import_feed_route_def bindH_eq_Inr try_call_eq intro: sys_step.import_feed)

lemma source_route_steps:
  "create_source_route srq d = Inr (s, d') \<Longrightarrow> sys_step d d'"
  "deactivate_source_route k d = Inr (s, d') \<Longrightarrow> sys_step d d'"
  "update_source_domains_route k ds d = Inr (s, d') \<Longrightarrow> sys_step d d'"
  by (auto simp: create_source_route_def deactivate_source_route_def update_source_domains_route_def
      bindH_eq_Inr try_call_eq dest!: read_back_rows
      intro: sys_step.new_source sys_step.source_off sys_step.source_domains)

lemma provider_route_step: "create_provider_route nm ds c d = Inr (p, d') \<Longrightarrow> sys_step d d'"
  by (auto simp: create_provider_route_def Let_def bindH_eq_Inr try_call_eq dest!: read_back_rows
      intro: sys_step.new_provider)

lemma decision_step: "review_decision tid rq d = Inr (r, d') \<Longrightarrow> sys_step d d'"
  by (auto simp: review_decision_def bindH_eq_Inr try_call_eq intro: sys_step.review)

lemma withdraw_step: "withdraw_route now sid reason d = Inr (n, d') \<Longrightarrow> sys_step d d'"
  by (auto simp: withdraw_route_def try_call_eq intro: sys_step.take_down)

lemma publish_step: "publish_route std now sid rq d = Inr (c, d') \<Longrightarrow> sys_step d d'"
  by (auto simp: publish_route_def bindH_eq_Inr try_call_eq intro: sys_step.publish_new)

lemma correction_step: "update_cycle_route std sid cid u d = Inr (c, d') \<Longrightarrow> sys_step d d'"
  by (auto simp: update_cycle_route_def write_correction_def bindH_eq_Inr try_call_eq
      split: if_splits intro: sys_step.update)

lemma run_due_step: "run_due_jobs_route fuel w now limit d = (r, d') \<Longrightarrow> sys_step d d'"
  by (cases "execute_due_jobs fuel w now limit d") (auto simp: run_due_jobs_route_def intro: sys_step.run_due)

lemma audit_untouched: "resolve_auto_approval_audit now aid rq d = Inr (x, d') \<Longrightarrow> untouched d d'"
  by (auto simp: resolve_auto_approval_audit_def untouched_def Let_def split: option.splits)

lemmas route_steps = import_route_step source_route_steps provider_route_step decision_step withdraw_step
  publish_step correction_step

lemma admin_route_lawful: "admin_route fuel w now call d = Inr (a, d') \<Longrightarrow> lawful d d'"
proof (cases call)
  case (Decide_bulk items)
  assume "admin_route fuel w now call d = Inr (a, d')"
  then show ?thesis
    by (cases "bulk_review_decision items d") (simp add: Decide_bulk answer_eq_Inr bulk_lawful)
next
  case (Run_due limit)
  assume "admin_route fuel w now call d = Inr (a, d')"
  then show ?thesis
    by (cases "run_due_jobs_route fuel w now limit d")
      (simp add: Run_due answer_eq_Inr run_due_step [THEN sys_step_lawful])
qed (auto simp: answer_eq_Inr dest: route_steps [THEN sys_step_lawful] audit_untouched [THEN untouched_lawful])

lemma serve_admin_cases:
  "serve_admin fuel w now request d = (out, d') \<Longrightarrow>
     d' = d \<or> (\<exists>a. fst request = internal_service_token (wl_settings w) \<and> is_set (fst request)
                  \<and> admin_route fuel w now (snd request) d = Inr (a, d'))"
  by (auto simp: serve_admin_def bindH_eq_Inr require_internal_service_def
      split: sum.splits prod.splits dest!: require_token_passes)

lemma serve_admins_lawful: "lawful d (serve_admins fuel w rqs d)"
proof (induction rqs arbitrary: d)
  case (Cons r rqs)
  obtain now request where r: "r = (now, request)" by (cases r)
  obtain out d1 where s: "serve_admin fuel w now request d = (out, d1)" by (cases "serve_admin fuel w now request d")
  from serve_admin_cases [OF s] have "lawful d d1" by (auto dest: admin_route_lawful)
  with Cons.IH [of d1] show ?case by (simp add: r s lawful_trans)
qed simp

lemma serve_admins_refused:
  "\<forall>(now, token, call) \<in> set rqs. \<not> (is_set token \<and> token = internal_service_token (wl_settings w)) \<Longrightarrow>
   serve_admins fuel w rqs d = d"
proof (induction rqs arbitrary: d)
  case (Cons r rqs)
  obtain now request where r: "r = (now, request)" by (cases r)
  obtain out d1 where s: "serve_admin fuel w now request d = (out, d1)" by (cases "serve_admin fuel w now request d")
  from serve_admin_cases [OF s] Cons.prems have "d1 = d" by (cases request) (auto simp: r)
  with Cons show ?case by (simp add: r s)
qed simp

section \<open>Lemmas: bulk decisions\<close>

lemma decide_closes:
  assumes "decide_review tid rq d = Inr (r, d')"
  shows "\<exists>t. tget rt_id tid (review_tasks d) = Some t \<and> rt_state t = ''open''"
    and "\<exists>t. tget rt_id tid (review_tasks d') = Some t \<and> rt_state t \<noteq> ''open''"
    and "tget rt_id k (review_tasks d) = Some t \<Longrightarrow> rt_state t \<noteq> ''open'' \<Longrightarrow>
      \<exists>t. tget rt_id k (review_tasks d') = Some t \<and> rt_state t \<noteq> ''open''"
proof -
  from assms obtain task where task: "tget rt_id tid (review_tasks d) = Some task" "rt_state task = ''open''"
    "review_tasks d' = tmod rt_id tid (resolve_row (rq_reason rq)) (review_tasks d)"
    by (rule decide_cases)
  have row: "rt_id (resolve_row reason t) = rt_id t \<and> rt_state (resolve_row reason t) \<noteq> ''open''" for reason t
    by (simp add: resolve_row_def)
  from task row show "\<exists>t. tget rt_id tid (review_tasks d) = Some t \<and> rt_state t = ''open''"
    "\<exists>t. tget rt_id tid (review_tasks d') = Some t \<and> rt_state t \<noteq> ''open''"
    by (simp_all add: task_table.get_mod)
  assume "tget rt_id k (review_tasks d) = Some t" "rt_state t \<noteq> ''open''"
  with task row show "\<exists>t. tget rt_id k (review_tasks d') = Some t \<and> rt_state t \<noteq> ''open''"
    by (simp add: task_table.get_mod)
qed

lemma bulk_item_results:
  "bulk_item x d = (r, d') \<Longrightarrow>
     bk_review_task_id r = fst x \<and> (bk_success r \<longleftrightarrow> bk_error r = None)
     \<and> (if bk_success r then (\<exists>s. decide_review (fst x) (snd x) d = Inr (s, d')) else d' = d)"
  by (auto simp: bulk_item_def split: prod.splits sum.splits)

lemma bulk_keeps_closed:
  "bulk_review_decision items d = (rs, d') \<Longrightarrow> tget rt_id k (review_tasks d) = Some t \<Longrightarrow> rt_state t \<noteq> ''open'' \<Longrightarrow>
   k \<notin> bk_review_task_id ` {r \<in> set rs. bk_success r}"
proof (induction items arbitrary: d rs t)
  case (Cons x items)
  then obtain r d1 rs1 where one: "bulk_item x d = (r, d1)" and rest: "bulk_review_decision items d1 = (rs1, d')"
    and rs: "rs = r # rs1" by (auto split: prod.splits)
  note r = bulk_item_results [OF one]
  show ?case
  proof (cases "bk_success r")
    case True
    with r obtain s where dec: "decide_review (fst x) (snd x) d = Inr (s, d1)" by auto
    from decide_closes(3) [OF dec Cons.prems(2,3)] Cons.IH [OF rest]
    have "k \<notin> bk_review_task_id ` {r \<in> set rs1. bk_success r}" by blast
    moreover have "k \<noteq> fst x" using decide_closes(1) [OF dec] Cons.prems(2,3) by auto
    ultimately show ?thesis using r by (auto simp: rs)
  next
    case False
    with r have "d1 = d" by simp
    with Cons.IH [OF rest] Cons.prems(2,3) False show ?thesis by (auto simp: rs)
  qed
qed simp

section \<open>Properties of the surface\<close>

text \<open>
  C6. The administrative surface is behind its token and within the lifecycle: however many requests arrive,
  in whatever order, a request without the service token changes nothing; all of them together keep the
  catalogue's invariant, are a run of additions, publications and withdrawals, and leave every withdrawn
  record as it was.
\<close>

theorem admin_surface_refines_lifecycle:
  assumes "catalogue_ok d"
  shows "catalogue_ok (serve_admins fuel w rqs d)
    \<and> life_step\<^sup>*\<^sup>* (view d) (view (serve_admins fuel w rqs d))
    \<and> (\<forall>v. withdrawn_record d v \<longrightarrow> withdrawn_record (serve_admins fuel w rqs d) v)
    \<and> ((\<forall>(now, token, call) \<in> set rqs. \<not> (is_set token \<and> token = internal_service_token (wl_settings w)))
        \<longrightarrow> serve_admins fuel w rqs d = d)"
  using serve_admins_lawful [of d fuel w rqs] serve_admins_refused [of rqs w fuel d] assms
  by (auto simp: lawful_def)

text \<open>
  C14. In a bulk decision every item stands alone: there is one result per item, in order; no task is decided
  twice; and without the items that failed the database and the other results are the same, so a failing
  item costs nothing but itself.
\<close>

theorem bulk_items_stand_alone:
  assumes "bulk_review_decision items d = (rs, d')"
  shows "map bk_review_task_id rs = map fst items
    \<and> distinct (map bk_review_task_id (filter bk_success rs))
    \<and> bulk_review_decision (map fst (filter (bk_success \<circ> snd) (zip items rs))) d = (filter bk_success rs, d')"
  using assms
proof (induction items arbitrary: d rs)
  case (Cons x items)
  then obtain r d1 rs1 where one: "bulk_item x d = (r, d1)" and rest: "bulk_review_decision items d1 = (rs1, d')"
    and rs: "rs = r # rs1" by (auto split: prod.splits)
  note r = bulk_item_results [OF one] and ih = Cons.IH [OF rest]
  show ?case
  proof (cases "bk_success r")
    case True
    with r obtain s where dec: "decide_review (fst x) (snd x) d = Inr (s, d1)" by auto
    from decide_closes(2) [OF dec] bulk_keeps_closed [OF rest]
    have "fst x \<notin> bk_review_task_id ` {r \<in> set rs1. bk_success r}" by blast
    with True r ih one show ?thesis by (auto simp: rs)
  next
    case False
    with r ih show ?thesis by (simp add: rs)
  qed
qed simp

section \<open>Lemmas: corrections\<close>

text \<open>The request fields a stored fact rests on.\<close>

definition fact_sources :: "string \<Rightarrow> string list" where
  "fact_sources k =
     (if k = ''deadline_precision'' \<or> k = ''deadline_timezone'' then [''deadline_at'', k]
      else if k = ''field_names'' then [''fields''] else [k])"

lemma unsent_if: "n \<notin> set (if_sent n v) \<Longrightarrow> v = Unsent"
  by (cases v) simp_all

lemma unsent_facts:
  "''destinations'' \<notin> set (changed_facts u) \<Longrightarrow> up_destinations u = Unsent"
  "''levels'' \<notin> set (changed_facts u) \<Longrightarrow> up_levels u = Unsent"
  "''origin_mode'' \<notin> set (changed_facts u) \<Longrightarrow> up_origin_mode u = Unsent"
  "''origins'' \<notin> set (changed_facts u) \<Longrightarrow> up_origins u = Unsent"
  "''field_mode'' \<notin> set (changed_facts u) \<Longrightarrow> up_field_mode u = Unsent"
  "''fields'' \<notin> set (changed_facts u) \<Longrightarrow> up_fields u = Unsent"
  "''programme_names'' \<notin> set (changed_facts u) \<Longrightarrow> up_programme_names u = Unsent"
  "''evidence_fresh'' \<notin> set (changed_facts u) \<Longrightarrow> up_evidence_fresh u = Unsent"
  "''deadline_at'' \<notin> set (changed_facts u) \<Longrightarrow> up_deadline_at u = Unsent"
  "''deadline_precision'' \<notin> set (changed_facts u) \<Longrightarrow> up_deadline_precision u = Unsent"
  "''deadline_timezone'' \<notin> set (changed_facts u) \<Longrightarrow> up_deadline_timezone u = Unsent"
  "''eligibility_note'' \<notin> set (changed_facts u) \<Longrightarrow> up_eligibility_note u = Unsent"
  "''expected_reopen_month'' \<notin> set (changed_facts u) \<Longrightarrow> up_expected_reopen_month u = Unsent"
  "''funding_type'' \<notin> set (changed_facts u) \<Longrightarrow> up_funding_type u = Unsent"
  unfolding changed_facts_def set_append Un_iff de_Morgan_disj by (elim conjE, erule unsent_if)+

text \<open>Two builds agree on every key whose inputs agree.\<close>

lemma builds_agree:
  assumes "build_cycle_facts std v i = Inr f" and "build_cycle_facts std v j = Inr g"
  shows "in_destinations i = in_destinations j \<Longrightarrow> dget f ''destinations'' = dget g ''destinations''"
    and "in_levels i = in_levels j \<Longrightarrow> dget f ''levels'' = dget g ''levels''"
    and "in_origins i = in_origins j \<Longrightarrow> dget f ''origins'' = dget g ''origins''"
    and "in_fields i = in_fields j \<Longrightarrow> dget f ''fields'' = dget g ''fields'' \<and> dget f ''field_names'' = dget g ''field_names''"
    and "in_origin_mode i = in_origin_mode j \<Longrightarrow> dget f ''origin_mode'' = dget g ''origin_mode''"
    and "in_field_mode i = in_field_mode j \<Longrightarrow> dget f ''field_mode'' = dget g ''field_mode''"
    and "in_evidence_fresh i = in_evidence_fresh j \<Longrightarrow> dget f ''evidence_fresh'' = dget g ''evidence_fresh''"
    and "in_eligibility_note i = in_eligibility_note j \<Longrightarrow> dget f ''eligibility_note'' = dget g ''eligibility_note''"
    and "in_expected_reopen_month i = in_expected_reopen_month j \<Longrightarrow>
      dget f ''expected_reopen_month'' = dget g ''expected_reopen_month''"
    and "programme_name_list i = programme_name_list j \<Longrightarrow> dget f ''programme_names'' = dget g ''programme_names''"
    and "in_funding_type i = in_funding_type j \<Longrightarrow> dget f ''funding_type'' = dget g ''funding_type''"
    and "in_deadline_at i = in_deadline_at j \<Longrightarrow> dget f ''deadline_at'' = dget g ''deadline_at''"
    and "in_deadline_at i = in_deadline_at j \<Longrightarrow> in_deadline_precision i = in_deadline_precision j \<Longrightarrow>
      dget f ''deadline_precision'' = dget g ''deadline_precision''"
    and "in_deadline_at i = in_deadline_at j \<Longrightarrow> in_deadline_timezone i = in_deadline_timezone j \<Longrightarrow>
      dget f ''deadline_timezone'' = dget g ''deadline_timezone''"
proof -
  have extra: "dget (assemble_facts std i ds ls os fs labels ft) ''origin_mode'' = in_origin_mode i"
    "dget (assemble_facts std i ds ls os fs labels ft) ''field_mode'' = in_field_mode i"
    "dget (assemble_facts std i ds ls os fs labels ft) ''evidence_fresh'' = JBool (in_evidence_fresh i)"
    "dget (assemble_facts std i ds ls os fs labels ft) ''field_names'' = (if fs = [] then JNull else jstrs labels)"
    "dget (assemble_facts std i ds ls os fs labels ft) ''deadline_precision'' =
       (case in_deadline_at i of None \<Rightarrow> JNull | Some d \<Rightarrow> in_deadline_precision i)"
    for i ds ls os fs labels ft
    by (simp_all add: assemble_facts_def Let_def split: option.split)
  from assms obtain ds ls os fs labels ft ds' ls' os' fs' labels' ft' where
    b: "mapE (destination v) (in_destinations i) = Inr ds" "mapE (destination v) (in_destinations j) = Inr ds'"
      "mapE tax_degree (in_levels i) = Inr ls" "mapE tax_degree (in_levels j) = Inr ls'"
      "mapE (origin v) (in_origins i) = Inr os" "mapE (origin v) (in_origins j) = Inr os'"
      "mapE tax_field (in_fields i) = Inr fs" "mapE tax_field (in_fields j) = Inr fs'"
      "mapE field_label (sorted_set fs) = Inr labels" "mapE field_label (sorted_set fs') = Inr labels'"
      "(if truthy (in_funding_type i) then funding_code (in_funding_type i) else Inr JNull) = Inr ft"
      "(if truthy (in_funding_type j) then funding_code (in_funding_type j) else Inr JNull) = Inr ft'"
    and f: "f = assemble_facts std i (sorted_set ds) (sorted_set ls) (sorted_set os) (sorted_set fs) labels ft"
    and g: "g = assemble_facts std j (sorted_set ds') (sorted_set ls') (sorted_set os') (sorted_set fs') labels' ft'"
    unfolding build_cycle_facts_Inr by blast
  show "in_destinations i = in_destinations j \<Longrightarrow> dget f ''destinations'' = dget g ''destinations''"
    using b(1,2) by (simp add: f g assemble_get)
  show "in_levels i = in_levels j \<Longrightarrow> dget f ''levels'' = dget g ''levels''"
    using b(3,4) by (simp add: f g assemble_get)
  show "in_origins i = in_origins j \<Longrightarrow> dget f ''origins'' = dget g ''origins''"
    using b(5,6) by (simp add: f g assemble_get)
  show "in_fields i = in_fields j \<Longrightarrow> dget f ''fields'' = dget g ''fields'' \<and> dget f ''field_names'' = dget g ''field_names''"
    using b(7-10) by (simp add: f g assemble_get extra)
  show "in_origin_mode i = in_origin_mode j \<Longrightarrow> dget f ''origin_mode'' = dget g ''origin_mode''"
    "in_field_mode i = in_field_mode j \<Longrightarrow> dget f ''field_mode'' = dget g ''field_mode''"
    "in_evidence_fresh i = in_evidence_fresh j \<Longrightarrow> dget f ''evidence_fresh'' = dget g ''evidence_fresh''"
    "in_deadline_at i = in_deadline_at j \<Longrightarrow> in_deadline_precision i = in_deadline_precision j \<Longrightarrow>
      dget f ''deadline_precision'' = dget g ''deadline_precision''"
    by (simp_all only: f g extra)
  show "in_eligibility_note i = in_eligibility_note j \<Longrightarrow> dget f ''eligibility_note'' = dget g ''eligibility_note''"
    "in_expected_reopen_month i = in_expected_reopen_month j \<Longrightarrow>
      dget f ''expected_reopen_month'' = dget g ''expected_reopen_month''"
    "programme_name_list i = programme_name_list j \<Longrightarrow> dget f ''programme_names'' = dget g ''programme_names''"
    "in_deadline_at i = in_deadline_at j \<Longrightarrow> dget f ''deadline_at'' = dget g ''deadline_at''"
    "in_deadline_at i = in_deadline_at j \<Longrightarrow> in_deadline_timezone i = in_deadline_timezone j \<Longrightarrow>
      dget f ''deadline_timezone'' = dget g ''deadline_timezone''"
    by (simp_all only: f g assemble_get)
  show "in_funding_type i = in_funding_type j \<Longrightarrow> dget f ''funding_type'' = dget g ''funding_type''"
    using b(11,12) by (simp add: f g assemble_get split: if_splits)
qed

definition FACT_KEYS :: "string list" where
  "FACT_KEYS =
     [''destinations'', ''levels'', ''origin_mode'', ''origins'', ''field_mode'', ''fields'', ''evidence_fresh'',
      ''eligibility_note'', ''expected_reopen_month'', ''field_names'', ''programme_names'', ''funding_type'',
      ''deadline_at'', ''deadline_precision'', ''deadline_timezone'']"

lemma edited_sel [simp]:
  "in_destinations (edited_inputs u i) = apply_sent (case_option [] id) (up_destinations u) (in_destinations i)"
  "in_levels (edited_inputs u i) = apply_sent (case_option [] id) (up_levels u) (in_levels i)"
  "in_origin_mode (edited_inputs u i) = apply_sent (jopt JStr) (up_origin_mode u) (in_origin_mode i)"
  "in_origins (edited_inputs u i) = apply_sent (case_option [] id) (up_origins u) (in_origins i)"
  "in_field_mode (edited_inputs u i) = apply_sent (jopt JStr) (up_field_mode u) (in_field_mode i)"
  "in_fields (edited_inputs u i) = apply_sent (case_option [] id) (up_fields u) (in_fields i)"
  "in_programme_names (edited_inputs u i) = apply_sent id (up_programme_names u) (in_programme_names i)"
  "in_evidence_fresh (edited_inputs u i) = apply_sent (case_option False id) (up_evidence_fresh u) (in_evidence_fresh i)"
  "in_deadline_at (edited_inputs u i) = apply_sent id (up_deadline_at u) (in_deadline_at i)"
  "in_deadline_precision (edited_inputs u i) = apply_sent (jopt JStr) (up_deadline_precision u) (in_deadline_precision i)"
  "in_deadline_timezone (edited_inputs u i) = apply_sent (jopt JStr) (up_deadline_timezone u) (in_deadline_timezone i)"
  "in_eligibility_note (edited_inputs u i) = apply_sent (jopt JStr) (up_eligibility_note u) (in_eligibility_note i)"
  "in_expected_reopen_month (edited_inputs u i) =
     apply_sent (jopt JInt) (up_expected_reopen_month u) (in_expected_reopen_month i)"
  "in_funding_type (edited_inputs u i) = apply_sent (jopt JStr) (up_funding_type u) (in_funding_type i)"
  "in_field_names (edited_inputs u i) = in_field_names i"
  by (cases i; simp add: edited_inputs_def)+

lemma names_agree:
  "in_programme_names i = in_programme_names j \<Longrightarrow> in_field_names i = in_field_names j \<Longrightarrow>
   programme_name_list i = programme_name_list j"
  by (simp add: programme_name_list_def cong: option.case_cong)

lemma edited_unsent:
  assumes "build_cycle_facts std v i = Inr f" and "edited_facts std v u i = Inr g"
    and "k \<in> set FACT_KEYS" and "set (fact_sources k) \<inter> set (changed_facts u) = {}"
  shows "dget g k = dget f k"
proof -
  from assms(2) obtain g0 where g0: "build_cycle_facts std v (edited_inputs u i) = Inr g0"
    and g: "g = (if up_evidence_fresh u = Null then dset ''evidence_fresh'' JNull g0 else g0)"
    by (auto simp: edited_facts_def Let_def bindE_eq_Inr)
  have one: "dget g k = dget g0 k" if "k \<noteq> ''evidence_fresh'' \<or> up_evidence_fresh u = Unsent" for k
    using that by (auto simp: g)
  have names: "up_programme_names u = Unsent \<Longrightarrow> programme_name_list (edited_inputs u i) = programme_name_list i"
    by (rule names_agree) simp_all
  note agree = builds_agree [OF g0 assms(1)] one names
  have src: "fact_sources ''deadline_precision'' = [''deadline_at'', ''deadline_precision'']"
    "fact_sources ''deadline_timezone'' = [''deadline_at'', ''deadline_timezone'']"
    "fact_sources ''field_names'' = [''fields'']"
    by (simp_all add: fact_sources_def)
  have self: "k \<notin> set (changed_facts u)" if "k \<noteq> ''field_names''"
    using assms(4) that by (auto simp: fact_sources_def split: if_splits)
  from assms(3) show ?thesis
    unfolding FACT_KEYS_def
    by (simp only: list.set insert_iff empty_iff simp_thms, elim disjE;
        use self assms(4) in \<open>simp add: agree unsent_facts src\<close>)
qed

lemma unsent_columns:
  "''provider_cycle_key'' \<notin> set (changed_fields u) \<Longrightarrow> up_provider_cycle_key u = Unsent"
  "''applicant_segment'' \<notin> set (changed_fields u) \<Longrightarrow> up_applicant_segment u = Unsent"
  "''official_cycle_url'' \<notin> set (changed_fields u) \<Longrightarrow> up_official_cycle_url u = Unsent"
  "''public_status'' \<notin> set (changed_fields u) \<Longrightarrow> up_public_status u = Unsent"
  "''status_valid_until'' \<notin> set (changed_fields u) \<Longrightarrow> up_status_valid_until u = Unsent"
  "''last_verified_at'' \<notin> set (changed_fields u) \<Longrightarrow> up_last_verified_at u = Unsent"
  unfolding changed_fields_def set_append Un_iff de_Morgan_disj by (elim conjE, erule unsent_if)+

lemma unsent_all: "changed_facts u = [] \<Longrightarrow> edited_inputs u i = i"
proof -
  assume "changed_facts u = []"
  then have none: "k \<notin> set (changed_facts u)" for k by simp
  show ?thesis
    using none [THEN unsent_facts(1)] none [THEN unsent_facts(2)] none [THEN unsent_facts(3)]
      none [THEN unsent_facts(4)] none [THEN unsent_facts(5)] none [THEN unsent_facts(6)]
      none [THEN unsent_facts(7)] none [THEN unsent_facts(8)] none [THEN unsent_facts(9)]
      none [THEN unsent_facts(10)] none [THEN unsent_facts(11)] none [THEN unsent_facts(12)]
      none [THEN unsent_facts(13)] none [THEN unsent_facts(14)]
    by (cases i) (simp add: edited_inputs_def)
qed

lemma edited_facts_built:
  assumes "build_cycle_facts std v (edited_inputs u i) = Inr f"
    and "up_destinations u \<noteq> Null" "up_levels u \<noteq> Null" "up_origins u \<noteq> Null" "up_fields u \<noteq> Null"
  shows "edited_facts std v u i = Inr (if up_evidence_fresh u = Null then dset ''evidence_fresh'' JNull f else f)"
proof -
  from assms(1) obtain ds ls os where
    "mapE (destination v) (in_destinations (edited_inputs u i)) = Inr ds" "ds \<noteq> []"
    "mapE tax_degree (in_levels (edited_inputs u i)) = Inr ls" "ls \<noteq> []"
    "mapE (origin v) (in_origins (edited_inputs u i)) = Inr os"
    "\<not> (in_origin_mode (edited_inputs u i) = JStr ''restricted'' \<and> os = [])"
    unfolding build_cycle_facts_Inr by blast
  with assms show ?thesis by (simp only: edited_facts_def Let_def guardE_def bindE_Inr if_True not_False_eq_True)
qed

lemma corrected_rows:
  assumes "catalogue_ok d" and "load_cycle_for_update sid cid d = Inr cyc"
    and "update_cycle_route std sid cid u d = Inr (c, d')"
  obtains i facts where "cycle_facts_to_inputs std (cy_facts cyc) = Inr i"
    "edited_facts std (load_vocabulary d) u i = Inr facts"
    "c = write_content (corrected_content u cyc facts) cyc"
    "cycles d' = map (\<lambda>x. if cy_id x = cid then c else x) (cycles d)" "scholarships d' = scholarships d"
proof -
  from assms(2,3) obtain i facts where
    f: "cycle_facts_to_inputs std (cy_facts cyc) = Inr i" "edited_facts std (load_vocabulary d) u i = Inr facts"
    and upd: "update_cycle cyc (corrected_content u cyc facts) (changed_fields u) ''internal_service'' d = Inr (c, d')"
    by (auto simp: update_cycle_route_def write_correction_def bindH_eq_Inr try_call_eq bindE_eq_Inr split: if_splits)
  note cyc = load_cases [OF assms(2)]
  have same: "x = cyc" if "x \<in> set (cycles d)" "cy_id x = cid" for x
    using that cyc inj_onD [of cy_id "set (cycles d)" x cyc] catalogue_okD(3) [OF assms(1)]
    by (simp add: distinct_map)
  from upd have c: "c = write_content (corrected_content u cyc facts) cyc"
    and rows: "cycles d' = tmod cy_id cid (write_content (corrected_content u cyc facts)) (cycles d)"
      "scholarships d' = scholarships d"
    using cyc by (auto elim: update_cases)
  have "cycles d' = map (\<lambda>x. if cy_id x = cid then c else x) (cycles d)"
    using same by (auto simp: rows(1) tmod_def c)
  with f c rows(2) show thesis by (intro that)
qed

section \<open>Properties of a correction\<close>

text \<open>
  C13. A partial update changes what it sends and nothing else: for a cycle whose facts a publish could have
  built, every column and every stored fact whose request fields were left out keeps its value, an update of
  columns alone keeps the facts document as it is, and no other row of the catalogue is written.
\<close>

theorem correction_keeps_what_is_unsent:
  assumes "iso_roundtrip std" and "codes_normalised (load_vocabulary d)" and "catalogue_ok d"
    and "load_cycle_for_update sid cid d = Inr cyc"
    and "build_cycle_facts std (load_vocabulary d) inputs = Inr (cy_facts cyc)"
    and "update_cycle_route std sid cid u d = Inr (c, d')"
  shows "(\<forall>k \<in> set FACT_KEYS. set (fact_sources k) \<inter> set (changed_facts u) = {} \<longrightarrow>
        dget (cy_facts c) k = dget (cy_facts cyc) k)
    \<and> (changed_facts u = [] \<longrightarrow> cy_facts c = cy_facts cyc)
    \<and> (''provider_cycle_key'' \<notin> set (changed_fields u) \<longrightarrow> cy_provider_cycle_key c = cy_provider_cycle_key cyc)
    \<and> (''applicant_segment'' \<notin> set (changed_fields u) \<longrightarrow> cy_applicant_segment c = cy_applicant_segment cyc)
    \<and> (''official_cycle_url'' \<notin> set (changed_fields u) \<longrightarrow> cy_official_cycle_url c = cy_official_cycle_url cyc)
    \<and> (''public_status'' \<notin> set (changed_fields u) \<longrightarrow> cy_public_status c = cy_public_status cyc)
    \<and> (''status_valid_until'' \<notin> set (changed_fields u) \<longrightarrow> cy_status_valid_until c = cy_status_valid_until cyc)
    \<and> (''last_verified_at'' \<notin> set (changed_fields u) \<longrightarrow> cy_last_verified_at c = cy_last_verified_at cyc)
    \<and> cycles d' = map (\<lambda>x. if cy_id x = cid then c else x) (cycles d) \<and> scholarships d' = scholarships d"
proof -
  from assms(3,4,6) obtain i facts where
    i: "cycle_facts_to_inputs std (cy_facts cyc) = Inr i" "edited_facts std (load_vocabulary d) u i = Inr facts"
    and c: "c = write_content (corrected_content u cyc facts) cyc"
    and rows: "cycles d' = map (\<lambda>x. if cy_id x = cid then c else x) (cycles d)" "scholarships d' = scholarships d"
    by (rule corrected_rows)
  have built: "build_cycle_facts std (load_vocabulary d) i = Inr (cy_facts cyc)"
    using facts_read_back [OF assms(1,2,5)] i(1) by auto
  have facts: "cy_facts c = facts" by (simp add: c write_content_def corrected_content_def)
  have "facts = cy_facts cyc" if "changed_facts u = []"
  proof -
    have "up_evidence_fresh u = Unsent" using that unsent_facts(8) by simp
    with built i(2) show ?thesis by (auto simp: edited_facts_def Let_def bindE_eq_Inr unsent_all [OF that])
  qed
  with edited_unsent [OF built i(2)] rows show ?thesis
    unfolding facts
    by (auto simp: c write_content_def corrected_content_def dest!: unsent_columns)
qed

lemma guardH_True [simp]: "guardH True e = Inr ()"
  by (simp add: guardH_def)

definition nothing_sent :: update_request where
  "nothing_sent =
     \<lparr>up_provider_cycle_key = Unsent, up_applicant_segment = Unsent, up_official_cycle_url = Unsent,
      up_public_status = Unsent, up_status_valid_until = Unsent, up_last_verified_at = Unsent,
      up_destinations = Unsent, up_levels = Unsent, up_origin_mode = Unsent, up_origins = Unsent,
      up_field_mode = Unsent, up_fields = Unsent, up_programme_names = Unsent, up_evidence_fresh = Unsent,
      up_deadline_at = Unsent, up_deadline_precision = Unsent, up_deadline_timezone = Unsent,
      up_eligibility_note = Unsent, up_expected_reopen_month = Unsent, up_funding_type = Unsent\<rparr>"

lemma nothing_sent_changes: "changed_facts (nothing_sent\<lparr>up_official_cycle_url := x\<rparr>) = []"
  "changed_fields (nothing_sent\<lparr>up_official_cycle_url := x\<rparr>) = if_sent ''official_cycle_url'' x"
  by (simp_all add: changed_facts_def changed_fields_def nothing_sent_def)

text \<open>
  C39. The schema lets every field of an update be null, and the URL column is required: an update that sends
  only a null URL succeeds and publishes \<open>None\<close> as the official address of the cycle.
\<close>

theorem null_url_is_published_as_text:
  assumes "iso_roundtrip std" and "codes_normalised (load_vocabulary d)"
    and "load_cycle_for_update sid cid d = Inr cyc"
    and "build_cycle_facts std (load_vocabulary d) inputs = Inr (cy_facts cyc)"
  shows "\<exists>c d'. update_cycle_route std sid cid (nothing_sent\<lparr>up_official_cycle_url := Null\<rparr>) d = Inr (c, d')
    \<and> cy_official_cycle_url c = ''None'' \<and> cy_public_status c = cy_public_status cyc"
proof -
  let ?u = "nothing_sent\<lparr>up_official_cycle_url := Null\<rparr>"
  from facts_read_back [OF assms(1,2,4)] obtain i where
    i: "cycle_facts_to_inputs std (cy_facts cyc) = Inr i" "build_cycle_facts std (load_vocabulary d) i = Inr (cy_facts cyc)"
    by blast
  have "edited_inputs ?u i = i" by (rule unsent_all) (simp add: nothing_sent_changes)
  with i(2) have "build_cycle_facts std (load_vocabulary d) (edited_inputs ?u i) = Inr (cy_facts cyc)" by simp
  from edited_facts_built [OF this] have "edited_facts std (load_vocabulary d) ?u i = Inr (cy_facts cyc)"
    by (simp add: nothing_sent_def)
  moreover have "\<exists>d'. write_correction ?u cyc (cy_facts cyc) d
      = Inr (write_content (corrected_content ?u cyc (cy_facts cyc)) cyc, d')"
    by (simp add: write_correction_def update_cycle_def corrected_content_def nothing_sent_def Let_def)
  ultimately show ?thesis
    using assms(3) i(1)
    by (auto simp: update_cycle_route_def nothing_sent_changes write_content_def corrected_content_def)
      (simp_all add: nothing_sent_def)
qed

section \<open>Witnesses\<close>

lemma demo_seed_vocabulary: "load_vocabulary demo_search_db = default_vocabulary"
  by (simp add: load_vocabulary_def demo_search_db_def empty_db_def)

lemma demo_seed_normalised: "codes_normalised default_vocabulary"
  by (simp add: codes_normalised_def default_vocabulary_def SEED_COUNTRIES_def string_eval)

lemma demo_seed_build: "build_cycle_facts demo_std default_vocabulary demo_inputs = Inr demo_facts"
  unfolding demo_facts_def
  by (simp add: build_cycle_facts_def demo_inputs_def default_vocabulary_def SEED_COUNTRIES_def SUPPORTED_DESTINATIONS_def
      demo_std_def demo_tz_def destination_def origin_def string_eval demo_resolve demo_isoformat_def
      check_timezone_def guardE_def sorted_set_def assemble_facts_def
      programme_name_list_def funding_code_def dset_if_def dset_def Let_def numeral_eq_Suc)

lemma demo_search_catalogue: "catalogue_ok demo_search_db"
  by (simp add: catalogue_ok_def demo_search_db_def empty_db_def identity_of_def lifecycle_of_def)

definition demo_cycle_row :: cycle where
  "demo_cycle_row = hd (cycles demo_search_db)"

lemma demo_load: "load_cycle_for_update 2 3 demo_search_db = Inr demo_cycle_row"
  by (simp add: load_cycle_for_update_def demo_cycle_row_def demo_search_db_def empty_db_def)

lemma demo_row_facts: "cy_facts demo_cycle_row = demo_facts"
  by (simp add: demo_cycle_row_def demo_search_db_def)

theorem null_url_is_published_as_text_witness:
  "\<exists>c d'. update_cycle_route demo_std 2 3 (nothing_sent\<lparr>up_official_cycle_url := Null\<rparr>) demo_search_db = Inr (c, d')
     \<and> cy_official_cycle_url c = ''None''"
  using null_url_is_published_as_text [of demo_std demo_search_db 2 3 demo_cycle_row demo_inputs]
    demo_std_roundtrip demo_seed_normalised demo_load demo_seed_build
  by (auto simp: demo_seed_vocabulary demo_row_facts)

definition demo_patch :: update_request where
  "demo_patch = nothing_sent\<lparr>up_eligibility_note := Sent ''UK residents''\<rparr>"

lemma demo_patch_runs: "\<exists>c d'. update_cycle_route demo_std 2 3 demo_patch demo_search_db = Inr (c, d')"
proof -
  obtain i where i: "cycle_facts_to_inputs demo_std demo_facts = Inr i"
      "build_cycle_facts demo_std default_vocabulary i = Inr demo_facts"
    using facts_read_back [OF demo_std_roundtrip demo_seed_normalised demo_seed_build] by blast
  have kept: "in_destinations (edited_inputs demo_patch i) = in_destinations i"
    "in_levels (edited_inputs demo_patch i) = in_levels i" "in_origins (edited_inputs demo_patch i) = in_origins i"
    "in_origin_mode (edited_inputs demo_patch i) = in_origin_mode i" "in_fields (edited_inputs demo_patch i) = in_fields i"
    "in_field_mode (edited_inputs demo_patch i) = in_field_mode i"
    "in_deadline_timezone (edited_inputs demo_patch i) = in_deadline_timezone i"
    "in_funding_type (edited_inputs demo_patch i) = in_funding_type i"
    by (simp_all add: demo_patch_def nothing_sent_def)
  have "\<exists>f. build_cycle_facts demo_std default_vocabulary (edited_inputs demo_patch i) = Inr f"
    using i(2) unfolding build_cycle_facts_Inr kept by blast
  then obtain f where "build_cycle_facts demo_std default_vocabulary (edited_inputs demo_patch i) = Inr f" by blast
  from edited_facts_built [OF this] have "edited_facts demo_std default_vocabulary demo_patch i = Inr f"
    by (simp add: demo_patch_def nothing_sent_def)
  moreover have "\<exists>d'. write_correction demo_patch demo_cycle_row f demo_search_db
      = Inr (write_content (corrected_content demo_patch demo_cycle_row f) demo_cycle_row, d')"
    by (simp add: write_correction_def update_cycle_def corrected_content_def demo_patch_def nothing_sent_def Let_def)
  ultimately show ?thesis
    using i(1) demo_load
    by (auto simp: update_cycle_route_def demo_row_facts demo_seed_vocabulary)
      (simp_all add: demo_patch_def nothing_sent_def changed_fields_def changed_facts_def)
qed

theorem correction_keeps_what_is_unsent_witness:
  "\<exists>c d'. update_cycle_route demo_std 2 3 demo_patch demo_search_db = Inr (c, d')
     \<and> dget (cy_facts c) ''destinations'' = jstrs [''GB''] \<and> cy_official_cycle_url c = ''u''"
proof -
  obtain c d' where run: "update_cycle_route demo_std 2 3 demo_patch demo_search_db = Inr (c, d')"
    using demo_patch_runs by blast
  have built: "build_cycle_facts demo_std (load_vocabulary demo_search_db) demo_inputs = Inr (cy_facts demo_cycle_row)"
    by (simp add: demo_seed_vocabulary demo_row_facts demo_seed_build)
  have norm: "codes_normalised (load_vocabulary demo_search_db)"
    by (simp add: demo_seed_vocabulary demo_seed_normalised)
  have "''destinations'' \<in> set FACT_KEYS" "set (fact_sources ''destinations'') \<inter> set (changed_facts demo_patch) = {}"
    "''official_cycle_url'' \<notin> set (changed_fields demo_patch)"
    by (simp_all add: FACT_KEYS_def fact_sources_def demo_patch_def nothing_sent_def changed_fields_def changed_facts_def)
  with correction_keeps_what_is_unsent [OF demo_std_roundtrip norm demo_search_catalogue demo_load built run]
  have "dget (cy_facts c) ''destinations'' = dget (cy_facts demo_cycle_row) ''destinations''
      \<and> cy_official_cycle_url c = cy_official_cycle_url demo_cycle_row" by blast
  moreover have "dget demo_facts ''destinations'' = jstrs [''GB'']" by (simp add: demo_facts_def)
  moreover have "cy_official_cycle_url demo_cycle_row = ''u''" by (simp add: demo_cycle_row_def demo_search_db_def)
  ultimately show ?thesis using run by (auto simp: demo_row_facts)
qed

definition demo_admin_world :: world where
  "demo_admin_world = demo_world\<lparr>wl_settings := default_settings\<lparr>internal_service_token := Some ''s''\<rparr>\<rparr>"

theorem admin_surface_refines_lifecycle_witness:
  "catalogue_ok (serve_admins 0 demo_admin_world [(0, Some ''s'', Withdraw 2 ''gone'')] demo_search_db)
   \<and> serve_admins 0 demo_admin_world [(0, Some ''x'', Withdraw 2 ''gone'')] demo_search_db = demo_search_db"
proof -
  have "internal_service_token (wl_settings demo_admin_world) \<noteq> Some ''x''"
    by (simp add: demo_admin_world_def default_settings_def)
  with admin_surface_refines_lifecycle [OF demo_search_catalogue, of 0 demo_admin_world "[(0, Some ''s'', Withdraw 2 ''gone'')]"]
    admin_surface_refines_lifecycle [OF demo_search_catalogue, of 0 demo_admin_world "[(0, Some ''x'', Withdraw 2 ''gone'')]"]
  show ?thesis by simp
qed

definition demo_open_task :: review_task where
  "demo_open_task = demo_task\<lparr>rt_id := 7, rt_state := ''open''\<rparr>"

definition demo_bulk_db :: db where
  "demo_bulk_db = demo_catalogue\<lparr>review_tasks := [demo_open_task]\<rparr>"

lemma demo_bulk_run:
  "\<exists>r1 r2 d'. bulk_review_decision [(9, demo_reject), (7, demo_reject)] demo_bulk_db = ([r1, r2], d')
     \<and> \<not> bk_success r1 \<and> bk_success r2"
  by (simp add: bulk_item_def decide_review_def demo_bulk_db_def demo_open_task_def demo_reject_def)

theorem bulk_items_stand_alone_witness:
  "\<exists>r1 r2 d'. bulk_review_decision [(9, demo_reject), (7, demo_reject)] demo_bulk_db = ([r1, r2], d')
     \<and> bulk_review_decision [(7, demo_reject)] demo_bulk_db = ([r2], d')"
proof -
  obtain r1 r2 d' where run: "bulk_review_decision [(9, demo_reject), (7, demo_reject)] demo_bulk_db = ([r1, r2], d')"
    "\<not> bk_success r1" "bk_success r2" using demo_bulk_run by blast
  from bulk_items_stand_alone [OF run(1)] run show ?thesis by auto
qed

end
