(* ===== verification/Listings.thy ===== *)
theory Listings
  imports Admin "HOL-Library.Multiset"
begin

text \<open>
  What administrators read: the search over all scholarships (\<open>src/src/app/infra/scholarship_admin.py\<close>,
  \<open>src/src/app/api/scholarship_admin_schemas.py\<close>), the reviewer's work list, the audits of automatic
  approvals, the sources and the providers (\<open>src/src/app/api/routes.py\<close>).

  The column \<open>updated_at\<close> is written by the database and read only here, to order a listing: it is an
  argument. Rows of other tables are ordered by \<open>created_at\<close>, which is the order of their ids where the
  column itself is not kept. Rows that tie keep the order of the table.
\<close>

section \<open>Searching scholarships\<close>

definition replace_char :: "char \<Rightarrow> string \<Rightarrow> string \<Rightarrow> string" where
  "replace_char c r s = concat (map (\<lambda>x. if x = c then r else [x]) s)"

definition escape_ilike :: "string \<Rightarrow> string" where
  "escape_ilike term =
     replace_char (CHR ''_'') [CHR 0x5C, CHR ''_'']
       (replace_char (CHR ''%'') [CHR 0x5C, CHR ''%'']
         (replace_char (CHR 0x5C) [CHR 0x5C, CHR 0x5C] term))"

record listing_query =
  lq_q :: "string option"
  lq_lifecycle_state :: "record_state option"
  lq_provider_id :: "uuid option"
  lq_public_status :: "public_status option"

text \<open>The predicates of the query; only the pattern match may raise.\<close>

definition name_hit :: "string option \<Rightarrow> scholarship \<Rightarrow> bool result" where
  "name_hit q s =
     (if is_set q then ilike (sch_name s) (''%'' @ escape_ilike (the q) @ ''%'') else Inr True)"

definition plain_filters :: "listing_query \<Rightarrow> db \<Rightarrow> scholarship \<Rightarrow> bool" where
  "plain_filters lq d s =
     ((case lq_lifecycle_state lq of None \<Rightarrow> True | Some st \<Rightarrow> sch_lifecycle_state s = st)
      \<and> (case lq_provider_id lq of None \<Rightarrow> True | Some p \<Rightarrow> sch_provider_id s = p)
      \<and> (case lq_public_status lq of None \<Rightarrow> True
         | Some st \<Rightarrow> \<exists>c \<in> set (cycles d). cy_scholarship_id c = sch_id s \<and> cy_public_status c = st))"

fun filtered :: "listing_query \<Rightarrow> db \<Rightarrow> scholarship list \<Rightarrow> scholarship list result" where
  "filtered lq d [] = Inr []"
| "filtered lq d (s # ss) =
     bindE (name_hit (lq_q lq) s) (\<lambda>hit.
     bindE (filtered lq d ss) (\<lambda>rest. Inr (if hit \<and> plain_filters lq d s then s # rest else rest)))"

definition search_scholarships ::
  "(uuid \<Rightarrow> instant) \<Rightarrow> listing_query \<Rightarrow> int \<Rightarrow> int \<Rightarrow> db \<Rightarrow> (scholarship list \<times> nat) result" where
  "search_scholarships updated lq limit offset d =
     bindE (filtered lq d (scholarships d)) (\<lambda>found.
     Inr (page_of offset limit (sort_key (\<lambda>s. (- updated (sch_id s), sch_id s)) found), length found))"

record cycle_admin_read =
  ca_cycle_id :: uuid
  ca_provider_cycle_key :: string
  ca_applicant_segment :: string
  ca_official_cycle_url :: string
  ca_public_status :: public_status
  ca_evaluated_public_status :: public_status
  ca_status_valid_until :: "instant option"
  ca_last_verified_at :: "instant option"
  ca_facts :: dict
  ca_is_auto_approved :: bool
  ca_auto_approval_score :: "int option"

definition cycle_admin_read_of :: "stdlib \<Rightarrow> instant \<Rightarrow> cycle \<Rightarrow> cycle_admin_read result" where
  "cycle_admin_read_of std now c =
     (let derived = derive_facts std (cy_facts c)
      in bindE (evaluate_public_status (std_tz std) (cy_public_status c) (df_deadline_at derived)
                  (cy_status_valid_until c) (df_deadline_precision derived) (df_deadline_timezone derived) now)
           (\<lambda>status.
         Inr \<lparr>ca_cycle_id = cy_id c, ca_provider_cycle_key = cy_provider_cycle_key c,
              ca_applicant_segment = cy_applicant_segment c, ca_official_cycle_url = cy_official_cycle_url c,
              ca_public_status = cy_public_status c, ca_evaluated_public_status = status,
              ca_status_valid_until = cy_status_valid_until c, ca_last_verified_at = cy_last_verified_at c,
              ca_facts = cy_facts c, ca_is_auto_approved = cy_is_auto_approved c,
              ca_auto_approval_score = cy_auto_approval_score c\<rparr>))"

record scholarship_admin_read =
  sa_scholarship_id :: uuid
  sa_slug :: string
  sa_name :: string
  sa_official_home_url :: string
  sa_award_type :: string
  sa_lifecycle_state :: record_state
  sa_provider_id :: uuid
  sa_provider_name :: string
  sa_cycles :: "cycle_admin_read list"

definition scholarship_admin_read_of :: "stdlib \<Rightarrow> instant \<Rightarrow> db \<Rightarrow> scholarship \<Rightarrow> scholarship_admin_read result" where
  "scholarship_admin_read_of std now d s =
     bindE (mapE (cycle_admin_read_of std now) (filter (\<lambda>c. cy_scholarship_id c = sch_id s) (cycles d))) (\<lambda>cs.
     Inr \<lparr>sa_scholarship_id = sch_id s, sa_slug = sch_slug s, sa_name = sch_name s,
          sa_official_home_url = sch_official_home_url s, sa_award_type = sch_award_type s,
          sa_lifecycle_state = sch_lifecycle_state s, sa_provider_id = sch_provider_id s,
          sa_provider_name = (case tget pv_id (sch_provider_id s) (providers d) of None \<Rightarrow> [] | Some p \<Rightarrow> pv_name p),
          sa_cycles = cs\<rparr>)"

definition list_scholarships_route ::
  "stdlib \<Rightarrow> instant \<Rightarrow> (uuid \<Rightarrow> instant) \<Rightarrow> listing_query \<Rightarrow> int \<Rightarrow> int \<Rightarrow> db
   \<Rightarrow> (scholarship_admin_read list \<times> nat) response" where
  "list_scholarships_route std now updated lq limit offset d =
     bindH (plain_call (search_scholarships updated lq limit offset d)) (\<lambda>(rows, total).
     bindH (plain_call (mapE (scholarship_admin_read_of std now d) rows)) (\<lambda>reads. Inr (reads, total)))"

section \<open>The work list\<close>

record review_task_summary =
  ts_task :: review_task
  ts_raw_title :: "string option"
  ts_raw_excerpt :: "string option"
  ts_extracted_facts :: "dict option"
  ts_source_url :: "string option"

definition task_summary :: "db \<Rightarrow> review_task \<Rightarrow> review_task_summary" where
  "task_summary d t =
     (let disc = (case rt_discovery_id t of None \<Rightarrow> None | Some i \<Rightarrow> tget di_id i (discoveries d));
          page = (case disc of None \<Rightarrow> None | Some r \<Rightarrow> tget pg_id (di_source_page_id r) (pages d))
      in \<lparr>ts_task = t, ts_raw_title = (case disc of None \<Rightarrow> None | Some r \<Rightarrow> di_raw_title r),
          ts_raw_excerpt = (case disc of None \<Rightarrow> None | Some r \<Rightarrow> di_raw_excerpt r),
          ts_extracted_facts = (case disc of None \<Rightarrow> None | Some r \<Rightarrow> di_extracted_facts r),
          ts_source_url = map_option pg_normalized_url page\<rparr>)"

definition queued_tasks :: "string \<Rightarrow> db \<Rightarrow> review_task list" where
  "queued_tasks state d =
     sort_key (\<lambda>t. (rt_priority t, rt_created_at t)) (filter (\<lambda>t. rt_state t = state) (review_tasks d))"

definition review_queue :: "string \<Rightarrow> int \<Rightarrow> int \<Rightarrow> db \<Rightarrow> review_task_summary list \<times> nat" where
  "review_queue state limit offset d =
     (map (task_summary d) (page_of offset limit (queued_tasks state d)),
      length (filter (\<lambda>t. rt_state t = ''open'') (review_tasks d)))"

section \<open>Audits, sources, providers\<close>

definition audit_wanted :: "bool option \<Rightarrow> string option \<Rightarrow> auto_approval_audit \<Rightarrow> bool" where
  "audit_wanted sampled outcome a =
     ((case sampled of None \<Rightarrow> True | Some b \<Rightarrow> aa_sampled a = b)
      \<and> (case outcome of None \<Rightarrow> True | Some oc \<Rightarrow> aa_outcome a = oc))"

text \<open>The rows are joined with their scholarship; the count is of the audits alone.\<close>

definition joined_audits :: "db \<Rightarrow> auto_approval_audit list \<Rightarrow> (auto_approval_audit \<times> string) list" where
  "joined_audits d as =
     concat (map (\<lambda>a. case tget sch_id (aa_scholarship_id a) (scholarships d) of
                        None \<Rightarrow> [] | Some s \<Rightarrow> [(a, sch_name s)]) as)"

definition auto_approval_audits ::
  "bool option \<Rightarrow> string option \<Rightarrow> int \<Rightarrow> int \<Rightarrow> db \<Rightarrow> (auto_approval_audit \<times> string) list \<times> nat" where
  "auto_approval_audits sampled outcome limit offset d =
     (let wanted = filter (audit_wanted sampled outcome) (auto_audits d)
      in (page_of offset limit (joined_audits d (sort_key aa_id wanted)), length wanted))"

definition list_sources :: "db \<Rightarrow> source list" where
  "list_sources d = sort_key so_name (sources d)"

definition list_providers :: "db \<Rightarrow> provider list" where
  "list_providers d = sort_key pv_name (providers d)"

section \<open>Lemmas: a search term is literal\<close>

definition wild :: "char \<Rightarrow> bool" where
  "wild c \<longleftrightarrow> c = CHR ''%'' \<or> c = CHR ''_'' \<or> c = CHR 0x5C"

definition escape_char :: "char \<Rightarrow> string" where
  "escape_char c = (if wild c then [CHR 0x5C, c] else [c])"

lemma escape_by_char: "escape_ilike t = concat (map escape_char t)"
  by (induction t) (auto simp: escape_ilike_def replace_char_def escape_char_def wild_def)

lemma wild_lower: "wild (lower_char c) = wild c" "wild c \<Longrightarrow> lower_char c = c"
  using lower_char_unlettered [of "CHR ''%''" c] lower_char_unlettered [of "CHR ''_''" c]
    lower_char_unlettered [of "CHR 0x5C" c]
  by (auto simp: wild_def unlettered_def)

lemma lower_escape: "lower (escape_ilike t) = escape_ilike (lower t)"
  by (induction t) (auto simp: escape_by_char lower_def escape_char_def wild_lower)

lemma like_escaped: "like (escape_ilike t @ q) s = (if take (length t) s = t then like q (drop (length t) s) else Inr False)"
proof (induction t arbitrary: s)
  case (Cons c t)
  then show ?case
    by (cases s) (auto simp: escape_by_char escape_char_def wild_def)
qed (simp add: escape_by_char)

lemma like_any: "like ''%'' s = Inr True"
  by (induction s) (simp_all add: like.simps(1))

lemma like_contains:
  "like (CHR ''%'' # escape_ilike t @ ''%'') s = Inr (\<exists>a b. s = a @ t @ b)"
proof (induction s)
  case Nil
  show ?case using like_escaped [of t "''%''" "[]"] by (auto simp: like_any)
next
  case (Cons c s)
  have "(\<exists>a b. c # s = a @ t @ b) \<longleftrightarrow> take (length t) (c # s) = t \<or> (\<exists>a b. s = a @ t @ b)"
  proof
    assume "\<exists>a b. c # s = a @ t @ b"
    then obtain a b where "c # s = a @ t @ b" by blast
    then show "take (length t) (c # s) = t \<or> (\<exists>a b. s = a @ t @ b)" by (cases a) auto
  next
    assume "take (length t) (c # s) = t \<or> (\<exists>a b. s = a @ t @ b)"
    then show "\<exists>a b. c # s = a @ t @ b"
      by (metis append_Cons append_Nil append_take_drop_id)
  qed
  with Cons show ?case using like_escaped [of t "''%''" "c # s"] by (simp add: like_any)
qed

lemma name_hit_literal:
  "name_hit q s = Inr (\<forall>t. q = Some t \<longrightarrow> (\<exists>a b. lower (sch_name s) = a @ lower t @ b))"
proof (cases "is_set q")
  case True
  then obtain t where "q = Some t" by (cases q) auto
  have "lower ''%'' = ''%''" by (simp add: lower_def)
  then have "lower (''%'' @ escape_ilike t @ ''%'') = CHR ''%'' # escape_ilike (lower t) @ ''%''"
    using lower_escape [of t] by (simp add: lower_def)
  with \<open>q = Some t\<close> True show ?thesis
    using like_contains [of "lower t" "lower (sch_name s)"]
    by (simp only: name_hit_def ilike_def if_True option.sel) simp
next
  case False
  then show ?thesis by (cases q) (auto simp: name_hit_def lower_def)
qed

section \<open>Lemmas: pages\<close>

lemma pages_cover:
  assumes "1 \<le> limit" and "length xs \<le> m * nat limit"
  shows "concat (map (\<lambda>k. page_of (int k * limit) limit xs) [0..<m]) = xs"
proof -
  have "concat (map (\<lambda>k. page_of (int k * limit) limit xs) [0..<m]) = take (m * nat limit) xs" for m
  proof (induction m)
    case (Suc m)
    have "nat (int m * limit) = m * nat limit" using assms(1) by (simp add: nat_mult_distrib)
    moreover have "take (Suc m * nat limit) xs = take (m * nat limit) xs @ take (nat limit) (drop (m * nat limit) xs)"
      using take_add [of "m * nat limit" "nat limit" xs] by (simp only: mult_Suc add.commute)
    ultimately show ?case using Suc by (simp add: page_of_def del: mult_Suc)
  qed simp
  with assms(2) show ?thesis by simp
qed

lemma filtered_literal:
  "filtered lq d ss = Inr (filter (\<lambda>s. (\<forall>t. lq_q lq = Some t \<longrightarrow> (\<exists>a b. lower (sch_name s) = a @ lower t @ b))
                                    \<and> plain_filters lq d s) ss)"
  by (induction ss) (auto simp: name_hit_literal)

section \<open>Properties\<close>

text \<open>
  C15. The administrative search takes its term literally and misses nothing: it never raises, its total counts
  exactly the scholarships whose name contains the term, wildcards and backslashes included and case aside,
  and that pass the other filters, and its pages taken in order show each of them once.
\<close>

theorem admin_search_is_literal_and_complete:
  assumes "1 \<le> limit" and "distinct (map sch_id (scholarships d))"
  shows "\<exists>found. (\<forall>offset. search_scholarships updated lq limit offset d = Inr (page_of offset limit found, length found))
    \<and> set found = {s \<in> set (scholarships d).
        (\<forall>t. lq_q lq = Some t \<longrightarrow> (\<exists>a b. lower (sch_name s) = a @ lower t @ b)) \<and> plain_filters lq d s}
    \<and> distinct (map sch_id found)
    \<and> concat (map (\<lambda>k. page_of (int k * limit) limit found) [0..<length found]) = found"
proof -
  let ?hits = "filter (\<lambda>s. (\<forall>t. lq_q lq = Some t \<longrightarrow> (\<exists>a b. lower (sch_name s) = a @ lower t @ b))
      \<and> plain_filters lq d s) (scholarships d)"
  let ?found = "sort_key (\<lambda>s. (- updated (sch_id s), sch_id s)) ?hits"
  have "1 \<le> nat limit" using assms(1) by simp
  then have "length ?found \<le> length ?found * nat limit" by simp
  then have "concat (map (\<lambda>k. page_of (int k * limit) limit ?found) [0..<length ?found]) = ?found"
    by (rule pages_cover [OF assms(1)])
  moreover have "distinct (map sch_id ?found)"
    using assms(2) by (simp add: distinct_map inj_on_def)
  moreover have "search_scholarships updated lq limit offset d = Inr (page_of offset limit ?found, length ?found)" for offset
    by (simp add: search_scholarships_def filtered_literal)
  moreover have "set ?found = {s \<in> set (scholarships d).
        (\<forall>t. lq_q lq = Some t \<longrightarrow> (\<exists>a b. lower (sch_name s) = a @ lower t @ b)) \<and> plain_filters lq d s}"
    by simp
  ultimately show ?thesis by blast
qed

text \<open>
  The work list is a queue by priority: the reviewer's pages taken in order show every open task once, a
  task of a more urgent priority before any less urgent one and an older before a newer of the same, and the
  count shown with each page is the number of all open tasks.
\<close>

theorem work_list_is_a_priority_queue:
  assumes "1 \<le> limit"
  shows "\<exists>tasks. (\<forall>offset. review_queue ''open'' limit offset d = (map (task_summary d) (page_of offset limit tasks), length tasks))
    \<and> mset tasks = filter_mset (\<lambda>t. rt_state t = ''open'') (mset (review_tasks d))
    \<and> sorted (map (\<lambda>t. (rt_priority t, rt_created_at t)) tasks)
    \<and> concat (map (\<lambda>k. fst (review_queue ''open'' limit (int k * limit) d)) [0..<length tasks]) = map (task_summary d) tasks"
proof -
  let ?tasks = "queued_tasks ''open'' d"
  have "1 \<le> nat limit" using assms by simp
  then have "length ?tasks \<le> length ?tasks * nat limit" by simp
  then have "concat (map (\<lambda>k. page_of (int k * limit) limit ?tasks) [0..<length ?tasks]) = ?tasks"
    by (rule pages_cover [OF assms])
  then have "concat (map (\<lambda>k. map (task_summary d) (page_of (int k * limit) limit ?tasks)) [0..<length ?tasks])
      = map (task_summary d) ?tasks"
    by (metis (no_types, lifting) map_concat map_map comp_def map_ext)
  moreover have "mset ?tasks = filter_mset (\<lambda>t. rt_state t = ''open'') (mset (review_tasks d))"
    by (simp only: queued_tasks_def mset_sort mset_filter)
  moreover have "sorted (map (\<lambda>t. (rt_priority t, rt_created_at t)) ?tasks)"
    by (simp only: queued_tasks_def sorted_sort_key)
  moreover have "length (filter (\<lambda>t. rt_state t = ''open'') (review_tasks d)) = length ?tasks"
    by (simp only: queued_tasks_def length_sort)
  ultimately show ?thesis
    by (intro exI [of _ ?tasks]) (simp only: review_queue_def fst_conv simp_thms)
qed

section \<open>Witnesses\<close>

definition demo_query :: listing_query where
  "demo_query = \<lparr>lq_q = Some ''l_'', lq_lifecycle_state = None, lq_provider_id = None, lq_public_status = None\<rparr>"

theorem admin_search_is_literal_and_complete_witness:
  "search_scholarships (\<lambda>_. 0) demo_query 50 0 demo_search_db = Inr ([], 0)"
proof -
  have "distinct (map sch_id (scholarships demo_search_db))" by (simp add: demo_search_db_def)
  from admin_search_is_literal_and_complete [OF _ this, of 50 "\<lambda>_. 0" demo_query] obtain found where
    run: "search_scholarships (\<lambda>_. 0) demo_query 50 0 demo_search_db = Inr (page_of 0 50 found, length found)"
    and set: "set found = {s \<in> set (scholarships demo_search_db).
        (\<forall>t. lq_q demo_query = Some t \<longrightarrow> (\<exists>a b. lower (sch_name s) = a @ lower t @ b)) \<and> plain_filters demo_query demo_search_db s}"
    by auto
  have no: "\<not> (\<exists>a b. lower ''LLM'' = a @ lower ''l_'' @ b)"
  proof
    assume "\<exists>a b. lower ''LLM'' = a @ lower ''l_'' @ b"
    then obtain a b where eq: "lower ''LLM'' = a @ lower ''l_'' @ b" by blast
    have "CHR ''_'' \<in> set (lower ''LLM'')" unfolding eq by (simp add: lower_def)
    moreover have "CHR ''_'' \<notin> set (lower ''LLM'')" by (simp add: lower_def)
    ultimately show False by contradiction
  qed
  have llm: "sch_name s = ''LLM''" if "s \<in> set (scholarships demo_search_db)" for s
    using that by (simp add: demo_search_db_def)
  have q: "lq_q demo_query = Some ''l_''" by (simp add: demo_query_def)
  have "s \<notin> set found" for s
  proof
    assume "s \<in> set found"
    then have s: "s \<in> set (scholarships demo_search_db)"
      and hit: "\<forall>t. lq_q demo_query = Some t \<longrightarrow> (\<exists>a b. lower (sch_name s) = a @ lower t @ b)"
      unfolding set by blast+
    from hit q no show False unfolding llm [OF s] by blast
  qed
  then have "found = []" by (cases found) auto
  with run show ?thesis by (simp add: page_of_def)
qed

theorem work_list_is_a_priority_queue_witness:
  "snd (review_queue ''open'' 50 0 demo_bulk_db) = 1"
proof -
  from work_list_is_a_priority_queue [of 50 demo_bulk_db] obtain tasks where
    "review_queue ''open'' 50 0 demo_bulk_db = (map (task_summary demo_bulk_db) (page_of 0 50 tasks), length tasks)"
    "mset tasks = filter_mset (\<lambda>t. rt_state t = ''open'') (mset (review_tasks demo_bulk_db))" by auto
  moreover have "filter_mset (\<lambda>t. rt_state t = ''open'') (mset (review_tasks demo_bulk_db)) = {#demo_open_task#}"
    by (simp add: demo_bulk_db_def demo_open_task_def)
  ultimately have "mset tasks = {#demo_open_task#}" by simp
  then have "length tasks = 1" by (metis size_mset size_single)
  with \<open>review_queue ''open'' 50 0 demo_bulk_db = (map (task_summary demo_bulk_db) (page_of 0 50 tasks), length tasks)\<close>
  show ?thesis by simp
qed

end
