(* ===== verification/Join.thy ===== *)
theory Join
  imports Replay Delivery
begin

text \<open>
  The handoff of a visitor to the Core product: \<open>create_join_intent\<close> of \<open>src/src/app/api/routes.py\<close>,
  \<open>src/src/app/api/join_schemas.py\<close> and the client \<open>src/src/app/infra/core_client.py\<close>. Core itself is the
  parameter \<open>jl_post\<close>: what the exchange with it raises, or the body of its answer. The calls a request makes
  are part of its outcome, since they happen whatever becomes of the request.
\<close>

section \<open>The exchange with Core\<close>

record joinlib =
  jl_std :: stdlib
  jl_net :: netlib
  jl_http_url :: "string \<Rightarrow> string option"
  jl_post :: "string \<Rightarrow> string \<Rightarrow> dict \<Rightarrow> string \<Rightarrow> json result"

record core_call =
  kc_endpoint :: string
  kc_service_token :: string
  kc_payload :: dict
  kc_idempotency_key :: string

definition post_join_intent :: "joinlib \<Rightarrow> core_call \<Rightarrow> dict result" where
  "post_join_intent jl call =
     bindE (jl_post jl (kc_endpoint call) (kc_service_token call) (kc_payload call) (kc_idempotency_key call)) (\<lambda>body.
     case body of
       JObj b \<Rightarrow> Inr b
     | _ \<Rightarrow> Inl (ValueError ''Core join-intent response must be an object''))"

section \<open>The request and its answer\<close>

record join_intent_request =
  ji_search_id :: uuid
  ji_consent :: bool
  ji_return_url :: string
  ji_idempotency_key :: string

record join_intent_response =
  jo_status :: string
  jo_continue_url :: "string option"
  jo_handoff_token :: "string option"
  jo_set_cookie :: "string option"

definition optional_url :: "joinlib \<Rightarrow> json \<Rightarrow> string option option" where
  "optional_url jl v =
     (case v of JNull \<Rightarrow> Some None | JStr s \<Rightarrow> map_option Some (jl_http_url jl s) | _ \<Rightarrow> None)"

text \<open>\<open>JoinIntentResponse.model_validate\<close>; its \<open>ValidationError\<close> is a \<open>ValueError\<close>.\<close>

definition validate_answer :: "joinlib \<Rightarrow> string \<Rightarrow> dict \<Rightarrow> string option \<Rightarrow> join_intent_response result" where
  "validate_answer jl outcome body ck =
     (case (optional_url jl (dget body ''continue_url''), optional_text (dget body ''handoff_token'')) of
        (Some url, Some token) \<Rightarrow>
          Inr \<lparr>jo_status = outcome, jo_continue_url = url, jo_handoff_token = token, jo_set_cookie = ck\<rparr>
      | _ \<Rightarrow> Inl (ValueError ''JoinIntentResponse''))"

definition JOIN_INTENTS_PER_MINUTE :: nat where "JOIN_INTENTS_PER_MINUTE = 5"

section \<open>The row of a request\<close>

definition claim_join_key :: "string \<Rightarrow> db \<Rightarrow> join_request \<times> db" where
  "claim_join_key key d =
     (case find (\<lambda>j. jr_idempotency_key j = key) (join_requests d) of
        Some j \<Rightarrow> (j, d)
      | None \<Rightarrow>
          let (i, d1) = new_uuid7 d;
              j = \<lparr>jr_id = i, jr_idempotency_key = key, jr_core_join_intent_id = None, jr_outcome = ''created''\<rparr>
          in (j, d1\<lparr>join_requests := join_requests d1 @ [j]\<rparr>))"

definition answered_id :: "stdlib \<Rightarrow> dict \<Rightarrow> string option" where
  "answered_id std body = (if truthy (dget body ''id'') then Some (py_str std (dget body ''id'')) else None)"

definition answered_outcome :: "stdlib \<Rightarrow> dict \<Rightarrow> string" where
  "answered_outcome std body = py_str std (dget_or body ''status'' (JStr ''created''))"

definition answered_row :: "stdlib \<Rightarrow> dict \<Rightarrow> join_request \<Rightarrow> join_request" where
  "answered_row std body j =
     j\<lparr>jr_core_join_intent_id := answered_id std body, jr_outcome := answered_outcome std body\<rparr>"

text \<open>The widths of the two columns, which the database checks when the request commits.\<close>

definition fits_columns :: "join_request \<Rightarrow> bool" where
  "fits_columns j = (length (or_empty (jr_core_join_intent_id j)) \<le> 255 \<and> length (jr_outcome j) \<le> 30)"

definition store_answer :: "stdlib \<Rightarrow> dict \<Rightarrow> join_request \<Rightarrow> db \<Rightarrow> db result" where
  "store_answer std body j d =
     (if fits_columns (answered_row std body j)
      then Inr (d\<lparr>join_requests := tmod jr_id (jr_id j) (answered_row std body) (join_requests d)\<rparr>)
      else Inl DataError)"

section \<open>The route\<close>

definition core_payload :: "search_row \<Rightarrow> string \<Rightarrow> dict" where
  "core_payload search return_url =
     [(''source_product'', JStr ''scholarship_finder''),
      (''source_session_id'', jopt (\<lambda>i. JStr (uuid_str i)) (sr_session_id search)),
      (''context_version'', JStr ''v1''),
      (''profile_context'', JObj (sr_filters search)),
      (''product_context'', JObj [(''search_id'', JStr (uuid_str (sr_search_id search)))]),
      (''consent'', JObj [(''notice'', JStr ''finder_join_intent_v1''), (''action'', JStr ''accepted'')]),
      (''return_url'', JStr return_url)]"

text \<open>The checks before Core is called: configuration, return URL, ownership of the search.\<close>

definition owned_search :: "uuid \<Rightarrow> uuid \<Rightarrow> db \<Rightarrow> search_row option" where
  "owned_search search_id session_id d =
     find (\<lambda>r. sr_search_id r = search_id \<and> sr_session_id r = Some session_id) (searches d)"

definition checked_search ::
  "joinlib \<Rightarrow> settings \<Rightarrow> join_intent_request \<Rightarrow> anonymous_session \<Rightarrow> db \<Rightarrow> search_row response" where
  "checked_search jl st payload session d =
     bindH (guardH (is_set (core_join_intent_url st) \<and> is_set (core_service_token st)
                    \<and> is_set (core_allowed_return_url_prefix st))
              (http_raise 503 ''Core join-intent integration is not configured'')) (\<lambda>_.
     bindH (plain_call (is_allowed_return_url (jl_net jl) (ji_return_url payload)
                          (or_empty (core_allowed_return_url_prefix st)))) (\<lambda>ok.
     bindH (guardH ok (http_raise 422 ''Return URL is not allowed'')) (\<lambda>_.
     case owned_search (ji_search_id payload) (se_id session) d of
       None \<Rightarrow> Inl (http_raise 404 ''Search not found'')
     | Some search \<Rightarrow> Inr search)))"

definition unavailable :: "exn \<Rightarrow> http_error" where
  "unavailable e =
     (case e of HTTPError _ \<Rightarrow> http_raise 503 ''Core join-intent service unavailable''
              | ValueError _ \<Rightarrow> http_raise 503 ''Core join-intent service unavailable''
              | _ \<Rightarrow> Unhandled e)"

definition join_call :: "settings \<Rightarrow> join_intent_request \<Rightarrow> search_row \<Rightarrow> core_call" where
  "join_call st payload search =
     \<lparr>kc_endpoint = or_empty (core_join_intent_url st), kc_service_token = or_empty (core_service_token st),
      kc_payload = core_payload search (ji_return_url payload), kc_idempotency_key = ji_idempotency_key payload\<rparr>"

definition hand_over ::
  "joinlib \<Rightarrow> settings \<Rightarrow> join_intent_request \<Rightarrow> anonymous_session \<Rightarrow> string option \<Rightarrow> db
   \<Rightarrow> (join_intent_response \<times> db) response \<times> core_call list" where
  "hand_over jl st payload session ck d =
     (case checked_search jl st payload session d of
        Inl e \<Rightarrow> (Inl e, [])
      | Inr search \<Rightarrow>
          let (existing, d1) = claim_join_key (ji_idempotency_key payload) d;
              call = join_call st payload search
          in (bindH (try_call unavailable (post_join_intent jl call)) (\<lambda>body.
              bindH (plain_call (validate_answer jl (answered_outcome (jl_std jl) body) body ck)) (\<lambda>answer.
              bindH (plain_call (store_answer (jl_std jl) body existing d1)) (\<lambda>d2. Inr (answer, d2)))),
              [call]))"

definition create_join_intent ::
  "joinlib \<Rightarrow> settings \<Rightarrow> visit \<Rightarrow> string option \<Rightarrow> join_intent_request \<Rightarrow> limiter \<Rightarrow> db
   \<Rightarrow> (join_intent_response \<times> db) response \<times> core_call list \<times> limiter" where
  "create_join_intent jl st vi cookie payload lm d =
     (if \<not> ji_consent payload then (Inl (http_raise 422 ''Consent is required''), [], lm)
      else case get_or_create_session (vi_now vi) (vi_token vi) cookie d of
             Inl e \<Rightarrow> (Inl (Unhandled e), [], lm)
           | Inr (session, ck, d1) \<Rightarrow>
               let (admitted, lm') = admit_call (vi_clock vi) (uuid_str (se_id session)) JOIN_INTENTS_PER_MINUTE
                                       ''Join request rate limit exceeded'' lm
               in case admitted of
                    Inl e \<Rightarrow> (Inl e, [], lm')
                  | Inr _ \<Rightarrow> case hand_over jl st payload session ck d1 of (out, calls) \<Rightarrow> (out, calls, lm'))"

text \<open>What the request leaves: the new database only beside a clean answer.\<close>

definition join_leaves :: "(join_intent_response \<times> db) response \<Rightarrow> db \<Rightarrow> db" where
  "join_leaves out d = (case out of Inl _ \<Rightarrow> d | Inr (_, d') \<Rightarrow> d')"

section \<open>Lemmas\<close>

text \<open>The table of join requests: one row per key, and the rows' own keys are theirs.\<close>

definition joins_ok :: "db \<Rightarrow> bool" where
  "joins_ok d \<longleftrightarrow> distinct (map jr_idempotency_key (join_requests d)) \<and> distinct (map jr_id (join_requests d))
     \<and> (\<forall>j \<in> set (join_requests d). jr_id j < next_id d)"

text \<open>A search belongs to a session that was issued before the next id.\<close>

definition searches_owned :: "db \<Rightarrow> bool" where
  "searches_owned d \<longleftrightarrow> (\<forall>r \<in> set (searches d). \<forall>i. sr_session_id r = Some i \<longrightarrow> i < next_id d)"

lemma claim_join_key_cases:
  assumes "claim_join_key key d = (j, d')" and "joins_ok d"
  shows "joins_ok d' \<and> j \<in> set (join_requests d') \<and> jr_idempotency_key j = key
    \<and> (\<forall>k. k \<noteq> j \<longrightarrow> k \<in> set (join_requests d') \<longleftrightarrow> k \<in> set (join_requests d))
    \<and> (j \<notin> set (join_requests d) \<longrightarrow> jr_outcome j = ''created'')"
proof (cases "find (\<lambda>j. jr_idempotency_key j = key) (join_requests d)")
  case None
  then have "key \<notin> jr_idempotency_key ` set (join_requests d)" by (auto simp: find_None_iff)
  moreover have "next_id d \<notin> jr_id ` set (join_requests d)" using assms(2) by (auto simp: joins_ok_def)
  ultimately show ?thesis
    using assms None by (auto simp: claim_join_key_def new_uuid7_def Let_def joins_ok_def less_Suc_eq)
next
  case (Some x)
  with assms show ?thesis by (auto simp: claim_join_key_def find_Some_iff)
qed

lemma checked_search_Inr:
  "checked_search jl st payload session d = Inr search \<longleftrightarrow>
     is_set (core_join_intent_url st) \<and> is_set (core_service_token st) \<and> is_set (core_allowed_return_url_prefix st)
     \<and> is_allowed_return_url (jl_net jl) (ji_return_url payload) (or_empty (core_allowed_return_url_prefix st)) = Inr True
     \<and> owned_search (ji_search_id payload) (se_id session) d = Some search"
  by (auto simp: checked_search_def bindH_eq_Inr try_call_eq split: option.splits)

lemma join_cases:
  assumes "create_join_intent jl st vi cookie payload lm d = (out, calls, lm')"
  obtains (early) e where "out = Inl e" "calls = []"
  | (called) session ck d1 search where "ji_consent payload"
      "get_or_create_session (vi_now vi) (vi_token vi) cookie d = Inr (session, ck, d1)"
      "checked_search jl st payload session d1 = Inr search" "calls = [join_call st payload search]"
      "hand_over jl st payload session ck d1 = (out, calls)"
  using assms
  by (auto simp: create_join_intent_def Let_def hand_over_def split: sum.splits prod.splits if_splits)

text \<open>A search whose owner asks for it: a fresh session owns none.\<close>

lemma owner_is_known:
  assumes "get_or_create_session now token cookie d = Inr (session, ck, d1)" and "searches_owned d"
    and "owned_search sid (se_id session) d1 = Some search"
  shows "get_existing_session now cookie d = Some session \<and> search \<in> set (searches d) \<and> ck = None \<and> d1 = d
    \<and> sr_search_id search = sid \<and> sr_session_id search = Some (se_id session)"
  using assms(1)
proof (cases rule: get_or_create_cases)
  case known
  with assms(3) show ?thesis by (auto simp: owned_search_def find_Some_iff)
next
  case minted
  with assms(2,3) show ?thesis by (fastforce simp: owned_search_def find_Some_iff searches_owned_def new_session_def)
qed

lemma validated_status: "validate_answer jl oc body ck = Inr a \<Longrightarrow> jo_status a = oc"
  by (auto simp: validate_answer_def split: option.splits)

lemma hand_over_clean:
  assumes "hand_over jl st payload session ck d = (Inr (answer, d'), calls)" and "joins_ok d"
  obtains search body existing d1 where "checked_search jl st payload session d = Inr search"
    "post_join_intent jl (join_call st payload search) = Inr body"
    "claim_join_key (ji_idempotency_key payload) d = (existing, d1)"
    "jo_status answer = answered_outcome (jl_std jl) body" "fits_columns (answered_row (jl_std jl) body existing)"
    "d' = d1\<lparr>join_requests := tmod jr_id (jr_id existing) (answered_row (jl_std jl) body) (join_requests d1)\<rparr>"
  using assms
  by (auto simp: hand_over_def Let_def store_answer_def bindH_eq_Inr try_call_eq dest: validated_status
      split: sum.splits prod.splits if_splits)

section \<open>Properties\<close>

text \<open>
  C10. Only a visitor's own search is handed to Core: every call that is made, whatever then becomes of the
  request, is one call to the configured endpoint with the visitor's consent, for a return URL the allowlist
  accepts, and carries the filters of a stored search that belongs to the live session the visitor's cookie
  names.
\<close>

theorem only_own_search_is_handed_over:
  assumes "create_join_intent jl st vi cookie payload lm d = (out, calls, lm')"
    and "searches_owned d" and "call \<in> set calls"
  shows "calls = [call] \<and> ji_consent payload \<and> kc_endpoint call = or_empty (core_join_intent_url st)
    \<and> is_set (core_join_intent_url st)
    \<and> is_allowed_return_url (jl_net jl) (ji_return_url payload) (or_empty (core_allowed_return_url_prefix st)) = Inr True
    \<and> (\<exists>session search. get_existing_session (vi_now vi) cookie d = Some session
         \<and> search \<in> set (searches d) \<and> sr_search_id search = ji_search_id payload
         \<and> sr_session_id search = Some (se_id session)
         \<and> dget (kc_payload call) ''profile_context'' = JObj (sr_filters search)
         \<and> dget (kc_payload call) ''source_session_id'' = JStr (uuid_str (se_id session)))"
  using assms(1)
proof (cases rule: join_cases)
  case (early e)
  with assms(3) show ?thesis by simp
next
  case (called session ck d1 search)
  from called(3) have c: "is_set (core_join_intent_url st)"
    "is_allowed_return_url (jl_net jl) (ji_return_url payload) (or_empty (core_allowed_return_url_prefix st)) = Inr True"
    "owned_search (ji_search_id payload) (se_id session) d1 = Some search"
    by (auto simp: checked_search_Inr)
  from owner_is_known [OF called(2) assms(2) c(3)] called(1,4) c(1,2) assms(3) show ?thesis
    by (auto simp: join_call_def core_payload_def)
qed

text \<open>Writing the answer to the claimed row changes that row alone.\<close>

lemma answered_table:
  assumes "claim_join_key key d = (existing, d2)" and "joins_ok d"
    and "f = answered_row std body"
    and d': "d' = d2\<lparr>join_requests := tmod jr_id (jr_id existing) f (join_requests d2)\<rparr>"
  shows "joins_ok d'" and "f existing \<in> set (join_requests d')"
    and "\<forall>x \<in> set (join_requests d'). x = f existing \<or> x \<in> set (join_requests d)"
proof -
  note k = claim_join_key_cases [OF assms(1,2)]
  have f: "jr_id (f x) = jr_id x" "jr_idempotency_key (f x) = jr_idempotency_key x" for x
    by (simp_all add: assms(3) answered_row_def)
  have "map jr_id (join_requests d') = map jr_id (join_requests d2)"
    "map jr_idempotency_key (join_requests d') = map jr_idempotency_key (join_requests d2)"
    by (simp_all add: d' tmod_def f)
  then show "joins_ok d'" using k by (auto simp: joins_ok_def d' set_tmod f split: if_splits)
  show "f existing \<in> set (join_requests d')" using k by (auto simp: d' set_tmod)
  show "\<forall>x \<in> set (join_requests d'). x = f existing \<or> x \<in> set (join_requests d)"
  proof
    fix x assume "x \<in> set (join_requests d')"
    then obtain y where y: "y \<in> set (join_requests d2)" "x = (if jr_id y = jr_id existing then f y else y)"
      by (auto simp: d' set_tmod)
    have "jr_id y = jr_id existing \<Longrightarrow> y = existing"
      using y(1) k inj_onD [of jr_id "set (join_requests d2)"] by (auto simp: joins_ok_def distinct_map)
    with y k show "x = f existing \<or> x \<in> set (join_requests d)" by (cases "jr_id y = jr_id existing") auto
  qed
qed


section \<open>Witnesses\<close>

definition demo_core :: joinlib where
  "demo_core =
     \<lparr>jl_std = demo_std, jl_net = demo_net, jl_http_url = Some,
      jl_post = (\<lambda>_ _ _ _. Inr (JObj [(''id'', JStr ''c1''), (''status'', JStr ''pending'')]))\<rparr>"

definition demo_join_settings :: settings where
  "demo_join_settings = default_settings\<lparr>core_join_intent_url := Some ''https://c'', core_service_token := Some ''s'',
     core_allowed_return_url_prefix := Some ''https://app.org''\<rparr>"

definition demo_join_db :: db where
  "demo_join_db = empty_db\<lparr>sessions := [new_session 0 ''t'' 4],
     searches := [written_row demo_std (demo_response\<lparr>pp_session_id := Some 4\<rparr>) ''m'' ''v'' 5], next_id := 6\<rparr>"

definition demo_handoff :: join_intent_request where
  "demo_handoff = \<lparr>ji_search_id = 2, ji_consent = True, ji_return_url = ''https://app.org/next?x'',
     ji_idempotency_key = ''k''\<rparr>"

lemma demo_join_session:
  "get_or_create_session 0 token (Some ''t'') demo_join_db = Inr (new_session 0 ''t'' 4, None, demo_join_db)"
  by (simp add: get_or_create_session_def get_existing_session_def demo_join_db_def new_session_def SESSION_TTL_def
      duration_defs)

lemma demo_join_checked:
  "checked_search demo_core demo_join_settings demo_handoff (new_session 0 ''t'' 4) demo_join_db
     = Inr (hd (searches demo_join_db))"
proof -
  have "is_set (core_join_intent_url demo_join_settings) \<and> is_set (core_service_token demo_join_settings)
      \<and> is_set (core_allowed_return_url_prefix demo_join_settings)"
    by (simp add: demo_join_settings_def)
  moreover have "is_allowed_return_url (jl_net demo_core) (ji_return_url demo_handoff)
      (or_empty (core_allowed_return_url_prefix demo_join_settings)) = Inr True"
    using return_url_stays_on_origin_witness
    by (simp add: demo_core_def demo_handoff_def demo_join_settings_def or_empty_def)
  moreover have "owned_search (ji_search_id demo_handoff) (se_id (new_session 0 ''t'' 4)) demo_join_db
      = Some (hd (searches demo_join_db))"
    by (simp add: owned_search_def demo_handoff_def new_session_def demo_join_db_def written_row_def demo_response_def)
  ultimately show ?thesis by (simp add: checked_search_Inr)
qed

lemma demo_hand_over:
  "\<exists>answer d' call. hand_over demo_core demo_join_settings demo_handoff (new_session 0 ''t'' 4) None demo_join_db
     = (Inr (answer, d'), [call]) \<and> jo_status answer = ''pending''"
proof -
  obtain existing d1 where claim: "claim_join_key (ji_idempotency_key demo_handoff) demo_join_db = (existing, d1)"
    by (cases "claim_join_key (ji_idempotency_key demo_handoff) demo_join_db")
  have body: "post_join_intent demo_core call = Inr [(''id'', JStr ''c1''), (''status'', JStr ''pending'')]" for call
    by (simp add: post_join_intent_def demo_core_def)
  have outcome: "answered_outcome std [(''id'', JStr ''c1''), (''status'', JStr ''pending'')] = ''pending''"
    "answered_id std [(''id'', JStr ''c1''), (''status'', JStr ''pending'')] = Some ''c1''" for std
    by (simp_all add: answered_outcome_def answered_id_def dget_or_def dget_def)
  show ?thesis
    by (simp add: hand_over_def demo_join_checked Let_def claim body outcome validate_answer_def optional_url_def
        optional_text_def dget_def store_answer_def fits_columns_def answered_row_def or_empty_def)
qed

lemma fresh_limiter_admits:
  obtains lm' where "admit_call (vi_clock demo_visit) key JOIN_INTENTS_PER_MINUTE detail new_limiter = (Inr (), lm')"
proof -
  have "bucket_of (evict_expired (vi_clock demo_visit) 60 new_limiter) key = []"
    by (simp add: bucket_of_def evict_expired_def new_limiter_def split: option.split)
  then have "fst (allow (vi_clock demo_visit) key JOIN_INTENTS_PER_MINUTE 60 new_limiter)"
    by (simp add: allow_def Let_def JOIN_INTENTS_PER_MINUTE_def)
  then show thesis
    by (intro that [of "snd (allow (vi_clock demo_visit) key JOIN_INTENTS_PER_MINUTE 60 new_limiter)"])
      (auto simp: admit_call_def guardH_def split: prod.split)
qed

lemma demo_join_runs:
  "\<exists>answer d' call lm'. create_join_intent demo_core demo_join_settings demo_visit (Some ''t'') demo_handoff new_limiter demo_join_db
     = (Inr (answer, d'), [call], lm') \<and> jo_status answer = ''pending''"
proof -
  have consent: "ji_consent demo_handoff" and now: "vi_now demo_visit = 0"
    by (simp_all add: demo_handoff_def demo_visit_def)
  obtain lm' where "admit_call (vi_clock demo_visit) (uuid_str (se_id (new_session 0 ''t'' 4))) JOIN_INTENTS_PER_MINUTE
      ''Join request rate limit exceeded'' new_limiter = (Inr (), lm')"
    by (rule fresh_limiter_admits)
  with demo_hand_over show ?thesis
    by (auto simp: create_join_intent_def consent now demo_join_session Let_def)
qed

theorem only_own_search_is_handed_over_witness:
  "\<exists>answer d' call lm'. create_join_intent demo_core demo_join_settings demo_visit (Some ''t'') demo_handoff new_limiter demo_join_db
     = (Inr (answer, d'), [call], lm') \<and> kc_endpoint call = ''https://c''"
proof -
  obtain answer d' call lm' where run: "create_join_intent demo_core demo_join_settings demo_visit (Some ''t'') demo_handoff
      new_limiter demo_join_db = (Inr (answer, d'), [call], lm')" using demo_join_runs by blast
  have owned: "searches_owned demo_join_db"
    by (simp add: searches_owned_def demo_join_db_def written_row_def demo_response_def)
  from only_own_search_is_handed_over [OF run owned, of call] have "kc_endpoint call = ''https://c''"
    by (simp add: demo_join_settings_def or_empty_def)
  with run show ?thesis by blast
qed


end
